(* ===== verification/Prelude.thy ===== *)
theory Prelude
  imports Main
begin

text \<open>
  Shared vocabulary of the development: Python dictionaries as insertion-ordered association
  lists (the code iterates over \<open>orders.values()\<close> and takes the first match, so the order is
  part of the behaviour), the first element that satisfies a predicate (\<open>next(... , None)\<close>),
  and the collections of facts the component theories add to.
\<close>

named_theorems guard_defs \<open>definitions of one-line guards, unfolded together\<close>
named_theorems dict_simps \<open>laws of the dictionary operations\<close>

type_synonym ('k, 'v) dict = "('k \<times> 'v) list"

text \<open>\<open>d[k] = v\<close>: an existing key keeps its place, a new key goes to the end.\<close>

fun dput :: "'k \<Rightarrow> 'v \<Rightarrow> ('k, 'v) dict \<Rightarrow> ('k, 'v) dict" where
  "dput k v [] = [(k, v)]"
| "dput k v ((k', v') # d) = (if k = k' then (k, v) # d else (k', v') # dput k v d)"

abbreviation dget :: "('k, 'v) dict \<Rightarrow> 'k \<Rightarrow> 'v option" where
  "dget d k \<equiv> map_of d k"

definition ddel :: "'k \<Rightarrow> ('k, 'v) dict \<Rightarrow> ('k, 'v) dict" where
  "ddel k d = filter (\<lambda>(k', _). k' \<noteq> k) d"

definition dvals :: "('k, 'v) dict \<Rightarrow> 'v list" where
  "dvals d = map snd d"

definition dkeys_ok :: "('k, 'v) dict \<Rightarrow> bool" where
  "dkeys_ok d \<longleftrightarrow> distinct (map fst d)"

text \<open>A dictionary comprehension \<open>{key(x): x for x in xs}\<close>: later elements win.\<close>

definition dict_by :: "('v \<Rightarrow> 'k) \<Rightarrow> 'v list \<Rightarrow> ('k, 'v) dict" where
  "dict_by key xs = foldl (\<lambda>d x. dput (key x) x d) [] xs"

lemma dget_dput [simp, dict_simps]: "dget (dput k v d) k' = (if k' = k then Some v else dget d k')"
  by (induction k v d rule: dput.induct) auto

lemma dget_ddel [simp, dict_simps]: "dget (ddel k d) k' = (if k' = k then None else dget d k')"
  by (induction d) (auto simp: ddel_def)

lemma fst_dput: "fst ` set (dput k v d) = insert k (fst ` set d)"
  by (induction k v d rule: dput.induct) auto

lemma set_dput_subset: "set (dput k v d) \<subseteq> insert (k, v) (set d)"
  by (induction k v d rule: dput.induct) auto

lemma dkeys_ok_dput [simp, dict_simps]: "dkeys_ok d \<Longrightarrow> dkeys_ok (dput k v d)"
  by (induction k v d rule: dput.induct) (auto simp: dkeys_ok_def fst_dput)

lemma dkeys_ok_ddel [simp, dict_simps]: "dkeys_ok d \<Longrightarrow> dkeys_ok (ddel k d)"
  unfolding dkeys_ok_def ddel_def by (induction d) auto

lemma dkeys_ok_Nil [simp, dict_simps]: "dkeys_ok []"
  by (simp add: dkeys_ok_def)

lemma dput_fresh: "k \<notin> fst ` set d \<Longrightarrow> dput k v d = d @ [(k, v)]"
  by (induction d) auto

lemma ddel_fresh: "k \<notin> fst ` set d \<Longrightarrow> ddel k d = d"
  by (induction d) (auto simp: ddel_def)

lemma dict_by_snoc: "dict_by key (xs @ [x]) = dput (key x) x (dict_by key xs)"
  by (simp add: dict_by_def)

lemma dict_by_distinct:
  "distinct (map key xs) \<Longrightarrow> dict_by key xs = map (\<lambda>x. (key x, x)) xs"
proof (induction xs rule: rev_induct)
  case Nil
  then show ?case by (simp add: dict_by_def)
next
  case (snoc x xs)
  have "key x \<notin> fst ` set (map (\<lambda>x. (key x, x)) xs)" using snoc.prems by auto
  then show ?case using snoc by (simp add: dict_by_snoc dput_fresh del: set_map)
qed

lemma dvals_dict_by [simp]: "distinct (map key xs) \<Longrightarrow> dvals (dict_by key xs) = xs"
  by (simp add: dict_by_distinct dvals_def comp_def)

lemma in_dvals: "v \<in> set (dvals d) \<longleftrightarrow> (\<exists>k. (k, v) \<in> set d)"
  by (force simp: dvals_def)

text \<open>\<open>next((x for x in xs if p(x)), None)\<close> is \<^const>\<open>find\<close>.\<close>

lemma find_Some_iff_first: "find p xs = Some x \<Longrightarrow> x \<in> set xs \<and> p x"
  by (induction xs) (auto split: if_splits)

lemma find_None_all: "find p xs = None \<longleftrightarrow> (\<forall>x \<in> set xs. \<not> p x)"
  by (induction xs) auto

lemma find_append: "find p (xs @ ys) = (case find p xs of None \<Rightarrow> find p ys | Some x \<Rightarrow> Some x)"
  by (induction xs) auto

text \<open>The exceptions the modelled code raises.\<close>

datatype py_error =
    ValueError string
  | TypeError string
  | RuntimeError string
  | KeyError
  | IntegrityError
  | ZeroDivision
  | InvalidOperation
  | HaltRefused string string
  | EvidenceError string

text \<open>
  Statements in sequence: the first one that raises ends the sequence. \<open>traverse\<close> is a
  comprehension, \<open>efold\<close> a loop with a state.
\<close>

definition ebind :: "'e + 'a \<Rightarrow> ('a \<Rightarrow> 'e + 'b) \<Rightarrow> 'e + 'b" where
  "ebind m f = (case m of Inl e \<Rightarrow> Inl e | Inr x \<Rightarrow> f x)"

fun traverse :: "('a \<Rightarrow> 'e + 'b) \<Rightarrow> 'a list \<Rightarrow> 'e + 'b list" where
  "traverse f [] = Inr []"
| "traverse f (x # xs) = ebind (f x) (\<lambda>y. ebind (traverse f xs) (\<lambda>ys. Inr (y # ys)))"

fun efold :: "('a \<Rightarrow> 's \<Rightarrow> 'e + 's) \<Rightarrow> 'a list \<Rightarrow> 's \<Rightarrow> 'e + 's" where
  "efold f [] s = Inr s"
| "efold f (x # xs) s = ebind (f x s) (efold f xs)"

lemma ebind_Inr [simp]: "ebind (Inr x) f = f x"
  by (simp add: ebind_def)

lemma ebind_Inl [simp]: "ebind (Inl e) f = Inl e"
  by (simp add: ebind_def)

lemma ebind_eq_Inr: "ebind m f = Inr y \<longleftrightarrow> (\<exists>x. m = Inr x \<and> f x = Inr y)"
  by (cases m) auto

lemma traverse_Inr: "traverse f xs = Inr ys \<longleftrightarrow> list_all2 (\<lambda>x y. f x = Inr y) xs ys"
  by (induction xs arbitrary: ys) (auto simp: ebind_eq_Inr list_all2_Cons1)

lemma traverse_map: "(\<And>x. x \<in> set xs \<Longrightarrow> f (g x) = Inr x) \<Longrightarrow> traverse f (map g xs) = Inr xs"
  by (induction xs) auto

text \<open>\<open>INSERT OR REPLACE\<close>: the old row is deleted, so a replaced row moves to the end of the table.\<close>

definition replace_row :: "'k \<Rightarrow> 'v \<Rightarrow> ('k, 'v) dict \<Rightarrow> ('k, 'v) dict" where
  "replace_row k v d = ddel k d @ [(k, v)]"

lemma dkeys_ok_replace_row [simp, dict_simps]: "dkeys_ok d \<Longrightarrow> dkeys_ok (replace_row k v d)"
  using dkeys_ok_ddel [of d k] by (auto simp: replace_row_def dkeys_ok_def ddel_def)

lemma dget_replace_row [simp, dict_simps]: "dget (replace_row k v d) k' = (if k' = k then Some v else dget d k')"
  by (auto simp: replace_row_def map_add_def split: option.splits)

text \<open>Dictionaries with the same entries differ by their order only.\<close>

lemma dict_same_entries: "dkeys_ok d \<Longrightarrow> dkeys_ok d' \<Longrightarrow> (\<And>k. dget d k = dget d' k) \<Longrightarrow> set d = set d'"
  by (auto simp: dkeys_ok_def) (metis map_of_eq_Some_iff)+

end
