(* ===== verification/PyNum.thy ===== *)
theory PyNum
  imports Complex_Main "HOL-Library.Log_Nat" Prelude
begin

text \<open>
  Python numbers. \<open>Fraction\<close> is exact and is \<^typ>\<open>rat\<close>. A \<open>Decimal\<close> operation is the exact
  result rounded half-even to the precision of the context (28 significant digits by default, 34
  in \<open>core/rr_contract.py\<close>); a \<open>float\<close> operation is the exact result rounded half-even to 53
  significant bits. Both are instances of one rounding, \<open>round_sig\<close>, of a base and a
  precision; the locale \<open>rounding\<close> states what the components use of it. The exponent range
  is unbounded here: overflow to infinity and gradual underflow of doubles (magnitudes above
  \<open>1e308\<close> or below \<open>1e-307\<close>) are outside the model.
\<close>

section \<open>Rounding to a number of significant digits\<close>

definition mag :: "nat \<Rightarrow> rat \<Rightarrow> int" where
  "mag b x = (if 1 \<le> x then int (floorlog b (nat \<lfloor>x\<rfloor>)) - 1
              else - int (floorlog b (nat (\<lceil>1 / x\<rceil> - 1))))"

text \<open>The same number by divisions of integers, for evaluation.\<close>

function int_digits :: "int \<Rightarrow> int \<Rightarrow> int" where
  "int_digits b n = (if 1 < b \<and> 0 < n then 1 + int_digits b (n div b) else 0)"
  by pat_completeness auto

termination
  by (relation "measure (\<lambda>(b, n). nat n)") (auto simp: int_div_less_self)

declare int_digits.simps [simp del]

lemma int_digits_floorlog: "int_digits (int b) (int n) = int (floorlog b n)"
proof (induction n rule: less_induct)
  case (less n)
  show ?case
  proof (cases "1 < b \<and> 0 < n")
    case True
    then have "int_digits (int b) (int (n div b)) = int (floorlog b (n div b))" by (intro less) auto
    then show ?thesis using True by (subst int_digits.simps) (simp add: compute_floorlog zdiv_int)
  next
    case False
    then show ?thesis by (subst int_digits.simps) (auto simp: floorlog_def)
  qed
qed

lemma mag_code [code]:
  "mag b x = (if 1 \<le> x then int_digits (int b) \<lfloor>x\<rfloor> - 1
              else - (let n = \<lceil>1 / x\<rceil> - 1 in if n \<le> 0 then 0 else int_digits (int b) n))"
proof -
  have "int_digits (int b) n = int (floorlog b (nat n))" if "0 < n" for n
    using int_digits_floorlog [of b "nat n"] that by simp
  moreover have "0 < \<lfloor>x\<rfloor>" if "1 \<le> x" using that by simp
  ultimately show ?thesis by (auto simp: mag_def Let_def floorlog_def)
qed

definition half_even :: "rat \<Rightarrow> int" where
  "half_even t = (let f = \<lfloor>t\<rfloor>; d = t - of_int f in
     if d < 1 / 2 then f else if 1 / 2 < d then f + 1 else if even f then f else f + 1)"

definition round_sig :: "nat \<Rightarrow> nat \<Rightarrow> rat \<Rightarrow> rat" where
  "round_sig b p x = (if x = 0 then 0
     else let u = of_nat b powi (mag b \<bar>x\<bar> - int p + 1) in of_int (half_even (x / u)) * u)"

abbreviation fl :: "rat \<Rightarrow> rat" where "fl \<equiv> round_sig 2 53"
abbreviation dec28 :: "rat \<Rightarrow> rat" where "dec28 \<equiv> round_sig 10 28"
abbreviation dec34 :: "rat \<Rightarrow> rat" where "dec34 \<equiv> round_sig 10 34"

lemma round_sig_code [code]:
  "round_sig b p x = (if x = 0 then 0 else
     let e = mag b \<bar>x\<bar> - int p + 1 in
     if 0 \<le> e then let u = int b ^ nat e in of_int (half_even (x / of_int u) * u)
     else let u = int b ^ nat (- e) in of_int (half_even (x * of_int u)) / of_int u)"
  by (simp add: round_sig_def Let_def power_int_def divide_inverse power_inverse)

subsection \<open>The magnitude brackets its argument\<close>

lemma floorlog_rat_bounds:
  assumes "1 < b" and "1 \<le> (x::rat)"
  shows "of_nat b ^ (floorlog b (nat \<lfloor>x\<rfloor>) - 1) \<le> x \<and> x < of_nat b ^ floorlog b (nat \<lfloor>x\<rfloor>)"
proof -
  define n where "n = nat \<lfloor>x\<rfloor>"
  from assms(2) have n: "0 < n" "of_nat n \<le> x" "x < of_nat n + 1"
    by (auto simp: n_def) linarith+
  from floorlog_bounds [OF n(1) assms(1)]
  have lo: "b ^ (floorlog b n - 1) \<le> n" and hi: "n + 1 \<le> b ^ floorlog b n" by auto
  from lo have "(of_nat (b ^ (floorlog b n - 1)) :: rat) \<le> of_nat n" by (rule of_nat_mono)
  moreover from hi have "(of_nat (n + 1) :: rat) \<le> of_nat (b ^ floorlog b n)" by (rule of_nat_mono)
  ultimately have "of_nat b ^ (floorlog b n - 1) \<le> x \<and> x < of_nat b ^ floorlog b n"
    using n(2,3) unfolding of_nat_power of_nat_add of_nat_1 by linarith
  then show ?thesis by (simp only: n_def)
qed

lemma floorlog_pos: "1 < b \<Longrightarrow> 0 < n \<Longrightarrow> 1 \<le> floorlog b n"
  by (simp add: floorlog_def)

lemma mag_bounds:
  assumes b: "1 < b" and x: "0 < x"
  shows "of_nat b powi mag b x \<le> x" and "x < of_nat b powi (mag b x + 1)"
proof -
  have "of_nat b powi mag b x \<le> x \<and> x < of_nat b powi (mag b x + 1)"
  proof (cases "1 \<le> x")
    case True
    let ?k = "floorlog b (nat \<lfloor>x\<rfloor>)"
    from True have "0 < nat \<lfloor>x\<rfloor>" by linarith
    with b have k: "1 \<le> ?k" by (rule floorlog_pos)
    have m: "mag b x = int (?k - 1)" using True k by (simp add: mag_def)
    have m1: "mag b x + 1 = int ?k" using True by (simp add: mag_def)
    show ?thesis unfolding m1 unfolding m
      using floorlog_rat_bounds [OF b True] by (simp del: power_int_of_nat add: power_int_def)
  next
    case False
    define n where "n = nat (\<lceil>1 / x\<rceil> - 1)"
    from False x have "1 < 1 / x" by simp
    then have c: "1 < \<lceil>1 / x\<rceil>" by (simp add: less_ceiling_iff)
    then have n0: "0 < n" by (simp add: n_def)
    have nlt: "of_nat n < 1 / x" using c by (simp add: n_def) linarith
    have nge: "1 / x \<le> of_nat n + 1" using c by (simp add: n_def) linarith
    from b n0 have k: "1 \<le> floorlog b n" by (rule floorlog_pos)
    from floorlog_bounds [OF n0 b]
    have lo: "b ^ (floorlog b n - 1) \<le> n" and hi: "n + 1 \<le> b ^ floorlog b n" by auto
    from lo have lo': "(of_nat b :: rat) ^ (floorlog b n - 1) \<le> of_nat n"
      by (metis of_nat_mono of_nat_power)
    from hi have hi': "(of_nat n + 1 :: rat) \<le> of_nat b ^ floorlog b n"
      by (metis of_nat_1 of_nat_add of_nat_mono of_nat_power)
    have m: "mag b x = - int (floorlog b n)" using False by (simp add: mag_def n_def)
    have m1: "mag b x + 1 = - int (floorlog b n - 1)" using k m by simp
    have bp: "(0::rat) < of_nat b ^ j" for j using b by simp
    have "1 / x \<le> of_nat b ^ floorlog b n" using nge hi' by linarith
    then have "inverse (of_nat b ^ floorlog b n) \<le> x"
      using x bp [of "floorlog b n"] by (simp add: field_simps)
    moreover have "of_nat b ^ (floorlog b n - 1) < 1 / x" using lo' nlt by linarith
    then have "x < inverse (of_nat b ^ (floorlog b n - 1))"
      using x bp [of "floorlog b n - 1"] by (simp add: field_simps)
    ultimately show ?thesis unfolding m1 unfolding m by (simp add: power_int_minus)
  qed
  then show "of_nat b powi mag b x \<le> x" and "x < of_nat b powi (mag b x + 1)" by auto
qed

lemma powi_pos [simp]: "1 < b \<Longrightarrow> (0::rat) < of_nat b powi e"
  by (simp add: zero_less_power_int)

lemma powi_less_cancel:
  assumes "1 < b" and "(of_nat b :: rat) powi i < of_nat b powi j"
  shows "i < j"
proof (rule ccontr)
  assume "\<not> i < j"
  then have "(of_nat b :: rat) powi j \<le> of_nat b powi i"
    using assms(1) by (intro power_int_increasing) auto
  with assms(2) show False by simp
qed

lemma powi_le_cancel: "1 < b \<Longrightarrow> (of_nat b :: rat) powi i \<le> of_nat b powi j \<Longrightarrow> i \<le> j"
  by (metis linorder_not_le of_nat_1 of_nat_less_iff power_int_strict_increasing)

lemma mag_mono: "1 < b \<Longrightarrow> 0 < x \<Longrightarrow> x \<le> y \<Longrightarrow> mag b x \<le> mag b y"
proof -
  assume b: "1 < b" and x: "0 < x" and xy: "x \<le> y"
  have "of_nat b powi mag b x < (of_nat b :: rat) powi (mag b y + 1)"
    using mag_bounds(1) [OF b x] mag_bounds(2) [OF b, of y] x xy by linarith
  from powi_less_cancel [OF b this] show "mag b x \<le> mag b y" by simp
qed

subsection \<open>Rounding half to even\<close>

lemma half_even_int [simp]: "half_even (of_int k) = k"
  by (simp add: half_even_def)

lemma half_even_bounds: "of_int (half_even t) - 1 / 2 \<le> t" "t \<le> of_int (half_even t) + 1 / 2"
  unfolding half_even_def Let_def by (auto split: if_splits) linarith+

lemma half_even_mono: "s \<le> t \<Longrightarrow> half_even s \<le> half_even t"
proof -
  assume st: "s \<le> t"
  then have fl: "\<lfloor>s\<rfloor> \<le> \<lfloor>t\<rfloor>" by (rule floor_mono)
  have up: "half_even s \<le> \<lfloor>s\<rfloor> + 1" and low: "\<lfloor>t\<rfloor> \<le> half_even t" by (auto simp: half_even_def Let_def)
  show ?thesis
  proof (cases "\<lfloor>s\<rfloor> = \<lfloor>t\<rfloor>")
    case True
    then show ?thesis using st unfolding half_even_def Let_def by auto
  next
    case False
    with fl have "\<lfloor>s\<rfloor> + 1 \<le> \<lfloor>t\<rfloor>" by simp
    with up low show ?thesis by linarith
  qed
qed

lemma half_even_minus: "half_even (- t) = - half_even t"
proof (cases "t = of_int \<lfloor>t\<rfloor>")
  case True
  then have "half_even (- of_int \<lfloor>t\<rfloor>) = - \<lfloor>t\<rfloor>" using half_even_int [of "- \<lfloor>t\<rfloor>"] by simp
  with True show ?thesis by (metis half_even_int)
next
  case False
  then have f: "\<lfloor>- t\<rfloor> = - \<lfloor>t\<rfloor> - 1"
    by (simp add: floor_minus ceiling_altdef)
  show ?thesis unfolding half_even_def Let_def f by auto
qed

subsection \<open>Laws of the rounding\<close>

lemma round_sig_0 [simp]: "round_sig b p 0 = 0"
  by (simp add: round_sig_def)

lemma round_sig_minus: "round_sig b p (- x) = - round_sig b p x"
  by (simp add: round_sig_def Let_def half_even_minus)

text \<open>A number with at most \<open>p\<close> significant digits is not changed.\<close>

lemma round_sig_exact:
  assumes b: "1 < b" and p: "0 < p" and m: "\<bar>m\<bar> \<le> int b ^ p" and x: "x = of_int m * of_nat b powi e"
  shows "round_sig b p x = x"
proof (cases "x = 0")
  case True
  then show ?thesis by simp
next
  case False
  define E where "E = mag b \<bar>x\<bar>"
  define u :: rat where "u = of_nat b powi (E - int p + 1)"
  have b0: "(of_nat b :: rat) \<noteq> 0" using b by simp
  have u0: "u > 0" using b by (simp add: u_def)
  have mx: "of_nat b powi E \<le> \<bar>x\<bar>" unfolding E_def using b False by (intro mag_bounds) auto
  have "\<exists>k. x / u = of_int k"
  proof (cases "E - int p + 1 \<le> e")
    case True
    have "x / u = of_int m * of_nat b powi (e - (E - int p + 1))"
      unfolding x u_def using b0 by (simp add: power_int_diff)
    also have "\<dots> = of_int (m * int b ^ nat (e - (E - int p + 1)))"
      using True by (simp add: power_int_def)
    finally show ?thesis by blast
  next
    case False
    define be :: rat where "be = of_nat b powi e"
    have be: "0 < be" using b by (simp add: be_def)
    have ax: "\<bar>x\<bar> = of_int \<bar>m\<bar> * be" using be by (simp add: x be_def abs_mult)
    have mb: "(of_int \<bar>m\<bar> :: rat) \<le> of_nat b ^ p" using m
      by (metis of_int_le_iff of_int_of_nat_eq of_int_power)
    have "of_nat b powi E \<le> of_nat b ^ p * be"
      using mx mult_right_mono [OF mb, of be] be unfolding ax by linarith
    also have "\<dots> = of_nat b powi (int p + e)" using b0 by (simp add: power_int_add be_def)
    finally have "E \<le> int p + e" using b by (simp add: powi_le_cancel)
    with False have E: "E = int p + e" by simp
    have "of_nat b ^ p * be \<le> of_int \<bar>m\<bar> * be"
      using mx b0 unfolding ax E be_def by (simp add: power_int_add)
    with be mb have mm: "(of_int \<bar>m\<bar> :: rat) = of_nat b ^ p" by simp
    have sm: "(of_int m :: rat) = of_int (sgn m) * of_int \<bar>m\<bar>"
      by (metis of_int_mult sgn_mult_abs)
    have "x / u = of_int (sgn m) * (of_nat b powi (int p + e) / u)"
      unfolding x sm mm using b0 by (simp add: power_int_add)
    also have "\<dots> = of_int (sgn m) * of_nat b powi (int p - 1)"
      unfolding u_def using b0 by (simp add: power_int_diff [symmetric] E)
    also have "\<dots> = of_int (sgn m * int b ^ nat (int p - 1))"
      using p by (simp add: E power_int_def)
    finally show ?thesis by blast
  qed
  then obtain k where k: "x / u = of_int k" ..
  have "round_sig b p x = of_int (half_even (x / u)) * u"
    using False by (simp add: round_sig_def Let_def E_def u_def)
  also have "\<dots> = x / u * u" by (simp add: k)
  finally show ?thesis using u0 by simp
qed

lemma round_sig_of_int:
  "1 < b \<Longrightarrow> 0 < p \<Longrightarrow> \<bar>m\<bar> \<le> int b ^ p \<Longrightarrow> round_sig b p (of_int m) = of_int m"
  by (rule round_sig_exact [where e = 0]) auto

text \<open>Rounding is monotone: within one power of the base by \<open>half_even_mono\<close>, across powers because
  the powers of the base are fixed points.\<close>

lemma round_sig_pow:
  assumes "1 < b" and "0 < p" shows "round_sig b p (of_nat b powi e) = of_nat b powi e"
  by (rule round_sig_exact [where m = 1 and e = e]) (use assms in auto)

lemma round_sig_scaled:
  assumes "1 < b" and "0 < x"
  shows "round_sig b p x = of_int (half_even (x / of_nat b powi (mag b x - int p + 1)))
    * of_nat b powi (mag b x - int p + 1)"
  using assms by (simp add: round_sig_def Let_def)

lemma round_sig_between:
  assumes b: "1 < b" and p: "0 < p" and x: "0 < x"
  shows "of_nat b powi mag b x \<le> round_sig b p x" and "round_sig b p x \<le> of_nat b powi (mag b x + 1)"
proof -
  define E where "E = mag b x"
  define u :: rat where "u = of_nat b powi (E - int p + 1)"
  have b0: "(of_nat b :: rat) \<noteq> 0" using b by simp
  have u0: "0 < u" using b by (simp add: u_def)
  have r: "round_sig b p x = of_int (half_even (x / u)) * u"
    using round_sig_scaled [OF b x] by (simp add: E_def u_def)
  have lo: "of_nat b powi E = of_int (int b ^ nat (int p - 1)) * u"
  proof -
    have "of_nat b powi E = of_nat b powi (int p - 1) * u"
      unfolding u_def using b0 by (simp add: power_int_add [symmetric])
    then show ?thesis using p by (simp add: power_int_def)
  qed
  have hi: "of_nat b powi (E + 1) = of_int (int b ^ p) * u"
  proof -
    have "of_nat b powi (E + 1) = of_nat b powi (int p + (E - int p + 1))" by simp
    also have "\<dots> = of_nat b powi (int p) * u"
      unfolding u_def using b0 by (subst power_int_add) auto
    finally have "of_nat b powi (E + 1) = of_nat b powi (int p) * u" .
    then show ?thesis by simp
  qed
  have "of_int (int b ^ nat (int p - 1)) \<le> x / u"
    using mag_bounds(1) [OF b x] u0 lo by (simp add: E_def pos_le_divide_eq)
  then have "int b ^ nat (int p - 1) \<le> half_even (x / u)"
    using half_even_mono half_even_int by metis
  then have "of_int (int b ^ nat (int p - 1)) * u \<le> of_int (half_even (x / u)) * u"
    using u0 by (intro mult_right_mono) (auto simp only: of_int_le_iff)
  then show "of_nat b powi mag b x \<le> round_sig b p x" unfolding r using lo by (simp only: E_def)
  have "x / u \<le> of_int (int b ^ p)"
    using mag_bounds(2) [OF b x] u0 hi by (simp add: E_def pos_divide_le_eq)
  then have "half_even (x / u) \<le> int b ^ p"
    using half_even_mono half_even_int by metis
  then have "of_int (half_even (x / u)) * u \<le> of_int (int b ^ p) * u"
    using u0 by (intro mult_right_mono) (auto simp only: of_int_le_iff)
  then show "round_sig b p x \<le> of_nat b powi (mag b x + 1)" unfolding r using hi by (simp only: E_def)
qed

lemma round_sig_pos: "1 < b \<Longrightarrow> 0 < p \<Longrightarrow> 0 < x \<Longrightarrow> 0 < round_sig b p x"
  using round_sig_between(1) powi_pos less_le_trans by metis

lemma round_sig_mono_pos:
  assumes b: "1 < b" and p: "0 < p" and x: "0 < x" and xy: "x \<le> y"
  shows "round_sig b p x \<le> round_sig b p y"
proof (cases "mag b x = mag b y")
  case True
  define u :: rat where "u = of_nat b powi (mag b x - int p + 1)"
  have u0: "0 < u" using b by (simp add: u_def)
  have y: "0 < y" using x xy by simp
  have "half_even (x / u) \<le> half_even (y / u)"
    using u0 xy by (intro half_even_mono divide_right_mono) auto
  then have "of_int (half_even (x / u)) * u \<le> of_int (half_even (y / u)) * u"
    using u0 by (intro mult_right_mono) auto
  then show ?thesis unfolding round_sig_scaled [OF b x] round_sig_scaled [OF b y] u_def True .
next
  case False
  with mag_mono [OF b x xy] have "mag b x + 1 \<le> mag b y" by simp
  then have "(of_nat b :: rat) powi (mag b x + 1) \<le> of_nat b powi mag b y"
    using b by (intro power_int_increasing) auto
  then show ?thesis
    using round_sig_between(2) [OF b p x] round_sig_between(1) [OF b p, of y] x xy by linarith
qed

lemma round_sig_mono:
  assumes b: "1 < b" and p: "0 < p" and xy: "x \<le> y"
  shows "round_sig b p x \<le> round_sig b p y"
proof -
  have neg: "z < 0 \<Longrightarrow> round_sig b p z < 0" for z
    using round_sig_pos [OF b p, of "- z"] by (simp add: round_sig_minus)
  consider "0 < x" | "y < 0" | "x \<le> 0" "0 \<le> y" by linarith
  then show ?thesis
  proof cases
    case 1
    then show ?thesis using round_sig_mono_pos [OF b p] xy by blast
  next
    case 2
    then show ?thesis
      using round_sig_mono_pos [OF b p, of "- y" "- x"] xy by (simp add: round_sig_minus)
  next
    case 3
    have "round_sig b p x \<le> 0" using 3(1) neg [of x] by (cases "x = 0") auto
    moreover have "0 \<le> round_sig b p y"
      using 3(2) round_sig_pos [OF b p, of y] by (cases "y = 0") auto
    ultimately show ?thesis by simp
  qed
qed

section \<open>The interface: a monotone, odd rounding with fixed points\<close>

text \<open>
  What the components rely on when they do arithmetic in a rounded format. \<open>fix\<close> is the set of
  representable numbers: the results of the rounding.
\<close>

locale rounding =
  fixes rnd :: "rat \<Rightarrow> rat"
  assumes mono: "x \<le> y \<Longrightarrow> rnd x \<le> rnd y"
    and odd: "rnd (- x) = - rnd x"
    and one: "rnd 1 = 1"
    and pos: "0 < x \<Longrightarrow> 0 < rnd x"
begin

lemma zero [simp]: "rnd 0 = 0"
  using odd [of 0] by simp

lemma neg: "x < 0 \<Longrightarrow> rnd x < 0"
  using pos [of "- x"] by (simp add: odd)

lemma pos_iff: "0 < rnd x \<longleftrightarrow> 0 < x"
  using pos neg zero by (metis less_irrefl linorder_neqE not_less_iff_gr_or_eq)

lemma neg_iff: "rnd x < 0 \<longleftrightarrow> x < 0"
  using pos_iff [of "- x"] by (simp add: odd)

lemma zero_iff: "rnd x = 0 \<longleftrightarrow> x = 0"
  using pos_iff neg_iff by (metis less_irrefl linorder_neqE zero)

lemma nonneg: "0 \<le> x \<Longrightarrow> 0 \<le> rnd x"
  using mono [of 0 x] by simp

text \<open>A comparison with a representable bound survives the rounding.\<close>

lemma le_fixed: "rnd c = c \<Longrightarrow> x \<le> c \<Longrightarrow> rnd x \<le> c"
  using mono [of x c] by simp

lemma fixed_le: "rnd c = c \<Longrightarrow> c \<le> x \<Longrightarrow> c \<le> rnd x"
  using mono [of c x] by simp

lemma less_fixed: "rnd c = c \<Longrightarrow> rnd x < c \<Longrightarrow> x < c"
  using fixed_le [of c x] by (meson not_less)

lemma fixed_less: "rnd c = c \<Longrightarrow> c < rnd x \<Longrightarrow> c < x"
  using le_fixed [of c x] by (meson not_less)

end

interpretation fl53: rounding "round_sig 2 53"
  by unfold_locales
    (auto intro: round_sig_mono round_sig_pos simp: round_sig_minus
      intro!: round_sig_of_int [where m = 1, simplified])

interpretation d28: rounding "round_sig 10 28"
  by unfold_locales
    (auto intro: round_sig_mono round_sig_pos simp: round_sig_minus
      intro!: round_sig_of_int [where m = 1, simplified])

interpretation d34: rounding "round_sig 10 34"
  by unfold_locales
    (auto intro: round_sig_mono round_sig_pos simp: round_sig_minus
      intro!: round_sig_of_int [where m = 1, simplified])

section \<open>The shortest decimal of a float\<close>

text \<open>
  \<open>repr(x)\<close> of a double is the shortest decimal that reads back as \<open>x\<close>, the closest one when
  several are equally short. \<open>Decimal(repr(x))\<close> is its value. With \<open>n\<close> digits only the two
  neighbours of \<open>x\<close> can be that decimal; 17 digits always suffice for a double, and the
  exact value is the (unreached) default that keeps the function total.
\<close>

definition repr_try :: "rat \<Rightarrow> nat \<Rightarrow> rat option" where
  "repr_try a n = (let u = 10 powi (mag 10 a - int n + 1);
       lo = of_int \<lfloor>a / u\<rfloor> * u; hi = lo + u; okl = (fl lo = a); okh = (fl hi = a)
     in if okl \<and> okh then Some (if a - lo \<le> hi - a then lo else hi)
        else if okl then Some lo else if okh then Some hi else None)"

fun repr_search :: "rat \<Rightarrow> nat \<Rightarrow> nat \<Rightarrow> rat" where
  "repr_search a n 0 = a"
| "repr_search a n (Suc k) = (case repr_try a n of Some d \<Rightarrow> d | None \<Rightarrow> repr_search a (Suc n) k)"

definition repr_dec :: "rat \<Rightarrow> rat" where
  "repr_dec x = (if x = 0 then 0 else if 0 < x then repr_search x 1 17 else - repr_search (- x) 1 17)"

definition is_float :: "rat \<Rightarrow> bool" where
  "is_float x \<longleftrightarrow> fl x = x"

lemma repr_try_reads_back: "repr_try a n = Some d \<Longrightarrow> fl d = a"
  by (auto simp: repr_try_def Let_def split: if_splits)

lemma repr_search_reads_back: "is_float a \<Longrightarrow> fl (repr_search a n k) = a"
  by (induction a n k rule: repr_search.induct)
    (auto simp: is_float_def split: option.splits dest: repr_try_reads_back)

lemma repr_dec_reads_back: "is_float x \<Longrightarrow> fl (repr_dec x) = x"
  using repr_search_reads_back [of x] repr_search_reads_back [of "- x"]
  by (auto simp: repr_dec_def is_float_def round_sig_minus)

lemma repr_dec_strict_mono:
  assumes "is_float x" and "is_float y" shows "repr_dec x < repr_dec y \<longleftrightarrow> x < y"
proof -
  have le: "repr_dec a \<le> repr_dec b \<Longrightarrow> a \<le> b" if "is_float a" "is_float b" for a b
    using that fl53.mono [of "repr_dec a" "repr_dec b"] by (simp add: repr_dec_reads_back)
  show ?thesis
  proof
    assume "repr_dec x < repr_dec y"
    then have "x \<le> y" and "x \<noteq> y" using le [of x y] assms by auto
    then show "x < y" by simp
  next
    assume "x < y"
    then show "repr_dec x < repr_dec y" using le [of y x] assms by (auto simp: not_le [symmetric])
  qed
qed

lemma repr_dec_inj: "is_float x \<Longrightarrow> is_float y \<Longrightarrow> repr_dec x = repr_dec y \<longleftrightarrow> x = y"
  by (metis repr_dec_reads_back)

lemma repr_dec_0 [simp]: "repr_dec 0 = 0"
  by (simp add: repr_dec_def)

lemma repr_dec_pos_iff: "is_float x \<Longrightarrow> 0 < repr_dec x \<longleftrightarrow> 0 < x"
  using repr_dec_strict_mono [of 0 x] by (simp add: is_float_def)

section \<open>Dynamic values\<close>

text \<open>
  A value the code validates before it uses it: \<open>PInf\<close> and \<open>PNaN\<close> are the non-finite floats,
  \<open>PDecSpecial\<close> a non-finite \<open>Decimal\<close>, \<open>PText\<close> anything that is not a number. A finite float
  carries the exact rational it stands for.
\<close>

datatype pynum = PNone | PBool bool | PInt int | PFloat rat | PInf | PNaN | PDec rat | PDecSpecial | PText string

text \<open>\<open>isinstance(v, (int, float)) and not isinstance(v, bool) and math.isfinite(v) and v > 0\<close>,
  the check of \<open>execution/paper_broker.py\<close> and \<open>execution/contracts.py\<close>.\<close>

fun valid_num :: "pynum \<Rightarrow> bool" where
  "valid_num (PInt n) = (0 < n)"
| "valid_num (PFloat x) = (0 < x)"
| "valid_num _ = False"

text \<open>The number a validated value stands for when it is used as a float (\<open>float(v)\<close>).\<close>

fun to_float :: "pynum \<Rightarrow> rat" where
  "to_float (PInt n) = fl (of_int n)"
| "to_float (PFloat x) = x"
| "to_float (PDec d) = fl d"
| "to_float _ = 0"

lemma valid_num_to_float: "valid_num v \<Longrightarrow> 0 < to_float v"
  by (cases v) (auto simp: fl53.pos)

subsection \<open>Numbers on a decimal grid\<close>

definition on_grid :: "nat \<Rightarrow> rat \<Rightarrow> bool" where
  "on_grid k x \<longleftrightarrow> (\<exists>m. x = of_int m / 10 ^ k)"

text \<open>\<open>fits d k x\<close>: \<open>x\<close> has at most \<open>k\<close> decimals and at most \<open>d\<close> digits.\<close>

definition fits :: "nat \<Rightarrow> nat \<Rightarrow> rat \<Rightarrow> bool" where
  "fits d k x \<longleftrightarrow> (\<exists>m. x = of_int m / 10 ^ k \<and> \<bar>m\<bar> \<le> 10 ^ d)"

lemma round_sig_fits:
  assumes "fits d k x" and "d \<le> p" and "0 < p" shows "round_sig 10 p x = x"
proof -
  from assms(1) obtain m where m: "x = of_int m / 10 ^ k" "\<bar>m\<bar> \<le> 10 ^ d" by (auto simp: fits_def)
  have "(10::int) ^ d \<le> 10 ^ p" using assms(2) by (intro power_increasing) auto
  with m(2) have "\<bar>m\<bar> \<le> int 10 ^ p" by (simp del: power_increasing_iff)
  then show ?thesis
    by (rule round_sig_exact [where e = "- int k", rotated 2])
      (use assms(3) m(1) in \<open>auto simp: power_int_minus field_simps\<close>)
qed

lemma fits_add: "fits d k x \<Longrightarrow> fits d k y \<Longrightarrow> fits (Suc d) k (x + y)"
  unfolding fits_def
proof (elim exE conjE)
  fix m n assume "x = of_int m / 10 ^ k" "\<bar>m\<bar> \<le> 10 ^ d" "y = of_int n / 10 ^ k" "\<bar>n\<bar> \<le> 10 ^ d"
  then show "\<exists>m. x + y = of_int m / 10 ^ k \<and> \<bar>m\<bar> \<le> 10 ^ Suc d"
    by (intro exI [of _ "m + n"]) (auto simp: add_divide_distrib)
qed

lemma fits_minus: "fits d k x \<Longrightarrow> fits d k (- x)"
  unfolding fits_def by (metis abs_minus_cancel minus_divide_left of_int_minus)

lemma fits_diff: "fits d k x \<Longrightarrow> fits d k y \<Longrightarrow> fits (Suc d) k (x - y)"
  using fits_add [of d k x "- y"] fits_minus [of d k y] by simp

lemma fits_mono: "fits d k x \<Longrightarrow> d \<le> e \<Longrightarrow> fits e k x"
proof -
  assume "fits d k x" and de: "d \<le> e"
  then obtain m where m: "x = of_int m / 10 ^ k" "\<bar>m\<bar> \<le> 10 ^ d" by (auto simp: fits_def)
  have "(10::int) ^ d \<le> 10 ^ e" using de by (intro power_increasing) auto
  with m show "fits e k x" unfolding fits_def by (intro exI [of _ m]) linarith
qed

lemma fits_of_int_mult: "fits d k x \<Longrightarrow> \<bar>n\<bar> \<le> 10 ^ e \<Longrightarrow> fits (d + e) k (of_int n * x)"
  unfolding fits_def
proof (elim exE conjE)
  fix m assume "\<bar>n\<bar> \<le> 10 ^ e" "x = of_int m / 10 ^ k" "\<bar>m\<bar> \<le> 10 ^ d"
  then show "\<exists>m. of_int n * x = of_int m / 10 ^ k \<and> \<bar>m\<bar> \<le> 10 ^ (d + e)"
    by (intro exI [of _ "n * m"]) (auto simp: abs_mult power_add mult.commute intro!: mult_mono)
qed

text \<open>One addition or subtraction of numbers of at most 27 digits on a common grid is exact.\<close>

lemma dec28_diff_exact: "fits 27 k x \<Longrightarrow> fits 27 k y \<Longrightarrow> dec28 (x - y) = x - y"
  by (rule round_sig_fits [OF fits_diff]) auto

lemma dec28_add_exact: "fits 27 k x \<Longrightarrow> fits 27 k y \<Longrightarrow> dec28 (x + y) = x + y"
  by (rule round_sig_fits [OF fits_add]) auto

end
