(* ===== verification/PyJson.thy ===== *)
theory PyJson
  imports PyNum
begin

text \<open>
  The dictionaries the code writes to its journals (\<open>as_record\<close>, telemetry, event payloads) as
  JSON trees. A \<open>Decimal\<close> or \<open>Fraction\<close> the code renders with \<open>str\<close> is carried by its value
  (\<open>JDec\<close>), a datetime by its instant (\<open>JTime\<close>): the digits of the text are not modelled.
\<close>

datatype json =
    JNull
  | JBool bool
  | JInt int
  | JNum rat
  | JDec rat
  | JStr string
  | JTime int
  | JList "json list"
  | JObj "(string \<times> json) list"

fun jget :: "json \<Rightarrow> string \<Rightarrow> json" where
  "jget (JObj kvs) k = (case map_of kvs k of None \<Rightarrow> JNull | Some v \<Rightarrow> v)"
| "jget _ k = JNull"

text \<open>\<open>{**a, k: v}\<close> and \<open>{**a, **b}\<close>: later keys replace earlier ones.\<close>

fun jput :: "string \<Rightarrow> json \<Rightarrow> json \<Rightarrow> json" where
  "jput k v (JObj kvs) = JObj (dput k v kvs)"
| "jput k v j = j"

definition jmerge :: "json \<Rightarrow> (string \<times> json) list \<Rightarrow> json" where
  "jmerge j kvs = foldl (\<lambda>acc (k, v). jput k v acc) j kvs"

definition jdec_opt :: "rat option \<Rightarrow> json" where
  "jdec_opt = (\<lambda>None \<Rightarrow> JNull | Some d \<Rightarrow> JDec d)"

definition jstr_opt :: "string option \<Rightarrow> json" where
  "jstr_opt = (\<lambda>None \<Rightarrow> JNull | Some s \<Rightarrow> JStr s)"

fun jfields :: "json \<Rightarrow> (string \<times> json) list" where
  "jfields (JObj kvs) = kvs"
| "jfields _ = []"

lemma jget_jput [simp]: "jget (jput k v (JObj kvs)) k' = (if k' = k then v else jget (JObj kvs) k')"
  by simp

lemma jput_obj: "\<exists>kvs'. jput k v (JObj kvs) = JObj kvs'"
  by simp

end
