(* ===== verification/FxPolicy.thy ===== *)
theory FxPolicy
  imports PyJson
begin

text \<open>
  \<open>core/fx_policy.py\<close>: the fixed FX stop (25 pips) and take-profit (2R). \<open>clamp_stop\<close> is
  \<open>Decimal\<close> arithmetic in the default context: every difference, product and quotient is
  rounded to 28 digits.
\<close>

datatype side = LONG | SHORT | OtherSide string

fun side_name :: "side \<Rightarrow> string" where
  "side_name LONG = ''LONG''"
| "side_name SHORT = ''SHORT''"
| "side_name (OtherSide s) = s"

datatype clamp_action = WIDENED | NARROWED | UNCHANGED

definition FX_SL_MIN_PIPS :: rat where "FX_SL_MIN_PIPS = 25"
definition FX_SL_MAX_PIPS :: rat where "FX_SL_MAX_PIPS = 25"
definition FX_TP_RR :: rat where "FX_TP_RR = 2"
definition FILL_TOLERANCE_R :: rat where "FILL_TOLERANCE_R = 1 / 2"
definition FX_FILL_RR_FLOOR :: rat where "FX_FILL_RR_FLOOR = dec28 (FX_TP_RR - FILL_TOLERANCE_R)"

definition FIAT :: "string list" where
  "FIAT = [''AUD'', ''CAD'', ''CHF'', ''CNH'', ''CZK'', ''DKK'', ''EUR'', ''GBP'', ''HKD'', ''HUF'',
    ''JPY'', ''MXN'', ''NOK'', ''NZD'', ''PLN'', ''SEK'', ''SGD'', ''TRY'', ''USD'', ''ZAR'']"

text \<open>The retired overrides only produce the list of names to warn about; the policy is constant.\<close>

definition fx_load :: "(string \<rightharpoonup> string) \<Rightarrow> string list \<times> rat \<times> rat \<times> rat" where
  "fx_load environ = (filter (\<lambda>n. environ n \<noteq> None)
     [''AI_FLOOR_FX_SL_MIN_PIPS'', ''AI_FLOOR_FX_SL_MAX_PIPS'', ''AI_FLOOR_FX_TP_RR''],
     25, 25, 2)"

definition is_fx :: "string \<Rightarrow> bool" where
  "is_fx symbol \<longleftrightarrow> length symbol = 6 \<and> take 3 symbol \<noteq> drop 3 symbol
     \<and> take 3 symbol \<in> set FIAT \<and> drop 3 symbol \<in> set FIAT"

definition pip_size :: "string \<Rightarrow> py_error + rat" where
  "pip_size symbol = (if \<not> is_fx symbol then Inl (ValueError ''not an FX symbol'')
     else if drop 3 symbol = ''JPY'' then Inr (1 / 100) else Inr (1 / 10000))"

definition clamp_stop_in ::
  "string \<Rightarrow> side \<Rightarrow> rat \<Rightarrow> rat \<Rightarrow> rat \<Rightarrow> rat \<Rightarrow> py_error + rat \<times> clamp_action \<times> rat" where
  "clamp_stop_in symbol sd entry stop low high = (case pip_size symbol of Inl e \<Rightarrow> Inl e
   | Inr pip \<Rightarrow>
     let distance = (if sd = LONG then dec28 (entry - stop) else dec28 (stop - entry)) in
     if (sd \<noteq> LONG \<and> sd \<noteq> SHORT) \<or> distance \<le> 0
     then Inl (ValueError ''stop must be on the protective side of the entry'')
     else let pips = dec28 (distance / pip);
              moved = (\<lambda>bound. let clamped = dec28 (bound * pip)
                 in if sd = LONG then dec28 (entry - clamped) else dec28 (entry + clamped)) in
       if pips < low then Inr (moved low, WIDENED, pips)
       else if high < pips then Inr (moved high, NARROWED, pips)
       else Inr (stop, UNCHANGED, pips))"

definition clamp_stop :: "string \<Rightarrow> side \<Rightarrow> rat \<Rightarrow> rat \<Rightarrow> py_error + rat \<times> clamp_action \<times> rat" where
  "clamp_stop symbol sd entry stop = clamp_stop_in symbol sd entry stop FX_SL_MIN_PIPS FX_SL_MAX_PIPS"

section \<open>Facts\<close>

lemmas fx_const_defs = FX_SL_MIN_PIPS_def FX_SL_MAX_PIPS_def FX_TP_RR_def FILL_TOLERANCE_R_def

lemma dec28_small_frac: "\<bar>m\<bar> \<le> 10 ^ 28 \<Longrightarrow> dec28 (of_int m / 10 ^ k) = of_int m / 10 ^ k"
  by (rule round_sig_fits [where d = 28 and k = k]) (auto simp: fits_def)

lemma fx_fill_floor: "FX_FILL_RR_FLOOR = 3 / 2"
  unfolding FX_FILL_RR_FLOOR_def fx_const_defs
  using dec28_small_frac [of 15 1] by simp

lemma fx_load_fixed: "snd (fx_load environ) = (FX_SL_MIN_PIPS, FX_SL_MAX_PIPS, FX_TP_RR)"
  by (simp add: fx_load_def fx_const_defs)

lemma pip_size_cases:
  "pip_size s = Inr p \<Longrightarrow> is_fx s \<and> (p = 1 / 100 \<or> p = 1 / 10000)"
  by (auto simp: pip_size_def split: if_splits)

lemma pip_size_pos: "pip_size s = Inr p \<Longrightarrow> 0 < p"
  by (auto dest: pip_size_cases)

lemma clamp_25_exact:
  "pip_size s = Inr p \<Longrightarrow> dec28 (25 * p) = 25 * p"
  using dec28_small_frac [of 25 2] dec28_small_frac [of 25 4] by (auto dest!: pip_size_cases)

text \<open>Where the code clamps, the new distance is exactly 25 pips as long as the entry has at most
  27 digits and four decimals suffice for the grid.\<close>

lemma fits_25_pips: "pip_size s = Inr p \<Longrightarrow> 4 \<le> k \<Longrightarrow> k \<le> 20 \<Longrightarrow> fits 27 k (25 * p)"
proof -
  assume p: "pip_size s = Inr p" and k: "4 \<le> k" "k \<le> 20"
  have pk: "(10::rat) ^ k = 10 ^ 4 * 10 ^ (k - 4)" using power_add [of "10::rat" 4 "k - 4"] k(1) by simp
  have "(10::int) ^ (k - 4) \<le> 10 ^ 16" using k(2) by (intro power_increasing) auto
  then have b: "2500 * (10::int) ^ (k - 4) \<le> 10 ^ 27" "25 * (10::int) ^ (k - 4) \<le> 10 ^ 27" by auto
  from p have "p = 1 / 100 \<or> p = 1 / 10000" by (auto dest: pip_size_cases)
  then show ?thesis
  proof
    assume "p = 1 / 100"
    then have "25 * p = of_int (2500 * 10 ^ (k - 4)) / 10 ^ k" by (simp add: pk)
    then show ?thesis unfolding fits_def using b(1) by (intro exI [of _ "2500 * 10 ^ (k - 4)"]) auto
  next
    assume "p = 1 / 10000"
    then have "25 * p = of_int (25 * 10 ^ (k - 4)) / 10 ^ k" by (simp add: pk)
    then show ?thesis unfolding fits_def using b(2) by (intro exI [of _ "25 * 10 ^ (k - 4)"]) auto
  qed
qed

section \<open>The stop ends up exactly 25 pips away\<close>

lemma dec28_pips_exact:
  assumes p: "pip_size s = Inr p" and d: "fits 28 k d" and k: "4 \<le> k"
  shows "dec28 (d / p) = d / p"
proof -
  obtain m where m: "d = of_int m / 10 ^ k" "\<bar>m\<bar> \<le> 10 ^ 28" using d by (auto simp: fits_def)
  have "p = 1 / 10 ^ 2 \<or> p = 1 / 10 ^ 4" using pip_size_cases [OF p] by auto
  then obtain j where j: "p = 1 / 10 ^ j" "j \<le> k"
  proof
    assume "p = 1 / 10 ^ 2"
    then show ?thesis using that [of 2] k by simp
  next
    assume "p = 1 / 10 ^ 4"
    then show ?thesis using that [of 4] k by simp
  qed
  have "(10::rat) ^ k = 10 ^ j * 10 ^ (k - j)" using power_add [of "10::rat" j "k - j"] j(2) by simp
  then have e: "d / p = of_int m / 10 ^ (k - j)" by (simp add: m(1) j(1))
  show ?thesis unfolding e by (rule dec28_small_frac [OF m(2)])
qed

lemma clamp_stop_25:
  assumes fx: "pip_size symbol = Inr p" and k: "4 \<le> k" "k \<le> 20"
    and e: "fits 27 k entry" and s: "fits 27 k stop"
    and sd: "sd = LONG \<and> stop < entry \<or> sd = SHORT \<and> entry < stop"
  shows "clamp_stop symbol sd entry stop = Inr
    (if sd = LONG then entry - 25 * p else entry + 25 * p,
     if \<bar>entry - stop\<bar> < 25 * p then WIDENED else if 25 * p < \<bar>entry - stop\<bar> then NARROWED else UNCHANGED,
     \<bar>entry - stop\<bar> / p)"
proof -
  have p: "0 < p" using pip_size_pos [OF fx] .
  define d where "d = \<bar>entry - stop\<bar>"
  have d28: "(if sd = LONG then dec28 (entry - stop) else dec28 (stop - entry)) = d"
    using sd dec28_diff_exact [OF e s] dec28_diff_exact [OF s e] by (auto simp: d_def)
  have "fits (Suc 27) k d" using sd fits_diff [OF e s] fits_diff [OF s e] by (auto simp: d_def)
  then have pips: "dec28 (d / p) = d / p" using dec28_pips_exact [OF fx _ k(1), of d] by simp
  note b = fits_25_pips [OF fx k]
  have mv: "dec28 (entry - 25 * p) = entry - 25 * p" "dec28 (entry + 25 * p) = entry + 25 * p"
    by (rule dec28_diff_exact [OF e b] dec28_add_exact [OF e b])+
  have d0: "0 < d" using sd by (auto simp: d_def)
  have lt: "d / p < 25 \<longleftrightarrow> d < 25 * p" "25 < d / p \<longleftrightarrow> 25 * p < d" using p by (simp_all add: field_simps)
  have stop: "stop = (if sd = LONG then entry - d else entry + d)" using sd by (auto simp: d_def)
  show ?thesis unfolding d_def [symmetric] clamp_stop_def clamp_stop_in_def fx
    using sd d0 stop by (auto simp: d28 Let_def pips clamp_25_exact [OF fx] mv fx_const_defs lt)
qed

section \<open>Properties\<close>

text \<open>
  C3. The clamped stop of an FX plan is exactly 25 pips from the entry, on the protective side, with no
  rounding error, for every entry and stop of at most 27 digits and 4 to 20 decimals; the reported
  action says whether the proposed stop was widened, narrowed or kept, and the reported distance is
  the proposed one.
\<close>

theorem clamp_stop_exact:
  assumes "pip_size symbol = Inr p" and "4 \<le> k" "k \<le> 20" and "fits 27 k entry" and "fits 27 k stop"
    and "sd = LONG \<and> stop < entry \<or> sd = SHORT \<and> entry < stop"
  shows "\<exists>stop' act pips. clamp_stop symbol sd entry stop = Inr (stop', act, pips)
    \<and> (if sd = LONG then entry - stop' = 25 * p else stop' - entry = 25 * p)
    \<and> pips = \<bar>entry - stop\<bar> / p
    \<and> act = (if pips < 25 then WIDENED else if 25 < pips then NARROWED else UNCHANGED)
    \<and> (act = UNCHANGED \<longleftrightarrow> stop' = stop)"
proof -
  have p: "0 < p" using pip_size_pos [OF assms(1)] .
  have lt: "x / p < 25 \<longleftrightarrow> x < 25 * p" "25 < x / p \<longleftrightarrow> 25 * p < x" for x using p by (simp_all add: field_simps)
  show ?thesis unfolding clamp_stop_25 [OF assms] using assms(6) by (auto simp: lt)
qed

theorem clamp_stop_exact_witness:
  "\<exists>stop' act pips. clamp_stop ''EURUSD'' LONG (11/10) (10990/10000) = Inr (stop', act, pips)
     \<and> (if LONG = LONG then 11/10 - stop' = 25 * (1/10000) else stop' - 11/10 = 25 * (1/10000))
     \<and> pips = \<bar>11/10 - 10990/10000\<bar> / (1/10000)
     \<and> act = (if pips < 25 then WIDENED else if 25 < pips then NARROWED else UNCHANGED)
     \<and> (act = UNCHANGED \<longleftrightarrow> stop' = 10990/10000)"
proof (rule clamp_stop_exact)
  show "pip_size ''EURUSD'' = Inr (1/10000)" by (simp add: pip_size_def is_fx_def FIAT_def)
  show "(4::nat) \<le> 4" "(4::nat) \<le> 20" by simp_all
  show "fits 27 4 (11/10)" "fits 27 4 (10990/10000)"
    unfolding fits_def by (auto intro: exI [of _ 11000] exI [of _ 10990])
qed simp

end
