(* ===== verification/RRContract.thy ===== *)
theory RRContract
  imports FxPolicy
begin

text \<open>
  \<open>core/rr_contract.py\<close>: the single authority on the reward-to-risk ratio of a trade. Prices are
  \<open>Decimal\<close>s of the shortest \<open>repr\<close> of the float; the ratio is divided in a 34-digit context.
\<close>

datatype rr_policy = POLICY_V1 | POLICY_V2_D | POLICY_V2_F3 | POLICY_FX | OtherPolicy string

fun policy_name :: "rr_policy \<Rightarrow> string" where
  "policy_name POLICY_V1 = ''V1_FIXED_3R''"
| "policy_name POLICY_V2_D = ''V2_P4_D_FIRST_OBSTACLE_2R_5R''"
| "policy_name POLICY_V2_F3 = ''V2_P4_FIXED_3R''"
| "policy_name POLICY_FX = ''V2_FX_SL_CLAMP_2R''"
| "policy_name (OtherPolicy s) = s"

fun LIMITS :: "rr_policy \<Rightarrow> (rat \<times> rat option) option" where
  "LIMITS POLICY_V1 = Some (3, None)"
| "LIMITS POLICY_V2_D = Some (2, Some 5)"
| "LIMITS POLICY_V2_F3 = Some (3, Some 3)"
| "LIMITS POLICY_FX = Some (FX_TP_RR, Some FX_TP_RR)"
| "LIMITS (OtherPolicy _) = None"

fun FILL_LIMITS :: "rr_policy \<Rightarrow> (rat \<times> rat option) option" where
  "FILL_LIMITS POLICY_V2_D = Some (2, Some 5)"
| "FILL_LIMITS POLICY_V2_F3 = Some (5 / 2, None)"
| "FILL_LIMITS POLICY_FX = Some (FX_FILL_RR_FLOOR, None)"
| "FILL_LIMITS _ = None"

definition FIXED_RR_POLICIES :: "rr_policy list" where
  "FIXED_RR_POLICIES = [POLICY_V2_F3, POLICY_FX]"

definition DECLARED_TOLERANCE :: rat where "DECLARED_TOLERANCE = 1 / 10 ^ 9"

datatype rr_class = WITHIN_POLICY | RR_BELOW_FLOOR | OUT_OF_POLICY_EXTENDED_TARGET

record geom =
  g_side :: side
  g_entry :: rat
  g_stop :: rat
  g_target :: rat
  g_risk :: rat
  g_reward :: rat
  g_rr :: rat

text \<open>A finite positive price as a \<open>Decimal\<close>, else None.\<close>

definition positive :: "rat \<Rightarrow> rat option" where
  "positive d = (if 0 < d then Some d else None)"

fun to_decimal :: "pynum \<Rightarrow> rat option" where
  "to_decimal (PDec d) = positive d"
| "to_decimal (PInt n) = positive (of_int n)"
| "to_decimal (PFloat x) = positive (repr_dec x)"
| "to_decimal _ = None"

definition geometry :: "side \<Rightarrow> pynum \<Rightarrow> pynum \<Rightarrow> pynum \<Rightarrow> string + geom" where
  "geometry sd entry stop target =
    (if sd \<noteq> LONG \<and> sd \<noteq> SHORT then Inl ''invalid_side''
     else case (to_decimal entry, to_decimal stop, to_decimal target) of
       (Some e, Some s, Some t) \<Rightarrow>
         if sd = LONG then
           if \<not> (s < e \<and> e < t) then Inl ''invalid_level_order''
           else let risk = dec28 (e - s); reward = dec28 (t - e)
                in Inr \<lparr>g_side = sd, g_entry = e, g_stop = s, g_target = t,
                        g_risk = risk, g_reward = reward, g_rr = dec34 (reward / risk)\<rparr>
         else
           if \<not> (t < e \<and> e < s) then Inl ''invalid_level_order''
           else let risk = dec28 (s - e); reward = dec28 (e - t)
                in Inr \<lparr>g_side = sd, g_entry = e, g_stop = s, g_target = t,
                        g_risk = risk, g_reward = reward, g_rr = dec34 (reward / risk)\<rparr>
     | _ \<Rightarrow> Inl ''invalid_numeric'')"

definition classify_in ::
  "(rr_policy \<Rightarrow> (rat \<times> rat option) option) \<Rightarrow> rat \<Rightarrow> rr_policy \<Rightarrow> py_error + rr_class" where
  "classify_in limits rr policy = (case limits policy of
     None \<Rightarrow> Inl KeyError
   | Some (lo, hi) \<Rightarrow>
       if rr < lo then Inr RR_BELOW_FLOOR
       else (case hi of
               Some c \<Rightarrow> if c < rr then Inr OUT_OF_POLICY_EXTENDED_TARGET else Inr WITHIN_POLICY
             | None \<Rightarrow> Inr WITHIN_POLICY))"

definition classify :: "rat \<Rightarrow> rr_policy \<Rightarrow> py_error + rr_class" where
  "classify = classify_in LIMITS"

definition band :: "rat \<Rightarrow> string" where
  "band rr = (if rr < 2 then ''BELOW_2'' else if rr < 3 then ''2_TO_3'' else if rr < 4 then ''3_TO_4''
     else if rr < 5 then ''4_TO_5'' else if rr = 5 then ''EQ_5'' else ''ABOVE_5'')"

text \<open>A declared ratio: a finite number of any sign, compared with a relative tolerance.\<close>

fun declared_value :: "pynum \<Rightarrow> rat option" where
  "declared_value (PInt n) = Some (of_int n)"
| "declared_value (PFloat x) = Some (repr_dec x)"
| "declared_value (PDec d) = Some d"
| "declared_value _ = None"

definition declared_matches :: "pynum \<Rightarrow> rat \<Rightarrow> bool" where
  "declared_matches declared rr = (case declared_value declared of None \<Rightarrow> False
     | Some v \<Rightarrow> dec28 \<bar>dec28 (v - rr)\<bar> \<le> dec28 (DECLARED_TOLERANCE * max 1 (dec28 \<bar>rr\<bar>)))"

datatype rounding_dir = ROUND_FLOOR | ROUND_CEILING

text \<open>The price on the instrument grid. \<open>quantize\<close> only pads the digits: it is the identity on the
  value (\<open>units * step\<close> is a multiple of \<open>step\<close>; a result of more than 28 digits, where it
  raises, is outside the model).\<close>

definition normalize_price :: "pynum \<Rightarrow> pynum \<Rightarrow> rounding_dir \<Rightarrow> rat option" where
  "normalize_price price increment dir = (case (to_decimal increment, to_decimal price) of
     (Some step, Some value) \<Rightarrow>
       let q = dec28 (value / step);
           units = (if dir = ROUND_FLOOR then \<lfloor>q\<rfloor> else \<lceil>q\<rceil>);
           result = dec28 (of_int units * step)
       in if 0 < result then Some result else None
   | _ \<Rightarrow> None)"

section \<open>Facts\<close>

lemma positive_Some [simp]: "positive d = Some v \<longleftrightarrow> 0 < d \<and> v = d"
  by (auto simp: positive_def)

lemma to_decimal_pos: "to_decimal v = Some d \<Longrightarrow> 0 < d"
  by (cases v) auto

lemma to_decimal_PDec [simp]: "0 < d \<Longrightarrow> to_decimal (PDec d) = Some d"
  by simp

text \<open>What a geometry the contract accepts looks like: the shape facts every gate below uses.\<close>

definition geom_ok :: "geom \<Rightarrow> bool" where
  "geom_ok g \<longleftrightarrow> 0 < g_entry g \<and> 0 < g_stop g \<and> 0 < g_target g \<and> 0 < g_risk g \<and> 0 < g_reward g \<and>
     g_rr g = dec34 (g_reward g / g_risk g) \<and>
     (if g_side g = LONG
      then g_stop g < g_entry g \<and> g_entry g < g_target g \<and>
           g_risk g = dec28 (g_entry g - g_stop g) \<and> g_reward g = dec28 (g_target g - g_entry g)
      else g_side g = SHORT \<and> g_target g < g_entry g \<and> g_entry g < g_stop g \<and>
           g_risk g = dec28 (g_stop g - g_entry g) \<and> g_reward g = dec28 (g_entry g - g_target g))"

lemma geometry_Inr:
  assumes "geometry sd entry stop target = Inr g"
  shows "g_side g = sd" "to_decimal entry = Some (g_entry g)" "to_decimal stop = Some (g_stop g)"
    "to_decimal target = Some (g_target g)" "geom_ok g"
  using assms
  by (auto simp: geometry_def geom_ok_def Let_def d28.pos dest: to_decimal_pos
      split: if_splits option.splits)

lemma geom_rr_pos: "geom_ok g \<Longrightarrow> 0 < g_rr g"
  by (simp add: geom_ok_def d34.pos)

lemma geom_ok_sides: "geom_ok g \<Longrightarrow> g_side g = LONG \<or> g_side g = SHORT"
  by (auto simp: geom_ok_def split: if_splits)

lemma classify_within:
  "classify_in lims rr p = Inr WITHIN_POLICY \<longleftrightarrow>
   (\<exists>f c. lims p = Some (f, c) \<and> f \<le> rr \<and> (\<forall>u. c = Some u \<longrightarrow> rr \<le> u))"
  by (auto simp: classify_in_def split: option.splits)

text \<open>The policy floors and ceilings are representable in the 34-digit context, so the decision on the
  rounded ratio bounds the exact ratio.\<close>

lemma dec34_int: "\<bar>m\<bar> \<le> 10 ^ 34 \<Longrightarrow> dec34 (of_int m) = of_int m"
  by (rule round_sig_of_int) auto

lemma dec34_frac: "\<bar>m\<bar> \<le> 10 ^ 34 \<Longrightarrow> dec34 (of_int m / 10 ^ k) = of_int m / 10 ^ k"
  by (rule round_sig_fits [where d = 34 and k = k]) (auto simp: fits_def)

lemma fixed_multiple_rr:
  assumes "reward = of_nat n * risk" and "0 < risk" and "n \<le> 10 ^ 34"
  shows "dec34 (reward / risk) = of_nat n"
proof -
  have "int n \<le> int (10 ^ 34)" using assms(3) by (simp only: of_nat_le_iff)
  then have "\<bar>int n\<bar> \<le> (10::int) ^ 34" by simp
  from dec34_int [OF this] show ?thesis using assms(1,2) by simp
qed

section \<open>The 34-digit ratio decides exactly\<close>

text \<open>Every floor and ceiling of the policies is a multiple of one half. On prices of at most 27 digits
  a ratio that misses such a bound misses it by more than the 34-digit context can hide.\<close>

lemma half_point_fixed:
  assumes "\<bar>n\<bar> \<le> 10"
  shows "dec34 (of_int n / 2) = of_int n / 2"
    and "dec34 (of_int n / 2 - 1 / (2 * 10 ^ 28)) = of_int n / 2 - 1 / (2 * 10 ^ 28)"
    and "dec34 (of_int n / 2 + 1 / (2 * 10 ^ 28)) = of_int n / 2 + 1 / (2 * 10 ^ 28)"
proof -
  have a: "\<bar>5 * n\<bar> \<le> 10 ^ 34" "\<bar>5 * (n * 10 ^ 28 - 1)\<bar> \<le> 10 ^ 34" "\<bar>5 * (n * 10 ^ 28 + 1)\<bar> \<le> 10 ^ 34"
    using assms by auto
  have e: "(of_int n / 2 :: rat) = of_int (5 * n) / 10 ^ 1"
    "(of_int n / 2 - 1 / (2 * 10 ^ 28) :: rat) = of_int (5 * (n * 10 ^ 28 - 1)) / 10 ^ 29"
    "(of_int n / 2 + 1 / (2 * 10 ^ 28) :: rat) = of_int (5 * (n * 10 ^ 28 + 1)) / 10 ^ 29"
    by (simp_all add: field_simps)
  show "dec34 (of_int n / 2) = of_int n / 2" unfolding e(1) by (rule dec34_frac [OF a(1)])
  show "dec34 (of_int n / 2 - 1 / (2 * 10 ^ 28)) = of_int n / 2 - 1 / (2 * 10 ^ 28)" unfolding e(2) by (rule dec34_frac [OF a(2)])
  show "dec34 (of_int n / 2 + 1 / (2 * 10 ^ 28)) = of_int n / 2 + 1 / (2 * 10 ^ 28)" unfolding e(3) by (rule dec34_frac [OF a(3)])
qed

lemma ratio_decides:
  fixes a b n :: int
  assumes a: "0 < a" "a \<le> 10 ^ 28" and n: "\<bar>n\<bar> \<le> 10"
  shows "of_int n / 2 \<le> dec34 (of_int b / of_int a) \<longleftrightarrow> of_int n / 2 \<le> (of_int b / of_int a :: rat)"
    and "dec34 (of_int b / of_int a) \<le> of_int n / 2 \<longleftrightarrow> (of_int b / of_int a :: rat) \<le> of_int n / 2"
proof -
  have a': "(0::rat) < of_int a" using a(1) by simp
  have step: "(1::rat) / (2 * 10 ^ 28) \<le> 1 / (2 * of_int a)"
  proof -
    have "(of_int a :: rat) \<le> of_int (10 ^ 28)" using a(2) by (simp only: of_int_le_iff)
    then show ?thesis using a' by (simp add: field_simps)
  qed
  have lt: "(of_int b / of_int a :: rat) < of_int n / 2 \<Longrightarrow> of_int b / of_int a \<le> (of_int n / 2 - 1 / (2 * 10 ^ 28) :: rat)"
  proof -
    assume "(of_int b / of_int a :: rat) < of_int n / 2"
    then have "(of_int (2 * b) :: rat) < of_int (n * a)" using a' by (simp add: field_simps)
    then have "2 * b + 1 \<le> n * a" by (simp only: of_int_less_iff)
    then have "(of_int (2 * b + 1) :: rat) \<le> of_int (n * a)" by (simp only: of_int_le_iff)
    then have "(of_int b / of_int a :: rat) \<le> of_int n / 2 - 1 / (2 * of_int a)" using a' by (simp add: field_simps)
    then show ?thesis using step by linarith
  qed
  have gt: "(of_int n / 2 :: rat) < of_int b / of_int a \<Longrightarrow> (of_int n / 2 + 1 / (2 * 10 ^ 28) :: rat) \<le> of_int b / of_int a"
  proof -
    assume "(of_int n / 2 :: rat) < of_int b / of_int a"
    then have "(of_int (n * a) :: rat) < of_int (2 * b)" using a' by (simp add: field_simps)
    then have "n * a + 1 \<le> 2 * b" by (simp only: of_int_less_iff)
    then have "(of_int (n * a + 1) :: rat) \<le> of_int (2 * b)" by (simp only: of_int_le_iff)
    then have "(of_int n * of_int a + 1 :: rat) / (2 * of_int a) \<le> 2 * of_int b / (2 * of_int a)"
      using a' by (intro divide_right_mono) simp_all
    moreover have "(of_int n * of_int a + 1 :: rat) / (2 * of_int a) = of_int n / 2 + 1 / (2 * of_int a)"
      using a' by (simp add: add_divide_distrib)
    ultimately have "(of_int n / 2 + 1 / (2 * of_int a) :: rat) \<le> of_int b / of_int a" using a' by simp
    then show ?thesis using step by linarith
  qed
  have pos: "(0::rat) < 1 / (2 * 10 ^ 28)" by simp
  note fx = half_point_fixed [OF n]
  show "of_int n / 2 \<le> dec34 (of_int b / of_int a) \<longleftrightarrow> of_int n / 2 \<le> (of_int b / of_int a :: rat)"
  proof (cases "(of_int n / 2 :: rat) \<le> of_int b / of_int a")
    case False
    then show ?thesis using d34.le_fixed [OF fx(2) lt] pos by linarith
  qed (use d34.fixed_le [OF fx(1)] in simp)
  show "dec34 (of_int b / of_int a) \<le> of_int n / 2 \<longleftrightarrow> (of_int b / of_int a :: rat) \<le> of_int n / 2"
  proof (cases "(of_int b / of_int a :: rat) \<le> of_int n / 2")
    case False
    then show ?thesis using d34.fixed_le [OF fx(3) gt] pos by linarith
  qed (use d34.le_fixed [OF fx(1)] in simp)
qed

definition price_grid :: "nat \<Rightarrow> geom \<Rightarrow> bool" where
  "price_grid k g \<longleftrightarrow> fits 27 k (g_entry g) \<and> fits 27 k (g_stop g) \<and> fits 27 k (g_target g)"

definition half_bound :: "rat \<Rightarrow> bool" where
  "half_bound c \<longleftrightarrow> (\<exists>n. c = of_int n / 2 \<and> \<bar>n\<bar> \<le> 10)"

lemma half_bound_values: "half_bound 2" "half_bound 3" "half_bound 5" "half_bound (5 / 2)" "half_bound (3 / 2)"
  unfolding half_bound_def
  by (rule exI [of _ 4] exI [of _ 6] exI [of _ 10] exI [of _ 5] exI [of _ 3], simp)+

lemma geom_exact:
  assumes g: "geom_ok g" and k: "price_grid k g"
  shows "g_risk g = \<bar>g_entry g - g_stop g\<bar>" "g_reward g = \<bar>g_target g - g_entry g\<bar>"
  using g k by (auto simp: geom_ok_def price_grid_def dec28_diff_exact split: if_splits)

lemma rr_decides:
  assumes g: "geom_ok g" and k: "price_grid k g" and c: "half_bound c"
  shows "c \<le> g_rr g \<longleftrightarrow> c * g_risk g \<le> g_reward g" and "g_rr g \<le> c \<longleftrightarrow> g_reward g \<le> c * g_risk g"
proof -
  have "fits (Suc 27) k (g_risk g)" "fits (Suc 27) k (g_reward g)"
    using g k fits_diff [of 27 k] by (auto simp: geom_ok_def price_grid_def dec28_diff_exact split: if_splits)
  then obtain a b where ab: "g_risk g = of_int a / 10 ^ k" "\<bar>a\<bar> \<le> 10 ^ 28" "g_reward g = of_int b / 10 ^ k"
    by (auto simp: fits_def)
  have pos: "0 < g_risk g" using g by (simp add: geom_ok_def)
  have a: "0 < a" "a \<le> 10 ^ 28" using pos ab(1,2) by (auto simp: zero_less_divide_iff)
  have r: "g_rr g = dec34 (of_int b / of_int a)" "g_reward g / g_risk g = of_int b / of_int a"
    using g ab by (auto simp: geom_ok_def)
  obtain n where n: "c = of_int n / 2" "\<bar>n\<bar> \<le> 10" using c by (auto simp: half_bound_def)
  show "c \<le> g_rr g \<longleftrightarrow> c * g_risk g \<le> g_reward g"
    using ratio_decides(1) [OF a n(2), of b] pos_le_divide_eq [OF pos, of c "g_reward g"] by (simp only: r n(1))
  show "g_rr g \<le> c \<longleftrightarrow> g_reward g \<le> c * g_risk g"
    using ratio_decides(2) [OF a n(2), of b] pos_divide_le_eq [OF pos, of "g_reward g" c] by (simp only: r n(1))
qed

lemma limits_half:
  "LIMITS p = Some (f, c) \<Longrightarrow> half_bound f \<and> (\<forall>u. c = Some u \<longrightarrow> half_bound u)"
  by (cases p) (auto simp: FX_TP_RR_def half_bound_values)

lemma fill_limits_half:
  "FILL_LIMITS p = Some (f, c) \<Longrightarrow> half_bound f \<and> (\<forall>u. c = Some u \<longrightarrow> half_bound u)"
  using half_bound_values by (cases p) (auto simp: fx_fill_floor simp del: eq_divide_eq_numeral1 divide_eq_eq_numeral1)

section \<open>Properties\<close>

text \<open>
  C2. The reward-to-risk decision is exact. For prices of at most 27 digits on a common decimal grid, a
  geometry the contract accepts is within a policy (planned limits or fill limits) exactly when the
  reward, without any rounding, is at least the floor times the risk and at most the ceiling times
  the risk: the 28-digit differences and the 34-digit quotient never change the answer.
\<close>

theorem rr_decision_exact:
  assumes "geometry sd entry stop target = Inr g" and "price_grid k g"
    and "lims = LIMITS \<or> lims = FILL_LIMITS" and "lims policy = Some (f, c)"
  shows "classify_in lims (g_rr g) policy = Inr WITHIN_POLICY \<longleftrightarrow>
    f * \<bar>g_entry g - g_stop g\<bar> \<le> \<bar>g_target g - g_entry g\<bar> \<and>
    (\<forall>u. c = Some u \<longrightarrow> \<bar>g_target g - g_entry g\<bar> \<le> u * \<bar>g_entry g - g_stop g\<bar>)"
proof -
  note g = geometry_Inr(5) [OF assms(1)]
  have h: "half_bound f" "\<And>u. c = Some u \<Longrightarrow> half_bound u"
    using assms(3,4) limits_half fill_limits_half by metis+
  show ?thesis
    using rr_decides [OF g assms(2) h(1)] rr_decides [OF g assms(2) h(2)] assms(4)
    unfolding geom_exact [OF g assms(2), symmetric] classify_within by auto
qed

lemma eurusd_geometry:
  "geometry LONG (PDec (11/10)) (PDec (10975/10000)) (PDec (1105/1000))
   = Inr \<lparr>g_side = LONG, g_entry = 11/10, g_stop = 10975/10000, g_target = 1105/1000,
          g_risk = 25/10000, g_reward = 5/1000, g_rr = 2\<rparr>"
proof -
  have d: "dec28 (1 / 400) = 1 / 400" "dec28 (1 / 200) = 1 / 200" "dec34 2 = 2"
    using dec28_small_frac [of 25 4] dec28_small_frac [of 50 4] dec34_int [of 2] by simp_all
  show ?thesis by (simp add: geometry_def positive_def Let_def d)
qed

theorem rr_decision_exact_witness:
  "classify_in FILL_LIMITS 2 POLICY_FX = Inr WITHIN_POLICY \<longleftrightarrow>
    FX_FILL_RR_FLOOR * \<bar>11/10 - 10975/10000\<bar> \<le> \<bar>1105/1000 - 11/(10::rat)\<bar>"
proof -
  have "price_grid 4 \<lparr>g_side = LONG, g_entry = 11/10, g_stop = 10975/10000, g_target = 1105/1000,
          g_risk = 25/10000, g_reward = 5/1000, g_rr = 2\<rparr>"
    unfolding price_grid_def fits_def
    by (auto intro: exI [of _ 11000] exI [of _ 10975] exI [of _ 11050])
  from rr_decision_exact [OF eurusd_geometry this, of FILL_LIMITS POLICY_FX] show ?thesis by simp
qed

end
