(* ===== verification/RiskPolicy.thy ===== *)
theory RiskPolicy
  imports RRContract
begin

text \<open>
  \<open>core/risk_policy.py\<close>: the versioned PAPER risk policies, exact \<open>Fraction\<close> values. Only a policy
  whose version is registered may stamp an order, and only a stamped order has a known
  worst-case fill.
\<close>

record risk_policy =
  rp_version :: string
  rp_rr_policy :: rr_policy
  per_trade_risk_fraction :: rat
  notional_fraction_cap :: rat
  aggregate_portfolio_risk_fraction :: rat
  account_drawdown_fraction :: rat
  planned_rr :: rat
  minimum_actual_fill_rr :: rat
  max_positions_or_pending_per_symbol :: nat
  correlation_adjustment :: string
  rp_daily_loss_limit :: string
  volatility_threshold :: string
  spread_threshold :: string

definition fill_money_risk_factor :: "rat \<Rightarrow> rat \<Rightarrow> rat" where
  "fill_money_risk_factor planned minimum = (1 + planned) / (1 + minimum)"

definition policy_fill_factor :: "risk_policy \<Rightarrow> rat" where
  "policy_fill_factor p = fill_money_risk_factor (planned_rr p) (minimum_actual_fill_rr p)"

definition policy_record :: "risk_policy \<Rightarrow> json" where
  "policy_record p = JObj
    [(''version'', JStr (rp_version p)), (''rr_policy'', JStr (policy_name (rp_rr_policy p))),
     (''per_trade_risk_fraction'', JDec (per_trade_risk_fraction p)),
     (''notional_fraction_cap'', JDec (notional_fraction_cap p)),
     (''aggregate_portfolio_risk_fraction'', JDec (aggregate_portfolio_risk_fraction p)),
     (''account_drawdown_fraction'', JDec (account_drawdown_fraction p)),
     (''planned_rr'', JDec (planned_rr p)), (''minimum_actual_fill_rr'', JDec (minimum_actual_fill_rr p)),
     (''fill_money_risk_factor'', JDec (policy_fill_factor p)),
     (''max_positions_or_pending_per_symbol'', JInt (int (max_positions_or_pending_per_symbol p))),
     (''correlation_adjustment'', JStr (correlation_adjustment p)),
     (''daily_loss_limit'', JStr (rp_daily_loss_limit p)),
     (''volatility_threshold'', JStr (volatility_threshold p)),
     (''spread_threshold'', JStr (spread_threshold p)),
     (''leverage'', JStr ''NONE (1x notional cap)'')]"

definition RISK_POLICY_V2_P5 :: risk_policy where
  "RISK_POLICY_V2_P5 =
    \<lparr>rp_version = ''V2_P5_RISK_1'', rp_rr_policy = POLICY_V2_F3, per_trade_risk_fraction = 1 / 100,
     notional_fraction_cap = 1, aggregate_portfolio_risk_fraction = 23 / 1000,
     account_drawdown_fraction = 5 / 100, planned_rr = 3, minimum_actual_fill_rr = 5 / 2,
     max_positions_or_pending_per_symbol = 1,
     correlation_adjustment = ''OFF (DEC-5.6: unavailable at runtime; observational only)'',
     rp_daily_loss_limit = ''NONE (not authorized)'',
     volatility_threshold = ''UNAVAILABLE / INSUFFICIENT EVIDENCE (DEC-5.8)'',
     spread_threshold = ''UNAVAILABLE / INSUFFICIENT EVIDENCE (DEC-5.8)''\<rparr>"

definition RISK_POLICY_V2_FX :: risk_policy where
  "RISK_POLICY_V2_FX = RISK_POLICY_V2_P5
    \<lparr>rp_version := ''V2_P5_RISK_1_FX_2R'', rp_rr_policy := POLICY_FX,
     planned_rr := FX_TP_RR, minimum_actual_fill_rr := FX_FILL_RR_FLOOR\<rparr>"

definition REGISTERED_RISK_POLICIES :: "(string, risk_policy) dict" where
  "REGISTERED_RISK_POLICIES =
    [(rp_version RISK_POLICY_V2_P5, RISK_POLICY_V2_P5), (rp_version RISK_POLICY_V2_FX, RISK_POLICY_V2_FX)]"

text \<open>\<open>None\<close> models both a missing and a non-string version.\<close>

definition registered_risk_policy :: "string option \<Rightarrow> risk_policy option" where
  "registered_risk_policy v = (case v of None \<Rightarrow> None | Some s \<Rightarrow> dget REGISTERED_RISK_POLICIES s)"

text \<open>The policy bound to a plan's R:R identity (\<open>plan.policy_version\<close>).\<close>

definition risk_policy_for :: "rr_policy \<Rightarrow> risk_policy" where
  "risk_policy_for pv = (if pv = POLICY_FX then RISK_POLICY_V2_FX else RISK_POLICY_V2_P5)"

definition stamps_registered_semantics :: "risk_policy \<Rightarrow> bool" where
  "stamps_registered_semantics p = (case registered_risk_policy (Some (rp_version p)) of
     None \<Rightarrow> False
   | Some r \<Rightarrow> rp_rr_policy p = rp_rr_policy r \<and> planned_rr p = planned_rr r
       \<and> minimum_actual_fill_rr p = minimum_actual_fill_rr r)"

section \<open>Facts\<close>

lemmas policy_defs = RISK_POLICY_V2_P5_def RISK_POLICY_V2_FX_def

lemma factor_P5 [simp]: "policy_fill_factor RISK_POLICY_V2_P5 = 8 / 7"
  by (simp add: policy_fill_factor_def fill_money_risk_factor_def policy_defs)

lemma factor_FX [simp]: "policy_fill_factor RISK_POLICY_V2_FX = 6 / 5"
  by (simp add: policy_fill_factor_def fill_money_risk_factor_def policy_defs fx_fill_floor FX_TP_RR_def)

lemma registered_cases:
  "registered_risk_policy v = Some p \<Longrightarrow>
   (p = RISK_POLICY_V2_P5 \<and> v = Some ''V2_P5_RISK_1'') \<or> (p = RISK_POLICY_V2_FX \<and> v = Some ''V2_P5_RISK_1_FX_2R'')"
  by (auto simp: registered_risk_policy_def REGISTERED_RISK_POLICIES_def policy_defs split: option.splits if_splits)

lemma registered_factor_ge_1: "registered_risk_policy v = Some p \<Longrightarrow> 1 < policy_fill_factor p"
  by (auto dest!: registered_cases)

lemma registered_P5 [simp]: "registered_risk_policy (Some ''V2_P5_RISK_1'') = Some RISK_POLICY_V2_P5"
  by (simp add: registered_risk_policy_def REGISTERED_RISK_POLICIES_def policy_defs)

lemma registered_FX [simp]: "registered_risk_policy (Some ''V2_P5_RISK_1_FX_2R'') = Some RISK_POLICY_V2_FX"
  by (simp add: registered_risk_policy_def REGISTERED_RISK_POLICIES_def policy_defs)

lemma stamps_registered_cases:
  assumes "stamps_registered_semantics p"
  shows "registered_risk_policy (Some (rp_version p)) \<noteq> None"
    and "policy_fill_factor p = 8 / 7 \<and> rp_rr_policy p = POLICY_V2_F3 \<and> planned_rr p = 3 \<and> rp_version p = ''V2_P5_RISK_1''
      \<or> policy_fill_factor p = 6 / 5 \<and> rp_rr_policy p = POLICY_FX \<and> planned_rr p = 2 \<and> rp_version p = ''V2_P5_RISK_1_FX_2R''"
proof -
  from assms obtain r where r: "registered_risk_policy (Some (rp_version p)) = Some r"
    "rp_rr_policy p = rp_rr_policy r" "planned_rr p = planned_rr r"
    "minimum_actual_fill_rr p = minimum_actual_fill_rr r"
    by (auto simp: stamps_registered_semantics_def split: option.splits)
  then show "registered_risk_policy (Some (rp_version p)) \<noteq> None" by simp
  from registered_cases [OF r(1)] r(2-4)
  show "policy_fill_factor p = 8 / 7 \<and> rp_rr_policy p = POLICY_V2_F3 \<and> planned_rr p = 3 \<and> rp_version p = ''V2_P5_RISK_1''
      \<or> policy_fill_factor p = 6 / 5 \<and> rp_rr_policy p = POLICY_FX \<and> planned_rr p = 2 \<and> rp_version p = ''V2_P5_RISK_1_FX_2R''"
    by (auto simp: policy_fill_factor_def fill_money_risk_factor_def policy_defs fx_fill_floor FX_TP_RR_def)
qed

lemma stamps_registered_risk_policy_for [simp]: "stamps_registered_semantics (risk_policy_for pv)"
  by (simp add: risk_policy_for_def stamps_registered_semantics_def registered_risk_policy_def
      REGISTERED_RISK_POLICIES_def policy_defs)

text \<open>With stop and target frozen, a fill keeps the ratio at or above the floor exactly when the actual
  risk stays within the factor: the derivation in the docstring of \<open>fill_money_risk_factor\<close>. \<open>d\<close>
  is the planned distance, \<open>p\<close> the planned ratio, \<open>x\<close> the adverse displacement of the fill.\<close>

lemma fill_factor_exact:
  fixes p f d x :: rat
  assumes "0 < 1 + f" and "0 < d + x"
  shows "f \<le> (p * d - x) / (d + x) \<longleftrightarrow> d + x \<le> d * fill_money_risk_factor p f"
proof -
  have "f \<le> (p * d - x) / (d + x) \<longleftrightarrow> f * (d + x) \<le> p * d - x"
    using assms(2) by (simp add: pos_le_divide_eq)
  also have "\<dots> \<longleftrightarrow> (d + x) * (1 + f) \<le> d * (1 + p)" by (auto simp: algebra_simps)
  also have "\<dots> \<longleftrightarrow> d + x \<le> d * (1 + p) / (1 + f)"
    using assms(1) by (simp add: pos_le_divide_eq)
  finally show ?thesis by (simp add: fill_money_risk_factor_def)
qed

section \<open>Properties\<close>

text \<open>
  The money-risk factor of a registered policy is the reward-to-risk floor in other terms. With the
  stop and the target frozen at the planned distances \<open>d\<close> and \<open>planned_rr * d\<close>, a fill displaced
  by \<open>x\<close> towards the target keeps the policy's fill floor exactly when its risk is at most the
  planned risk times the factor, and a fill at the floor has exactly that risk. Policies that only
  claim a registered version do not qualify.
\<close>

lemma registered_factor_is_fill_floor:
  assumes "registered_risk_policy v = Some p" and "0 < d" and "0 < d + x"
  shows "(minimum_actual_fill_rr p \<le> (planned_rr p * d - x) / (d + x) \<longleftrightarrow> d + x \<le> d * policy_fill_factor p)
    \<and> FILL_LIMITS (rp_rr_policy p) = Some (minimum_actual_fill_rr p, None)
    \<and> LIMITS (rp_rr_policy p) = Some (planned_rr p, Some (planned_rr p))
    \<and> stamps_registered_semantics p"
proof -
  have f: "0 < 1 + minimum_actual_fill_rr p" using registered_cases [OF assms(1)]
    by (auto simp: policy_defs fx_fill_floor)
  have "minimum_actual_fill_rr p \<le> (planned_rr p * d - x) / (d + x) \<longleftrightarrow> d + x \<le> d * policy_fill_factor p"
    using fill_factor_exact [OF f assms(3)] by (simp add: policy_fill_factor_def)
  moreover have "FILL_LIMITS (rp_rr_policy p) = Some (minimum_actual_fill_rr p, None)
    \<and> LIMITS (rp_rr_policy p) = Some (planned_rr p, Some (planned_rr p))
    \<and> stamps_registered_semantics p"
    using registered_cases [OF assms(1)]
    by (auto simp: policy_defs stamps_registered_semantics_def registered_risk_policy_def REGISTERED_RISK_POLICIES_def)
  ultimately show ?thesis by blast
qed

lemma registered_factor_is_fill_floor_witness:
  "5 / 2 \<le> (3 * 7 - 1) / (7 + 1 :: rat) \<longleftrightarrow> 7 + 1 \<le> 7 * policy_fill_factor RISK_POLICY_V2_P5"
  using registered_factor_is_fill_floor [of "Some ''V2_P5_RISK_1''" RISK_POLICY_V2_P5 7 1] by (simp add: policy_defs)

end
