(* ===== verification/PyTime.thy ===== *)
theory PyTime
  imports Prelude
begin

text \<open>
  Time. An aware \<open>datetime\<close> is the instant it denotes, in microseconds since the epoch
  (\<open>instant\<close>); a New York wall-clock time is microseconds since 1970-01-01 00:00 on that clock
  (\<open>wall\<close>). Two aware datetimes of the same zone compare by wall clock and of different zones by
  instant, as in Python. The zone is given by two offsets: the one in force at an instant
  (\<open>astimezone\<close>), and the one \<open>datetime.combine(..., tzinfo=NEW_YORK)\<close> picks for a wall time
  (\<open>fold=0\<close>). The locale \<open>ny_zone\<close> states what the code needs of a zone whose clock changes early
  on Sunday; \<open>America/New_York\<close> under the rule in force since 2007 is the instance.
\<close>

type_synonym instant = int
type_synonym wall = int

definition SECOND :: int where "SECOND = 1000000"
definition MINUTE :: int where "MINUTE = 60 * SECOND"
definition HOUR :: int where "HOUR = 60 * MINUTE"
definition DAY :: int where "DAY = 24 * HOUR"

lemmas unit_defs = SECOND_def MINUTE_def HOUR_def DAY_def

definition day_of :: "wall \<Rightarrow> int" where "day_of w = w div DAY"
definition tod :: "wall \<Rightarrow> int" where "tod w = w mod DAY"

text \<open>Day 0 is a Thursday; Monday is 0, as in \<open>date.weekday()\<close>.\<close>

definition weekday :: "int \<Rightarrow> int" where "weekday d = (d + 3) mod 7"

abbreviation (input) FRIDAY :: int where "FRIDAY \<equiv> 4"
abbreviation (input) SATURDAY :: int where "SATURDAY \<equiv> 5"
abbreviation (input) SUNDAY :: int where "SUNDAY \<equiv> 6"

definition combine :: "int \<Rightarrow> int \<Rightarrow> wall" where "combine d t = d * DAY + t"

lemma wall_split: "w = day_of w * DAY + tod w"
  by (simp add: day_of_def tod_def)

lemma tod_bounds: "0 \<le> tod w" "tod w < DAY"
  by (simp_all add: tod_def unit_defs)

lemma day_of_combine [simp]: "0 \<le> t \<Longrightarrow> t < DAY \<Longrightarrow> day_of (combine d t) = d"
  by (simp add: day_of_def combine_def unit_defs)

lemma tod_combine [simp]: "0 \<le> t \<Longrightarrow> t < DAY \<Longrightarrow> tod (combine d t) = t"
  by (simp add: tod_def combine_def)

lemma combine_day_tod [simp]: "combine (day_of w) (tod w) = w"
  using wall_split [of w] by (simp add: combine_def)

lemma weekday_bounds: "0 \<le> weekday d" "weekday d < 7"
  by (simp_all add: weekday_def)

section \<open>The calendar\<close>

definition leap :: "int \<Rightarrow> bool" where
  "leap y \<longleftrightarrow> y mod 4 = 0 \<and> (y mod 100 \<noteq> 0 \<or> y mod 400 = 0)"

text \<open>The day numbers of January 1st, March 8th and November 1st of a year.\<close>

definition jan1 :: "int \<Rightarrow> int" where
  "jan1 y = 365 * (y - 1970) + (y - 1) div 4 - (y - 1) div 100 + (y - 1) div 400 - 477"

definition mar8 :: "int \<Rightarrow> int" where "mar8 y = jan1 y + 66 + (if leap y then 1 else 0)"
definition nov1 :: "int \<Rightarrow> int" where "nov1 y = jan1 y + 304 + (if leap y then 1 else 0)"

definition year_of :: "int \<Rightarrow> int" where
  "year_of d = (let y = 1970 + (400 * d) div 146097 in
     if d < jan1 y then y - 1 else if jan1 (y + 1) \<le> d then y + 1 else y)"

definition sunday_from :: "int \<Rightarrow> int" where
  "sunday_from d = d + (6 - weekday d)"

definition dst_start :: "int \<Rightarrow> int" where
  "dst_start y = sunday_from (mar8 y)"

definition dst_end :: "int \<Rightarrow> int" where
  "dst_end y = sunday_from (nov1 y)"

definition ny_off_utc :: "instant \<Rightarrow> int" where
  "ny_off_utc t = (let s = t - 5 * HOUR; y = year_of (day_of s) in
     if combine (dst_start y) (2 * HOUR) \<le> s \<and> s < combine (dst_end y) HOUR then - (4 * HOUR) else - (5 * HOUR))"

definition ny_off_wall :: "wall \<Rightarrow> int" where
  "ny_off_wall w = (let y = year_of (day_of w) in
     if combine (dst_start y) (3 * HOUR) \<le> w \<and> w < combine (dst_end y) (2 * HOUR) then - (4 * HOUR) else - (5 * HOUR))"

definition local :: "instant \<Rightarrow> wall" where "local t = t + ny_off_utc t"
definition to_utc :: "wall \<Rightarrow> instant" where "to_utc w = w - ny_off_wall w"

text \<open>A wall time outside the hours in which the clock changes.\<close>

definition settled :: "wall \<Rightarrow> bool" where
  "settled w \<longleftrightarrow> weekday (day_of w) \<noteq> SUNDAY \<or> 3 * HOUR \<le> tod w"

locale ny_zone =
  fixes loc :: "instant \<Rightarrow> wall" and utc :: "wall \<Rightarrow> instant"
  assumes loc_utc: "settled w \<Longrightarrow> loc (utc w) = w"
    and utc_loc: "settled (loc t) \<Longrightarrow> utc (loc t) = t"
    and utc_mono: "settled v \<Longrightarrow> settled w \<Longrightarrow> v < w \<Longrightarrow> utc v < utc w"
    and loc_lower: "t - 5 * HOUR \<le> loc t" and loc_upper: "loc t \<le> t - 4 * HOUR"
    and utc_lower: "w + 4 * HOUR \<le> utc w" and utc_upper: "utc w \<le> w + 5 * HOUR"
begin

lemma utc_less_iff: "settled v \<Longrightarrow> settled w \<Longrightarrow> utc v < utc w \<longleftrightarrow> v < w"
  using utc_mono by (metis less_irrefl linorder_less_linear order_less_trans)

lemma utc_le_iff: "settled v \<Longrightarrow> settled w \<Longrightarrow> utc v \<le> utc w \<longleftrightarrow> v \<le> w"
  using utc_less_iff by (meson leD leI)

lemma utc_less_instant: "settled w \<Longrightarrow> settled (loc t) \<Longrightarrow> utc w < t \<longleftrightarrow> w < loc t"
  using utc_less_iff [of w "loc t"] utc_loc by simp

lemma instant_less_utc: "settled w \<Longrightarrow> settled (loc t) \<Longrightarrow> t < utc w \<longleftrightarrow> loc t < w"
  using utc_less_iff [of "loc t" w] utc_loc by simp

text \<open>The wall clock is monotone up to the hour of a clock change.\<close>

lemma loc_almost_mono: "s \<le> t \<Longrightarrow> loc s \<le> loc t + HOUR"
  using loc_upper [of s] loc_lower [of t] by (simp add: HOUR_def MINUTE_def SECOND_def)

end

section \<open>New York is such a zone\<close>

lemma weekday_sunday_from [simp]: "weekday (sunday_from d) = SUNDAY"
  unfolding sunday_from_def weekday_def by presburger

lemma weekday_dst [simp]: "weekday (dst_start y) = SUNDAY" "weekday (dst_end y) = SUNDAY"
  by (simp_all add: dst_start_def dst_end_def)

lemma day_of_sub: "0 \<le> h \<Longrightarrow> h \<le> tod w \<Longrightarrow> day_of (w - h) = day_of w"
proof -
  assume h: "0 \<le> h" "h \<le> tod w"
  have "w - h = combine (day_of w) (tod w - h)" using wall_split [of w] by (simp add: combine_def)
  then show ?thesis using h tod_bounds [of w] by simp
qed

lemma div_step: "0 < n \<Longrightarrow> y div n = (y - 1) div n + (if y mod n = 0 then 1 else (0::int))"
proof -
  assume n: "0 < n"
  have y: "y = n * (y div n) + y mod n" and r: "0 \<le> y mod n" "y mod n < n" using n by auto
  show ?thesis
  proof (cases "y mod n = 0")
    case True
    have "(y - 1) div n = y div n - 1"
      by (rule int_div_pos_eq [where r = "n - 1"]) (use n y True in \<open>auto simp: algebra_simps\<close>)
    then show ?thesis using True by simp
  next
    case False
    have "(y - 1) div n = y div n"
      by (rule int_div_pos_eq [where r = "y mod n - 1"]) (use n y r False in auto)
    then show ?thesis using False by simp
  qed
qed

lemma jan1_step: "jan1 y + 365 \<le> jan1 (y + 1)" "jan1 (y + 1) \<le> jan1 y + 366"
proof -
  have c: "y mod 400 = 0 \<Longrightarrow> y mod 100 = 0" "y mod 100 = 0 \<Longrightarrow> y mod 4 = 0"
    by (auto intro: dvd_trans [of 100 400 y] dvd_trans [of 4 100 y] simp: mod_eq_0_iff_dvd)
  define a b d where abd: "a = (y - 1) div 4" "b = (y - 1) div 100" "d = (y - 1) div 400"
  have "jan1 y = 365 * (y - 1970) + a - b + d - 477" by (simp add: jan1_def abd)
  moreover have "jan1 (y + 1) = 365 * (y + 1 - 1970) + (a + (if y mod 4 = 0 then 1 else 0))
     - (b + (if y mod 100 = 0 then 1 else 0)) + (d + (if y mod 400 = 0 then 1 else 0)) - 477"
    unfolding jan1_def abd using div_step [of 4 y] div_step [of 100 y] div_step [of 400 y]
    by (simp only: add_diff_cancel_right' zero_less_numeral simp_thms)
  ultimately show "jan1 y + 365 \<le> jan1 (y + 1)" "jan1 (y + 1) \<le> jan1 y + 366"
    using c by (auto simp del: zdiv_numeral_Bit0 zmod_numeral_Bit0 split: if_splits)
qed

lemma div_mod_bracket: "0 < n \<Longrightarrow> n * (k div n) \<le> k" "0 < n \<Longrightarrow> k < n * (k div n) + (n::int)"
proof -
  assume "0 < n"
  moreover have "k = n * (k div n) + k mod n" by simp
  ultimately show "n * (k div n) \<le> k" "k < n * (k div n) + n"
    using pos_mod_sign [of n k] pos_mod_bound [of n k] by linarith+
qed

lemma year_bracket: "jan1 (year_of d) \<le> d" "d < jan1 (year_of d + 1)"
proof -
  define y where "y = 1970 + (400 * d) div 146097"
  have d: "146097 * (y - 1970) \<le> 400 * d" "400 * d < 146097 * (y - 1970) + 146097"
    unfolding y_def by auto
  have j: "400 * jan1 y \<le> 146097 * (y - 1970) + 800" "146097 * (y - 1970) - 800 \<le> 400 * jan1 y"
  proof -
    define k p q r where "k = y - 1" and pqr: "p = k div 4" "q = k div 100" "r = k div 400"
    then have b: "4 * p \<le> k" "k < 4 * p + 4" "100 * q \<le> k" "k < 100 * q + 100"
      "400 * r \<le> k" "k < 400 * r + 400"
      unfolding pqr using div_mod_bracket [of 4 k] div_mod_bracket [of 100 k] div_mod_bracket [of 400 k]
      by simp_all
    have e: "400 * jan1 y = 146000 * (k - 1969) + (400 * p - 400 * q + 400 * r) - 190800"
      by (simp add: jan1_def k_def pqr)
    have up: "400 * p - 400 * q + 400 * r \<le> 97 * k + 396"
      using b(1,4,5) by linarith
    have low: "97 * k - 699 \<le> 400 * p - 400 * q + 400 * r"
      using b(2,3,6) by linarith
    show "400 * jan1 y \<le> 146097 * (y - 1970) + 800"
      unfolding e using up by (simp add: k_def)
    show "146097 * (y - 1970) - 800 \<le> 400 * jan1 y"
      unfolding e using low by (simp add: k_def)
  qed
  have s: "jan1 (y - 1) + 365 \<le> jan1 y" using jan1_step(1) [of "y - 1"] by simp
  have s2: "jan1 y + 365 \<le> jan1 (y + 1)" "jan1 (y + 1) + 365 \<le> jan1 (y + 1 + 1)"
    by (rule jan1_step)+
  show "jan1 (year_of d) \<le> d" "d < jan1 (year_of d + 1)"
    unfolding year_of_def Let_def y_def [symmetric] using d j s s2 by (auto simp: not_less)
qed

lemma jan1_mono: "y \<le> z \<Longrightarrow> jan1 y + 365 * (z - y) \<le> jan1 z"
proof (induction "nat (z - y)" arbitrary: z)
  case 0
  then show ?case by simp
next
  case (Suc n)
  have "jan1 y + 365 * (z - 1 - y) \<le> jan1 (z - 1)" using Suc.hyps(2) Suc.prems by (intro Suc.hyps(1)) auto
  with jan1_step(1) [of "z - 1"] show ?case by simp
qed

lemma year_of_eq: "jan1 y \<le> d \<Longrightarrow> d < jan1 (y + 1) \<Longrightarrow> year_of d = y"
proof (rule ccontr)
  assume y: "jan1 y \<le> d" "d < jan1 (y + 1)" and ne: "year_of d \<noteq> y"
  then consider "year_of d + 1 \<le> y" | "y + 1 \<le> year_of d" by linarith
  then show False
    using y year_bracket [of d] jan1_mono [of "year_of d + 1" y] jan1_mono [of "y + 1" "year_of d"]
    by cases auto
qed

lemma sunday_from_bounds: "d \<le> sunday_from d" "sunday_from d \<le> d + 6"
  using weekday_bounds [of d] by (auto simp: sunday_from_def)

lemma year_of_between: "jan1 y \<le> d \<Longrightarrow> d \<le> e \<Longrightarrow> year_of e = y \<Longrightarrow> year_of d = y"
  using year_bracket(2) [of e] by (intro year_of_eq) auto

lemma dst_in_year: "jan1 y \<le> dst_start y" "dst_start y < dst_end y" "dst_end y < jan1 (y + 1)"
  using sunday_from_bounds [of "mar8 y"] sunday_from_bounds [of "nov1 y"] jan1_step(1) [of y]
  by (auto simp: dst_start_def dst_end_def mar8_def nov1_def)

definition dst_day :: "int \<Rightarrow> bool" where
  "dst_day d \<longleftrightarrow> dst_start (year_of d) \<le> d \<and> d < dst_end (year_of d)"

lemma off_wall_settled:
  assumes "settled w"
  shows "ny_off_wall w = (if dst_day (day_of w) then - (4 * HOUR) else - (5 * HOUR))"
proof -
  define y a b where ab: "y = year_of (day_of w)" "a = dst_start y" "b = dst_end y"
  have "day_of w = a \<or> day_of w = b \<Longrightarrow> 3 * HOUR \<le> tod w"
    using assms weekday_dst [of y] by (auto simp: settled_def ab(2,3))
  then have "(combine a (3 * HOUR) \<le> w \<and> w < combine b (2 * HOUR)) = (a \<le> day_of w \<and> day_of w < b)"
    using tod_bounds [of w] wall_split [of w] unfolding combine_def unit_defs
    by (cases "day_of w" a rule: linorder_cases; cases "day_of w" b rule: linorder_cases) linarith+
  then show ?thesis by (simp add: ny_off_wall_def Let_def dst_day_def ab)
qed

text \<open>The wall clock loses at most the hour of a clock change, so it orders settled times as instants do.\<close>

lemma to_utc_mono:
  assumes v: "settled v" and w: "settled w" and lt: "v < w"
  shows "to_utc v < to_utc w"
proof (cases "dst_day (day_of w) \<and> \<not> dst_day (day_of v)")
  case False
  then show ?thesis using lt unfolding to_utc_def off_wall_settled [OF v] off_wall_settled [OF w]
    by (auto simp: unit_defs)
next
  case True
  define a where "a = dst_start (year_of (day_of w))"
  have d: "day_of v \<le> day_of w" using lt by (simp add: day_of_def unit_defs zdiv_mono1)
  have aw: "a \<le> day_of w" using True by (simp add: dst_day_def a_def)
  have va: "day_of v < a"
  proof (rule ccontr)
    assume "\<not> day_of v < a"
    then have av: "a \<le> day_of v" by simp
    have "year_of (day_of v) = year_of (day_of w)"
    proof (rule year_of_between)
      show "jan1 (year_of (day_of w)) \<le> day_of v"
        using dst_in_year(1) [of "year_of (day_of w)"] av unfolding a_def by (rule order_trans)
    qed (rule d, rule refl)
    then show False using True av d unfolding dst_day_def a_def by simp
  qed
  have "v + 3 * HOUR \<le> w"
  proof (cases "day_of w = a")
    case True
    then have "weekday (day_of w) = weekday a" by (rule arg_cong)
    then have "weekday (day_of w) = SUNDAY" by (simp add: a_def)
    then have "3 * HOUR \<le> tod w" using w by (simp add: settled_def)
    then show ?thesis using va True wall_split [of v] wall_split [of w] tod_bounds [of v]
      unfolding unit_defs by linarith
  next
    case False
    then show ?thesis using va aw wall_split [of v] wall_split [of w] tod_bounds [of v] tod_bounds [of w]
      unfolding unit_defs by linarith
  qed
  then show ?thesis unfolding to_utc_def off_wall_settled [OF v] off_wall_settled [OF w]
    using True by (simp add: unit_defs)
qed

text \<open>Instants to settled walls and back.\<close>

lemma combine_le_iff: "0 \<le> h \<Longrightarrow> h < DAY \<Longrightarrow>
    combine a h \<le> w \<longleftrightarrow> a < day_of w \<or> (day_of w = a \<and> h \<le> tod w)"
  using wall_split [of w] tod_bounds [of w] unfolding combine_def DAY_def HOUR_def MINUTE_def SECOND_def
  by (cases "day_of w" a rule: linorder_cases) linarith+

lemma less_combine_iff: "0 \<le> h \<Longrightarrow> h < DAY \<Longrightarrow>
    w < combine a h \<longleftrightarrow> day_of w < a \<or> (day_of w = a \<and> tod w < h)"
  using combine_le_iff [of h a w] by linarith

lemma day_of_le: "combine a 0 \<le> w \<Longrightarrow> a \<le> day_of w" "w < combine b 0 \<Longrightarrow> day_of w < b"
  using combine_le_iff [of 0 a w] less_combine_iff [of 0 w b] tod_bounds [of w]
  by (auto simp: unit_defs)

lemma settled_not_early: "settled w \<Longrightarrow> day_of w = dst_start y \<or> day_of w = dst_end y \<Longrightarrow> 3 * HOUR \<le> tod w"
  using weekday_dst [of y] by (metis settled_def)

lemma local_to_utc:
  assumes w: "settled w" shows "local (to_utc w) = w"
proof -
  define y a b where ab: "y = year_of (day_of w)" "a = dst_start y" "b = dst_end y"
  note early = settled_not_early [OF w, of y, folded ab(2,3)]
  have "ny_off_utc (to_utc w) = ny_off_wall w"
  proof (cases "dst_day (day_of w)")
    case True
    then have D: "a \<le> day_of w" "day_of w < b" by (simp_all add: dst_day_def ab)
    have s: "to_utc w - 5 * HOUR = w - HOUR"
      using True by (simp add: to_utc_def off_wall_settled [OF w])
    have lo: "combine a (2 * HOUR) \<le> w - HOUR" using D early wall_split [of w] tod_bounds [of w]
      unfolding combine_def unit_defs by (cases "day_of w = a") linarith+
    have hi: "w - HOUR < combine b HOUR" using D wall_split [of w] tod_bounds [of w]
      unfolding combine_def unit_defs by linarith
    have le: "day_of (w - HOUR) \<le> day_of w" by (simp add: day_of_def unit_defs zdiv_mono1)
    have ge: "a \<le> day_of (w - HOUR)" using lo by (intro day_of_le) (simp add: combine_def unit_defs)
    have "year_of (day_of (w - HOUR)) = y"
    proof (rule year_of_between)
      show "jan1 y \<le> day_of (w - HOUR)" using dst_in_year(1) [of y] ge unfolding ab(2) by (rule order_trans)
    qed (rule le, simp add: ab)
    then show ?thesis using lo hi True
      by (simp add: ny_off_utc_def Let_def s off_wall_settled [OF w] ab)
  next
    case False
    have s: "to_utc w - 5 * HOUR = w"
      using False by (simp add: to_utc_def off_wall_settled [OF w])
    have "\<not> (combine a (2 * HOUR) \<le> w \<and> w < combine b HOUR)"
      using False early by (auto simp: dst_day_def ab combine_le_iff less_combine_iff unit_defs)
    then have "ny_off_utc (to_utc w) = - (5 * HOUR)" unfolding ny_off_utc_def Let_def s ab by (rule if_not_P)
    then show ?thesis using False by (simp add: off_wall_settled [OF w])
  qed
  then show ?thesis by (simp add: local_def to_utc_def)
qed

lemma to_utc_local:
  assumes w: "settled (local t)" shows "to_utc (local t) = t"
proof -
  define s where "s = t - 5 * HOUR"
  define y a b where ab: "y = year_of (day_of s)" "a = dst_start y" "b = dst_end y"
  note early = settled_not_early [OF w, of y, folded ab(2,3)]
  have "ny_off_wall (local t) = ny_off_utc t"
  proof (cases "combine a (2 * HOUR) \<le> s \<and> s < combine b HOUR")
    case True
    then have off: "ny_off_utc t = - (4 * HOUR)" by (simp add: ny_off_utc_def Let_def s_def ab)
    then have l: "local t = s + HOUR" by (simp add: local_def s_def)
    have D: "a \<le> day_of (local t)" using True l by (intro day_of_le) (auto simp: combine_def unit_defs)
    have "\<not> combine b 0 \<le> local t"
    proof
      assume "combine b 0 \<le> local t"
      then have "day_of (local t) = b" "tod (local t) < 2 * HOUR"
        using True combine_le_iff [of 0 b "local t"] less_combine_iff [of "2 * HOUR" "local t" b]
        by (auto simp: l unit_defs combine_def)
      then show False using early by (simp add: unit_defs)
    qed
    then have Db: "day_of (local t) < b" by (intro day_of_le) simp
    have "year_of (day_of (local t)) = y" using D Db dst_in_year [of y] by (intro year_of_eq) (simp_all add: ab)
    then have "dst_day (day_of (local t))" using D Db by (simp add: dst_day_def ab)
    then show ?thesis by (simp add: off_wall_settled [OF w] off)
  next
    case False
    then have off: "ny_off_utc t = - (5 * HOUR)" unfolding ny_off_utc_def Let_def s_def ab by (rule if_not_P)
    then have l: "local t = s" by (simp add: local_def s_def)
    have "\<not> (a \<le> day_of s \<and> day_of s < b)"
      using False early by (auto simp: l combine_le_iff less_combine_iff unit_defs)
    then have "\<not> dst_day (day_of (local t))" by (simp add: dst_day_def ab l)
    then show ?thesis by (simp add: off_wall_settled [OF w] off)
  qed
  then show ?thesis by (simp add: local_def to_utc_def)
qed

interpretation ny: ny_zone local to_utc
  by unfold_locales
    (simp_all add: local_to_utc to_utc_local to_utc_mono,
     simp_all add: local_def to_utc_def ny_off_utc_def ny_off_wall_def Let_def unit_defs)

end
