(* ===== verification/Contracts.thy ===== *)
theory Contracts
  imports RiskPolicy PyTime
begin

text \<open>
  The data the components exchange: \<open>core/contracts.py\<close>, \<open>execution/contracts.py\<close> and the
  instrument catalogue \<open>data/instruments.py\<close>. Orders, positions and accounts are restored by a
  codec that refuses non-finite numbers, so their numbers are finite floats (\<open>rat\<close>); plans,
  decisions, instruments and bars are checked by the code before use, so their numbers are
  \<open>pynum\<close>. A time that is not an aware datetime is \<open>None\<close>.
\<close>

section \<open>\<open>core/contracts.py\<close>\<close>

record instrument_spec =
  i_symbol :: string
  i_asset_class :: string
  i_provider_symbol :: "string option"
  i_timezone :: string
  i_price_increment :: pynum
  i_quantity_increment :: pynum
  i_contract_multiplier :: pynum
  i_allowed_timeframes :: "string list"

record trade_plan =
  tp_symbol :: string
  tp_side :: side
  tp_timeframe :: string
  tp_entry :: pynum
  tp_stop :: pynum
  tp_target :: pynum
  tp_risk_reward :: pynum
  tp_run_id :: "string option"
  tp_as_of :: "instant option"
  tp_policy_version :: rr_policy
  tp_target_decision :: json

datatype decision_status = APPROVED | REJECTED_RISK | OtherStatus string

record risk_decision =
  rd_status :: decision_status
  rd_symbol :: string
  rd_side :: side
  rd_quantity :: pynum
  rd_capital_at_risk :: pynum
  rd_entry :: pynum
  rd_stop :: pynum
  rd_target :: pynum
  rd_reason :: string
  rd_equity :: pynum
  rd_risk_fraction :: pynum
  rd_multiplier :: pynum

record floor_report =
  fr_run_id :: string
  fr_as_of :: "instant option"
  fr_symbol :: string
  fr_trade_plan :: "trade_plan option"
  fr_risk_decision :: "risk_decision option"
  fr_final_status :: string

text \<open>A bar as the paper broker receives it (a dictionary whose values are not yet trusted).\<close>

record bar =
  b_symbol :: string
  b_timestamp :: "instant option"
  b_is_closed :: bool
  b_open :: pynum
  b_high :: pynum
  b_low :: pynum
  b_close :: pynum

section \<open>\<open>data/instruments.py\<close>\<close>

definition AUTHORIZED_TIMEFRAMES :: "string list" where
  "AUTHORIZED_TIMEFRAMES = [''1h'', ''15m'', ''5m'']"

definition validar_timeframe :: "pynum \<Rightarrow> bool" where
  "validar_timeframe v = (case v of PText s \<Rightarrow> s \<in> set AUTHORIZED_TIMEFRAMES | _ \<Rightarrow> False)"

definition catalogue_entry :: "string \<Rightarrow> string \<Rightarrow> string option \<Rightarrow> string \<times> instrument_spec" where
  "catalogue_entry symbol asset_class provider = (symbol,
     \<lparr>i_symbol = symbol, i_asset_class = asset_class, i_provider_symbol = provider, i_timezone = ''UTC'',
      i_price_increment = PNone, i_quantity_increment = PNone, i_contract_multiplier = PNone,
      i_allowed_timeframes = AUTHORIZED_TIMEFRAMES\<rparr>)"

definition INSTRUMENTS :: "(string, instrument_spec) dict" where
  "INSTRUMENTS =
    [catalogue_entry ''XAUUSD'' ''metals'' None, catalogue_entry ''NAS100'' ''index'' None,
     catalogue_entry ''EURUSD'' ''forex'' (Some ''EURUSD=X'')]"

section \<open>\<open>execution/contracts.py\<close>\<close>

datatype order_status = PENDING | FILLED | CANCELLED | REJECTED_ORDER

record paper_order =
  o_id :: string
  o_run_id :: string
  o_symbol :: string
  o_side :: side
  o_quantity :: rat
  o_planned_entry :: rat
  o_stop :: rat
  o_target :: rat
  o_multiplier :: "rat option"
  o_equity_at_submission :: "rat option"
  o_cost_rate :: rat
  o_as_of :: "instant option"
  o_status :: order_status
  o_risk_policy_version :: "string option"
  o_setup_id :: "string option"

record paper_fill =
  f_id :: string
  f_order_id :: string
  f_run_id :: string
  f_symbol :: string
  f_side :: side
  f_quantity :: rat
  f_planned_entry :: rat
  f_fill_price :: rat
  f_timestamp :: instant

datatype position_status = OPEN | CLOSED

record paper_position =
  p_id :: string
  p_origin_order_id :: string
  p_run_id :: string
  p_symbol :: string
  p_side :: side
  p_quantity :: rat
  p_planned_entry :: rat
  p_entry_price :: rat
  p_stop :: rat
  p_target :: rat
  p_opened_at :: "instant option"
  p_status :: position_status
  p_last_price :: "rat option"
  p_multiplier :: "rat option"
  p_cost_rate :: rat
  p_last_processed_at :: "instant option"
  p_setup_id :: "string option"
  p_initial_stop :: "rat option"
  p_duration_stage :: "string option"

record closed_trade =
  ct_id :: string
  ct_position_id :: string
  ct_run_id :: string
  ct_symbol :: string
  ct_side :: side
  ct_entry_price :: rat
  ct_exit_price :: rat
  ct_quantity :: rat
  ct_gross_pnl :: rat
  ct_cost :: rat
  ct_net_pnl :: rat
  ct_exited_at :: instant
  ct_reason :: string

record paper_account =
  a_id :: string
  a_starting_equity :: rat
  a_cash :: rat
  a_equity :: rat
  a_realized_pnl :: rat
  a_unrealized_pnl :: rat
  a_open_positions :: "(string, paper_position) dict"
  a_closed_trades :: "closed_trade list"

record journal_event =
  e_timestamp :: "instant option"
  e_run_id :: string
  e_symbol :: string
  e_entity_id :: string
  e_type :: string
  e_details :: json

definition valid_side :: "side \<Rightarrow> bool" where
  [guard_defs]: "valid_side sd \<longleftrightarrow> sd = LONG \<or> sd = SHORT"

text \<open>The \<open>__post_init__\<close> checks.\<close>

definition check_order :: "paper_order \<Rightarrow> py_error + paper_order" where
  "check_order od = (if valid_side (o_side od) then Inr od
     else Inl (ValueError ''PaperOrder side must be LONG or SHORT''))"

definition check_position :: "paper_position \<Rightarrow> py_error + paper_position" where
  "check_position p = (if valid_side (p_side p) then Inr p
     else Inl (ValueError ''PaperPosition side must be LONG or SHORT''))"

definition check_account :: "paper_account \<Rightarrow> py_error + paper_account" where
  "check_account a = (if 0 < a_starting_equity a then Inr a
     else Inl (ValueError ''starting_equity must be positive''))"

definition fill_slippage :: "paper_fill \<Rightarrow> rat" where
  "fill_slippage f = fl (f_fill_price f - f_planned_entry f)"

text \<open>\<open>_valid_multiplier\<close> and \<open>_valid\<close> on the finite numbers of an order or account.\<close>

definition valid_opt :: "rat option \<Rightarrow> bool" where
  "valid_opt m = (case m of None \<Rightarrow> False | Some x \<Rightarrow> 0 < x)"

lemma valid_opt_Some [simp]: "valid_opt (Some x) = (0 < x)"
  by (simp add: valid_opt_def)

lemma valid_opt_None [simp]: "\<not> valid_opt None"
  by (simp add: valid_opt_def)

lemma valid_optE: "valid_opt m \<Longrightarrow> (\<And>x. m = Some x \<Longrightarrow> 0 < x \<Longrightarrow> P) \<Longrightarrow> P"
  by (cases m) auto

lemma check_order_Inr [simp]: "check_order od = Inr od' \<longleftrightarrow> od' = od \<and> valid_side (o_side od)"
  by (auto simp: check_order_def)

lemma valid_sideE: "valid_side sd \<Longrightarrow> (sd = LONG \<Longrightarrow> P) \<Longrightarrow> (sd = SHORT \<Longrightarrow> P) \<Longrightarrow> P"
  by (auto simp: valid_side_def)

text \<open>The exact value of a number, as comparisons see it.\<close>

fun num_val :: "pynum \<Rightarrow> rat" where
  "num_val (PInt n) = of_int n"
| "num_val (PFloat x) = x"
| "num_val (PDec d) = d"
| "num_val _ = 0"

lemma valid_num_val: "valid_num v \<Longrightarrow> 0 < num_val v"
  by (cases v) auto

end
