(* ===== verification/TradeManager.thy ===== *)
theory TradeManager
  imports Contracts "HOL-Library.Multiset"
begin

text \<open>
  \<open>execution/trade_manager.py\<close>: the paper position life cycle. Prices, quantities and money are
  doubles: every operation is the exact one rounded by \<open>fl\<close>, in the order the code writes it.
  \<open>sum\<close> over floats is the compensated summation of CPython 3.12 and later (CI and the runbook pin
  3.13). The \<open>uuid4\<close> of a new trade is an argument.
\<close>

section \<open>Python's \<open>sum\<close> of floats\<close>

fun neumaier :: "rat \<Rightarrow> rat \<Rightarrow> rat list \<Rightarrow> rat" where
  "neumaier acc lo [] = (if lo = 0 then acc else fl (acc + lo))"
| "neumaier acc lo (x # xs) = (let t = fl (acc + x) in
     neumaier t (fl (lo + (if \<bar>x\<bar> \<le> \<bar>acc\<bar> then fl (fl (acc - t) + x) else fl (fl (x - t) + acc)))) xs)"

definition py_sum :: "rat list \<Rightarrow> rat" where
  "py_sum xs = (case xs of [] \<Rightarrow> 0 | x # ys \<Rightarrow> neumaier x 0 ys)"

section \<open>The bar\<close>

definition valid_ohlc :: "bar \<Rightarrow> bool" where
  "valid_ohlc b \<longleftrightarrow> valid_num (b_open b) \<and> valid_num (b_high b) \<and> valid_num (b_low b) \<and> valid_num (b_close b)
     \<and> num_val (b_low b) \<le> num_val (b_open b) \<and> num_val (b_open b) \<le> num_val (b_high b)
     \<and> num_val (b_low b) \<le> num_val (b_close b) \<and> num_val (b_close b) \<le> num_val (b_high b)"

section \<open>Money\<close>

definition mult_of :: "paper_position \<Rightarrow> rat" where
  "mult_of p = (case p_multiplier p of None \<Rightarrow> 0 | Some m \<Rightarrow> m)"

definition unrealized :: "paper_position \<Rightarrow> rat" where
  "unrealized p = (case p_last_price p of None \<Rightarrow> 0
   | Some lp \<Rightarrow> if \<not> valid_opt (p_multiplier p) then 0
       else fl (fl ((if p_side p = LONG then fl (lp - p_entry_price p) else fl (p_entry_price p - lp)) * p_quantity p) * mult_of p))"

definition make_closed_trade :: "string \<Rightarrow> paper_position \<Rightarrow> rat \<Rightarrow> instant \<Rightarrow> string \<Rightarrow> closed_trade" where
  "make_closed_trade tid p exit_price t reason =
    (let gross = fl (fl ((if p_side p = LONG then fl (exit_price - p_entry_price p) else fl (p_entry_price p - exit_price)) * p_quantity p) * mult_of p);
         cost = fl (fl (fl (p_cost_rate p * p_quantity p) * p_entry_price p) / 100)
     in \<lparr>ct_id = tid, ct_position_id = p_id p, ct_run_id = p_run_id p, ct_symbol = p_symbol p, ct_side = p_side p,
         ct_entry_price = p_entry_price p, ct_exit_price = exit_price, ct_quantity = p_quantity p,
         ct_gross_pnl = gross, ct_cost = cost, ct_net_pnl = fl (gross - cost), ct_exited_at = t, ct_reason = reason\<rparr>)"

text \<open>The marks every path recomputes: \<open>unrealized_pnl\<close>, then \<open>equity\<close>.\<close>

definition mark_to_market :: "paper_account \<Rightarrow> paper_account" where
  "mark_to_market a = (let u = py_sum (map unrealized (dvals (a_open_positions a))) in
     a\<lparr>a_unrealized_pnl := u, a_equity := fl (fl (a_starting_equity a + a_realized_pnl a) + u)\<rparr>)"

definition book_trade :: "string \<Rightarrow> closed_trade \<Rightarrow> paper_account \<Rightarrow> paper_account" where
  "book_trade symbol tr a = a\<lparr>a_realized_pnl := fl (a_realized_pnl a + ct_net_pnl tr),
     a_closed_trades := a_closed_trades a @ [tr], a_open_positions := ddel symbol (a_open_positions a)\<rparr>"

definition event :: "instant option \<Rightarrow> string \<Rightarrow> string \<Rightarrow> string \<Rightarrow> string \<Rightarrow> json \<Rightarrow> journal_event" where
  "event t run symbol entity ty details = \<lparr>e_timestamp = t, e_run_id = run, e_symbol = symbol, e_entity_id = entity,
     e_type = ty, e_details = details\<rparr>"

definition no_details :: json where "no_details = JObj []"

text \<open>The \<open>STOP_HIT\<close>/\<open>TARGET_HIT\<close> event of an exit, if its reason is one of the two.\<close>

definition hit_events :: "instant \<Rightarrow> string \<Rightarrow> string \<Rightarrow> string \<Rightarrow> string \<Rightarrow> journal_event list" where
  "hit_events t run symbol tid reason =
    (if reason = ''stop'' then [event (Some t) run symbol tid ''STOP_HIT'' no_details]
     else if reason = ''target'' then [event (Some t) run symbol tid ''TARGET_HIT'' no_details] else [])"

section \<open>A bar against the open positions\<close>

definition exit_of :: "paper_position \<Rightarrow> bar \<Rightarrow> (rat \<times> string) option" where
  "exit_of p b =
    (let op = num_val (b_open b); hi = num_val (b_high b); lo = num_val (b_low b);
         gap_stop = (if p_side p = LONG then op \<le> p_stop p else p_stop p \<le> op);
         gap_target = (if p_side p = LONG then p_target p \<le> op else op \<le> p_target p);
         stop_hit = (if p_side p = LONG then lo \<le> p_stop p else p_stop p \<le> hi);
         target_hit = (if p_side p = LONG then p_target p \<le> hi else lo \<le> p_target p)
     in if gap_stop then Some (to_float (b_open b), ''stop'')
        else if gap_target then Some (to_float (b_open b), ''target'')
        else if stop_hit then Some (p_stop p, ''stop'')
        else if target_hit then Some (p_target p, ''target'')
        else None)"

text \<open>The guards before a bar may touch a position.\<close>

definition bar_applies :: "string \<Rightarrow> paper_position \<Rightarrow> bar \<Rightarrow> instant \<Rightarrow> bool" where
  "bar_applies symbol p b ts \<longleftrightarrow> p_status p = OPEN \<and> valid_side (p_side p) \<and> b_symbol b = symbol
     \<and> (case p_opened_at p of None \<Rightarrow> False | Some o' \<Rightarrow> o' < ts) \<and> valid_opt (p_multiplier p)
     \<and> (case p_last_processed_at p of None \<Rightarrow> True | Some l \<Rightarrow> l < ts) \<and> valid_ohlc b"

type_synonym tm_state = "paper_account \<times> journal_event list \<times> closed_trade list"

definition process_position :: "string \<Rightarrow> bar \<Rightarrow> instant \<Rightarrow> string \<times> paper_position \<Rightarrow> tm_state \<Rightarrow> tm_state" where
  "process_position tid b ts sp st = (case sp of (symbol, p) \<Rightarrow> (case st of (a, journal, trades) \<Rightarrow>
     if \<not> bar_applies symbol p b ts then (a, journal, trades)
     else (case exit_of p b of
         None \<Rightarrow> (a\<lparr>a_open_positions := dput symbol
                     (p\<lparr>p_last_price := Some (to_float (b_close b)), p_last_processed_at := Some ts\<rparr>)
                     (a_open_positions a)\<rparr>, journal, trades)
       | Some (price, reason) \<Rightarrow>
           let tr = make_closed_trade tid p price ts reason in
           (book_trade symbol tr a,
            journal @ hit_events ts (p_run_id p) symbol tid reason
              @ [event (Some ts) (p_run_id p) symbol tid ''POSITION_CLOSED'' no_details],
            trades @ [tr]))))"

text \<open>\<open>process_bar\<close>. The loop runs over the positions as they were when it started.\<close>

definition process_bar :: "string \<Rightarrow> bar option \<Rightarrow> paper_account \<Rightarrow> tm_state" where
  "process_bar tid ob a = (case ob of None \<Rightarrow> (a, [], [])
   | Some b \<Rightarrow> (case b_timestamp b of None \<Rightarrow> (a, [], [])
     | Some ts \<Rightarrow> if \<not> b_is_closed b then (a, [], [])
         else (case foldl (\<lambda>st sp. process_position tid b ts sp st) (a, [], []) (a_open_positions a) of
             (a', journal, trades) \<Rightarrow> (mark_to_market a', journal, trades))))"

text \<open>\<open>close_position\<close>: an exit the caller prices. \<open>event_run\<close> is the deciding run, when it differs.
  A position that is not in the account raises (\<open>del\<close> of a missing key).\<close>

definition close_position ::
  "string \<Rightarrow> paper_position \<Rightarrow> rat \<Rightarrow> instant \<Rightarrow> string \<Rightarrow> string option \<Rightarrow> paper_account \<Rightarrow> py_error + tm_state" where
  "close_position tid p exit_price t reason event_run a =
    (if \<not> valid_opt (p_multiplier p) then Inl (ValueError ''invalid position contract multiplier'')
     else if dget (a_open_positions a) (p_symbol p) = None then Inl KeyError
     else let tr = make_closed_trade tid p exit_price t reason;
              run = (case event_run of None \<Rightarrow> p_run_id p | Some r \<Rightarrow> r)
          in Inr (mark_to_market (book_trade (p_symbol p) tr a),
              hit_events t run (p_symbol p) tid reason
                @ [event (Some t) run (p_symbol p) tid ''POSITION_CLOSED''
                     (if event_run = None then no_details else JObj [(''exit_reason'', JStr reason)])],
              [tr]))"

section \<open>Facts\<close>

lemma py_sum_single [simp]: "py_sum [x] = x" "py_sum [] = 0"
  by (simp_all add: py_sum_def)

lemma mark_to_market_simps [simp]:
  "a_open_positions (mark_to_market a) = a_open_positions a"
  "a_closed_trades (mark_to_market a) = a_closed_trades a"
  "a_realized_pnl (mark_to_market a) = a_realized_pnl a"
  "a_starting_equity (mark_to_market a) = a_starting_equity a"
  "a_cash (mark_to_market a) = a_cash a"
  by (simp_all add: mark_to_market_def Let_def)

lemma book_trade_simps [simp]:
  "a_open_positions (book_trade s tr a) = ddel s (a_open_positions a)"
  "a_closed_trades (book_trade s tr a) = a_closed_trades a @ [tr]"
  "a_realized_pnl (book_trade s tr a) = fl (a_realized_pnl a + ct_net_pnl tr)"
  "a_starting_equity (book_trade s tr a) = a_starting_equity a"
  "a_cash (book_trade s tr a) = a_cash a"
  by (simp_all add: book_trade_def)

definition marked :: "paper_account \<Rightarrow> bool" where
  "marked a \<longleftrightarrow> a_unrealized_pnl a = py_sum (map unrealized (dvals (a_open_positions a)))
     \<and> a_equity a = fl (fl (a_starting_equity a + a_realized_pnl a) + a_unrealized_pnl a)"

lemma marked_mark_to_market [simp]: "marked (mark_to_market a)"
  by (simp add: marked_def mark_to_market_def Let_def)

text \<open>Only the position under the bar's own symbol can be touched, so the loop acts at most once.\<close>

lemma process_position_other:
  "b_symbol b \<noteq> fst sp \<Longrightarrow> process_position tid b ts sp st = st"
  by (cases sp; cases st) (simp add: process_position_def bar_applies_def)

lemma foldl_other:
  "b_symbol b \<notin> fst ` set ps \<Longrightarrow> foldl (\<lambda>st sp. process_position tid b ts sp st) st ps = st"
  by (induction ps arbitrary: st) (auto simp: process_position_other)

lemma foldl_one:
  assumes "dkeys_ok ps"
  shows "foldl (\<lambda>st sp. process_position tid b ts sp st) st ps =
    (case dget ps (b_symbol b) of None \<Rightarrow> st | Some p \<Rightarrow> process_position tid b ts (b_symbol b, p) st)"
  using assms
proof (induction ps arbitrary: st)
  case (Cons sp ps)
  obtain k p where sp: "sp = (k, p)" by (cases sp)
  have d: "k \<notin> fst ` set ps" "dkeys_ok ps" using Cons.prems by (auto simp: dkeys_ok_def sp)
  show ?case
  proof (cases "k = b_symbol b")
    case True
    then show ?thesis using foldl_other [of b ps] d(1) by (simp add: sp)
  next
    case False
    then show ?thesis using Cons.IH [OF d(2)] process_position_other [of b sp] by (simp add: sp)
  qed
qed simp

lemma process_bar_eq:
  assumes "dkeys_ok (a_open_positions a)" and "b_timestamp b = Some ts" and "b_is_closed b"
  shows "process_bar tid (Some b) a =
    (case (case dget (a_open_positions a) (b_symbol b) of None \<Rightarrow> (a, [], [])
       | Some p \<Rightarrow> process_position tid b ts (b_symbol b, p) (a, [], [])) of
      (a', journal, trades) \<Rightarrow> (mark_to_market a', journal, trades))"
  by (simp add: process_bar_def assms foldl_one)

text \<open>The books: what was open is open or closed, and money follows the trades.\<close>

definition open_ids :: "paper_account \<Rightarrow> string multiset" where
  "open_ids a = image_mset p_id (mset (dvals (a_open_positions a)))"

definition books_follow :: "paper_account \<Rightarrow> paper_account \<Rightarrow> closed_trade list \<Rightarrow> bool" where
  "books_follow a a' trades \<longleftrightarrow>
     a_closed_trades a' = a_closed_trades a @ trades
     \<and> a_realized_pnl a' = foldl (\<lambda>r tr. fl (r + ct_net_pnl tr)) (a_realized_pnl a) trades
     \<and> a_starting_equity a' = a_starting_equity a \<and> a_cash a' = a_cash a
     \<and> open_ids a = open_ids a' + image_mset ct_position_id (mset trades)
     \<and> dkeys_ok (a_open_positions a')"

lemma mset_dvals_ddel:
  "dkeys_ok d \<Longrightarrow> dget d k = Some v \<Longrightarrow> mset (dvals d) = mset (dvals (ddel k d)) + {#v#}"
proof (induction d)
  case (Cons kv d)
  obtain k' v' where kv: "kv = (k', v')" by (cases kv)
  have d: "k' \<notin> fst ` set d" "dkeys_ok d" using Cons.prems by (auto simp: dkeys_ok_def kv)
  show ?case
  proof (cases "k' = k")
    case True
    then have "ddel k d = d" using d by (intro ddel_fresh) auto
    moreover have "ddel k (kv # d) = ddel k d" using True by (simp add: ddel_def kv)
    ultimately show ?thesis using True Cons.prems by (simp add: dvals_def kv)
  next
    case False
    then have "mset (dvals d) = mset (dvals (ddel k d)) + {#v#}" using Cons.IH [OF d(2)] Cons.prems(2) by (simp add: kv)
    moreover have "ddel k (kv # d) = kv # ddel k d" using False by (simp add: ddel_def kv)
    ultimately show ?thesis by (simp add: dvals_def kv)
  qed
qed simp

lemma mset_dvals_dput:
  "dkeys_ok d \<Longrightarrow> dget d k = Some v \<Longrightarrow> f v' = f v \<Longrightarrow> image_mset f (mset (dvals (dput k v' d))) = image_mset f (mset (dvals d))"
proof (induction d)
  case (Cons kv d)
  obtain k' w where kv: "kv = (k', w)" by (cases kv)
  show ?case using Cons by (cases "k' = k") (auto simp: kv dvals_def dkeys_ok_def)
qed simp

lemma books_follow_refl: "dkeys_ok (a_open_positions a) \<Longrightarrow> books_follow a a []"
  by (simp add: books_follow_def)

lemma books_follow_mark [simp]: "books_follow a (mark_to_market a') trades = books_follow a a' trades"
  by (simp add: books_follow_def open_ids_def)

lemma books_follow_book:
  assumes "dkeys_ok (a_open_positions a)" and "dget (a_open_positions a) sy = Some p" and "ct_position_id tr = p_id p"
  shows "books_follow a (book_trade sy tr a) [tr]"
  using assms mset_dvals_ddel [OF assms(1,2)] by (simp add: books_follow_def open_ids_def)

lemma books_follow_touch:
  assumes "dkeys_ok (a_open_positions a)" and "dget (a_open_positions a) sy = Some p" and "p_id p' = p_id p"
  shows "books_follow a (a\<lparr>a_open_positions := dput sy p' (a_open_positions a)\<rparr>) []"
  using assms mset_dvals_dput [OF assms(1,2), where f = p_id] by (simp add: books_follow_def open_ids_def)

lemma make_closed_trade_simps [simp]:
  "ct_id (make_closed_trade tid p x t r) = tid" "ct_position_id (make_closed_trade tid p x t r) = p_id p"
  "ct_exit_price (make_closed_trade tid p x t r) = x" "ct_reason (make_closed_trade tid p x t r) = r"
  "ct_exited_at (make_closed_trade tid p x t r) = t" "ct_symbol (make_closed_trade tid p x t r) = p_symbol p"
  by (simp_all add: make_closed_trade_def Let_def)

lemma process_bar_books:
  assumes "dkeys_ok (a_open_positions a)" and "process_bar tid ob a = (a', journal, trades)"
  shows "books_follow a a' trades \<and> (a' = a \<or> marked a') \<and> length trades \<le> 1"
proof (cases "\<exists>b ts. ob = Some b \<and> b_timestamp b = Some ts \<and> b_is_closed b")
  case False
  then show ?thesis using assms by (auto simp: process_bar_def books_follow_refl split: option.splits if_splits)
next
  case True
  then obtain b ts where b: "ob = Some b" "b_timestamp b = Some ts" "b_is_closed b" by blast
  show ?thesis
    using assms(2) books_follow_refl [OF assms(1)] books_follow_touch [OF assms(1)] books_follow_book [OF assms(1)]
    by (auto simp: b(1) process_bar_eq [OF assms(1) b(2,3)] process_position_def Let_def
        split: option.splits if_splits prod.splits)
qed

lemma close_position_books:
  assumes "dkeys_ok (a_open_positions a)" and "dget (a_open_positions a) (p_symbol p) = Some p"
    and "close_position tid p x t reason run a = Inr (a', journal, trades)"
  shows "books_follow a a' trades \<and> marked a' \<and> length trades = 1"
  using assms books_follow_book [OF assms(1,2)]
  by (auto simp: close_position_def Let_def split: if_splits)

lemma books_follow_trans:
  "books_follow a a' t1 \<Longrightarrow> books_follow a' a'' t2 \<Longrightarrow> books_follow a a'' (t1 @ t2)"
  by (auto simp: books_follow_def union_assoc union_commute)

text \<open>A sequence of bars and explicit exits, as the runtime interleaves them. A refused exit changes nothing.\<close>

datatype tm_op = OnBar string "bar option" | OnClose string string rat instant string "string option"

fun tm_step :: "tm_op \<Rightarrow> paper_account \<Rightarrow> paper_account \<times> closed_trade list" where
  "tm_step (OnBar tid ob) a = (case process_bar tid ob a of (a', journal, trades) \<Rightarrow> (a', trades))"
| "tm_step (OnClose tid symbol x t reason run) a = (case dget (a_open_positions a) symbol of
     None \<Rightarrow> (a, [])
   | Some p \<Rightarrow> if p_symbol p \<noteq> symbol then (a, [])
       else (case close_position tid p x t reason run a of
           Inl e \<Rightarrow> (a, []) | Inr (a', journal, trades) \<Rightarrow> (a', trades)))"

fun tm_run :: "tm_op list \<Rightarrow> paper_account \<Rightarrow> paper_account \<times> closed_trade list" where
  "tm_run [] a = (a, [])"
| "tm_run (x # xs) a = (case tm_step x a of (a1, t1) \<Rightarrow> (case tm_run xs a1 of (a2, t2) \<Rightarrow> (a2, t1 @ t2)))"

lemma tm_step_books:
  "dkeys_ok (a_open_positions a) \<Longrightarrow> tm_step x a = (a', t) \<Longrightarrow> books_follow a a' t \<and> (a' = a \<or> marked a')"
proof (cases x)
  case (OnBar tid ob)
  assume "dkeys_ok (a_open_positions a)" "tm_step x a = (a', t)"
  then show ?thesis using OnBar process_bar_books [of a tid ob] by (auto split: prod.splits)
next
  case (OnClose tid sy px tt reason run)
  assume a: "dkeys_ok (a_open_positions a)" "tm_step x a = (a', t)"
  show ?thesis
  proof (cases "dget (a_open_positions a) sy")
    case None
    then show ?thesis using a OnClose books_follow_refl [OF a(1)] by simp
  next
    case (Some p)
    show ?thesis using a OnClose Some books_follow_refl [OF a(1)] close_position_books [OF a(1), of p tid px tt reason run]
      by (auto split: sum.splits prod.splits if_splits)
  qed
qed

lemma tm_run_books:
  "dkeys_ok (a_open_positions a) \<Longrightarrow> tm_run xs a = (a', t) \<Longrightarrow> books_follow a a' t \<and> (a' = a \<or> marked a')"
proof (induction xs arbitrary: a a' t)
  case Nil
  then show ?case by (simp add: books_follow_refl)
next
  case (Cons x xs)
  obtain a1 t1 where s: "tm_step x a = (a1, t1)" by (metis surj_pair)
  obtain a2 t2 where r: "tm_run xs a1 = (a2, t2)" by (metis surj_pair)
  have b1: "books_follow a a1 t1 \<and> (a1 = a \<or> marked a1)" by (rule tm_step_books [OF Cons.prems(1) s])
  then have "books_follow a1 a2 t2 \<and> (a2 = a1 \<or> marked a2)" by (intro Cons.IH [OF _ r]) (simp add: books_follow_def)
  then show ?case using b1 Cons.prems(2) s r books_follow_trans [of a a1 t1 a2 t2] by auto
qed

section \<open>Properties\<close>

definition reaches_stop :: "paper_position \<Rightarrow> bar \<Rightarrow> bool" where
  "reaches_stop p b \<longleftrightarrow> (if p_side p = LONG then num_val (b_low b) \<le> p_stop p else p_stop p \<le> num_val (b_high b))"

definition reaches_target :: "paper_position \<Rightarrow> bar \<Rightarrow> bool" where
  "reaches_target p b \<longleftrightarrow> (if p_side p = LONG then p_target p \<le> num_val (b_high b) else num_val (b_low b) \<le> p_target p)"

definition opens_past_target :: "paper_position \<Rightarrow> bar \<Rightarrow> bool" where
  "opens_past_target p b \<longleftrightarrow> (if p_side p = LONG then p_target p \<le> num_val (b_open b) else num_val (b_open b) \<le> p_target p)"

lemma to_float_val: "valid_num v \<Longrightarrow> to_float v = fl (num_val v) \<or> to_float v = num_val v"
  by (cases v) auto

lemma to_float_le: "valid_num v \<Longrightarrow> fl x = x \<Longrightarrow> num_val v \<le> x \<Longrightarrow> to_float v \<le> x"
  using to_float_val [of v] fl53.le_fixed [of x "num_val v"] by auto

lemma le_to_float: "valid_num v \<Longrightarrow> fl x = x \<Longrightarrow> x \<le> num_val v \<Longrightarrow> x \<le> to_float v"
  using to_float_val [of v] fl53.fixed_le [of x "num_val v"] by auto

text \<open>
  C7. A bar closes a position exactly when its range reaches the stop or the target, and pessimistically.
  For a position the bar applies to: no exit means neither level was reached and the bar is recorded as
  processed; an exit at the stop is at the stop or worse and an exit at the target is at the target or
  better; unless the bar opened past the target, reaching the stop makes the exit a stop even if the
  target was also reached.
\<close>

theorem bar_exit_is_pessimistic:
  assumes "dkeys_ok (a_open_positions a)" and "dget (a_open_positions a) (b_symbol b) = Some p"
    and "b_timestamp b = Some ts" and "b_is_closed b" and "bar_applies (b_symbol b) p b ts"
    and "fl (p_stop p) = p_stop p" and "fl (p_target p) = p_target p" 
    and "if p_side p = LONG then p_stop p < p_target p else p_target p < p_stop p"
  shows "case process_bar tid (Some b) a of (a', journal, trades) \<Rightarrow>
    (case trades of
       [] \<Rightarrow> \<not> reaches_stop p b \<and> \<not> reaches_target p b \<and> dget (a_open_positions a') (b_symbol b) =
             Some (p\<lparr>p_last_price := Some (to_float (b_close b)), p_last_processed_at := Some ts\<rparr>)
     | tr # rest \<Rightarrow> rest = [] \<and> dget (a_open_positions a') (b_symbol b) = None \<and> ct_position_id tr = p_id p
         \<and> ct_exited_at tr = ts
         \<and> (if reaches_stop p b \<and> \<not> opens_past_target p b then ct_reason tr = ''stop'' \<and>
               (if p_side p = LONG then ct_exit_price tr \<le> p_stop p else p_stop p \<le> ct_exit_price tr)
            else reaches_target p b \<and> ct_reason tr = ''target'' \<and>
               (if p_side p = LONG then p_target p \<le> ct_exit_price tr else ct_exit_price tr \<le> p_target p)))"
proof -
  have o: "valid_ohlc b" "valid_side (p_side p)" using assms(5) by (auto simp: bar_applies_def)
  have e: "case exit_of p b of None \<Rightarrow> \<not> reaches_stop p b \<and> \<not> reaches_target p b
     | Some (x, r) \<Rightarrow> (if reaches_stop p b \<and> \<not> opens_past_target p b then r = ''stop'' \<and> (if p_side p = LONG then x \<le> p_stop p else p_stop p \<le> x)
         else reaches_target p b \<and> r = ''target'' \<and> (if p_side p = LONG then p_target p \<le> x else x \<le> p_target p))"
    using o assms(6-8) to_float_le [of "b_open b"] le_to_float [of "b_open b"]
    by (auto simp: exit_of_def reaches_stop_def reaches_target_def opens_past_target_def valid_ohlc_def Let_def)
  show ?thesis unfolding process_bar_eq [OF assms(1,3,4)] assms(2) option.case process_position_def prod.case
    using assms(5) e by (auto simp: Let_def split: option.splits)
qed

definition demo_position :: paper_position where
  "demo_position = \<lparr>p_id = ''pos'', p_origin_order_id = ''ord'', p_run_id = ''run'', p_symbol = ''EURUSD'', p_side = LONG,
     p_quantity = 1000, p_planned_entry = 1, p_entry_price = 1, p_stop = 1/2, p_target = 2, p_opened_at = Some 0,
     p_status = OPEN, p_last_price = Some 1, p_multiplier = Some 1, p_cost_rate = 0, p_last_processed_at = None,
     p_setup_id = None, p_initial_stop = None, p_duration_stage = None\<rparr>"

definition demo_account :: paper_account where
  "demo_account = \<lparr>a_id = ''paper'', a_starting_equity = 10000, a_cash = 10000, a_equity = 10000, a_realized_pnl = 0,
     a_unrealized_pnl = 0, a_open_positions = [(''EURUSD'', demo_position)], a_closed_trades = []\<rparr>"

text \<open>A bar that opens at the entry and reaches both levels.\<close>

definition demo_ohlc :: "instant \<Rightarrow> bar" where
  "demo_ohlc t = \<lparr>b_symbol = ''EURUSD'', b_timestamp = Some t, b_is_closed = True, b_open = PFloat 1, b_high = PFloat 2,
     b_low = PFloat (1/4), b_close = PFloat 1\<rparr>"

theorem bar_exit_is_pessimistic_witness:
  "case process_bar ''t1'' (Some (demo_ohlc 5)) demo_account of (a', journal, trades) \<Rightarrow>
     map ct_reason trades = [''stop''] \<and> map ct_exit_price trades = [1/2]"
proof -
  have f: "fl (p_stop demo_position) = p_stop demo_position" "fl (p_target demo_position) = p_target demo_position"
    by code_simp+
  have "process_bar ''t1'' (Some (demo_ohlc 5)) demo_account = (a', journal, trades) \<Longrightarrow>
      map ct_reason trades = [''stop''] \<and> map ct_exit_price trades = [1/2]" for a' journal trades
  proof -
    assume e: "process_bar ''t1'' (Some (demo_ohlc 5)) demo_account = (a', journal, trades)"
    have "map ct_exit_price (snd (snd (process_bar ''t1'' (Some (demo_ohlc 5)) demo_account))) = [1/2]" by code_simp
    then have x: "map ct_exit_price trades = [1/2]" by (simp only: e snd_conv)
    then obtain tr where tr: "trades = [tr]" by auto
    show ?thesis
      using bar_exit_is_pessimistic [of demo_account "demo_ohlc 5" demo_position 5 "''t1''"] f e x
      by (simp add: tr demo_account_def demo_ohlc_def demo_position_def dkeys_ok_def bar_applies_def valid_ohlc_def
          valid_side_def reaches_stop_def opens_past_target_def)
  qed
  then show ?thesis by (cases "process_bar ''t1'' (Some (demo_ohlc 5)) demo_account") auto
qed

text \<open>
  C8. The books balance over every sequence of bars and explicit exits, refused ones included: no position is
  lost or duplicated (each position that left the open set is exactly one closed trade), the closed
  trades are only appended to, realized profit is the running sum of their net results in order,
  starting equity and cash never move, and equity is starting equity plus realized plus unrealized
  of the positions still open.
\<close>

theorem books_balance:
  assumes "dkeys_ok (a_open_positions a)" and "marked a" and "tm_run ops a = (a', trades)"
  shows "a_closed_trades a' = a_closed_trades a @ trades
    \<and> a_realized_pnl a' = foldl (\<lambda>r tr. fl (r + ct_net_pnl tr)) (a_realized_pnl a) trades
    \<and> a_starting_equity a' = a_starting_equity a \<and> a_cash a' = a_cash a
    \<and> open_ids a = open_ids a' + image_mset ct_position_id (mset trades)
    \<and> a_unrealized_pnl a' = py_sum (map unrealized (dvals (a_open_positions a')))
    \<and> a_equity a' = fl (fl (a_starting_equity a' + a_realized_pnl a') + a_unrealized_pnl a')"
  using tm_run_books [OF assms(1,3)] assms(2) unfolding books_follow_def marked_def by auto

theorem books_balance_witness:
  "open_ids demo_account = {#''pos''#} \<and>
   open_ids (fst (tm_run [OnBar ''t1'' (Some (demo_ohlc 5)), OnClose ''t2'' ''EURUSD'' 1 6 ''x'' None] demo_account)) = {#}"
proof
  show o: "open_ids demo_account = {#''pos''#}" by (simp add: open_ids_def demo_account_def demo_position_def dvals_def)
  define r where "r = tm_run [OnBar ''t1'' (Some (demo_ohlc 5)), OnClose ''t2'' ''EURUSD'' 1 6 ''x'' None] demo_account"
  have m: "dkeys_ok (a_open_positions demo_account)" "marked demo_account"
    by (simp add: demo_account_def dkeys_ok_def, unfold marked_def, code_simp)
  have t: "map ct_position_id (snd r) = [''pos'']" unfolding r_def by code_simp
  have "open_ids demo_account = open_ids (fst r) + image_mset ct_position_id (mset (snd r))"
    using books_balance [OF m, of _ "fst r" "snd r"] unfolding r_def by (metis prod.collapse)
  moreover have "image_mset ct_position_id (mset (snd r)) = {#''pos''#}" using t by (metis mset_map mset_single_iff)
  ultimately show "open_ids (fst (tm_run [OnBar ''t1'' (Some (demo_ohlc 5)), OnClose ''t2'' ''EURUSD'' 1 6 ''x'' None] demo_account)) = {#}"
    using o unfolding r_def by simp
qed

end
