(* ===== verification/PaperBroker.thy ===== *)
theory PaperBroker
  imports TradeManager
begin

text \<open>
  \<open>execution/paper_broker.py\<close> and \<open>stamp_fx_order\<close> of \<open>core/risk_policy.py\<close>. \<open>process_next_bar\<close>
  mutates the order object the broker holds, so it takes the order's key. \<open>uuid4\<close> ids are
  arguments. Orders carry floats: a validated integer of a decision or instrument enters as the
  float of its value.
\<close>

record broker =
  br_account :: paper_account
  br_instrument :: "instrument_spec option"
  br_rr_policy :: "rr_policy option"
  br_last_geometry :: json
  br_orders :: "(string, paper_order) dict"
  br_fills :: "(string, paper_fill) dict"
  br_journal :: "journal_event list"

definition new_broker :: "paper_account \<Rightarrow> instrument_spec option \<Rightarrow> rr_policy option \<Rightarrow> broker" where
  "new_broker a i p = \<lparr>br_account = a, br_instrument = i, br_rr_policy = p, br_last_geometry = JNull, br_orders = [],
     br_fills = [], br_journal = []\<rparr>"

definition log_event :: "instant option \<Rightarrow> string \<Rightarrow> string \<Rightarrow> string \<Rightarrow> string \<Rightarrow> json \<Rightarrow> broker \<Rightarrow> broker" where
  "log_event t run symbol entity ty details br = br\<lparr>br_journal := br_journal br @ [event t run symbol entity ty details]\<rparr>"

section \<open>Submission\<close>

definition submittable :: "floor_report \<Rightarrow> trade_plan \<Rightarrow> risk_decision \<Rightarrow> bool" where
  "submittable r plan d \<longleftrightarrow> fr_final_status r = ''PLAN_READY'' \<and> rd_status d = APPROVED
     \<and> tp_run_id plan = Some (fr_run_id r) \<and> rd_symbol d = fr_symbol r \<and> rd_side d = tp_side plan
     \<and> valid_side (rd_side d) \<and> tp_as_of plan \<noteq> None"

definition order_values_ok :: "broker \<Rightarrow> floor_report \<Rightarrow> risk_decision \<Rightarrow> bool" where
  "order_values_ok br r d \<longleftrightarrow> valid_num (rd_quantity d) \<and> valid_num (rd_entry d) \<and> valid_num (rd_stop d) \<and> valid_num (rd_target d)
     \<and> (case br_instrument br of None \<Rightarrow> False
        | Some i \<Rightarrow> valid_num (i_contract_multiplier i) \<and> rd_symbol d = i_symbol i)
     \<and> 0 < a_equity (br_account br) \<and> dget (a_open_positions (br_account br)) (fr_symbol r) = None"

definition instrument_multiplier :: "broker \<Rightarrow> rat" where
  "instrument_multiplier br = (case br_instrument br of None \<Rightarrow> 0 | Some i \<Rightarrow> to_float (i_contract_multiplier i))"

definition order_of_decision :: "string \<Rightarrow> broker \<Rightarrow> floor_report \<Rightarrow> trade_plan \<Rightarrow> risk_decision \<Rightarrow> paper_order" where
  "order_of_decision oid br r plan d =
    \<lparr>o_id = oid, o_run_id = fr_run_id r, o_symbol = fr_symbol r, o_side = rd_side d, o_quantity = to_float (rd_quantity d),
     o_planned_entry = to_float (rd_entry d), o_stop = to_float (rd_stop d), o_target = to_float (rd_target d),
     o_multiplier = Some (instrument_multiplier br), o_equity_at_submission = Some (a_equity (br_account br)),
     o_cost_rate = 0, o_as_of = tp_as_of plan, o_status = PENDING, o_risk_policy_version = None, o_setup_id = None\<rparr>"

definition order_of_run :: "string \<Rightarrow> broker \<Rightarrow> paper_order option" where
  "order_of_run run br = find (\<lambda>od. o_run_id od = run) (dvals (br_orders br))"

text \<open>\<open>as_of\<close> is \<open>None\<close> when it is not an aware datetime.\<close>

definition submit_plan :: "string \<Rightarrow> floor_report option \<Rightarrow> instant option \<Rightarrow> broker \<Rightarrow> paper_order option \<times> broker" where
  "submit_plan oid report as_of br = (case (report, as_of) of
     (Some r, Some t) \<Rightarrow> (case (fr_trade_plan r, fr_risk_decision r) of
         (Some plan, Some d) \<Rightarrow>
           if \<not> submittable r plan d then (None, br)
           else (case order_of_run (fr_run_id r) br of
               Some od \<Rightarrow> (Some od, br)
             | None \<Rightarrow> if \<not> order_values_ok br r d then (None, br)
                 else let od = order_of_decision oid br r plan d in
                   (Some od, log_event (Some t) (o_run_id od) (o_symbol od) oid ''ORDER_SUBMITTED'' no_details
                      (br\<lparr>br_orders := dput oid od (br_orders br)\<rparr>)))
       | _ \<Rightarrow> (None, br))
   | _ \<Rightarrow> (None, br))"

definition stamp_fx_order :: "trade_plan option \<Rightarrow> paper_order option \<Rightarrow> paper_order option" where
  "stamp_fx_order plan ood = (case (ood, plan) of
     (Some od, Some p) \<Rightarrow> if tp_policy_version p = POLICY_FX
       then Some (od\<lparr>o_risk_policy_version := Some (rp_version RISK_POLICY_V2_FX)\<rparr>) else ood
   | _ \<Rightarrow> ood)"

section \<open>The fill gate\<close>

definition jtext :: "rat option \<Rightarrow> json" where
  "jtext d = (case d of None \<Rightarrow> JStr ''None'' | Some v \<Rightarrow> JDec v)"

definition jgeom :: "(geom \<Rightarrow> rat) \<Rightarrow> string + geom \<Rightarrow> json" where
  "jgeom f g = (case g of Inl _ \<Rightarrow> JNull | Inr x \<Rightarrow> JDec (f x))"

text \<open>\<open>_fill_check\<close>: the rejection reason, the actual geometry and the telemetry.\<close>

definition fill_check :: "paper_order \<Rightarrow> rat \<Rightarrow> rr_policy \<Rightarrow> py_error + string option \<times> geom option \<times> (string \<times> json) list" where
  "fill_check od fill_price policy = (case FILL_LIMITS policy of None \<Rightarrow> Inl KeyError
   | Some (fl_floor, _) \<Rightarrow>
     let planned = geometry (o_side od) (PFloat (o_planned_entry od)) (PFloat (o_stop od)) (PFloat (o_target od));
         actual = geometry (o_side od) (PFloat fill_price) (PFloat (o_stop od)) (PFloat (o_target od));
         entry = to_decimal (PFloat (o_planned_entry od));
         fill = to_decimal (PFloat fill_price);
         adverse = (case (entry, fill) of (Some e, Some f) \<Rightarrow> Some (if o_side od = LONG then dec28 (f - e) else dec28 (e - f)) | _ \<Rightarrow> None);
         telemetry =
          [(''policy'', JStr (policy_name policy)), (''planned_entry'', jdec_opt entry), (''fill_price'', jdec_opt fill),
           (''stop'', jtext (to_decimal (PFloat (o_stop od)))), (''target'', jtext (to_decimal (PFloat (o_target od)))),
           (''planned_rr'', jgeom g_rr planned), (''actual_risk'', jgeom g_risk actual), (''actual_reward'', jgeom g_reward actual),
           (''actual_fill_rr'', jgeom g_rr actual), (''fill_rr_floor'', JDec fl_floor), (''displacement_price'', jdec_opt adverse),
           (''displacement_r'', case (adverse, planned) of (Some a, Inr p) \<Rightarrow> JDec (dec28 (a / g_risk p)) | _ \<Rightarrow> JNull),
           (''fill_direction'', case adverse of None \<Rightarrow> JNull
              | Some a \<Rightarrow> JStr (if 0 < a then ''ADVERSE'' else if a < 0 then ''FAVORABLE'' else ''EQUAL''))]
     in case actual of
          Inl why \<Rightarrow> Inr (Some ''fill_invalid_geometry'', None, telemetry @ [(''geometry_error'', JStr why)])
        | Inr g \<Rightarrow> Inr (if classify_in FILL_LIMITS (g_rr g) policy \<noteq> Inr WITHIN_POLICY then Some ''fill_rr_below_minimum'' else None,
                         Some g, telemetry))"

text \<open>The money of an order at a price distance, exactly.\<close>

definition order_money :: "rat \<Rightarrow> rat \<Rightarrow> rat \<Rightarrow> rat" where
  "order_money distance quantity multiplier = distance * quantity * multiplier"

text \<open>\<open>_fill_money_check\<close> (DEC-5.7): the reason and the telemetry it adds. \<open>_text\<close> divides in the default
  context. A planned distance of zero raises in the ratio.\<close>

definition fill_money_check ::
  "paper_order \<Rightarrow> geom option \<Rightarrow> risk_policy \<Rightarrow> py_error + string option \<times> (string \<times> json) list" where
  "fill_money_check od actual p =
    (case (to_decimal (PFloat (o_planned_entry od)), to_decimal (PFloat (o_stop od)), to_decimal (PFloat (o_quantity od)),
           (case o_multiplier od of None \<Rightarrow> None | Some m \<Rightarrow> to_decimal (PFloat m)), actual) of
       (Some e, Some s, Some q, Some m, Some g) \<Rightarrow>
         let planned = order_money \<bar>e - s\<bar> q m; money = order_money (g_risk g) q m;
             limit = planned * policy_fill_factor p
         in if planned = 0 then Inl ZeroDivision
            else Inr (if limit < money then Some ''fill_money_risk_above_limit'' else None,
              [(''risk_policy_version'', JStr (rp_version p)), (''fill_money_risk_factor'', JDec (policy_fill_factor p)),
               (''planned_money_risk'', JDec (dec28 planned)), (''actual_fill_money_risk'', JDec (dec28 money)),
               (''maximum_fill_money_risk'', JDec (dec28 limit)), (''fill_money_risk_ratio'', JDec (dec28 (money / planned)))])
     | _ \<Rightarrow> Inr (Some ''post_fill_risk_or_geometry'', []))"

definition per_unit_risk :: "paper_order \<Rightarrow> rat \<Rightarrow> rat" where
  "per_unit_risk od fill = (if o_side od = LONG then fl (fill - o_stop od) else fl (o_stop od - fill))"

definition per_unit_reward :: "paper_order \<Rightarrow> rat \<Rightarrow> rat" where
  "per_unit_reward od fill = (if o_side od = LONG then fl (o_target od - fill) else fl (fill - o_target od))"

definition one_percent :: "rat \<Rightarrow> rat" where
  "one_percent equity = fl (equity * fl (1 / 100))"

definition order_multiplier :: "paper_order \<Rightarrow> rat" where
  "order_multiplier od = (case o_multiplier od of None \<Rightarrow> 0 | Some m \<Rightarrow> m)"

definition real_risk :: "paper_order \<Rightarrow> rat \<Rightarrow> rat" where
  "real_risk od fill = fl (fl (per_unit_risk od fill * o_quantity od) * order_multiplier od)"

definition equities_valid :: "broker \<Rightarrow> paper_order \<Rightarrow> bool" where
  "equities_valid br od \<longleftrightarrow> 0 < a_equity (br_account br) \<and> valid_opt (o_equity_at_submission od)"

definition above_one_percent :: "broker \<Rightarrow> paper_order \<Rightarrow> rat \<Rightarrow> bool" where
  "above_one_percent br od fill \<longleftrightarrow> one_percent (a_equity (br_account br)) < real_risk od fill
     \<or> (case o_equity_at_submission od of None \<Rightarrow> True | Some e \<Rightarrow> one_percent e < real_risk od fill)"

text \<open>The policy under which an order is filled: its own registered one, or the broker's.\<close>

definition fill_policy :: "broker \<Rightarrow> paper_order \<Rightarrow> string + rr_policy option \<times> risk_policy option" where
  "fill_policy br od = (case o_risk_policy_version od of
     Some v \<Rightarrow> (case registered_risk_policy (Some v) of None \<Rightarrow> Inl ''unknown_order_risk_policy''
       | Some p \<Rightarrow> Inr (Some (rp_rr_policy p), Some p))
   | None \<Rightarrow> Inr (br_rr_policy br, if br_rr_policy br = Some POLICY_V2_F3 then Some RISK_POLICY_V2_P5 else None))"

text \<open>The gate: a rejection reason or none, and the geometry it leaves in \<open>last_fill_geometry\<close>.\<close>

definition v1_rejected :: "broker \<Rightarrow> paper_order \<Rightarrow> rat \<Rightarrow> bool" where
  "v1_rejected br od fill \<longleftrightarrow> \<not> equities_valid br od \<or> per_unit_risk od fill \<le> 0 \<or> per_unit_reward od fill \<le> 0
     \<or> fl (per_unit_reward od fill / per_unit_risk od fill) < 3 \<or> above_one_percent br od fill"

definition fill_gate ::
  "broker \<Rightarrow> paper_order \<Rightarrow> rat \<Rightarrow> rr_policy option \<Rightarrow> risk_policy option \<Rightarrow> py_error + string option \<times> json" where
  "fill_gate br od fill policy rp = (case policy of
     None \<Rightarrow> Inr (if v1_rejected br od fill then Some ''post_fill_risk_or_geometry'' else None, br_last_geometry br)
   | Some pol \<Rightarrow> (case fill_check od fill pol of Inl e \<Rightarrow> Inl e
     | Inr (reason, actual, tel) \<Rightarrow>
         if reason \<noteq> None then Inr (reason, JObj tel)
         else if \<not> equities_valid br od then Inr (Some ''post_fill_risk_or_geometry'', JObj tel)
         else (case (if pol = POLICY_V2_F3 then rp else None) of
             Some p \<Rightarrow> (case fill_money_check od actual p of Inl e \<Rightarrow> Inl e
               | Inr (r, extra) \<Rightarrow> Inr (r, JObj (tel @ extra)))
           | None \<Rightarrow> Inr (if above_one_percent br od fill then Some ''post_fill_risk_or_geometry'' else None, JObj tel))))"

section \<open>A bar against a pending order\<close>

definition set_status :: "order_status \<Rightarrow> string \<Rightarrow> broker \<Rightarrow> broker" where
  "set_status s oid br = (case dget (br_orders br) oid of None \<Rightarrow> br
   | Some od \<Rightarrow> br\<lparr>br_orders := dput oid (od\<lparr>o_status := s\<rparr>) (br_orders br)\<rparr>)"

definition jreason :: "string \<Rightarrow> json" where "jreason r = JObj [(''reason'', JStr r)]"

definition finish_order :: "order_status \<Rightarrow> instant option \<Rightarrow> string \<Rightarrow> paper_order \<Rightarrow> json \<Rightarrow> broker \<Rightarrow> broker" where
  "finish_order s t oid od details br =
     log_event t (o_run_id od) (o_symbol od) oid (if s = CANCELLED then ''ORDER_CANCELLED'' else ''ORDER_REJECTED'') details
       (set_status s oid br)"

definition position_of_fill :: "string \<Rightarrow> paper_order \<Rightarrow> rat \<Rightarrow> instant \<Rightarrow> paper_position" where
  "position_of_fill pid od fill t =
    \<lparr>p_id = pid, p_origin_order_id = o_id od, p_run_id = o_run_id od, p_symbol = o_symbol od, p_side = o_side od,
     p_quantity = o_quantity od, p_planned_entry = o_planned_entry od, p_entry_price = fill, p_stop = o_stop od,
     p_target = o_target od, p_opened_at = Some t, p_status = OPEN, p_last_price = Some fill, p_multiplier = o_multiplier od,
     p_cost_rate = o_cost_rate od, p_last_processed_at = None, p_setup_id = o_setup_id od, p_initial_stop = None,
     p_duration_stage = None\<rparr>"

definition open_fill :: "string \<Rightarrow> string \<Rightarrow> string \<Rightarrow> paper_order \<Rightarrow> rat \<Rightarrow> instant \<Rightarrow> bool \<Rightarrow> broker \<Rightarrow> paper_position \<times> broker" where
  "open_fill fid pid oid od fill t v2 br =
    (let f = \<lparr>f_id = fid, f_order_id = o_id od, f_run_id = o_run_id od, f_symbol = o_symbol od, f_side = o_side od,
              f_quantity = o_quantity od, f_planned_entry = o_planned_entry od, f_fill_price = fill, f_timestamp = t\<rparr>;
         p = position_of_fill pid od fill t;
         a = br_account br;
         br1 = (set_status FILLED oid br)\<lparr>br_fills := dput fid f (br_fills br),
                 br_account := a\<lparr>a_open_positions := dput (o_symbol od) p (a_open_positions a)\<rparr>\<rparr>;
         br2 = log_event (Some t) (o_run_id od) (o_symbol od) fid ''ORDER_FILLED''
                 (if v2 then JObj [(''fill_geometry'', br_last_geometry br)] else no_details) br1
     in (p, log_event (Some t) (o_run_id od) (o_symbol od) pid ''POSITION_OPENED'' no_details br2))"

definition bar_usable :: "paper_order \<Rightarrow> bar option \<Rightarrow> bool" where
  "bar_usable od ob \<longleftrightarrow> (case ob of None \<Rightarrow> False
   | Some b \<Rightarrow> b_symbol b = o_symbol od \<and> b_timestamp b \<noteq> None \<and> o_as_of od \<noteq> None \<and> b_is_closed b \<and> valid_ohlc b)"

definition bar_time :: "bar option \<Rightarrow> instant option" where
  "bar_time ob = (case ob of None \<Rightarrow> None | Some b \<Rightarrow> b_timestamp b)"

text \<open>\<open>process_next_bar\<close>. The last branch is the fill.\<close>

definition process_next_bar ::
  "string \<Rightarrow> string \<Rightarrow> string \<Rightarrow> bar option \<Rightarrow> broker \<Rightarrow> py_error + paper_position option \<times> broker" where
  "process_next_bar fid pid oid ob br = (case dget (br_orders br) oid of
     None \<Rightarrow> Inr (None, br)
   | Some od \<Rightarrow>
     if o_status od \<noteq> PENDING then Inr (None, br)
     else if \<not> valid_side (o_side od) \<or> \<not> valid_opt (o_multiplier od)
     then Inr (None, finish_order REJECTED_ORDER None oid od (jreason ''invalid_order_contract'') br)
     else if \<not> bar_usable od ob
     then Inr (None, finish_order CANCELLED (bar_time ob) oid od (jreason ''invalid_fill_bar'') br)
     else (case (ob, bar_time ob, o_as_of od) of
       (Some b, Some t, Some as_of) \<Rightarrow>
         if t \<le> as_of then Inr (None, finish_order CANCELLED (Some t) oid od (jreason ''bar_not_after_as_of'') br)
         else let fill = to_float (b_open b) in
           (case fill_policy br od of
             Inl r \<Rightarrow> Inr (None, finish_order REJECTED_ORDER (Some t) oid od (jreason r) br)
           | Inr (policy, rp) \<Rightarrow> (case fill_gate br od fill policy rp of
               Inl e \<Rightarrow> Inl e
             | Inr (Some r, geo) \<Rightarrow>
                 Inr (None, finish_order REJECTED_ORDER (Some t) oid od
                   (if policy = None then jreason r else JObj [(''reason'', JStr r), (''fill_geometry'', geo)])
                   (br\<lparr>br_last_geometry := geo\<rparr>))
             | Inr (None, geo) \<Rightarrow>
                 (case open_fill fid pid oid od fill t (policy \<noteq> None) (br\<lparr>br_last_geometry := geo\<rparr>) of
                   (p, br') \<Rightarrow> Inr (Some p, br'))))
     | _ \<Rightarrow> Inr (None, br)))"

section \<open>Explicit exits\<close>

definition close_market ::
  "string \<Rightarrow> string \<Rightarrow> pynum \<Rightarrow> instant option \<Rightarrow> string \<Rightarrow> string \<Rightarrow> broker \<Rightarrow> py_error + closed_trade \<times> broker" where
  "close_market tid symbol price as_of reason run br = (case as_of of
     None \<Rightarrow> Inl (ValueError ''invalid paper market exit'')
   | Some t \<Rightarrow> if \<not> valid_num price then Inl (ValueError ''invalid paper market exit'')
     else (case dget (a_open_positions (br_account br)) symbol of None \<Rightarrow> Inl KeyError
       | Some p \<Rightarrow> if p_status p \<noteq> OPEN \<or> (case p_opened_at p of None \<Rightarrow> True | Some o' \<Rightarrow> t \<le> o')
           then Inl (ValueError ''invalid paper position exit'')
           else (case close_position tid p (to_float price) t reason (Some run) (br_account br) of
               Inl e \<Rightarrow> Inl e
             | Inr (a, journal, trades) \<Rightarrow>
                 Inr (hd trades, br\<lparr>br_account := a, br_journal := br_journal br @ journal\<rparr>))))"

section \<open>Facts: the fill gate\<close>

lemmas fill_defs = fill_check_def fill_gate_def fill_policy_def Let_def

text \<open>What an accepting gate means, policy by policy.\<close>

lemma fill_check_accepts:
  assumes "fill_check od fill pol = Inr (None, actual, tel)"
  obtains g f c where "geometry (o_side od) (PFloat fill) (PFloat (o_stop od)) (PFloat (o_target od)) = Inr g"
    "actual = Some g" "FILL_LIMITS pol = Some (f, c)" "classify_in FILL_LIMITS (g_rr g) pol = Inr WITHIN_POLICY"
  using assms by (auto simp: fill_check_def Let_def split: option.splits sum.splits if_splits prod.splits)

lemma fill_money_check_accepts:
  assumes "fill_money_check od actual p = Inr (None, extra)"
  obtains m g where "o_multiplier od = Some m" "actual = Some g" "0 < repr_dec m" "0 < repr_dec (o_quantity od)"
    "g_risk g * repr_dec (o_quantity od) * repr_dec m
      \<le> \<bar>repr_dec (o_planned_entry od) - repr_dec (o_stop od)\<bar> * repr_dec (o_quantity od) * repr_dec m * policy_fill_factor p"
  using assms
  by (auto simp: fill_money_check_def order_money_def Let_def not_less split: option.splits if_splits)

lemma fill_gate_accepts_v2:
  assumes "fill_gate br od fill (Some pol) rp = Inr (None, geo)"
  obtains g f c where "geometry (o_side od) (PFloat fill) (PFloat (o_stop od)) (PFloat (o_target od)) = Inr g"
    "FILL_LIMITS pol = Some (f, c)" "classify_in FILL_LIMITS (g_rr g) pol = Inr WITHIN_POLICY" "equities_valid br od"
    "\<And>p. pol = POLICY_V2_F3 \<Longrightarrow> rp = Some p \<Longrightarrow> (\<exists>extra. fill_money_check od (Some g) p = Inr (None, extra))"
    "pol \<noteq> POLICY_V2_F3 \<Longrightarrow> \<not> above_one_percent br od fill"
proof -
  obtain actual tel where fc: "fill_check od fill pol = Inr (None, actual, tel)" and eq: "equities_valid br od"
    and rest: "case (if pol = POLICY_V2_F3 then rp else None) of
        Some p \<Rightarrow> \<exists>extra. fill_money_check od actual p = Inr (None, extra) | None \<Rightarrow> \<not> above_one_percent br od fill"
    using assms by (auto simp: fill_gate_def split: sum.splits option.splits if_splits prod.splits)
  obtain g f c where g: "geometry (o_side od) (PFloat fill) (PFloat (o_stop od)) (PFloat (o_target od)) = Inr g"
    "actual = Some g" "FILL_LIMITS pol = Some (f, c)" "classify_in FILL_LIMITS (g_rr g) pol = Inr WITHIN_POLICY"
    using fill_check_accepts [OF fc] by metis
  show ?thesis
    by (rule that [OF g(1,3,4) eq]) (use rest g(2) in \<open>auto split: option.splits if_splits\<close>)
qed

lemma process_next_bar_fills:
  assumes "process_next_bar fid pid oid ob br = Inr (Some p, br')"
  obtains od b t policy rp geo where "dget (br_orders br) oid = Some od" "o_status od = PENDING" "ob = Some b"
    "b_timestamp b = Some t" "fill_policy br od = Inr (policy, rp)"
    "fill_gate br od (to_float (b_open b)) policy rp = Inr (None, geo)" "valid_side (o_side od)"
    "valid_opt (o_multiplier od)" "\<exists>s. o_as_of od = Some s \<and> s < t" "b_is_closed b" "b_symbol b = o_symbol od"
    "open_fill fid pid oid od (to_float (b_open b)) t (policy \<noteq> None) (br\<lparr>br_last_geometry := geo\<rparr>) = (p, br')"
proof -
  obtain od where od: "dget (br_orders br) oid = Some od" "o_status od = PENDING" "valid_side (o_side od)"
      "valid_opt (o_multiplier od)" "bar_usable od ob"
    using assms by (auto simp: process_next_bar_def split: option.splits if_splits)
  obtain b t s where b: "ob = Some b" "b_timestamp b = Some t" "o_as_of od = Some s" "b_is_closed b" "b_symbol b = o_symbol od"
    using od(5) by (auto simp: bar_usable_def split: option.splits)
  have "s < t" using assms od b
    by (auto simp: process_next_bar_def bar_time_def split: if_splits)
  moreover obtain policy rp where pol: "fill_policy br od = Inr (policy, rp)"
    using assms od b \<open>s < t\<close>
    by (auto simp: process_next_bar_def bar_time_def Let_def split: sum.splits)
  moreover obtain geo where "fill_gate br od (to_float (b_open b)) policy rp = Inr (None, geo)"
    and "open_fill fid pid oid od (to_float (b_open b)) t (policy \<noteq> None) (br\<lparr>br_last_geometry := geo\<rparr>) = (p, br')"
    using assms od b \<open>s < t\<close> pol
    by (auto simp: process_next_bar_def bar_time_def Let_def split: sum.splits option.splits prod.splits)
  ultimately show ?thesis using that od b by blast
qed

text \<open>With the target at most \<open>planned_rr\<close> times the stop distance away, the fill floor bounds the risk.\<close>

lemma floor_bounds_risk:
  fixes e s t x f p :: rat
  assumes "0 < 1 + f" and side: "s < x \<and> x < t \<and> s < e \<and> e < t \<or> t < x \<and> x < s \<and> t < e \<and> e < s"
    and planned: "\<bar>t - e\<bar> \<le> p * \<bar>e - s\<bar>" and fl_ok: "f * \<bar>x - s\<bar> \<le> \<bar>t - x\<bar>"
  shows "\<bar>x - s\<bar> \<le> \<bar>e - s\<bar> * fill_money_risk_factor p f"
proof -
  have "\<bar>t - x\<bar> + \<bar>x - s\<bar> = \<bar>t - e\<bar> + \<bar>e - s\<bar>" using side by auto
  then have "\<bar>x - s\<bar> * (1 + f) \<le> \<bar>e - s\<bar> * (1 + p)" using planned fl_ok by (simp add: algebra_simps)
  then have "\<bar>x - s\<bar> \<le> \<bar>e - s\<bar> * (1 + p) / (1 + f)" using assms(1) by (simp add: pos_le_divide_eq)
  then show ?thesis by (simp add: fill_money_risk_factor_def)
qed

section \<open>Facts: the order life cycle\<close>

definition filled_ids :: "broker \<Rightarrow> string set" where
  "filled_ids br = f_order_id ` set (dvals (br_fills br))"

definition broker_ok :: "broker \<Rightarrow> bool" where
  "broker_ok br \<longleftrightarrow> dkeys_ok (br_orders br) \<and> dkeys_ok (br_fills br)
     \<and> distinct (map o_run_id (dvals (br_orders br))) \<and> distinct (map f_order_id (dvals (br_fills br)))
     \<and> (\<forall>k od. dget (br_orders br) k = Some od \<longrightarrow> o_id od = k \<and> (o_status od = FILLED \<longleftrightarrow> k \<in> filled_ids br))
     \<and> (\<forall>k \<in> filled_ids br. dget (br_orders br) k \<noteq> None)"

text \<open>The steps of one broker, ids fresh as \<open>uuid4\<close> makes them.\<close>

inductive broker_step :: "broker \<Rightarrow> broker \<Rightarrow> bool" where
  submit: "dget (br_orders br) oid = None \<Longrightarrow> submit_plan oid r t br = (res, br') \<Longrightarrow> broker_step br br'"
| next_bar: "dget (br_fills br) fid = None \<Longrightarrow> process_next_bar fid pid oid ob br = Inr (res, br') \<Longrightarrow> broker_step br br'"
| close: "close_market tid symbol price t reason run br = Inr (tr, br') \<Longrightarrow> broker_step br br'"
| on_bar: "process_bar tid ob (br_account br) = (a, journal, trades) \<Longrightarrow>
    broker_step br (br\<lparr>br_account := a, br_journal := br_journal br @ journal\<rparr>)"

inductive_cases broker_stepE: "broker_step br br'"

text \<open>An order that is no longer pending never changes again.\<close>

definition frozen :: "broker \<Rightarrow> broker \<Rightarrow> bool" where
  "frozen br br' \<longleftrightarrow> (\<forall>k od. dget (br_orders br) k = Some od \<longrightarrow>
     (\<exists>od'. dget (br_orders br') k = Some od' \<and> o_run_id od' = o_run_id od \<and> (o_status od \<noteq> PENDING \<longrightarrow> od' = od)))
     \<and> (\<exists>new. br_journal br' = br_journal br @ new)
     \<and> (\<forall>k f. dget (br_fills br) k = Some f \<longrightarrow> dget (br_fills br') k = Some f)"

lemma frozen_refl: "frozen br br"
  by (auto simp: frozen_def)

lemma frozen_trans: "frozen a b \<Longrightarrow> frozen b c \<Longrightarrow> frozen a c"
proof -
  assume ab: "frozen a b" and bc: "frozen b c"
  have "\<exists>od'. dget (br_orders c) k = Some od' \<and> o_run_id od' = o_run_id od \<and> (o_status od \<noteq> PENDING \<longrightarrow> od' = od)"
    if "dget (br_orders a) k = Some od" for k od
    using that ab bc unfolding frozen_def by metis
  moreover have "\<exists>new. br_journal c = br_journal a @ new"
    using ab bc by (auto simp: frozen_def)
  moreover have "dget (br_fills c) k = Some f" if "dget (br_fills a) k = Some f" for k f
    using that ab bc unfolding frozen_def by blast
  ultimately show ?thesis unfolding frozen_def by blast
qed

lemma log_event_simps [simp]:
  "br_orders (log_event t r s e ty d br) = br_orders br" "br_fills (log_event t r s e ty d br) = br_fills br"
  "br_account (log_event t r s e ty d br) = br_account br"
  "br_journal (log_event t r s e ty d br) = br_journal br @ [event t r s e ty d]"
  by (simp_all add: log_event_def)

lemma set_status_simps [simp]:
  "br_fills (set_status s k br) = br_fills br" "br_account (set_status s k br) = br_account br"
  "br_journal (set_status s k br) = br_journal br"
  by (auto simp: set_status_def split: option.splits)

lemma dvals_dput_map: "dget d k = Some v \<Longrightarrow> dkeys_ok d \<Longrightarrow> f v' = f v \<Longrightarrow> map f (dvals (dput k v' d)) = map f (dvals d)"
  by (induction k v' d rule: dput.induct) (auto simp: dvals_def dkeys_ok_def)

lemma in_set_dput: "dkeys_ok d \<Longrightarrow> (k', v') \<in> set (dput k v d) \<longleftrightarrow> (if k' = k then v' = v else (k', v') \<in> set d)"
  by (induction k v d rule: dput.induct) (auto simp: dkeys_ok_def rev_image_eqI)

lemma dvals_dput_fresh: "dget d k = None \<Longrightarrow> dvals (dput k v d) = dvals d @ [v]"
  by (induction k v d rule: dput.induct) (auto simp: dvals_def split: if_splits)

lemma dget_in_set: "dget d k = Some v \<Longrightarrow> (k, v) \<in> set d"
  by (rule map_of_SomeD)

lemma frozen_same_orders:
  "br_orders br' = br_orders br \<Longrightarrow> br_fills br' = br_fills br \<Longrightarrow> br_journal br' = br_journal br @ new \<Longrightarrow> frozen br br'"
  by (simp add: frozen_def)

lemma broker_ok_cong: "br_orders br' = br_orders br \<Longrightarrow> br_fills br' = br_fills br \<Longrightarrow> broker_ok br' = broker_ok br"
  by (simp add: broker_ok_def filled_ids_def)

text \<open>Changing the status of a pending order.\<close>

lemma pending_not_filled:
  "broker_ok br \<Longrightarrow> dget (br_orders br) oid = Some od \<Longrightarrow> o_status od = PENDING \<Longrightarrow> o_id od = oid \<and> oid \<notin> filled_ids br"
  unfolding broker_ok_def by (metis order_status.distinct(1))

lemma filled_ids_cong: "br_fills br' = br_fills br \<Longrightarrow> filled_ids br' = filled_ids br"
  by (simp add: filled_ids_def)

lemma retag_ok:
  assumes ok: "broker_ok br" and od: "dget (br_orders br) oid = Some od"
    and od': "o_id od' = o_id od" "o_run_id od' = o_run_id od"
    and o: "br_orders br' = dput oid od' (br_orders br)"
    and f: "dkeys_ok (br_fills br')" "distinct (map f_order_id (dvals (br_fills br')))"
    and fi: "filled_ids br' = (if o_status od' = FILLED then insert oid (filled_ids br) else filled_ids br - {oid})"
  shows "broker_ok br'"
proof -
  have "map o_run_id (dvals (br_orders br')) = map o_run_id (dvals (br_orders br))"
    unfolding o using ok od' by (intro dvals_dput_map [OF od]) (simp_all add: broker_ok_def)
  then show ?thesis using ok od od' f fi by (auto simp: broker_ok_def o split: if_splits)
qed

lemma set_status_ok:
  assumes ok: "broker_ok br" and od: "dget (br_orders br) oid = Some od" and pend: "o_status od = PENDING" and s: "s \<noteq> FILLED"
  shows "broker_ok (set_status s oid br)"
  by (rule retag_ok [OF ok od, of "od\<lparr>o_status := s\<rparr>"])
    (use ok od s pending_not_filled [OF ok od pend] in \<open>auto simp: set_status_def broker_ok_def filled_ids_def\<close>)

lemma set_status_frozen:
  "dget (br_orders br) oid = Some od \<Longrightarrow> o_status od = PENDING \<Longrightarrow> frozen br (set_status s oid br)"
  by (auto simp: frozen_def set_status_def)

lemma finish_order_ok:
  assumes "broker_ok br" "dget (br_orders br) oid = Some od" "o_status od = PENDING" "s \<noteq> FILLED"
  shows "broker_ok (finish_order s t oid od d br) \<and> frozen br (finish_order s t oid od d br)"
proof
  show "broker_ok (finish_order s t oid od d br)"
    using set_status_ok [OF assms] broker_ok_cong [of "finish_order s t oid od d br" "set_status s oid br"]
    by (simp add: finish_order_def)
  show "frozen br (finish_order s t oid od d br)"
    by (rule frozen_trans [OF set_status_frozen [OF assms(2,3), of s]]) (simp add: finish_order_def frozen_def)
qed

lemma open_fill_ok:
  assumes ok: "broker_ok br" and od: "dget (br_orders br) oid = Some od" and pend: "o_status od = PENDING"
    and fid: "dget (br_fills br) fid = None" and o: "open_fill fid pid oid od x t v2 br = (p, br')"
  shows "broker_ok br' \<and> frozen br br'"
proof -
  note key = pending_not_filled [OF ok od pend]
  obtain f where b: "br_orders br' = dput oid (od\<lparr>o_status := FILLED\<rparr>) (br_orders br)" "br_fills br' = dput fid f (br_fills br)"
    "\<exists>new. br_journal br' = br_journal br @ new" "f_order_id f = oid"
    using o od key by (auto simp: open_fill_def Let_def set_status_def)
  have fv: "dvals (br_fills br') = dvals (br_fills br) @ [f]" unfolding b(2) by (rule dvals_dput_fresh [OF fid])
  have fi: "filled_ids br' = insert oid (filled_ids br)" by (simp add: filled_ids_def fv b(4))
  have "broker_ok br'"
    by (rule retag_ok [OF ok od _ _ b(1)])
      (use ok key in \<open>auto simp: fi b(2) fv [unfolded b(2)] broker_ok_def b(4) filled_ids_def\<close>)
  moreover have "frozen br br'" using b od pend fid by (auto simp: frozen_def)
  ultimately show ?thesis ..
qed

lemma order_of_decision_simps:
  "o_id (order_of_decision oid br r plan d) = oid" "o_run_id (order_of_decision oid br r plan d) = fr_run_id r"
  "o_symbol (order_of_decision oid br r plan d) = fr_symbol r" "o_status (order_of_decision oid br r plan d) = PENDING"
  by (simp_all add: order_of_decision_def)

lemma submit_plan_cases:
  assumes "submit_plan oid r t br = (res, br')"
  obtains (same) "br' = br"
  | (added) od ev where "br_orders br' = dput oid od (br_orders br)" "br_fills br' = br_fills br"
      "br_journal br' = br_journal br @ [ev]" "o_id od = oid" "o_status od = PENDING" "order_of_run (o_run_id od) br = None"
      "res = Some od"
proof (cases "br' = br")
  case False
  then obtain rr tt plan d where c: "r = Some rr" "t = Some tt" "order_of_run (fr_run_id rr) br = None"
      "res = Some (order_of_decision oid br rr plan d)"
      "br' = log_event (Some tt) (fr_run_id rr) (fr_symbol rr) oid ''ORDER_SUBMITTED'' no_details
         (br\<lparr>br_orders := dput oid (order_of_decision oid br rr plan d) (br_orders br)\<rparr>)"
    using assms
    by (auto simp: submit_plan_def Let_def order_of_decision_simps split: option.splits if_splits)
  show ?thesis
    by (rule that(2) [of "order_of_decision oid br rr plan d"]) (simp_all add: c order_of_decision_simps)
qed (use that(1) in simp)

lemma submit_plan_ok:
  assumes ok: "broker_ok br" and oid: "dget (br_orders br) oid = None" and s: "submit_plan oid r t br = (res, br')"
  shows "broker_ok br' \<and> frozen br br'"
  using s
proof (cases rule: submit_plan_cases)
  case same
  then show ?thesis using ok frozen_refl by simp
next
  case (added od ev)
  have v: "dvals (br_orders br') = dvals (br_orders br) @ [od]" unfolding added(1) by (rule dvals_dput_fresh [OF oid])
  have nr: "o_run_id od \<notin> o_run_id ` set (dvals (br_orders br))"
    using added(6) by (auto simp: order_of_run_def find_None_all)
  have "oid \<notin> filled_ids br" using ok oid by (auto simp: broker_ok_def)
  then have "broker_ok br'"
    using ok oid added nr v by (auto simp: broker_ok_def filled_ids_cong [OF added(2)])
  moreover have "frozen br br'" using added oid by (auto simp: frozen_def)
  ultimately show ?thesis ..
qed

lemma process_next_bar_ok:
  assumes ok: "broker_ok br" and fid: "dget (br_fills br) fid = None" and p: "process_next_bar fid pid oid ob br = Inr (res, br')"
  shows "broker_ok br' \<and> frozen br br'"
proof (cases "dget (br_orders br) oid")
  case None
  then show ?thesis using p ok frozen_refl by (simp add: process_next_bar_def)
next
  case (Some od)
  show ?thesis
  proof (cases "o_status od = PENDING")
    case False
    then show ?thesis using p Some ok frozen_refl by (simp add: process_next_bar_def)
  next
    case pend: True
    have geo: "broker_ok (br\<lparr>br_last_geometry := g\<rparr>)" "dget (br_orders (br\<lparr>br_last_geometry := g\<rparr>)) oid = Some od"
        "dget (br_fills (br\<lparr>br_last_geometry := g\<rparr>)) fid = None" for g
      using ok Some fid broker_ok_cong [of "br\<lparr>br_last_geometry := g\<rparr>" br] by simp_all
    have fin: "broker_ok (finish_order s t oid od d (br\<lparr>br_last_geometry := g\<rparr>))
        \<and> frozen br (finish_order s t oid od d (br\<lparr>br_last_geometry := g\<rparr>))" if "s \<noteq> FILLED" for s t d g
      using finish_order_ok [OF geo(1,2) pend that] by (simp add: frozen_def)
    have fill: "broker_ok b \<and> frozen br b" if "open_fill fid pid oid od x t v2 (br\<lparr>br_last_geometry := g\<rparr>) = (q, b)" for x t v2 g q b
      using open_fill_ok [OF geo(1,2) pend geo(3) that] by (simp add: frozen_def)
    show ?thesis
      using p Some pend finish_order_ok [OF ok Some pend] fin fill frozen_refl ok
      by (auto simp: process_next_bar_def Let_def split: option.splits if_splits sum.splits prod.splits)
  qed
qed

lemma same_orders_ok:
  "br_orders br' = br_orders br \<Longrightarrow> br_fills br' = br_fills br \<Longrightarrow> br_journal br' = br_journal br @ new \<Longrightarrow>
   broker_ok br \<Longrightarrow> broker_ok br' \<and> frozen br br'"
  using broker_ok_cong frozen_same_orders by blast

lemma close_market_orders:
  "close_market tid symbol price t reason run br = Inr (tr, br') \<Longrightarrow>
   br_orders br' = br_orders br \<and> br_fills br' = br_fills br \<and> (\<exists>new. br_journal br' = br_journal br @ new)"
  by (auto simp: close_market_def split: option.splits if_splits sum.splits prod.splits)

lemma broker_step_ok: "broker_step br br' \<Longrightarrow> broker_ok br \<Longrightarrow> broker_ok br' \<and> frozen br br'"
proof (induction rule: broker_step.induct)
  case (close tid symbol price t reason run br tr br')
  then show ?case using close_market_orders same_orders_ok by meson
next
  case (on_bar tid ob br a journal trades)
  then show ?case by (intro same_orders_ok) auto
next
  case (submit br oid r t res br')
  then show ?case using submit_plan_ok by blast
next
  case (next_bar br fid pid oid ob res br')
  then show ?case using process_next_bar_ok by blast
qed

lemma broker_steps_ok: "broker_step\<^sup>*\<^sup>* br br' \<Longrightarrow> broker_ok br \<Longrightarrow> broker_ok br' \<and> frozen br br'"
  by (induction rule: rtranclp_induct) (auto simp: frozen_refl dest: broker_step_ok intro: frozen_trans)

section \<open>Properties\<close>

lemma fill_policy_stamped:
  "o_risk_policy_version od = Some v \<Longrightarrow> fill_policy br od = Inr (policy, rp) \<Longrightarrow>
   \<exists>p. registered_risk_policy (Some v) = Some p \<and> policy = Some (rp_rr_policy p) \<and> rp = Some p"
proof (cases "registered_risk_policy (Some v)")
  case (Some p)
  assume "o_risk_policy_version od = Some v" "fill_policy br od = Inr (policy, rp)"
  then show ?thesis using Some by (intro exI [of _ p]) (auto simp: fill_policy_def)
qed (simp add: fill_policy_def)

lemma registered_fill_limits:
  "registered_risk_policy v = Some p \<Longrightarrow>
   FILL_LIMITS (rp_rr_policy p) = Some (minimum_actual_fill_rr p, None) \<and> 0 < 1 + minimum_actual_fill_rr p"
  by (auto dest!: registered_cases simp: policy_defs fx_fill_floor)

lemma open_fill_position:
  "open_fill fid pid oid od x t v2 br = (p, br') \<Longrightarrow> p = position_of_fill pid od x t
     \<and> a_open_positions (br_account br') = dput (o_symbol od) p (a_open_positions (br_account br))"
  by (auto simp: open_fill_def Let_def)

text \<open>
  C9. A reservation is never exceeded by its fill. When a bar fills an order stamped with a registered risk
  policy, under whatever broker processes it, the bar is closed and strictly later than the plan, the
  fill is its open, the position carries the order's frozen stop and target, and the risk per unit at
  the fill is at most the planned risk per unit times the policy's fill factor, for prices on a
  decimal grid and a plan whose target is at most \<open>planned_rr\<close> times the stop distance away.
\<close>

theorem fill_within_reservation:
  assumes "process_next_bar fid pid oid (Some b) br = Inr (Some p, br')"
    and "dget (br_orders br) oid = Some od" and "o_risk_policy_version od = Some v"
    and "geometry (o_side od) (PFloat (o_planned_entry od)) (PFloat (o_stop od)) (PFloat (o_target od)) = Inr planned"
    and "price_grid k planned" and "fits 27 k (repr_dec (to_float (b_open b)))"
    and "registered_risk_policy (Some v) = Some policy"
    and "\<bar>g_target planned - g_entry planned\<bar> \<le> planned_rr policy * \<bar>g_entry planned - g_stop planned\<bar>"
  shows "\<bar>repr_dec (p_entry_price p) - g_stop planned\<bar>
      \<le> \<bar>g_entry planned - g_stop planned\<bar> * policy_fill_factor policy
    \<and> p_entry_price p = to_float (b_open b) \<and> p_stop p = o_stop od \<and> p_target p = o_target od
    \<and> b_is_closed b \<and> (\<exists>t s. b_timestamp b = Some t \<and> o_as_of od = Some s \<and> s < t)"
proof -
  define x where "x = to_float (b_open b)"
  obtain t pol rp geo where b: "b_timestamp b = Some t" "fill_policy br od = Inr (pol, rp)"
      "fill_gate br od x pol rp = Inr (None, geo)" "\<exists>s. o_as_of od = Some s \<and> s < t" "b_is_closed b"
      "open_fill fid pid oid od x t (pol \<noteq> None) (br\<lparr>br_last_geometry := geo\<rparr>) = (p, br')"
  proof (rule process_next_bar_fills [OF assms(1)])
    fix od' b' t pol rp geo
    assume "dget (br_orders br) oid = Some od'" "Some b = Some b'" "b_timestamp b' = Some t" "fill_policy br od' = Inr (pol, rp)"
      "fill_gate br od' (to_float (b_open b')) pol rp = Inr (None, geo)" "\<exists>s. o_as_of od' = Some s \<and> s < t" "b_is_closed b'"
      "open_fill fid pid oid od' (to_float (b_open b')) t (pol \<noteq> None) (br\<lparr>br_last_geometry := geo\<rparr>) = (p, br')"
    then show ?thesis using that assms(2) unfolding x_def by auto
  qed
  have pol: "pol = Some (rp_rr_policy policy)" "rp = Some policy"
    using fill_policy_stamped [OF assms(3) b(2)] assms(7) by auto
  obtain g f c where g: "geometry (o_side od) (PFloat x) (PFloat (o_stop od)) (PFloat (o_target od)) = Inr g"
    and lim: "FILL_LIMITS (rp_rr_policy policy) = Some (f, c)"
    and within: "classify_in FILL_LIMITS (g_rr g) (rp_rr_policy policy) = Inr WITHIN_POLICY"
    using fill_gate_accepts_v2 [OF b(3) [unfolded pol(1)]] by metis
  note gp = geometry_Inr [OF assms(4)] and ga = geometry_Inr [OF g]
  have same: "g_stop g = g_stop planned" "g_target g = g_target planned" "g_entry g = repr_dec x" "g_side g = g_side planned"
    using gp(1,3,4) ga(1,2,3,4) by auto
  have grid: "price_grid k g" using assms(5,6) same by (simp add: price_grid_def x_def)
  have f: "f = minimum_actual_fill_rr policy" "0 < 1 + minimum_actual_fill_rr policy"
    using registered_fill_limits [OF assms(7)] lim by auto
  have "f \<le> g_rr g" using within lim by (auto simp: classify_within)
  moreover have "half_bound f" using fill_limits_half [OF lim] by simp
  ultimately have "f * g_risk g \<le> g_reward g" using rr_decides(1) [OF ga(5) grid] by simp
  then have fl_ok: "f * \<bar>g_entry g - g_stop g\<bar> \<le> \<bar>g_target g - g_entry g\<bar>" by (simp only: geom_exact [OF ga(5) grid])
  have side: "g_stop g < g_entry g \<and> g_entry g < g_target g \<and> g_stop g < g_entry planned \<and> g_entry planned < g_target g
      \<or> g_target g < g_entry g \<and> g_entry g < g_stop g \<and> g_target g < g_entry planned \<and> g_entry planned < g_stop g"
    using gp(5) ga(5) same by (auto simp: geom_ok_def split: if_splits)
  have "\<bar>g_entry g - g_stop g\<bar> \<le> \<bar>g_entry planned - g_stop g\<bar> * fill_money_risk_factor (planned_rr policy) f"
    using floor_bounds_risk [OF _ side _ fl_ok, of "planned_rr policy"] f assms(8) same by simp
  then show ?thesis
    using open_fill_position [OF b(6)] b(1,4,5) same f(1)
    by (auto simp: position_of_fill_def policy_fill_factor_def x_def)
qed

definition demo_order :: paper_order where
  "demo_order = \<lparr>o_id = ''o1'', o_run_id = ''run'', o_symbol = ''EURUSD'', o_side = LONG, o_quantity = 10, o_planned_entry = 1,
     o_stop = 1/2, o_target = 2, o_multiplier = Some 1, o_equity_at_submission = Some 10000, o_cost_rate = 0,
     o_as_of = Some 0, o_status = PENDING, o_risk_policy_version = Some ''V2_P5_RISK_1_FX_2R'', o_setup_id = None\<rparr>"

definition demo_broker :: broker where
  "demo_broker = (new_broker (demo_account\<lparr>a_open_positions := []\<rparr>) None None)\<lparr>br_orders := [(''o1'', demo_order)]\<rparr>"

definition demo_fill :: "py_error + paper_position option \<times> broker" where
  "demo_fill = process_next_bar ''f1'' ''p1'' ''o1'' (Some (demo_ohlc 5)) demo_broker"

definition demo_planned :: geom where
  "demo_planned = projr (geometry LONG (PFloat 1) (PFloat (1/2)) (PFloat 2))"

lemma demo_planned_eq: "geometry LONG (PFloat 1) (PFloat (1/2)) (PFloat 2) = Inr demo_planned"
proof -
  have "isl (geometry LONG (PFloat 1) (PFloat (1/2)) (PFloat 2)) = False" by code_simp
  then show ?thesis unfolding demo_planned_def by (cases "geometry LONG (PFloat 1) (PFloat (1/2)) (PFloat 2)") auto
qed

lemma demo_fill_eq: "demo_fill = Inr (Some (the (fst (projr demo_fill))), snd (projr demo_fill))"
proof -
  have "isl demo_fill = False" "fst (projr demo_fill) = None \<longleftrightarrow> False" unfolding demo_fill_def by code_simp+
  then show ?thesis by (cases demo_fill) auto
qed

theorem fill_within_reservation_witness:
  "\<bar>repr_dec (p_entry_price (the (fst (projr demo_fill)))) - g_stop demo_planned\<bar>
     \<le> \<bar>g_entry demo_planned - g_stop demo_planned\<bar> * policy_fill_factor RISK_POLICY_V2_FX"
proof -
  have v: "g_entry demo_planned = 1" "g_stop demo_planned = 1/2" "g_target demo_planned = 2" "repr_dec (to_float (b_open (demo_ohlc 5))) = 1"
    by code_simp+
  have grid: "price_grid 1 demo_planned" "fits 27 1 (repr_dec (to_float (b_open (demo_ohlc 5))))"
    unfolding price_grid_def fits_def v by (auto intro: exI [of _ 10] exI [of _ 5] exI [of _ 20])
  have "planned_rr RISK_POLICY_V2_FX = 2" by (simp add: policy_defs FX_TP_RR_def)
  then show ?thesis
    using fill_within_reservation [OF demo_fill_eq [unfolded demo_fill_def], of demo_order "''V2_P5_RISK_1_FX_2R''" demo_planned 1 RISK_POLICY_V2_FX]
      grid v demo_planned_eq
    by (simp add: demo_broker_def new_broker_def demo_order_def demo_fill_def)
qed

text \<open>
  C10. Orders live once. Over every sequence of submissions, bars, explicit exits and stop/target bars, with
  fresh ids: no two orders belong to the same run, an order has at most one fill and has one exactly
  when it is FILLED, an order that is filled, cancelled or rejected never changes again, fills are
  never changed and the journal only grows.
\<close>

theorem orders_live_once:
  assumes "broker_ok br" and "broker_step\<^sup>*\<^sup>* br br'"
  shows "broker_ok br' \<and> frozen br br'"
  using broker_steps_ok [OF assms(2,1)] .

lemma demo_broker_ok: "broker_ok demo_broker"
  by (simp add: broker_ok_def demo_broker_def new_broker_def dkeys_ok_def filled_ids_def dvals_def demo_order_def)

theorem orders_live_once_witness:
  "broker_ok (snd (projr demo_fill)) \<and> frozen demo_broker (snd (projr demo_fill))"
proof (rule orders_live_once [OF demo_broker_ok])
  have "broker_step demo_broker (snd (projr demo_fill))"
    using demo_fill_eq [unfolded demo_fill_def] unfolding demo_fill_def
    by (rule next_bar [rotated]) (simp add: demo_broker_def new_broker_def)
  then show "broker_step\<^sup>*\<^sup>* demo_broker (snd (projr demo_fill))" ..
qed

end
