(* ===== verification/Codec.thy ===== *)
theory Codec
  imports PaperBroker "HOL-Library.Monad_Syntax"
begin

text \<open>
  \<open>storage/codec.py\<close>: the sanitiser every stored payload goes through, and the encoders and decoders of
  the five durable PAPER types. A payload is the JSON tree of its text. \<open>paper_encode\<close> writes the
  fields of the dataclass in their order; \<open>paper_decode\<close> refuses unknown fields, fills the
  dataclass defaults and runs the construction checks. A payload whose field has another JSON kind than
  the dataclass declares, or another schema version than \<open>1.0\<close>, is never written; decoding one is a
  \<open>TypeError\<close> here.
\<close>

section \<open>Sanitising\<close>

definition lower_char :: "char \<Rightarrow> char" where
  "lower_char c = (let n = of_char c :: nat in if 65 \<le> n \<and> n \<le> 90 then char_of (n + 32) else c)"

fun begins :: "string \<Rightarrow> string \<Rightarrow> bool" where
  "begins [] s = True"
| "begins (c # p) [] = False"
| "begins (c # p) (d # s) = (c = d \<and> begins p s)"

fun contains :: "string \<Rightarrow> string \<Rightarrow> bool" where
  "contains p [] = (p = [])"
| "contains p (c # s) = (begins p (c # s) \<or> contains p s)"

definition SECRET_WORDS :: "string list" where
  "SECRET_WORDS = [''secret'', ''password'', ''token'', ''api_key'', ''credential'']"

definition secret_key :: "string \<Rightarrow> bool" where
  "secret_key k \<longleftrightarrow> list_ex (\<lambda>w. contains w (map lower_char k)) SECRET_WORDS"

primrec sanitize :: "json \<Rightarrow> json" where
  "sanitize JNull = JNull"
| "sanitize (JBool b) = JBool b"
| "sanitize (JInt n) = JInt n"
| "sanitize (JNum x) = JNum x"
| "sanitize (JDec d) = JDec d"
| "sanitize (JStr s) = JStr s"
| "sanitize (JTime t) = JTime t"
| "sanitize (JList xs) = JList (map sanitize xs)"
| "sanitize (JObj kvs) = JObj (filter (\<lambda>kv. \<not> secret_key (fst kv)) (map (map_prod id sanitize) kvs))"

text \<open>No key of the tree, at any depth, names a secret.\<close>

primrec clean :: "json \<Rightarrow> bool" where
  "clean JNull = True"
| "clean (JBool b) = True"
| "clean (JInt n) = True"
| "clean (JNum x) = True"
| "clean (JDec d) = True"
| "clean (JStr s) = True"
| "clean (JTime t) = True"
| "clean (JList xs) = list_all id (map clean xs)"
| "clean (JObj kvs) = list_all (\<lambda>kv. \<not> secret_key (fst kv) \<and> snd kv) (map (map_prod id clean) kvs)"

lemma sanitize_clean: "clean (sanitize j)"
proof (induction j)
  case (JObj kvs)
  then show ?case by (force simp: list_all_iff)
qed (auto simp: list_all_iff)

lemma clean_sanitize: "clean j \<Longrightarrow> sanitize j = j"
proof (induction j)
  case (JList xs)
  then show ?case by (auto simp: list_all_iff intro!: map_idI)
next
  case (JObj kvs)
  have "map (map_prod id sanitize) kvs = kvs"
    using JObj by (intro map_idI) (force simp: list_all_iff)
  moreover have "filter (\<lambda>kv. \<not> secret_key (fst kv)) kvs = kvs"
    using JObj.prems by (intro filter_True) (auto simp: list_all_iff)
  ultimately show ?case by simp
qed auto

section \<open>Reading fields\<close>

fun as_str :: "json \<Rightarrow> string option" where
  "as_str (JStr s) = Some s"
| "as_str _ = None"

fun as_num :: "json \<Rightarrow> rat option" where
  "as_num (JNum x) = Some x"
| "as_num (JInt n) = Some (of_int n)"
| "as_num _ = None"

fun as_time :: "json \<Rightarrow> instant option" where
  "as_time (JTime t) = Some t"
| "as_time _ = None"

text \<open>A field without default, with default \<open>None\<close>, and with another default.\<close>

definition req :: "(json \<Rightarrow> 'a option) \<Rightarrow> (string \<times> json) list \<Rightarrow> string \<Rightarrow> 'a option" where
  "req r kvs k = Option.bind (map_of kvs k) r"

fun opt_val :: "(json \<Rightarrow> 'a option) \<Rightarrow> json option \<Rightarrow> 'a option option" where
  "opt_val r None = Some None"
| "opt_val r (Some j) = (if j = JNull then Some None else map_option Some (r j))"

definition opt :: "(json \<Rightarrow> 'a option) \<Rightarrow> (string \<times> json) list \<Rightarrow> string \<Rightarrow> 'a option option" where
  "opt r kvs k = opt_val r (map_of kvs k)"

definition dflt :: "(json \<Rightarrow> 'a option) \<Rightarrow> 'a \<Rightarrow> (string \<times> json) list \<Rightarrow> string \<Rightarrow> 'a option" where
  "dflt r d kvs k = (case map_of kvs k of None \<Rightarrow> Some d | Some j \<Rightarrow> r j)"

definition read_side :: "json \<Rightarrow> side option" where
  "read_side j = map_option (\<lambda>s. if s = ''LONG'' then LONG else if s = ''SHORT'' then SHORT else OtherSide s) (as_str j)"

definition jnum_opt :: "rat option \<Rightarrow> json" where
  "jnum_opt v = (case v of None \<Rightarrow> JNull | Some x \<Rightarrow> JNum x)"

definition jtime_opt :: "instant option \<Rightarrow> json" where
  "jtime_opt v = (case v of None \<Rightarrow> JNull | Some t \<Rightarrow> JTime t)"

fun order_status_name :: "order_status \<Rightarrow> string" where
  "order_status_name PENDING = ''PENDING''"
| "order_status_name FILLED = ''FILLED''"
| "order_status_name CANCELLED = ''CANCELLED''"
| "order_status_name REJECTED_ORDER = ''REJECTED''"

definition read_order_status :: "json \<Rightarrow> order_status option" where
  "read_order_status j = find (\<lambda>s. j = JStr (order_status_name s)) [PENDING, FILLED, CANCELLED, REJECTED_ORDER]"

fun position_status_name :: "position_status \<Rightarrow> string" where
  "position_status_name OPEN = ''OPEN''"
| "position_status_name CLOSED = ''CLOSED''"

definition read_position_status :: "json \<Rightarrow> position_status option" where
  "read_position_status j = find (\<lambda>s. j = JStr (position_status_name s)) [OPEN, CLOSED]"

definition version_ok :: "(string \<times> json) list \<Rightarrow> bool" where
  "version_ok kvs \<longleftrightarrow> map_of kvs ''schema_version'' = Some (JStr ''1.0'')"

text \<open>A payload of a type with these fields, read and then constructed.\<close>

definition decode_with ::
  "string list \<Rightarrow> ((string \<times> json) list \<Rightarrow> 'a option) \<Rightarrow> ('a \<Rightarrow> py_error + 'a) \<Rightarrow> json \<Rightarrow> py_error + 'a" where
  "decode_with names rd check j = (case j of
     JObj kvs \<Rightarrow>
       if \<not> list_all (\<lambda>kv. fst kv \<in> set names) kvs then Inl (ValueError ''invalid paper payload'')
       else if \<not> version_ok kvs then Inl (TypeError ''payload'')
       else (case rd kvs of None \<Rightarrow> Inl (TypeError ''payload'') | Some x \<Rightarrow> check x)
   | _ \<Rightarrow> Inl (ValueError ''invalid paper payload''))"

section \<open>The encoders\<close>

definition opt_field :: "string \<Rightarrow> ('a \<Rightarrow> json) \<Rightarrow> 'a option \<Rightarrow> (string \<times> json) list" where
  "opt_field k f v = (case v of None \<Rightarrow> [] | Some x \<Rightarrow> [(k, f x)])"

definition encode_account :: "paper_account \<Rightarrow> json" where
  "encode_account a = sanitize (JObj
    [(''schema_version'', JStr ''1.0''), (''account_id'', JStr (a_id a)), (''starting_equity'', JNum (a_starting_equity a)),
     (''cash'', JNum (a_cash a)), (''equity'', JNum (a_equity a)), (''realized_pnl'', JNum (a_realized_pnl a)),
     (''unrealized_pnl'', JNum (a_unrealized_pnl a))])"

definition encode_order :: "paper_order \<Rightarrow> json" where
  "encode_order od = sanitize (JObj
    ([(''schema_version'', JStr ''1.0''), (''order_id'', JStr (o_id od)), (''run_id'', JStr (o_run_id od)),
      (''symbol'', JStr (o_symbol od)), (''side'', JStr (side_name (o_side od))), (''quantity'', JNum (o_quantity od)),
      (''planned_entry'', JNum (o_planned_entry od)), (''stop'', JNum (o_stop od)), (''target'', JNum (o_target od)),
      (''contract_multiplier'', jnum_opt (o_multiplier od)), (''equity_at_submission'', jnum_opt (o_equity_at_submission od)),
      (''cost_rate'', JNum (o_cost_rate od)), (''as_of'', jtime_opt (o_as_of od)),
      (''status'', JStr (order_status_name (o_status od)))]
     @ opt_field ''risk_policy_version'' JStr (o_risk_policy_version od) @ opt_field ''setup_id'' JStr (o_setup_id od)))"

definition encode_fill :: "paper_fill \<Rightarrow> json" where
  "encode_fill f = sanitize (JObj
    [(''schema_version'', JStr ''1.0''), (''fill_id'', JStr (f_id f)), (''order_id'', JStr (f_order_id f)),
     (''run_id'', JStr (f_run_id f)), (''symbol'', JStr (f_symbol f)), (''side'', JStr (side_name (f_side f))),
     (''quantity'', JNum (f_quantity f)), (''planned_entry'', JNum (f_planned_entry f)),
     (''fill_price'', JNum (f_fill_price f)), (''fill_timestamp'', JTime (f_timestamp f))])"

definition encode_position :: "paper_position \<Rightarrow> json" where
  "encode_position p = sanitize (JObj
    ([(''schema_version'', JStr ''1.0''), (''position_id'', JStr (p_id p)), (''origin_order_id'', JStr (p_origin_order_id p)),
      (''run_id'', JStr (p_run_id p)), (''symbol'', JStr (p_symbol p)), (''side'', JStr (side_name (p_side p))),
      (''quantity'', JNum (p_quantity p)), (''planned_entry'', JNum (p_planned_entry p)),
      (''entry_price'', JNum (p_entry_price p)), (''stop'', JNum (p_stop p)), (''target'', JNum (p_target p)),
      (''opened_at'', jtime_opt (p_opened_at p)), (''status'', JStr (position_status_name (p_status p))),
      (''last_price'', jnum_opt (p_last_price p)), (''contract_multiplier'', jnum_opt (p_multiplier p)),
      (''cost_rate'', JNum (p_cost_rate p)), (''last_processed_at'', jtime_opt (p_last_processed_at p))]
     @ opt_field ''setup_id'' JStr (p_setup_id p) @ opt_field ''initial_stop'' JNum (p_initial_stop p)
     @ opt_field ''duration_stage'' JStr (p_duration_stage p)))"

definition encode_trade :: "closed_trade \<Rightarrow> json" where
  "encode_trade t = sanitize (JObj
    [(''schema_version'', JStr ''1.0''), (''trade_id'', JStr (ct_id t)), (''position_id'', JStr (ct_position_id t)),
     (''run_id'', JStr (ct_run_id t)), (''symbol'', JStr (ct_symbol t)), (''side'', JStr (side_name (ct_side t))),
     (''entry_price'', JNum (ct_entry_price t)), (''exit_price'', JNum (ct_exit_price t)),
     (''quantity'', JNum (ct_quantity t)), (''gross_pnl'', JNum (ct_gross_pnl t)), (''cost'', JNum (ct_cost t)),
     (''net_pnl'', JNum (ct_net_pnl t)), (''exited_at'', JTime (ct_exited_at t)), (''reason'', JStr (ct_reason t))])"

section \<open>The decoders\<close>

definition ACCOUNT_FIELDS :: "string list" where
  "ACCOUNT_FIELDS = [''schema_version'', ''account_id'', ''starting_equity'', ''cash'', ''equity'', ''realized_pnl'',
     ''unrealized_pnl'', ''open_positions'', ''closed_trades'']"

definition ORDER_FIELDS :: "string list" where
  "ORDER_FIELDS = [''schema_version'', ''order_id'', ''run_id'', ''symbol'', ''side'', ''quantity'', ''planned_entry'', ''stop'',
     ''target'', ''contract_multiplier'', ''equity_at_submission'', ''cost_rate'', ''as_of'', ''status'',
     ''risk_policy_version'', ''setup_id'']"

definition FILL_FIELDS :: "string list" where
  "FILL_FIELDS = [''schema_version'', ''fill_id'', ''order_id'', ''run_id'', ''symbol'', ''side'', ''quantity'', ''planned_entry'',
     ''fill_price'', ''fill_timestamp'']"

definition POSITION_FIELDS :: "string list" where
  "POSITION_FIELDS = [''schema_version'', ''position_id'', ''origin_order_id'', ''run_id'', ''symbol'', ''side'', ''quantity'',
     ''planned_entry'', ''entry_price'', ''stop'', ''target'', ''opened_at'', ''status'', ''last_price'',
     ''contract_multiplier'', ''cost_rate'', ''last_processed_at'', ''setup_id'', ''initial_stop'', ''duration_stage'']"

definition TRADE_FIELDS :: "string list" where
  "TRADE_FIELDS = [''schema_version'', ''trade_id'', ''position_id'', ''run_id'', ''symbol'', ''side'', ''entry_price'',
     ''exit_price'', ''quantity'', ''gross_pnl'', ''cost'', ''net_pnl'', ''exited_at'', ''reason'']"

text \<open>An account's positions and trades are never in its payload; \<open>load_paper\<close> adds them.\<close>

definition read_account :: "(string \<times> json) list \<Rightarrow> paper_account option" where
  "read_account kvs = do {
     aid \<leftarrow> req as_str kvs ''account_id''; st \<leftarrow> req as_num kvs ''starting_equity'';
     ca \<leftarrow> req as_num kvs ''cash''; eq \<leftarrow> req as_num kvs ''equity'';
     re \<leftarrow> dflt as_num 0 kvs ''realized_pnl''; un \<leftarrow> dflt as_num 0 kvs ''unrealized_pnl'';
     if map_of kvs ''open_positions'' \<noteq> None \<or> map_of kvs ''closed_trades'' \<noteq> None then None
     else Some \<lparr>a_id = aid, a_starting_equity = st, a_cash = ca, a_equity = eq, a_realized_pnl = re, a_unrealized_pnl = un,
       a_open_positions = [], a_closed_trades = []\<rparr> }"

definition read_order :: "(string \<times> json) list \<Rightarrow> paper_order option" where
  "read_order kvs = do {
     oid \<leftarrow> req as_str kvs ''order_id''; run \<leftarrow> req as_str kvs ''run_id''; sy \<leftarrow> req as_str kvs ''symbol'';
     sd \<leftarrow> req read_side kvs ''side''; q \<leftarrow> req as_num kvs ''quantity''; pe \<leftarrow> req as_num kvs ''planned_entry'';
     st \<leftarrow> req as_num kvs ''stop''; tg \<leftarrow> req as_num kvs ''target''; m \<leftarrow> opt as_num kvs ''contract_multiplier'';
     eq \<leftarrow> opt as_num kvs ''equity_at_submission''; cr \<leftarrow> dflt as_num 0 kvs ''cost_rate''; at' \<leftarrow> opt as_time kvs ''as_of'';
     stat \<leftarrow> dflt read_order_status PENDING kvs ''status''; rpv \<leftarrow> opt as_str kvs ''risk_policy_version'';
     sid \<leftarrow> opt as_str kvs ''setup_id'';
     Some \<lparr>o_id = oid, o_run_id = run, o_symbol = sy, o_side = sd, o_quantity = q, o_planned_entry = pe, o_stop = st,
       o_target = tg, o_multiplier = m, o_equity_at_submission = eq, o_cost_rate = cr, o_as_of = at', o_status = stat,
       o_risk_policy_version = rpv, o_setup_id = sid\<rparr> }"

definition read_fill :: "(string \<times> json) list \<Rightarrow> paper_fill option" where
  "read_fill kvs = do {
     fid \<leftarrow> req as_str kvs ''fill_id''; oid \<leftarrow> req as_str kvs ''order_id''; run \<leftarrow> req as_str kvs ''run_id'';
     sy \<leftarrow> req as_str kvs ''symbol''; sd \<leftarrow> req read_side kvs ''side''; q \<leftarrow> req as_num kvs ''quantity'';
     pe \<leftarrow> req as_num kvs ''planned_entry''; fp \<leftarrow> req as_num kvs ''fill_price''; t \<leftarrow> req as_time kvs ''fill_timestamp'';
     Some \<lparr>f_id = fid, f_order_id = oid, f_run_id = run, f_symbol = sy, f_side = sd, f_quantity = q, f_planned_entry = pe,
       f_fill_price = fp, f_timestamp = t\<rparr> }"

definition read_position :: "(string \<times> json) list \<Rightarrow> paper_position option" where
  "read_position kvs = do {
     pid \<leftarrow> req as_str kvs ''position_id''; oid \<leftarrow> req as_str kvs ''origin_order_id''; run \<leftarrow> req as_str kvs ''run_id'';
     sy \<leftarrow> req as_str kvs ''symbol''; sd \<leftarrow> req read_side kvs ''side''; q \<leftarrow> req as_num kvs ''quantity'';
     pe \<leftarrow> req as_num kvs ''planned_entry''; ep \<leftarrow> req as_num kvs ''entry_price''; st \<leftarrow> req as_num kvs ''stop'';
     tg \<leftarrow> req as_num kvs ''target''; op \<leftarrow> (if map_of kvs ''opened_at'' = None then None else opt as_time kvs ''opened_at'');
     stat \<leftarrow> dflt read_position_status OPEN kvs ''status''; lp \<leftarrow> opt as_num kvs ''last_price'';
     m \<leftarrow> opt as_num kvs ''contract_multiplier''; cr \<leftarrow> dflt as_num 0 kvs ''cost_rate'';
     lt \<leftarrow> opt as_time kvs ''last_processed_at''; sid \<leftarrow> opt as_str kvs ''setup_id''; is \<leftarrow> opt as_num kvs ''initial_stop'';
     ds \<leftarrow> opt as_str kvs ''duration_stage'';
     Some \<lparr>p_id = pid, p_origin_order_id = oid, p_run_id = run, p_symbol = sy, p_side = sd, p_quantity = q,
       p_planned_entry = pe, p_entry_price = ep, p_stop = st, p_target = tg, p_opened_at = op, p_status = stat,
       p_last_price = lp, p_multiplier = m, p_cost_rate = cr, p_last_processed_at = lt, p_setup_id = sid,
       p_initial_stop = is, p_duration_stage = ds\<rparr> }"

definition read_trade :: "(string \<times> json) list \<Rightarrow> closed_trade option" where
  "read_trade kvs = do {
     tid \<leftarrow> req as_str kvs ''trade_id''; pid \<leftarrow> req as_str kvs ''position_id''; run \<leftarrow> req as_str kvs ''run_id'';
     sy \<leftarrow> req as_str kvs ''symbol''; sd \<leftarrow> req read_side kvs ''side''; ep \<leftarrow> req as_num kvs ''entry_price'';
     xp \<leftarrow> req as_num kvs ''exit_price''; q \<leftarrow> req as_num kvs ''quantity''; g \<leftarrow> req as_num kvs ''gross_pnl'';
     c \<leftarrow> req as_num kvs ''cost''; n \<leftarrow> req as_num kvs ''net_pnl''; t \<leftarrow> req as_time kvs ''exited_at'';
     re \<leftarrow> req as_str kvs ''reason'';
     Some \<lparr>ct_id = tid, ct_position_id = pid, ct_run_id = run, ct_symbol = sy, ct_side = sd, ct_entry_price = ep,
       ct_exit_price = xp, ct_quantity = q, ct_gross_pnl = g, ct_cost = c, ct_net_pnl = n, ct_exited_at = t,
       ct_reason = re\<rparr> }"

definition decode_account :: "json \<Rightarrow> py_error + paper_account" where
  "decode_account = decode_with ACCOUNT_FIELDS read_account check_account"

definition decode_order :: "json \<Rightarrow> py_error + paper_order" where
  "decode_order = decode_with ORDER_FIELDS read_order check_order"

definition decode_fill :: "json \<Rightarrow> py_error + paper_fill" where
  "decode_fill = decode_with FILL_FIELDS read_fill Inr"

definition decode_position :: "json \<Rightarrow> py_error + paper_position" where
  "decode_position = decode_with POSITION_FIELDS read_position check_position"

definition decode_trade :: "json \<Rightarrow> py_error + closed_trade" where
  "decode_trade = decode_with TRADE_FIELDS read_trade Inr"

section \<open>Round trips\<close>

text \<open>The field names hold no secret word, so the sanitiser keeps every field.\<close>

lemma field_names_clean:
  "list_all (\<lambda>k. \<not> secret_key k) ACCOUNT_FIELDS" "list_all (\<lambda>k. \<not> secret_key k) ORDER_FIELDS"
  "list_all (\<lambda>k. \<not> secret_key k) FILL_FIELDS" "list_all (\<lambda>k. \<not> secret_key k) POSITION_FIELDS"
  "list_all (\<lambda>k. \<not> secret_key k) TRADE_FIELDS"
  by code_simp+

lemmas field_lists = ACCOUNT_FIELDS_def ORDER_FIELDS_def FILL_FIELDS_def POSITION_FIELDS_def TRADE_FIELDS_def

lemma clean_fields:
  assumes "list_all (\<lambda>k. \<not> secret_key k) names" and "list_all (\<lambda>kv. fst kv \<in> set names \<and> clean (snd kv)) kvs"
  shows "sanitize (JObj kvs) = JObj kvs"
  using assms by (intro clean_sanitize) (auto simp: list_all_iff)

lemma clean_opt [simp]: "clean (jnum_opt v)" "clean (jtime_opt w)"
  by (auto simp: jnum_opt_def jtime_opt_def split: option.splits)

lemma list_all_opt_field [simp]: "(\<And>x. P (k, f x)) \<Longrightarrow> list_all P (opt_field k f v)"
  by (auto simp: opt_field_def split: option.splits)

lemma map_of_opt_field [simp]: "map_of (opt_field k f v) k' = (if k' = k then map_option f v else None)"
  by (auto simp: opt_field_def split: option.splits)

lemma add_opt_field [simp]:
  "k' \<noteq> k \<Longrightarrow> (m ++ map_of (opt_field k f v)) k' = m k'"
  "m k = None \<Longrightarrow> (m ++ map_of (opt_field k f v)) k = map_option f v"
  by (auto simp: map_add_def split: option.splits)

lemma order_status_inj [simp]: "order_status_name s = order_status_name t \<longleftrightarrow> s = t"
  by (cases s; cases t) simp_all

lemma read_back [simp]:
  "valid_side sd \<Longrightarrow> read_side (JStr (side_name sd)) = Some sd"
  "read_order_status (JStr (order_status_name s)) = Some s"
  "read_position_status (JStr (position_status_name p)) = Some p"
  subgoal by (auto simp: read_side_def valid_side_def)
  subgoal by (cases s) (simp_all add: read_order_status_def)
  subgoal by (cases p) (simp_all add: read_position_status_def)
  done

lemma opt_val_simps [simp]:
  "opt_val as_num (Some (jnum_opt v)) = Some v" "opt_val as_time (Some (jtime_opt w)) = Some w"
  "opt_val as_str (map_option JStr s) = Some s" "opt_val as_num (map_option JNum v) = Some v"
  subgoal by (cases v) (simp_all add: jnum_opt_def)
  subgoal by (cases w) (simp_all add: jtime_opt_def)
  subgoal by (cases s) simp_all
  subgoal by (cases v) simp_all
  done

declare opt_val.simps(2) [simp del]

lemma decode_encode_account:
  assumes "0 < a_starting_equity a"
  shows "decode_account (encode_account a) = Inr (a\<lparr>a_open_positions := [], a_closed_trades := []\<rparr>)"
proof -
  have "encode_account a = JObj
    [(''schema_version'', JStr ''1.0''), (''account_id'', JStr (a_id a)), (''starting_equity'', JNum (a_starting_equity a)),
     (''cash'', JNum (a_cash a)), (''equity'', JNum (a_equity a)), (''realized_pnl'', JNum (a_realized_pnl a)),
     (''unrealized_pnl'', JNum (a_unrealized_pnl a))]"
    unfolding encode_account_def by (rule clean_fields [OF field_names_clean(1)]) (simp add: field_lists)
  then show ?thesis using assms
    by (simp add: decode_account_def decode_with_def field_lists version_ok_def read_account_def req_def dflt_def check_account_def)
qed

lemma decode_encode_fill:
  assumes "valid_side (f_side f)"
  shows "decode_fill (encode_fill f) = Inr f"
proof -
  have "encode_fill f = JObj
    [(''schema_version'', JStr ''1.0''), (''fill_id'', JStr (f_id f)), (''order_id'', JStr (f_order_id f)),
     (''run_id'', JStr (f_run_id f)), (''symbol'', JStr (f_symbol f)), (''side'', JStr (side_name (f_side f))),
     (''quantity'', JNum (f_quantity f)), (''planned_entry'', JNum (f_planned_entry f)),
     (''fill_price'', JNum (f_fill_price f)), (''fill_timestamp'', JTime (f_timestamp f))]"
    unfolding encode_fill_def by (rule clean_fields [OF field_names_clean(3)]) (simp add: field_lists)
  then show ?thesis using assms
    by (simp add: decode_fill_def decode_with_def field_lists version_ok_def read_fill_def req_def)
qed

lemma decode_encode_trade:
  assumes "valid_side (ct_side t)"
  shows "decode_trade (encode_trade t) = Inr t"
proof -
  have "encode_trade t = JObj
    [(''schema_version'', JStr ''1.0''), (''trade_id'', JStr (ct_id t)), (''position_id'', JStr (ct_position_id t)),
     (''run_id'', JStr (ct_run_id t)), (''symbol'', JStr (ct_symbol t)), (''side'', JStr (side_name (ct_side t))),
     (''entry_price'', JNum (ct_entry_price t)), (''exit_price'', JNum (ct_exit_price t)),
     (''quantity'', JNum (ct_quantity t)), (''gross_pnl'', JNum (ct_gross_pnl t)), (''cost'', JNum (ct_cost t)),
     (''net_pnl'', JNum (ct_net_pnl t)), (''exited_at'', JTime (ct_exited_at t)), (''reason'', JStr (ct_reason t))]"
    unfolding encode_trade_def by (rule clean_fields [OF field_names_clean(5)]) (simp add: field_lists)
  then show ?thesis using assms
    by (simp add: decode_trade_def decode_with_def field_lists version_ok_def read_trade_def req_def)
qed

lemma decode_encode_order:
  assumes "valid_side (o_side od)"
  shows "decode_order (encode_order od) = Inr od"
proof -
  have "encode_order od = JObj
    ([(''schema_version'', JStr ''1.0''), (''order_id'', JStr (o_id od)), (''run_id'', JStr (o_run_id od)),
      (''symbol'', JStr (o_symbol od)), (''side'', JStr (side_name (o_side od))), (''quantity'', JNum (o_quantity od)),
      (''planned_entry'', JNum (o_planned_entry od)), (''stop'', JNum (o_stop od)), (''target'', JNum (o_target od)),
      (''contract_multiplier'', jnum_opt (o_multiplier od)), (''equity_at_submission'', jnum_opt (o_equity_at_submission od)),
      (''cost_rate'', JNum (o_cost_rate od)), (''as_of'', jtime_opt (o_as_of od)),
      (''status'', JStr (order_status_name (o_status od)))]
     @ opt_field ''risk_policy_version'' JStr (o_risk_policy_version od) @ opt_field ''setup_id'' JStr (o_setup_id od))"
    unfolding encode_order_def by (rule clean_fields [OF field_names_clean(2)]) (simp add: field_lists split: option.splits)
  then show ?thesis using assms
    by (simp add: decode_order_def decode_with_def field_lists version_ok_def read_order_def req_def dflt_def opt_def)
qed

lemma encode_position_plain:
  "encode_position p = JObj
    ([(''schema_version'', JStr ''1.0''), (''position_id'', JStr (p_id p)), (''origin_order_id'', JStr (p_origin_order_id p)),
      (''run_id'', JStr (p_run_id p)), (''symbol'', JStr (p_symbol p)), (''side'', JStr (side_name (p_side p))),
      (''quantity'', JNum (p_quantity p)), (''planned_entry'', JNum (p_planned_entry p)),
      (''entry_price'', JNum (p_entry_price p)), (''stop'', JNum (p_stop p)), (''target'', JNum (p_target p)),
      (''opened_at'', jtime_opt (p_opened_at p)), (''status'', JStr (position_status_name (p_status p))),
      (''last_price'', jnum_opt (p_last_price p)), (''contract_multiplier'', jnum_opt (p_multiplier p)),
      (''cost_rate'', JNum (p_cost_rate p)), (''last_processed_at'', jtime_opt (p_last_processed_at p))]
     @ opt_field ''setup_id'' JStr (p_setup_id p) @ opt_field ''initial_stop'' JNum (p_initial_stop p)
     @ opt_field ''duration_stage'' JStr (p_duration_stage p))"
  unfolding encode_position_def by (rule clean_fields [OF field_names_clean(4)]) (simp add: field_lists split: option.splits)

lemma encode_position_status [simp]: "jget (encode_position p) ''status'' = JStr (position_status_name (p_status p))"
  by (simp add: encode_position_plain)

lemma decode_encode_position:
  assumes "valid_side (p_side p)"
  shows "decode_position (encode_position p) = Inr p"
  using assms unfolding encode_position_plain
  by (simp add: decode_position_def decode_with_def field_lists version_ok_def read_position_def check_position_def req_def dflt_def opt_def)

section \<open>Properties\<close>


definition demo_stored_fill :: paper_fill where
  "demo_stored_fill = \<lparr>f_id = ''f1'', f_order_id = ''o1'', f_run_id = ''run'', f_symbol = ''EURUSD'', f_side = SHORT, f_quantity = 10,
     f_planned_entry = 1, f_fill_price = 1, f_timestamp = 5\<rparr>"

definition demo_stored_trade :: closed_trade where
  "demo_stored_trade = make_closed_trade ''t1'' demo_position 2 9 ''target''"



end
