(* ===== verification/Store.thy ===== *)
theory Store
  imports Codec "HOL-Library.Multiset"
begin

text \<open>
  \<open>storage/database.py\<close>: the SQLite repository as an explicit state. A table with a primary key is an
  association list of its rows in rowid order, the order in which its scans return them; a row written by
  \<open>INSERT OR REPLACE\<close> moves to the end (\<open>replace_row\<close>), one written by an \<open>UPDATE\<close> or an
  upsert keeps its place (\<open>dput\<close>). A method is one \<open>BEGIN IMMEDIATE\<close> transaction: a function from
  the committed state to the next one, whose \<open>Inl\<close> is an exception and so a rollback. \<open>uuid5\<close> of a
  slot key and the clock are arguments; instants stand for their UTC text.
\<close>

section \<open>Tables\<close>

record run_row =
  r_run_id :: string
  r_symbol :: string
  r_as_of :: instant
  r_started_at :: instant
  r_completed_at :: "instant option"
  r_status :: string
  r_final_status :: "string option"
  r_error :: "string option"

record journal_row =
  j_timestamp :: instant
  j_run_id :: "string option"
  j_symbol :: "string option"
  j_source :: string
  j_type :: string
  j_severity :: string
  j_payload :: json

record review_row =
  rv_slot :: string
  rv_payload :: json

record delivery_row =
  dv_status :: string
  dv_attempted_at :: instant
  dv_completed_at :: "instant option"
  dv_error :: "string option"

record metadata_row =
  md_git_commit :: "string option"
  md_fingerprint :: string
  md_experiment_id :: "string option"
  md_equity :: rat

text \<open>A journal row's id is its position, counted from 1: rows are never deleted.\<close>

record store =
  s_runs :: "(string, run_row) dict"
  s_locks :: "(string, string) dict"
  s_journal :: "journal_row list"
  s_accounts :: "(string, json) dict"
  s_orders :: "(string, json) dict"
  s_fills :: "(string, json) dict"
  s_positions :: "(string, json) dict"
  s_trades :: "(string, json) dict"
  s_state :: "(string, json) dict"
  s_reviews :: "(string, review_row) dict"
  s_metadata :: "(string, metadata_row) dict"
  s_notifications :: "(string, json) dict"
  s_deliveries :: "(string, delivery_row) dict"
  s_awareness :: "((string \<times> string) \<times> string) list"
  s_snapshots :: "(string, json) dict"

definition empty_store :: store where
  "empty_store = \<lparr>s_runs = [], s_locks = [], s_journal = [], s_accounts = [], s_orders = [], s_fills = [], s_positions = [],
     s_trades = [], s_state = [], s_reviews = [], s_metadata = [], s_notifications = [], s_deliveries = [], s_awareness = [],
     s_snapshots = []\<rparr>"

section \<open>Journal and state\<close>

definition add_event ::
  "instant \<Rightarrow> string option \<Rightarrow> string option \<Rightarrow> string \<Rightarrow> string \<Rightarrow> string \<Rightarrow> json \<Rightarrow> store \<Rightarrow> store" where
  "add_event t run symbol source ty severity payload s = s\<lparr>s_journal := s_journal s @
     [\<lparr>j_timestamp = t, j_run_id = run, j_symbol = symbol, j_source = source, j_type = ty, j_severity = severity,
       j_payload = sanitize payload\<rparr>]\<rparr>"

definition set_state :: "string \<Rightarrow> json \<Rightarrow> store \<Rightarrow> store" where
  "set_state k v s = s\<lparr>s_state := dput k v (s_state s)\<rparr>"

definition get_state :: "string \<Rightarrow> store \<Rightarrow> json" where
  "get_state k s = (case dget (s_state s) k of None \<Rightarrow> JNull | Some v \<Rightarrow> v)"

definition heartbeat :: "instant \<Rightarrow> string \<Rightarrow> store \<Rightarrow> store" where
  "heartbeat t scheduler_status s = set_state ''scheduler'' (JStr scheduler_status) (set_state ''heartbeat'' (JTime t) s)"

section \<open>Slots: one run of a symbol at a time\<close>

definition claim_slot ::
  "(string \<Rightarrow> string) \<Rightarrow> string \<Rightarrow> string \<Rightarrow> instant \<Rightarrow> instant \<Rightarrow> string option \<Rightarrow> store \<Rightarrow> bool \<times> store" where
  "claim_slot uuid5 key symbol as_of started_at run_id s =
    (let run = (case run_id of None \<Rightarrow> uuid5 key | Some r \<Rightarrow> if r = [] then uuid5 key else r)
     in if dget (s_locks s) symbol \<noteq> None then (False, s)
        else if dget (s_runs s) key \<noteq> None then (False, s)
        else (True, add_event started_at (Some run) (Some symbol) ''runtime'' ''RUN_STARTED'' ''INFO'' (JObj [(''slot_key'', JStr key)])
          (s\<lparr>s_runs := dput key \<lparr>r_run_id = run, r_symbol = symbol, r_as_of = as_of, r_started_at = started_at,
                 r_completed_at = None, r_status = ''RUNNING'', r_final_status = None, r_error = None\<rparr> (s_runs s),
             s_locks := dput symbol key (s_locks s)\<rparr>)))"

text \<open>The join of a run with the lock of its symbol.\<close>

definition owns_slot :: "string \<Rightarrow> string option \<Rightarrow> store \<Rightarrow> bool" where
  "owns_slot key symbol s = (case (dget (s_runs s) key, symbol) of
     (Some r, Some sy) \<Rightarrow> r_symbol r = sy \<and> r_status r = ''RUNNING'' \<and> dget (s_locks s) sy = Some key
   | _ \<Rightarrow> False)"

definition release_locks :: "string \<Rightarrow> (string, string) dict \<Rightarrow> (string, string) dict" where
  "release_locks key locks = filter (\<lambda>l. snd l \<noteq> key) locks"

definition fresh_review :: "string \<Rightarrow> string \<Rightarrow> string \<Rightarrow> json \<Rightarrow> string \<Rightarrow> json \<Rightarrow> (string \<times> json) list" where
  "fresh_review run key symbol as_of final_status error =
    [(''schema_version'', JStr ''1.0''), (''run_id'', JStr run), (''slot_key'', JStr key), (''symbol'', JStr symbol),
     (''as_of'', as_of), (''final_status'', JStr final_status), (''setup_status'', JStr ''NOT_REACHED''),
     (''agents'', JList []), (''risk_decision'', JNull), (''paper'', JObj []), (''warnings'', JList []), (''error'', error)]"

text \<open>Writing a review: the run's row if there is one, else a new row, whose slot key must be unused.\<close>

definition put_review :: "string \<Rightarrow> string \<Rightarrow> json \<Rightarrow> store \<Rightarrow> py_error + store" where
  "put_review run key payload s = (case dget (s_reviews s) run of
     Some rv \<Rightarrow> Inr (s\<lparr>s_reviews := dput run (rv\<lparr>rv_payload := sanitize payload\<rparr>) (s_reviews s)\<rparr>)
   | None \<Rightarrow> if key \<in> rv_slot ` set (dvals (s_reviews s)) then Inl IntegrityError
       else Inr (s\<lparr>s_reviews := dput run \<lparr>rv_slot = key, rv_payload = sanitize payload\<rparr> (s_reviews s)\<rparr>))"

definition UNSUCCESSFUL :: "string list" where
  "UNSUCCESSFUL = [''NO_DATA'', ''STALE_DATA'', ''ERROR'', ''PROVIDER_FAILURE'']"

definition provider_health :: "store \<Rightarrow> json" where
  "provider_health s = JObj [(''market'', get_state ''market_data_provider'' s), (''ai'', get_state ''ai_provider'' s),
     (''macro'', get_state ''macro_provider'' s)]"

definition finish :: "string \<Rightarrow> instant \<Rightarrow> string \<Rightarrow> string \<Rightarrow> string option \<Rightarrow> store \<Rightarrow> py_error + bool \<times> store" where
  "finish key completed_at status final_status error s = (case dget (s_runs s) key of
     None \<Rightarrow> Inr (False, s)
   | Some r \<Rightarrow>
     if r_status r \<noteq> ''RUNNING'' \<or> \<not> owns_slot key (Some (r_symbol r)) s then Inr (False, s)
     else
       let s1 = s\<lparr>s_runs := dput key (r\<lparr>r_completed_at := Some completed_at, r_status := status,
                   r_final_status := Some final_status, r_error := error\<rparr>) (s_runs s),
                 s_locks := release_locks key (s_locks s)\<rparr>;
           review = (case dget (s_reviews s) (r_run_id r) of
               Some rv \<Rightarrow> jput ''error'' (jstr_opt error) (jput ''final_status'' (JStr final_status) (rv_payload rv))
             | None \<Rightarrow> JObj (fresh_review (r_run_id r) key (r_symbol r) (JTime (r_as_of r)) final_status (jstr_opt error)))
       in ebind (put_review (r_run_id r) key (jput ''provider_health'' (provider_health s) review) s1) (\<lambda>s2.
         let s3 = add_event completed_at (Some (r_run_id r)) (Some (r_symbol r)) ''runtime''
                    (if status = ''COMPLETED'' then ''RUN_COMPLETED'' else ''RUN_FAILED'')
                    (if status = ''COMPLETED'' then ''INFO'' else ''ERROR'')
                    (JObj [(''final_status'', JStr final_status), (''error'', jstr_opt error)]) s2;
             s4 = (if status = ''COMPLETED'' \<and> final_status \<notin> set UNSUCCESSFUL
                   then set_state ''last_success'' (JTime completed_at) s3 else s3)
         in Inr (True, set_state ''last_run'' (JTime completed_at) s4)))"

definition stale_runs :: "instant \<Rightarrow> int \<Rightarrow> store \<Rightarrow> (string \<times> run_row) list" where
  "stale_runs t after_seconds s =
     filter (\<lambda>(k, r). r_status r = ''RUNNING'' \<and> after_seconds * SECOND \<le> t - r_started_at r) (s_runs s)"

definition recover_run :: "(string \<Rightarrow> string) \<Rightarrow> instant \<Rightarrow> string \<times> run_row \<Rightarrow> store \<Rightarrow> py_error + store" where
  "recover_run uuid5 t row s = (case row of (key, r) \<Rightarrow>
     let run = (if r_run_id r = [] then uuid5 key else r_run_id r);
         s1 = s\<lparr>s_runs := dput key (r\<lparr>r_run_id := run, r_status := ''FAILED'', r_final_status := Some ''ERROR'',
                 r_completed_at := Some t, r_error := Some ''interrupted_run''\<rparr>) (s_runs s),
               s_locks := release_locks key (s_locks s)\<rparr>;
         review = (case dget (s_reviews s) run of
             Some rv \<Rightarrow> jput ''error'' (JStr ''interrupted_run'') (jput ''final_status'' (JStr ''ERROR'') (rv_payload rv))
           | None \<Rightarrow> JObj (fresh_review run key (r_symbol r) JNull ''ERROR'' (JStr ''interrupted_run'')))
     in ebind (put_review run key review s1) (\<lambda>s2.
       Inr (add_event t (Some run) (Some (r_symbol r)) ''runtime'' ''STATE_INCONSISTENCY'' ''ERROR''
         (JObj [(''slot_key'', JStr key), (''reason'', JStr ''interrupted_run'')]) s2)))"

definition recover :: "(string \<Rightarrow> string) \<Rightarrow> instant \<Rightarrow> int \<Rightarrow> store \<Rightarrow> py_error + nat \<times> store" where
  "recover uuid5 t after_seconds s =
    (let s1 = add_event t None None ''runtime'' ''RECOVERY_STARTED'' ''INFO'' (JObj []) s;
         rows = stale_runs t after_seconds s1
     in ebind (efold (recover_run uuid5 t) rows s1) (\<lambda>s2.
       let s3 = add_event t None None ''runtime'' ''RECOVERY_COMPLETED'' ''INFO''
                  (JObj [(''unfinished_runs'', JInt (int (length rows)))]) s2
       in Inr (length rows, set_state ''recovery_at'' (JTime t) s3)))"

section \<open>Outcomes, metadata, alerts\<close>

definition record_execution ::
  "instant \<Rightarrow> string \<Rightarrow> string \<Rightarrow> (string \<times> json) list \<Rightarrow> store \<Rightarrow> py_error + store" where
  "record_execution t run symbol outcome s = (case dget (s_reviews s) run of
     None \<Rightarrow> Inl (RuntimeError ''execution outcome requires persisted review'')
   | Some rv \<Rightarrow> Inr (add_event t (Some run) (Some symbol) ''policy'' ''EXECUTION_DECISION'' ''INFO'' (JObj outcome)
       (s\<lparr>s_reviews := dput run (rv\<lparr>rv_payload := sanitize (jput ''execution'' (JObj outcome) (rv_payload rv))\<rparr>) (s_reviews s)\<rparr>)))"

definition execution_outcome ::
  "string \<Rightarrow> string \<Rightarrow> string option \<Rightarrow> string option \<Rightarrow> string option \<Rightarrow> string option \<Rightarrow> (string \<times> json) list" where
  "execution_outcome status reason setup position order_blocking order_id =
    [(''execution_status'', JStr status), (''execution_reason'', JStr reason), (''setup_id'', jstr_opt setup),
     (''blocking_position_id'', jstr_opt position), (''blocking_order_id'', jstr_opt order_blocking),
     (''order_id'', jstr_opt order_id)]"

definition save_run_metadata ::
  "string \<Rightarrow> string \<Rightarrow> rat \<Rightarrow> string option \<Rightarrow> string option \<Rightarrow> store \<Rightarrow> py_error + store" where
  "save_run_metadata key fp equity commit experiment s =
    (if dget (s_metadata s) key \<noteq> None \<or> dget (s_runs s) key = None then Inl IntegrityError
     else Inr (s\<lparr>s_metadata := dput key \<lparr>md_git_commit = commit, md_fingerprint = fp, md_experiment_id = experiment,
       md_equity = equity\<rparr> (s_metadata s)\<rparr>))"

definition hex_char :: "char \<Rightarrow> bool" where
  "hex_char c = (let n = of_char c :: nat in 48 \<le> n \<and> n \<le> 57 \<or> 65 \<le> n \<and> n \<le> 70 \<or> 97 \<le> n \<and> n \<le> 102)"

definition sha_text :: "string \<Rightarrow> bool" where
  "sha_text x \<longleftrightarrow> 7 \<le> length x \<and> length x \<le> 40 \<and> list_all hex_char x"

definition start_experiment_if_unstarted :: "instant \<Rightarrow> string \<Rightarrow> string \<Rightarrow> store \<Rightarrow> py_error + bool \<times> store" where
  "start_experiment_if_unstarted t baseline freeze s =
    (if \<not> sha_text baseline then Inl (ValueError ''invalid experiment baseline SHA'')
     else if \<not> sha_text freeze then Inl (ValueError ''invalid experiment freeze SHA'')
     else if get_state ''experiment_started'' s = JStr ''1'' then Inr (False, s)
     else Inr (True, add_event t None None ''experiment'' ''EXPERIMENT_STARTED'' ''INFO''
         (JObj [(''baseline_sha'', JStr baseline), (''freeze_sha'', JStr freeze)])
       (set_state ''experiment_freeze_sha'' (JStr freeze) (set_state ''experiment_baseline_sha'' (JStr baseline)
         (set_state ''experiment_started_at_utc'' (JTime t) (set_state ''experiment_started'' (JStr ''1'') s))))))"

definition claim_notification_delivery :: "string \<Rightarrow> instant \<Rightarrow> store \<Rightarrow> py_error + bool \<times> store" where
  "claim_notification_delivery ev t s =
    (if dget (s_notifications s) ev = None then Inl (ValueError ''notification must be persisted before delivery'')
     else if dget (s_deliveries s) ev \<noteq> None then Inr (False, s)
     else Inr (True, s\<lparr>s_deliveries := dput ev \<lparr>dv_status = ''CLAIMED'', dv_attempted_at = t, dv_completed_at = None,
       dv_error = None\<rparr> (s_deliveries s)\<rparr>))"

definition complete_notification_delivery :: "string \<Rightarrow> instant \<Rightarrow> string option \<Rightarrow> store \<Rightarrow> store" where
  "complete_notification_delivery ev t err s = (case dget (s_deliveries s) ev of
     None \<Rightarrow> s
   | Some d \<Rightarrow> if dv_status d \<noteq> ''CLAIMED'' then s
       else s\<lparr>s_deliveries := dput ev (d\<lparr>dv_status := (if err = None \<or> err = Some [] then ''DELIVERED'' else ''FAILED''),
         dv_completed_at := Some t, dv_error := err\<rparr>) (s_deliveries s)\<rparr>)"

definition AWARENESS_WINDOWS :: "json list" where
  "AWARENESS_WINDOWS = map JStr [''UPCOMING'', ''ACTIVE_WINDOW'', ''DATE_ONLY_UPCOMING'', ''DATE_ONLY_TODAY'']"

definition record_macro_event :: "instant \<Rightarrow> string \<Rightarrow> string \<Rightarrow> json \<Rightarrow> store \<Rightarrow> store" where
  "record_macro_event t run symbol me s =
    (let source_high = jget me ''impact'' = JStr ''HIGH'';
         policy_high = jget (jget me ''data_quality'') ''policy_relevance'' = JStr ''HIGH''
     in if \<not> (source_high \<or> policy_high) \<or> jget me ''window'' \<notin> set AWARENESS_WINDOWS then s
        else (case jget me ''event_id'' of
          JStr i \<Rightarrow>
            if i = [] \<or> map_of (s_awareness s) (i, symbol) \<noteq> None then s
            else add_event t (Some run) (Some symbol) ''macro_news''
                   (if source_high then ''MACRO_HIGH_IMPORTANCE'' else ''MACRO_HIGH_RELEVANCE'') ''WARNING''
                   (JObj [(''event_id'', JStr i), (''event_time_utc'', jget me ''event_timestamp''),
                          (''event_date'', jget me ''event_date''),
                          (''impact'', if source_high then JStr ''HIGH'' else JNull),
                          (''policy_relevance'', if policy_high then JStr ''HIGH'' else JNull)])
                   (s\<lparr>s_awareness := s_awareness s @ [((i, symbol), run)]\<rparr>)
        | _ \<Rightarrow> s))"

definition record_macro_awareness :: "instant \<Rightarrow> string \<Rightarrow> string \<Rightarrow> json list \<Rightarrow> store \<Rightarrow> store" where
  "record_macro_awareness t run symbol events s = foldl (\<lambda>s e. record_macro_event t run symbol e s) s events"

definition save_snapshot :: "string \<Rightarrow> json \<Rightarrow> store \<Rightarrow> store" where
  "save_snapshot symbol payload s = s\<lparr>s_snapshots := dput symbol (sanitize payload) (s_snapshots s)\<rparr>"

definition load_snapshot :: "string \<Rightarrow> store \<Rightarrow> json option" where
  "load_snapshot symbol s = dget (s_snapshots s) symbol"

definition review_report :: "string \<Rightarrow> store \<Rightarrow> json option" where
  "review_report run s = map_option rv_payload (dget (s_reviews s) run)"

section \<open>PAPER state\<close>

type_synonym durable = "paper_account option \<times> (string, paper_order) dict \<times> (string, paper_fill) dict"

text \<open>\<open>json_extract(payload, '$.status') = 'OPEN'\<close>.\<close>

definition open_rows :: "store \<Rightarrow> json list" where
  "open_rows s = filter (\<lambda>j. jget j ''status'' = JStr ''OPEN'') (dvals (s_positions s))"

definition load_account :: "string \<Rightarrow> store \<Rightarrow> py_error + paper_account option" where
  "load_account aid s = (case dget (s_accounts s) aid of None \<Rightarrow> Inr None
     | Some j \<Rightarrow> ebind (decode_account j) (\<lambda>a. Inr (Some a)))"

definition load_paper :: "string \<Rightarrow> store \<Rightarrow> py_error + durable" where
  "load_paper aid s =
    ebind (load_account aid s) (\<lambda>oa.
    ebind (traverse decode_order (dvals (s_orders s))) (\<lambda>ods.
    ebind (traverse decode_fill (dvals (s_fills s))) (\<lambda>fs.
    (case oa of None \<Rightarrow> Inr (None, dict_by o_id ods, dict_by f_id fs)
     | Some a \<Rightarrow>
       ebind (traverse decode_position (open_rows s)) (\<lambda>ps.
       if \<not> distinct (map p_symbol ps) then Inl (RuntimeError ''duplicate open paper position'')
       else ebind (traverse decode_trade (dvals (s_trades s))) (\<lambda>ts.
         Inr (Some (a\<lparr>a_open_positions := dict_by p_symbol ps, a_closed_trades := ts\<rparr>), dict_by o_id ods, dict_by f_id fs)))))))"

text \<open>
  \<open>paper_state\<close>: sorted tuples of texts are equal exactly when the collections of texts are.
\<close>

type_synonym paper_view = "json option \<times> json multiset \<times> json multiset \<times> json multiset \<times> json multiset"

definition paper_state :: "durable \<Rightarrow> paper_view" where
  "paper_state d = (case d of (oa, ods, fs) \<Rightarrow>
    (map_option encode_account oa,
     (case oa of None \<Rightarrow> {#} | Some a \<Rightarrow> mset (map encode_position (dvals (a_open_positions a)))),
     (case oa of None \<Rightarrow> {#} | Some a \<Rightarrow> mset (map encode_trade (a_closed_trades a))),
     mset (map encode_order (dvals ods)), mset (map encode_fill (dvals fs))))"

definition put_rows :: "('a \<Rightarrow> string) \<Rightarrow> ('a \<Rightarrow> json) \<Rightarrow> 'a list \<Rightarrow> (string, json) dict \<Rightarrow> (string, json) dict" where
  "put_rows key enc xs d = foldl (\<lambda>d x. replace_row (key x) (enc x) d) d xs"

definition close_row :: "closed_trade \<Rightarrow> (string, json) dict \<Rightarrow> py_error + (string, json) dict" where
  "close_row tr d = (case dget d (ct_position_id tr) of None \<Rightarrow> Inr d
     | Some j \<Rightarrow> ebind (decode_position j) (\<lambda>p. Inr (dput (ct_position_id tr) (encode_position (p\<lparr>p_status := CLOSED\<rparr>)) d)))"

definition journal_broker_event :: "instant \<Rightarrow> journal_event \<Rightarrow> store \<Rightarrow> store" where
  "journal_broker_event now e = add_event (case e_timestamp e of None \<Rightarrow> now | Some t \<Rightarrow> t) (Some (e_run_id e)) (Some (e_symbol e))
     (e_entity_id e) (e_type e) ''INFO'' (e_details e)"

definition review_paper :: "broker \<Rightarrow> string \<Rightarrow> json" where
  "review_paper br run = (let a = br_account br in JObj
    [(''orders'', JList (map (\<lambda>od. JObj [(''order_id'', JStr (o_id od)), (''status'', JStr (order_status_name (o_status od)))])
        (filter (\<lambda>od. o_run_id od = run) (dvals (br_orders br))))),
     (''fills'', JList (map (\<lambda>f. JStr (f_id f)) (filter (\<lambda>f. f_run_id f = run) (dvals (br_fills br))))),
     (''open_positions'', JList (map (\<lambda>p. JStr (p_id p)) (filter (\<lambda>p. p_run_id p = run) (dvals (a_open_positions a))))),
     (''closed_trades'', JList (map (\<lambda>t. JObj [(''trade_id'', JStr (ct_id t)), (''net_pnl'', JNum (ct_net_pnl t))])
        (filter (\<lambda>t. ct_run_id t = run) (a_closed_trades a)))),
     (''equity'', JNum (a_equity a)), (''realized_pnl'', JNum (a_realized_pnl a)), (''unrealized_pnl'', JNum (a_unrealized_pnl a))])"

definition broker_runs :: "broker \<Rightarrow> string set" where
  "broker_runs br = o_run_id ` set (dvals (br_orders br)) \<union> f_run_id ` set (dvals (br_fills br))
     \<union> ct_run_id ` set (a_closed_trades (br_account br))"

definition update_reviews :: "broker \<Rightarrow> (string, review_row) dict \<Rightarrow> (string, review_row) dict" where
  "update_reviews br = map (\<lambda>(run, rv). (run, if run \<in> broker_runs br
     then rv\<lparr>rv_payload := sanitize (jput ''paper'' (review_paper br run) (rv_payload rv))\<rparr> else rv))"

definition write_paper :: "instant \<Rightarrow> broker \<Rightarrow> store \<Rightarrow> py_error + store" where
  "write_paper now br s =
    (let a = br_account br;
         s1 = s\<lparr>s_accounts := replace_row (a_id a) (encode_account a) (s_accounts s),
                s_orders := put_rows o_id encode_order (dvals (br_orders br)) (s_orders s),
                s_fills := put_rows f_id encode_fill (dvals (br_fills br)) (s_fills s),
                s_trades := put_rows ct_id encode_trade (a_closed_trades a) (s_trades s)\<rparr>
     in ebind (efold close_row (a_closed_trades a)
                 (put_rows p_id encode_position (dvals (a_open_positions a)) (s_positions s))) (\<lambda>positions.
       let s2 = foldl (\<lambda>s e. journal_broker_event now e s) (s1\<lparr>s_positions := positions\<rparr>) (br_journal br)
       in Inr (s2\<lparr>s_reviews := update_reviews br (s_reviews s2)\<rparr>)))"

text \<open>
  \<open>save_paper\<close>. The result is whether it saved (the code returns \<open>False\<close> only when the expected state is
  stale), the committed state and the broker, whose journal is cleared by a save.
\<close>

definition save_paper ::
  "string option \<Rightarrow> string option \<Rightarrow> paper_view option \<Rightarrow> instant \<Rightarrow> broker \<Rightarrow> store \<Rightarrow> py_error + bool \<times> store \<times> broker" where
  "save_paper owner symbol expected now br s =
    (if (case owner of None \<Rightarrow> False | Some k \<Rightarrow> \<not> owns_slot k symbol s)
     then Inl (RuntimeError ''paper persistence without slot ownership'')
     else ebind (case expected of None \<Rightarrow> Inr True
                 | Some v \<Rightarrow> ebind (load_paper (a_id (br_account br)) s) (\<lambda>d. Inr (paper_state d = v))) (\<lambda>current.
       if \<not> current then Inr (False, s, br)
       else ebind (write_paper now br s) (\<lambda>s'. Inr (True, s', br\<lparr>br_journal := []\<rparr>))))"

section \<open>Facts: what each operation leaves alone\<close>

lemma add_event_simps [simp]:
  "s_runs (add_event t r y c ty v p s) = s_runs s" "s_locks (add_event t r y c ty v p s) = s_locks s"
  "s_accounts (add_event t r y c ty v p s) = s_accounts s" "s_orders (add_event t r y c ty v p s) = s_orders s"
  "s_fills (add_event t r y c ty v p s) = s_fills s" "s_positions (add_event t r y c ty v p s) = s_positions s"
  "s_trades (add_event t r y c ty v p s) = s_trades s" "s_reviews (add_event t r y c ty v p s) = s_reviews s"
  "s_journal (add_event t r y c ty v p s) = s_journal s @
     [\<lparr>j_timestamp = t, j_run_id = r, j_symbol = y, j_source = c, j_type = ty, j_severity = v, j_payload = sanitize p\<rparr>]"
  by (simp_all add: add_event_def)

lemma set_state_simps [simp]:
  "s_runs (set_state k v s) = s_runs s" "s_locks (set_state k v s) = s_locks s" "s_journal (set_state k v s) = s_journal s"
  "s_accounts (set_state k v s) = s_accounts s" "s_orders (set_state k v s) = s_orders s" "s_fills (set_state k v s) = s_fills s"
  "s_positions (set_state k v s) = s_positions s" "s_trades (set_state k v s) = s_trades s"
  by (simp_all add: set_state_def)

lemma put_review_frame:
  "put_review run key p s = Inr s' \<Longrightarrow> \<exists>rs. s' = s\<lparr>s_reviews := rs\<rparr>"
  by (auto simp: put_review_def split: option.splits if_splits)

text \<open>What the journal loop of \<open>save_paper\<close> adds.\<close>

definition broker_row :: "instant \<Rightarrow> journal_event \<Rightarrow> journal_row" where
  "broker_row now e = \<lparr>j_timestamp = (case e_timestamp e of None \<Rightarrow> now | Some t \<Rightarrow> t), j_run_id = Some (e_run_id e),
     j_symbol = Some (e_symbol e), j_source = e_entity_id e, j_type = e_type e, j_severity = ''INFO'',
     j_payload = sanitize (e_details e)\<rparr>"

lemma journal_loop:
  "foldl (\<lambda>s e. journal_broker_event now e s) s es = s\<lparr>s_journal := s_journal s @ map (broker_row now) es\<rparr>"
  by (induction es arbitrary: s) (auto simp: journal_broker_event_def add_event_def broker_row_def)

lemma write_paper_frame:
  assumes "write_paper now br s = Inr s'"
  shows "s_runs s' = s_runs s" and "s_locks s' = s_locks s" and "s_journal s' = s_journal s @ map (broker_row now) (br_journal br)"
    and "s_orders s' = put_rows o_id encode_order (dvals (br_orders br)) (s_orders s)"
    and "s_fills s' = put_rows f_id encode_fill (dvals (br_fills br)) (s_fills s)"
    and "s_trades s' = put_rows ct_id encode_trade (a_closed_trades (br_account br)) (s_trades s)"
    and "s_accounts s' = replace_row (a_id (br_account br)) (encode_account (br_account br)) (s_accounts s)"
    and "efold close_row (a_closed_trades (br_account br))
           (put_rows p_id encode_position (dvals (a_open_positions (br_account br))) (s_positions s)) = Inr (s_positions s')"
  using assms by (auto simp: write_paper_def Let_def ebind_eq_Inr journal_loop)

lemma save_paper_cases:
  assumes "save_paper owner symbol expected now br s = Inr (saved, s', br')"
  obtains "\<not> saved" "s' = s" "br' = br" "\<exists>v d. expected = Some v \<and> load_paper (a_id (br_account br)) s = Inr d \<and> paper_state d \<noteq> v"
  | "saved" "write_paper now br s = Inr s'" "br' = br\<lparr>br_journal := []\<rparr>"
    "\<forall>v. expected = Some v \<longrightarrow> (\<exists>d. load_paper (a_id (br_account br)) s = Inr d \<and> paper_state d = v)"
    "\<forall>k. owner = Some k \<longrightarrow> owns_slot k symbol s"
proof -
  have o: "\<forall>k. owner = Some k \<longrightarrow> owns_slot k symbol s"
    using assms by (auto simp: save_paper_def split: if_splits)
  define C where "C = (case expected of None \<Rightarrow> Inr True
       | Some v \<Rightarrow> ebind (load_paper (a_id (br_account br)) s) (\<lambda>d. Inr (paper_state d = v)))"
  have "ebind C (\<lambda>current. if \<not> current then Inr (False, s, br)
      else ebind (write_paper now br s) (\<lambda>s'. Inr (True, s', br\<lparr>br_journal := []\<rparr>))) = Inr (saved, s', br')"
    using assms by (simp add: save_paper_def C_def split: if_splits)
  then obtain current where c: "C = Inr current"
    "(if \<not> current then Inr (False, s, br) else ebind (write_paper now br s) (\<lambda>s'. Inr (True, s', br\<lparr>br_journal := []\<rparr>)))
      = Inr (saved, s', br')"
    unfolding ebind_eq_Inr by blast
  show thesis
  proof (cases current)
    case True
    then show thesis using c o that(2) by (auto simp: C_def ebind_eq_Inr split: option.splits)
  next
    case False
    then show thesis using c that(1) by (auto simp: C_def ebind_eq_Inr split: option.splits)
  qed
qed

section \<open>Slots: one running run per symbol\<close>

definition running :: "string \<Rightarrow> run_row \<Rightarrow> store \<Rightarrow> bool" where
  "running key r s \<longleftrightarrow> dget (s_runs s) key = Some r \<and> r_status r = ''RUNNING''"

text \<open>The locks are exactly the running runs, one per symbol.\<close>

definition slots_ok :: "store \<Rightarrow> bool" where
  "slots_ok s \<longleftrightarrow> dkeys_ok (s_runs s) \<and> dkeys_ok (s_locks s)
     \<and> (\<forall>key r. running key r s \<longrightarrow> dget (s_locks s) (r_symbol r) = Some key)
     \<and> (\<forall>sy key. dget (s_locks s) sy = Some key \<longrightarrow> (\<exists>r. running key r s \<and> r_symbol r = sy))"

lemma slots_cong: "s_runs s' = s_runs s \<Longrightarrow> s_locks s' = s_locks s \<Longrightarrow> slots_ok s' = slots_ok s"
  by (simp add: slots_ok_def running_def)

lemma empty_slots_ok: "slots_ok empty_store"
  by (simp add: slots_ok_def running_def empty_store_def)

text \<open>What a step does to the runs that are over: nothing. The journal only grows.\<close>

definition history_kept :: "store \<Rightarrow> store \<Rightarrow> bool" where
  "history_kept s s' \<longleftrightarrow> (\<forall>key r. dget (s_runs s) key = Some r \<longrightarrow> r_status r \<noteq> ''RUNNING'' \<longrightarrow> dget (s_runs s') key = Some r)
     \<and> (\<exists>rows. s_journal s' = s_journal s @ rows)"

lemma history_refl: "history_kept s s"
  by (simp add: history_kept_def)

lemma history_trans: "history_kept a b \<Longrightarrow> history_kept b c \<Longrightarrow> history_kept a c"
  unfolding history_kept_def by (metis append.assoc)

lemma history_same: "s_runs s' = s_runs s \<Longrightarrow> s_journal s' = s_journal s @ rows \<Longrightarrow> history_kept s s'"
  by (simp add: history_kept_def)

lemma dkeys_ok_release [simp]: "dkeys_ok d \<Longrightarrow> dkeys_ok (release_locks key d)"
  unfolding release_locks_def dkeys_ok_def by (rule distinct_map_filter)

lemma dget_release [simp]:
  assumes "dkeys_ok d"
  shows "dget (release_locks key d) sy = (if dget d sy = Some key then None else dget d sy)"
proof -
  have mem: "dget (release_locks key d) sy = Some v \<longleftrightarrow> dget d sy = Some v \<and> v \<noteq> key" for v
    using assms dkeys_ok_release [OF assms, of key] by (auto simp: dkeys_ok_def release_locks_def)
  show ?thesis by (cases "dget (release_locks key d) sy"; cases "dget d sy") (use mem in auto)
qed

text \<open>Ending a running run: \<open>finish\<close> and \<open>recover\<close>.\<close>

lemma end_run_ok:
  assumes "slots_ok s" and "running key r s" and "r_symbol r' = r_symbol r" and "r_status r' \<noteq> ''RUNNING''"
    and "s_runs s' = dput key r' (s_runs s)" and "s_locks s' = release_locks key (s_locks s)"
  shows "slots_ok s'"
proof -
  have k: "dkeys_ok (s_runs s)" "dkeys_ok (s_locks s)" using assms(1) by (auto simp: slots_ok_def)
  have run: "running k x s' \<longleftrightarrow> k \<noteq> key \<and> running k x s" for k x
    using assms(2,4,5) by (auto simp: running_def)
  have lock: "dget (s_locks s') sy = Some k \<longleftrightarrow> k \<noteq> key \<and> dget (s_locks s) sy = Some k" for sy k
    using assms(6) k by auto
  show ?thesis
    using assms(1,5,6) k unfolding slots_ok_def run lock by auto
qed

lemma end_run_history:
  assumes "running key r s" and "s_runs s' = dput key r' (s_runs s)" and "s_journal s' = s_journal s @ rows"
  shows "history_kept s s'"
  using assms by (auto simp: history_kept_def running_def)

lemma claim_slot_ok:
  assumes "slots_ok s"
  shows "slots_ok (snd (claim_slot u key symbol as_of t run s))" and "history_kept s (snd (claim_slot u key symbol as_of t run s))"
proof -
  let ?s' = "snd (claim_slot u key symbol as_of t run s)"
  have "slots_ok ?s' \<and> history_kept s ?s'"
  proof (cases "dget (s_locks s) symbol = None \<and> dget (s_runs s) key = None")
    case False
    then show ?thesis using assms by (auto simp: claim_slot_def Let_def history_refl)
  next
    case True
    then obtain r where new: "s_runs ?s' = dput key r (s_runs s)" "s_locks ?s' = dput symbol key (s_locks s)"
        "r_symbol r = symbol" "r_status r = ''RUNNING''" and j: "\<exists>rows. s_journal ?s' = s_journal s @ rows"
      by (auto simp: claim_slot_def Let_def)
    have fresh: "running k x ?s' \<longleftrightarrow> (if k = key then x = r else running k x s)" for k x
      using new(1,4) by (auto simp: running_def)
    have "slots_ok ?s'"
      using assms True new fresh unfolding slots_ok_def running_def
      by (auto split: if_splits) (metis option.simps(3))+
    moreover have "history_kept s ?s'" using True new(1) j by (auto simp: history_kept_def)
    ultimately show ?thesis ..
  qed
  then show "slots_ok ?s'" "history_kept s ?s'" by auto
qed

lemma finish_ok:
  assumes "slots_ok s" and "finish key t status final err s = Inr (done, s')" and "status \<noteq> ''RUNNING''"
  shows "slots_ok s'" and "history_kept s s'"
proof -
  have "slots_ok s' \<and> history_kept s s'"
  proof (cases "done")
    case False
    then have "s' = s" using assms(2) by (auto simp: finish_def Let_def ebind_eq_Inr split: option.splits if_splits)
    then show ?thesis using assms(1) by (simp add: history_refl)
  next
    case True
    then obtain r rs where r: "running key r s"
      "s_runs s' = dput key (r\<lparr>r_completed_at := Some t, r_status := status, r_final_status := Some final, r_error := err\<rparr>) (s_runs s)"
      "s_locks s' = release_locks key (s_locks s)" "s_journal s' = s_journal s @ rs"
      using assms(2) by (auto simp: finish_def Let_def ebind_eq_Inr running_def split: option.splits if_splits
          dest!: put_review_frame)
    show ?thesis using end_run_ok [OF assms(1) r(1) _ _ r(2,3)] end_run_history [OF r(1,2,4)] assms(3) by simp
  qed
  then show "slots_ok s'" "history_kept s s'" by auto
qed

lemma recover_run_ok:
  assumes "slots_ok s" and "recover_run u t (key, r) s = Inr s'" and "running key r s"
  shows "slots_ok s'" and "history_kept s s'" and "\<And>k x. k \<noteq> key \<Longrightarrow> running k x s' = running k x s"
proof -
  obtain r' rs where r: "s_runs s' = dput key r' (s_runs s)" "s_locks s' = release_locks key (s_locks s)"
      "s_journal s' = s_journal s @ rs" "r_symbol r' = r_symbol r" "r_status r' \<noteq> ''RUNNING''"
    using assms(2) by (auto simp: recover_run_def Let_def ebind_eq_Inr dest!: put_review_frame)
  show "slots_ok s'" by (rule end_run_ok [OF assms(1,3) r(4,5,1,2)])
  show "history_kept s s'" by (rule end_run_history [OF assms(3) r(1,3)])
  show "running k x s' = running k x s" if "k \<noteq> key" for k x using that r(1) by (simp add: running_def)
qed

lemma recover_loop_ok:
  assumes "slots_ok s" and "efold (recover_run u t) rows s = Inr s'" and "\<forall>(key, r) \<in> set rows. running key r s"
    and "distinct (map fst rows)"
  shows "slots_ok s' \<and> history_kept s s'"
  using assms
proof (induction rows arbitrary: s)
  case Nil
  then show ?case by (simp add: history_refl)
next
  case (Cons row rows)
  obtain key r where row: "row = (key, r)" by fastforce
  obtain s1 where s1: "recover_run u t (key, r) s = Inr s1" "efold (recover_run u t) rows s1 = Inr s'"
    using Cons.prems(2) row by (auto simp: ebind_eq_Inr)
  have run: "running key r s" using Cons.prems(3) row by simp
  note one = recover_run_ok [OF Cons.prems(1) s1(1) run]
  have "\<forall>(k, x) \<in> set rows. running k x s1" using Cons.prems(3,4) row by (auto simp: one(3) split_beta image_iff) (metis fst_conv one(3) prod.collapse snd_conv)
  then show ?case using Cons.IH [OF one(1) s1(2)] Cons.prems(4) history_trans [OF one(2)] by auto
qed

lemma recover_ok:
  assumes "slots_ok s" and "recover u t n s = Inr (done, s')"
  shows "slots_ok s'" and "history_kept s s'"
proof -
  let ?s1 = "add_event t None None ''runtime'' ''RECOVERY_STARTED'' ''INFO'' (JObj []) s"
  obtain s2 where s2: "efold (recover_run u t) (stale_runs t n ?s1) ?s1 = Inr s2" "s_runs s' = s_runs s2" "s_locks s' = s_locks s2"
      "\<exists>rows. s_journal s' = s_journal s2 @ rows"
    using assms(2) by (auto simp: recover_def Let_def ebind_eq_Inr)
  have ok: "slots_ok ?s1" using assms(1) by (simp add: slots_cong [of ?s1 s])
  then have runs: "\<forall>(key, r) \<in> set (stale_runs t n ?s1). running key r ?s1" "distinct (map fst (stale_runs t n ?s1))"
    by (auto simp: stale_runs_def slots_ok_def running_def dkeys_ok_def intro: distinct_map_filter)
  have "slots_ok s2 \<and> history_kept ?s1 s2" by (rule recover_loop_ok [OF ok s2(1) runs])
  moreover have "history_kept s ?s1" by (simp add: history_kept_def)
  moreover have "history_kept s2 s'" using s2(2,4) by (auto simp: history_kept_def)
  ultimately show "slots_ok s'" "history_kept s s'"
    using s2(2,3) slots_cong history_trans by blast+
qed

text \<open>Every write of the repository.\<close>

inductive store_step :: "store \<Rightarrow> store \<Rightarrow> bool" where
  step_claim: "store_step s (snd (claim_slot u key symbol as_of t run s))"
| step_finish: "finish key t status final err s = Inr (done, s') \<Longrightarrow> status = ''COMPLETED'' \<or> status = ''FAILED'' \<Longrightarrow> store_step s s'"
| step_recover: "recover u t n s = Inr (done, s') \<Longrightarrow> store_step s s'"
| step_save: "save_paper owner symbol expected now br s = Inr (saved, s', br') \<Longrightarrow> store_step s s'"
| step_event: "store_step s (add_event t run symbol source ty severity payload s)"
| step_heartbeat: "store_step s (heartbeat t st s)"
| step_execution: "record_execution t run symbol outcome s = Inr s' \<Longrightarrow> store_step s s'"
| step_metadata: "save_run_metadata key fp equity commit experiment s = Inr s' \<Longrightarrow> store_step s s'"
| step_experiment: "start_experiment_if_unstarted t baseline freeze s = Inr (done, s') \<Longrightarrow> store_step s s'"
| step_deliver: "claim_notification_delivery ev t s = Inr (done, s') \<Longrightarrow> store_step s s'"
| step_delivered: "store_step s (complete_notification_delivery ev t err s)"
| step_awareness: "store_step s (record_macro_awareness t run symbol events s)"
| step_snapshot: "store_step s (save_snapshot symbol payload s)"

lemma save_paper_frame:
  assumes "save_paper owner symbol expected now br s = Inr (saved, s', br')"
  shows "s_runs s' = s_runs s \<and> s_locks s' = s_locks s \<and> (\<exists>rows. s_journal s' = s_journal s @ rows)"
  using assms by (rule save_paper_cases) (auto simp: write_paper_frame)

lemma awareness_frame:
  "s_runs (record_macro_awareness t run symbol events s) = s_runs s
   \<and> s_locks (record_macro_awareness t run symbol events s) = s_locks s
   \<and> (\<exists>rows. s_journal (record_macro_awareness t run symbol events s) = s_journal s @ rows)"
proof (induction events arbitrary: s)
  case (Cons e es)
  have "s_runs (record_macro_event t run symbol e s) = s_runs s \<and> s_locks (record_macro_event t run symbol e s) = s_locks s
     \<and> (\<exists>rows. s_journal (record_macro_event t run symbol e s) = s_journal s @ rows)"
    by (auto simp: record_macro_event_def Let_def split: json.splits)
  then show ?case using Cons.IH [of "record_macro_event t run symbol e s"] by (auto simp: record_macro_awareness_def)
qed (simp add: record_macro_awareness_def)

lemma store_step_ok:
  assumes "store_step s s'" and "slots_ok s"
  shows "slots_ok s' \<and> history_kept s s'"
  using assms
proof (induction rule: store_step.induct)
  case (step_claim s u key symbol as_of t run)
  then show ?case using claim_slot_ok by blast
next
  case (step_finish key t status final err s fin s')
  then have "status \<noteq> ''RUNNING''" by auto
  then show ?case using finish_ok step_finish by blast
next
  case (step_recover u t n s fin s')
  then show ?case using recover_ok by blast
next
  case (step_save owner symbol expected now br s saved s' br')
  then show ?case using save_paper_frame slots_cong history_same by metis
next
  case (step_awareness s t run symbol events)
  then show ?case using awareness_frame slots_cong history_same by metis
next
  case (step_event s t run symbol source ty severity payload)
  then show ?case using slots_cong [of "add_event t run symbol source ty severity payload s" s] by (simp add: history_kept_def)
next
  case (step_heartbeat s t st)
  then show ?case using slots_cong [of "heartbeat t st s" s] by (simp add: history_kept_def heartbeat_def)
next
  case (step_execution t run symbol outcome s s')
  then have "s_runs s' = s_runs s \<and> s_locks s' = s_locks s \<and> (\<exists>rows. s_journal s' = s_journal s @ rows)"
    by (auto simp: record_execution_def split: option.splits)
  then show ?case using step_execution slots_cong history_same by metis
next
  case (step_metadata key fp equity comm expt s s')
  then have "s_runs s' = s_runs s \<and> s_locks s' = s_locks s \<and> s_journal s' = s_journal s"
    by (auto simp: save_run_metadata_def split: if_splits)
  then show ?case using step_metadata(2) slots_cong history_same [where rows = "[]"] by (metis append_Nil2)
next
  case (step_experiment t base frz s fin s')
  then have "s_runs s' = s_runs s \<and> s_locks s' = s_locks s \<and> (\<exists>rows. s_journal s' = s_journal s @ rows)"
    by (auto simp: start_experiment_if_unstarted_def split: if_splits)
  then show ?case using step_experiment slots_cong history_same by metis
next
  case (step_deliver ev t s fin s')
  then have "s_runs s' = s_runs s \<and> s_locks s' = s_locks s \<and> s_journal s' = s_journal s"
    by (auto simp: claim_notification_delivery_def split: if_splits)
  then show ?case using step_deliver(2) slots_cong history_same [where rows = "[]"] by (metis append_Nil2)
next
  case (step_delivered s ev t err)
  let ?s' = "complete_notification_delivery ev t err s"
  have "s_runs ?s' = s_runs s \<and> s_locks ?s' = s_locks s \<and> s_journal ?s' = s_journal s"
    by (auto simp: complete_notification_delivery_def split: option.splits)
  then show ?case using step_delivered slots_cong history_same [where rows = "[]"] by (metis append_Nil2)
next
  case (step_snapshot s symbol payload)
  then show ?case using slots_cong [of "save_snapshot symbol payload s" s] by (simp add: history_kept_def save_snapshot_def)
qed

lemma store_steps_ok: "store_step\<^sup>*\<^sup>* s s' \<Longrightarrow> slots_ok s \<Longrightarrow> slots_ok s' \<and> history_kept s s'"
  by (induction rule: rtranclp_induct) (auto simp: history_refl dest: store_step_ok history_trans)


definition demo_claimed :: store where
  "demo_claimed = snd (claim_slot (\<lambda>k. k) ''EURUSD:0:5m'' ''EURUSD'' 0 1 None empty_store)"

definition demo_finished :: store where
  "demo_finished = snd (projr (finish ''EURUSD:0:5m'' 2 ''COMPLETED'' ''NO_DATA'' None demo_claimed))"

lemma demo_finish_eq: "finish ''EURUSD:0:5m'' 2 ''COMPLETED'' ''NO_DATA'' None demo_claimed = Inr (True, demo_finished)"
proof -
  have "\<not> isl (finish ''EURUSD:0:5m'' 2 ''COMPLETED'' ''NO_DATA'' None demo_claimed)"
    "fst (projr (finish ''EURUSD:0:5m'' 2 ''COMPLETED'' ''NO_DATA'' None demo_claimed))"
    unfolding demo_claimed_def by code_simp+
  then show ?thesis unfolding demo_finished_def
    by (cases "finish ''EURUSD:0:5m'' 2 ''COMPLETED'' ''NO_DATA'' None demo_claimed") auto
qed


section \<open>PAPER tables\<close>

text \<open>A table written by the codec: every row is the encoding of a valid object under its own id.\<close>

definition rows_ok :: "('a \<Rightarrow> string) \<Rightarrow> ('a \<Rightarrow> json) \<Rightarrow> ('a \<Rightarrow> bool) \<Rightarrow> (string, json) dict \<Rightarrow> bool" where
  "rows_ok key enc valid d \<longleftrightarrow> dkeys_ok d \<and> (\<forall>(k, j) \<in> set d. \<exists>x. valid x \<and> key x = k \<and> j = enc x)"

definition paper_ok :: "store \<Rightarrow> bool" where
  "paper_ok s \<longleftrightarrow> rows_ok o_id encode_order (\<lambda>x. valid_side (o_side x)) (s_orders s)
     \<and> rows_ok f_id encode_fill (\<lambda>x. valid_side (f_side x)) (s_fills s)
     \<and> rows_ok p_id encode_position (\<lambda>x. valid_side (p_side x)) (s_positions s)
     \<and> rows_ok ct_id encode_trade (\<lambda>x. valid_side (ct_side x)) (s_trades s)
     \<and> rows_ok a_id encode_account (\<lambda>x. 0 < a_starting_equity x) (s_accounts s)"

lemma rows_load:
  assumes "rows_ok key enc valid d" and "\<And>x. valid x \<Longrightarrow> dec (enc x) = Inr x"
  obtains xs where "d = map (\<lambda>x. (key x, enc x)) xs" "traverse dec (dvals d) = Inr xs" "distinct (map key xs)" "\<forall>x \<in> set xs. valid x"
proof -
  define dd where "dd j = projr (dec j)" for j
  define xs where "xs = map (\<lambda>r. dd (snd r)) d"
  have each: "valid (dd j) \<and> key (dd j) = k \<and> j = enc (dd j)" if "(k, j) \<in> set d" for k j
    using assms that unfolding rows_ok_def dd_def by fastforce
  have d: "d = map (\<lambda>x. (key x, enc x)) xs"
    using each by (auto simp: xs_def comp_def intro!: map_idI [symmetric])
  have "dvals d = map enc xs" by (subst d) (simp add: dvals_def comp_def)
  moreover have v: "\<forall>x \<in> set xs. valid x" using each by (auto simp: xs_def)
  ultimately have "traverse dec (dvals d) = Inr xs" using assms(2) by (simp add: traverse_map)
  moreover have "distinct (map key xs)" using assms(1) by (subst (asm) d) (simp add: rows_ok_def dkeys_ok_def comp_def)
  ultimately show thesis using that d v by blast
qed

lemma rows_ok_replace:
  "rows_ok key enc valid d \<Longrightarrow> valid x \<Longrightarrow> rows_ok key enc valid (replace_row (key x) (enc x) d)"
  by (auto simp: rows_ok_def) (auto simp: replace_row_def ddel_def)

lemma put_rows_ok:
  "rows_ok key enc valid d \<Longrightarrow> \<forall>x \<in> set xs. valid x \<Longrightarrow> rows_ok key enc valid (put_rows key enc xs d)"
  by (induction xs arbitrary: d) (auto simp: put_rows_def rows_ok_replace)

lemma dget_put_rows_other: "k \<notin> key ` set xs \<Longrightarrow> dget (put_rows key enc xs d) k = dget d k"
  by (induction xs arbitrary: d) (auto simp: put_rows_def)

lemma dget_put_rows: "distinct (map key xs) \<Longrightarrow> x \<in> set xs \<Longrightarrow> dget (put_rows key enc xs d) (key x) = Some (enc x)"
proof (induction xs arbitrary: d)
  case (Cons y ys)
  show ?case
  proof (cases "x = y")
    case True
    then have "key x \<notin> key ` set ys" using Cons.prems(1) by auto
    then show ?thesis using True dget_put_rows_other [of "key x" key ys enc "replace_row (key y) (enc y) d"]
      by (simp add: put_rows_def)
  next
    case False
    then show ?thesis using Cons by (simp add: put_rows_def)
  qed
qed simp

end
