(* ===== verification/PaperStore.thy ===== *)
theory PaperStore
  imports Store
begin

text \<open>
  The contract of \<open>save_paper\<close> and \<open>load_paper\<close>. Seen through \<open>paper_state\<close> the PAPER tables are one
  register: a save that expects a view either finds it and installs the broker's view, or changes
  nothing. The locale \<open>paper_register\<close> states this interface for the reservation paths, which
  retry against it; the repository's own operations are its interpretation.
\<close>

section \<open>The register interface\<close>

text \<open>
  A state with a current view, and a save that expects one. \<open>retry\<close> is the loop the clients run: decide on the
  state, then either stop, possibly with a write of its own, or save against the view the decision was
  made on, and start again when that view is stale. Other writers (\<open>f\<close>) come in between each decision
  and its write.
\<close>

locale paper_register =
  fixes view :: "'s \<Rightarrow> 'v option"
    and save :: "'v \<Rightarrow> 'b \<Rightarrow> 's \<Rightarrow> 'e + bool \<times> 's"
  assumes stale_save: "save v b s = Inr (False, s') \<Longrightarrow> s' = s \<and> view s \<noteq> Some v"
    and fresh_save: "save v b s = Inr (True, s') \<Longrightarrow> view s = Some v"
begin

fun retry :: "(nat \<Rightarrow> 's \<Rightarrow> 'e + (('r \<times> ('s \<Rightarrow> 'e + 's)) + ('v \<times> 'b \<times> 'r \<times> 'r))) \<Rightarrow> nat \<Rightarrow> ('s \<Rightarrow> 's) list \<Rightarrow> 'r \<Rightarrow> 's \<Rightarrow> 'e + 'r \<times> 's" where
  "retry decide n [] r0 s = Inr (r0, s)"
| "retry decide n (f # fs) r0 s = ebind (decide n s) (\<lambda>x. case x of
     Inl (r, g) \<Rightarrow> ebind (g (f s)) (\<lambda>s'. Inr (r, s'))
   | Inr (v, b, r, stale_r) \<Rightarrow> ebind (save v b (f s)) (\<lambda>(saved, s').
       if saved then Inr (r, s') else retry decide (Suc n) fs stale_r s'))"

text \<open>
  Whatever the others do in between: a result is that of a stop, of a save that was decided on the very
  view it replaced, or the last stale one; and the decision was taken on a state the others and stale
  saves led to.
\<close>

lemma retry_cases:
  assumes "retry decide n fs r0 s = Inr (r, s')" and "I s" and "\<And>f s. f \<in> set fs \<Longrightarrow> I s \<Longrightarrow> I (f s)"
  obtains (stopped) k s0 s1 g where "I s0" "I s1" "decide k s0 = Inr (Inl (r, g))" "g s1 = Inr s'"
  | (committed) k s0 s1 v b r1 where "I s0" "I s1" "decide k s0 = Inr (Inr (v, b, r, r1))" "view s1 = Some v" "save v b s1 = Inr (True, s')"
  | (stale) k s0 v b r1 where "I s'" "fs = [] \<and> r = r0 \<or> I s0 \<and> decide k s0 = Inr (Inr (v, b, r1, r))"
proof -
  have "(\<exists>k s0 s1 g. I s0 \<and> I s1 \<and> decide k s0 = Inr (Inl (r, g)) \<and> g s1 = Inr s')
    \<or> (\<exists>k s0 s1 v b r1. I s0 \<and> I s1 \<and> decide k s0 = Inr (Inr (v, b, r, r1)) \<and> view s1 = Some v \<and> save v b s1 = Inr (True, s'))
    \<or> I s' \<and> (fs = [] \<and> r = r0 \<or> (\<exists>k s0 v b r1. I s0 \<and> decide k s0 = Inr (Inr (v, b, r1, r))))"
    using assms
  proof (induction fs arbitrary: n r0 s)
    case (Cons f fs)
    obtain x where x: "decide n s = Inr x" using Cons.prems(1) by (auto simp: ebind_eq_Inr)
    have If: "I (f s)" using Cons.prems(2,3) by simp
    show ?case
    proof (cases x)
      case (Inl rg)
      then show ?thesis using Cons.prems(1,2) x If by (cases rg) (auto simp: ebind_eq_Inr)
    next
      case (Inr vb)
      obtain v b r1 r2 where vb: "vb = (v, b, r1, r2)" by (cases vb) auto
      obtain saved s2 where sv: "save v b (f s) = Inr (saved, s2)"
        "(if saved then Inr (r1, s2) else retry decide (Suc n) fs r2 s2) = Inr (r, s')"
        using Cons.prems(1) x Inr vb by (auto simp: ebind_eq_Inr)
      show ?thesis
      proof (cases saved)
        case True
        then have c: "decide n s = Inr (Inr (v, b, r, r2))" "save v b (f s) = Inr (True, s')" using sv x Inr vb by auto
        then have "view (f s) = Some v" using fresh_save by blast
        then show ?thesis using c Cons.prems(2) If by blast
      next
        case False
        then have "s2 = f s" using sv(1) stale_save [of v b "f s" s2] by simp
        then show ?thesis
          using Cons.IH [of "Suc n" r2 s2] sv(2) False If Cons.prems(2,3) x Inr vb by auto
      qed
    qed
  qed simp
  then show thesis using stopped committed stale by blast
qed

end

section \<open>Closed rows\<close>

definition is_open :: "json \<Rightarrow> bool" where
  "is_open j \<longleftrightarrow> jget j ''status'' = JStr ''OPEN''"

lemma is_open_encode [simp]: "is_open (encode_position p) \<longleftrightarrow> p_status p = OPEN"
  by (cases "p_status p") (simp_all add: is_open_def)

abbreviation positions_ok :: "(string, json) dict \<Rightarrow> bool" where
  "positions_ok \<equiv> rows_ok p_id encode_position (\<lambda>x. valid_side (p_side x))"

lemma rows_ok_dput:
  "rows_ok key enc valid d \<Longrightarrow> valid x \<Longrightarrow> key x = k \<Longrightarrow> rows_ok key enc valid (dput k (enc x) d)"
  using set_dput_subset [of k "enc x" d] by (auto simp: rows_ok_def)

lemma close_row_ok:
  assumes "positions_ok d"
  shows "\<exists>d'. close_row tr d = Inr d' \<and> positions_ok d'
    \<and> (\<forall>k j. dget d' k = Some j \<and> is_open j \<longleftrightarrow> dget d k = Some j \<and> is_open j \<and> k \<noteq> ct_position_id tr)"
proof (cases "dget d (ct_position_id tr)")
  case None
  then show ?thesis using assms by (auto simp: close_row_def)
next
  case (Some j)
  then have "(ct_position_id tr, j) \<in> set d" by (rule map_of_SomeD)
  then obtain p where p: "valid_side (p_side p)" "p_id p = ct_position_id tr" "j = encode_position p"
    using assms unfolding rows_ok_def by fastforce
  let ?d = "dput (ct_position_id tr) (encode_position (p\<lparr>p_status := CLOSED\<rparr>)) d"
  have "close_row tr d = Inr ?d" using Some p decode_encode_position by (simp add: close_row_def)
  moreover have "positions_ok ?d" using p(1,2) by (intro rows_ok_dput assms) auto
  ultimately show ?thesis by auto
qed

lemma close_rows_ok:
  "positions_ok d \<Longrightarrow> \<exists>d'. efold close_row trs d = Inr d' \<and> positions_ok d'
    \<and> (\<forall>k j. dget d' k = Some j \<and> is_open j \<longleftrightarrow> dget d k = Some j \<and> is_open j \<and> k \<notin> ct_position_id ` set trs)"
proof (induction trs arbitrary: d)
  case (Cons tr trs)
  obtain d1 where d1: "close_row tr d = Inr d1" "positions_ok d1"
      "\<forall>k j. dget d1 k = Some j \<and> is_open j \<longleftrightarrow> dget d k = Some j \<and> is_open j \<and> k \<noteq> ct_position_id tr"
    using close_row_ok [OF Cons.prems] by blast
  obtain d2 where d2: "efold close_row trs d1 = Inr d2" "positions_ok d2"
      "\<forall>k j. dget d2 k = Some j \<and> is_open j \<longleftrightarrow> dget d1 k = Some j \<and> is_open j \<and> k \<notin> ct_position_id ` set trs"
    using Cons.IH [OF d1(2)] by blast
  have "(dget d2 k = Some j \<and> is_open j) = (dget d k = Some j \<and> is_open j \<and> k \<notin> ct_position_id ` set (tr # trs))" for k j
    using d1(3) d2(3) by auto
  then show ?case using d1(1) d2(1,2) by auto
qed simp

section \<open>Tables as multisets of payloads\<close>

lemma dict_mset:
  assumes "dkeys_ok d" and "dkeys_ok d'" and "\<And>k j. dget d k = Some j \<longleftrightarrow> dget d' k = Some j"
  shows "mset d = mset d'"
proof -
  have "dget d k = dget d' k" for k using assms(3) by (metis not_None_eq)
  then have "set d = set d'" by (rule dict_same_entries [OF assms(1,2)])
  moreover have "distinct d" "distinct d'" using assms(1,2) by (auto simp: dkeys_ok_def simp: distinct_map)
  ultimately show ?thesis by (simp add: set_eq_iff_mset_eq_distinct)
qed

lemma dkeys_ok_map: "distinct (map key xs) \<Longrightarrow> dkeys_ok (map (\<lambda>x. (key x, enc x)) xs)"
  by (simp add: dkeys_ok_def comp_def)

lemma dget_map_pairs:
  "distinct (map key xs) \<Longrightarrow> dget (map (\<lambda>x. (key x, enc x)) xs) k = Some j \<longleftrightarrow> (\<exists>x \<in> set xs. key x = k \<and> enc x = j)"
  using dkeys_ok_map [of key xs enc] by (auto simp: dkeys_ok_def image_iff)

lemma put_rows_all:
  assumes "rows_ok key enc valid d" and "distinct (map key xs)" and "\<forall>x \<in> set xs. valid x" and "fst ` set d \<subseteq> key ` set xs"
  shows "mset (dvals (put_rows key enc xs d)) = mset (map enc xs)"
proof -
  let ?p = "put_rows key enc xs d"
  have "dkeys_ok ?p" using put_rows_ok [OF assms(1,3)] by (simp add: rows_ok_def)
  moreover have "dget ?p k = Some j \<longleftrightarrow> dget (map (\<lambda>x. (key x, enc x)) xs) k = Some j" for k j
  proof (cases "k \<in> key ` set xs")
    case True
    then show ?thesis using dget_put_rows [OF assms(2)] by (auto simp: dget_map_pairs [OF assms(2)])
      (metis assms(2) dget_put_rows option.inject)
  next
    case False
    then have "dget d k = None" using assms(4) by (auto simp: map_of_eq_None_iff)
    then show ?thesis using False by (auto simp: dget_put_rows_other dget_map_pairs [OF assms(2)])
  qed
  ultimately have "mset ?p = mset (map (\<lambda>x. (key x, enc x)) xs)" by (intro dict_mset dkeys_ok_map assms(2))
  then have "mset (map snd ?p) = mset (map snd (map (\<lambda>x. (key x, enc x)) xs))" unfolding mset_map by simp
  then show ?thesis by (simp add: dvals_def comp_def)
qed

section \<open>Load after save\<close>

text \<open>Valid objects under their own ids, and a broker that holds only such.\<close>

definition state_ok :: "paper_account \<Rightarrow> (string, paper_order) dict \<Rightarrow> (string, paper_fill) dict \<Rightarrow> bool" where
  "state_ok a ods fs \<longleftrightarrow> 0 < a_starting_equity a
     \<and> distinct (map o_id (dvals ods)) \<and> (\<forall>x \<in> set (dvals ods). valid_side (o_side x))
     \<and> distinct (map f_id (dvals fs)) \<and> (\<forall>x \<in> set (dvals fs). valid_side (f_side x))
     \<and> distinct (map p_id (dvals (a_open_positions a))) \<and> distinct (map p_symbol (dvals (a_open_positions a)))
     \<and> (\<forall>p \<in> set (dvals (a_open_positions a)). valid_side (p_side p) \<and> p_status p = OPEN)
     \<and> distinct (map ct_id (a_closed_trades a)) \<and> (\<forall>x \<in> set (a_closed_trades a). valid_side (ct_side x))"

definition books_disjoint :: "paper_account \<Rightarrow> bool" where
  "books_disjoint a \<longleftrightarrow> (\<forall>p \<in> set (dvals (a_open_positions a)). p_id p \<notin> ct_position_id ` set (a_closed_trades a))"

definition storable :: "broker \<Rightarrow> bool" where
  "storable br \<longleftrightarrow> state_ok (br_account br) (br_orders br) (br_fills br) \<and> books_disjoint (br_account br)"

lemmas storable_defs = storable_def state_ok_def books_disjoint_def

text \<open>A broker that accounts for everything in a loaded state: what it loaded is still there, or was closed.\<close>

definition accounts_for :: "broker \<Rightarrow> durable \<Rightarrow> bool" where
  "accounts_for br d \<longleftrightarrow> (case d of
     (Some a, ods, fs) \<Rightarrow> a_id a = a_id (br_account br)
       \<and> o_id ` set (dvals ods) \<subseteq> o_id ` set (dvals (br_orders br)) \<and> f_id ` set (dvals fs) \<subseteq> f_id ` set (dvals (br_fills br))
       \<and> p_id ` set (dvals (a_open_positions a)) \<subseteq> p_id ` set (dvals (a_open_positions (br_account br)))
            \<union> ct_position_id ` set (a_closed_trades (br_account br))
       \<and> ct_id ` set (a_closed_trades a) \<subseteq> ct_id ` set (a_closed_trades (br_account br))
   | _ \<Rightarrow> False)"

definition broker_view :: "broker \<Rightarrow> paper_view" where
  "broker_view br = paper_state (Some (br_account br), br_orders br, br_fills br)"

lemma rows_ok_filter: "rows_ok key enc valid d \<Longrightarrow> rows_ok key enc valid (filter P d)"
  by (auto simp: rows_ok_def dkeys_ok_def intro: distinct_map_filter)

lemma open_rows_filter: "open_rows s = dvals (filter (\<lambda>r. is_open (snd r)) (s_positions s))"
  by (simp add: open_rows_def dvals_def is_open_def filter_map comp_def)

lemma dget_filter_open:
  "dkeys_ok d \<Longrightarrow> dget (filter (\<lambda>r. is_open (snd r)) d) k = Some j \<longleftrightarrow> dget d k = Some j \<and> is_open j"
  by (subst (1 2) map_of_eq_Some_iff) (auto simp: dkeys_ok_def intro: distinct_map_filter)

text \<open>The parts of a loaded state, from tables the codec wrote.\<close>

lemma load_parts:
  assumes "paper_ok s"
  obtains ods fs ps ts where
    "traverse decode_order (dvals (s_orders s)) = Inr ods" "s_orders s = map (\<lambda>x. (o_id x, encode_order x)) ods" "distinct (map o_id ods)"
    "traverse decode_fill (dvals (s_fills s)) = Inr fs" "s_fills s = map (\<lambda>x. (f_id x, encode_fill x)) fs" "distinct (map f_id fs)"
    "traverse decode_position (open_rows s) = Inr ps" "filter (\<lambda>r. is_open (snd r)) (s_positions s) = map (\<lambda>x. (p_id x, encode_position x)) ps"
    "distinct (map p_id ps)"
    "traverse decode_trade (dvals (s_trades s)) = Inr ts" "s_trades s = map (\<lambda>x. (ct_id x, encode_trade x)) ts" "distinct (map ct_id ts)"
    "\<forall>p \<in> set ps. valid_side (p_side p)" "\<forall>x \<in> set ods. valid_side (o_side x)"
    "\<forall>x \<in> set fs. valid_side (f_side x)" "\<forall>x \<in> set ts. valid_side (ct_side x)"
proof -
  have t: "rows_ok o_id encode_order (\<lambda>x. valid_side (o_side x)) (s_orders s)" "rows_ok f_id encode_fill (\<lambda>x. valid_side (f_side x)) (s_fills s)"
     "positions_ok (filter (\<lambda>r. is_open (snd r)) (s_positions s))" "rows_ok ct_id encode_trade (\<lambda>x. valid_side (ct_side x)) (s_trades s)"
    using assms rows_ok_filter by (auto simp: paper_ok_def)
  obtain ods where o: "s_orders s = map (\<lambda>x. (o_id x, encode_order x)) ods" "traverse decode_order (dvals (s_orders s)) = Inr ods"
      "distinct (map o_id ods)" "\<forall>x \<in> set ods. valid_side (o_side x)"
    by (rule rows_load [OF t(1) decode_encode_order])
  obtain fs where f: "s_fills s = map (\<lambda>x. (f_id x, encode_fill x)) fs" "traverse decode_fill (dvals (s_fills s)) = Inr fs"
      "distinct (map f_id fs)" "\<forall>x \<in> set fs. valid_side (f_side x)"
    by (rule rows_load [OF t(2) decode_encode_fill])
  obtain ps where p: "filter (\<lambda>r. is_open (snd r)) (s_positions s) = map (\<lambda>x. (p_id x, encode_position x)) ps"
      "traverse decode_position (dvals (filter (\<lambda>r. is_open (snd r)) (s_positions s))) = Inr ps" "distinct (map p_id ps)"
      "\<forall>p \<in> set ps. valid_side (p_side p)"
    by (rule rows_load [OF t(3) decode_encode_position])
  obtain ts where c: "s_trades s = map (\<lambda>x. (ct_id x, encode_trade x)) ts" "traverse decode_trade (dvals (s_trades s)) = Inr ts"
      "distinct (map ct_id ts)" "\<forall>x \<in> set ts. valid_side (ct_side x)"
    by (rule rows_load [OF t(4) decode_encode_trade])
  show thesis by (rule that [OF o(2,1,3) f(2,1,3) p(2) [folded open_rows_filter] p(1,3) c(2,1,3) p(4) o(4) f(4) c(4)])
qed

lemma load_some:
  assumes "paper_ok s" and "load_paper aid s = Inr (Some a, ods, fs)"
  shows "traverse decode_order (dvals (s_orders s)) = Inr (dvals ods)" and "fst ` set (s_orders s) = o_id ` set (dvals ods)"
    and "fst ` set (s_fills s) = f_id ` set (dvals fs)"
    and "fst ` set (filter (\<lambda>r. is_open (snd r)) (s_positions s)) = p_id ` set (dvals (a_open_positions a))"
    and "fst ` set (s_trades s) = ct_id ` set (a_closed_trades a)"
    and "dkeys_ok ods" and "\<And>k x. (k, x) \<in> set ods \<Longrightarrow> k = o_id x"
    and "\<exists>a0. dget (s_accounts s) aid = Some (encode_account a0) \<and> a_id a0 = aid \<and> 0 < a_starting_equity a0
          \<and> a = a0\<lparr>a_open_positions := a_open_positions a, a_closed_trades := a_closed_trades a\<rparr>"
    and "state_ok a ods fs"
proof -
  obtain OL FL PL TL where l: "traverse decode_order (dvals (s_orders s)) = Inr OL" "s_orders s = map (\<lambda>x. (o_id x, encode_order x)) OL" "distinct (map o_id OL)"
    "traverse decode_fill (dvals (s_fills s)) = Inr FL" "s_fills s = map (\<lambda>x. (f_id x, encode_fill x)) FL" "distinct (map f_id FL)"
    "traverse decode_position (open_rows s) = Inr PL" "filter (\<lambda>r. is_open (snd r)) (s_positions s) = map (\<lambda>x. (p_id x, encode_position x)) PL"
    "distinct (map p_id PL)"
    "traverse decode_trade (dvals (s_trades s)) = Inr TL" "s_trades s = map (\<lambda>x. (ct_id x, encode_trade x)) TL" "distinct (map ct_id TL)"
    "\<forall>p \<in> set PL. valid_side (p_side p)" "\<forall>x \<in> set OL. valid_side (o_side x)"
    "\<forall>x \<in> set FL. valid_side (f_side x)" "\<forall>x \<in> set TL. valid_side (ct_side x)"
    using load_parts [OF assms(1)] by blast
  obtain a1 where a1: "load_account aid s = Inr (Some a1)" "a = a1\<lparr>a_open_positions := dict_by p_symbol PL, a_closed_trades := TL\<rparr>"
    "ods = dict_by o_id OL" "fs = dict_by f_id FL" "distinct (map p_symbol PL)"
    using assms(2) l(1,4,7,10) by (auto simp: load_paper_def ebind_eq_Inr split: option.splits if_splits)
  show "traverse decode_order (dvals (s_orders s)) = Inr (dvals ods)" "fst ` set (s_orders s) = o_id ` set (dvals ods)"
    "fst ` set (s_fills s) = f_id ` set (dvals fs)"
    "fst ` set (filter (\<lambda>r. is_open (snd r)) (s_positions s)) = p_id ` set (dvals (a_open_positions a))"
    "fst ` set (s_trades s) = ct_id ` set (a_closed_trades a)"
    using l a1 by (auto simp: image_image)
  show "dkeys_ok ods" "\<And>k x. (k, x) \<in> set ods \<Longrightarrow> k = o_id x"
    using a1(3) l(3) by (auto simp: dict_by_distinct dkeys_ok_def comp_def)
  obtain j where j: "dget (s_accounts s) aid = Some j" "decode_account j = Inr a1"
    using a1(1) by (auto simp: load_account_def ebind_eq_Inr split: option.splits)
  obtain a0 where a0: "0 < a_starting_equity a0" "a_id a0 = aid" "j = encode_account a0"
    using assms(1) map_of_SomeD [OF j(1)] unfolding paper_ok_def rows_ok_def by fastforce
  have "a1 = a0\<lparr>a_open_positions := [], a_closed_trades := []\<rparr>" using j(2) a0 decode_encode_account by simp
  then show "\<exists>a0. dget (s_accounts s) aid = Some (encode_account a0) \<and> a_id a0 = aid \<and> 0 < a_starting_equity a0
      \<and> a = a0\<lparr>a_open_positions := a_open_positions a, a_closed_trades := a_closed_trades a\<rparr>"
    using a0 j(1) a1(2) by (intro exI [of _ a0]) simp
  have opn: "p_status p = OPEN" if "p \<in> set PL" for p
  proof -
    have "(p_id p, encode_position p) \<in> set (filter (\<lambda>r. is_open (snd r)) (s_positions s))" unfolding l(8) using that by auto
    then show ?thesis by simp
  qed
  show "state_ok a ods fs"
    using l(3,6,9,12-16) a1 a0(1) opn \<open>a1 = a0\<lparr>a_open_positions := [], a_closed_trades := []\<rparr>\<close> by (simp add: state_ok_def)
qed

lemma open_rows_after:
  assumes "paper_ok s" and "storable br" and "fst ` set (filter (\<lambda>r. is_open (snd r)) (s_positions s))
      \<subseteq> p_id ` set (dvals (a_open_positions (br_account br))) \<union> ct_position_id ` set (a_closed_trades (br_account br))"
    and "efold close_row (a_closed_trades (br_account br))
           (put_rows p_id encode_position (dvals (a_open_positions (br_account br))) (s_positions s)) = Inr (s_positions s')"
  shows "mset (open_rows s') = mset (map encode_position (dvals (a_open_positions (br_account br))))" and "positions_ok (s_positions s')"
proof -
  let ?ps = "dvals (a_open_positions (br_account br))" and ?closed = "ct_position_id ` set (a_closed_trades (br_account br))"
  let ?P = "put_rows p_id encode_position ?ps (s_positions s)"
  have b: "distinct (map p_id ?ps)" "\<forall>p \<in> set ?ps. valid_side (p_side p) \<and> p_status p = OPEN \<and> p_id p \<notin> ?closed"
    using assms(2) by (auto simp: storable_defs)
  have old: "positions_ok (s_positions s)" using assms(1) by (simp add: paper_ok_def)
  have "positions_ok ?P" using put_rows_ok [OF old] b(2) by simp
  then have new: "positions_ok (s_positions s')" "\<And>k j. dget (s_positions s') k = Some j \<and> is_open j \<longleftrightarrow> dget ?P k = Some j \<and> is_open j \<and> k \<notin> ?closed"
    using close_rows_ok [of ?P "a_closed_trades (br_account br)"] assms(4) by auto
  have k: "dkeys_ok (s_positions s')" using new(1) by (simp add: rows_ok_def)
  have mem: "dget (filter (\<lambda>r. is_open (snd r)) (s_positions s')) k = Some j \<longleftrightarrow> dget ?P k = Some j \<and> is_open j \<and> k \<notin> ?closed" for k j
    by (simp only: dget_filter_open [OF k] new(2))
  have "dget (filter (\<lambda>r. is_open (snd r)) (s_positions s')) k = Some j \<longleftrightarrow> dget (map (\<lambda>p. (p_id p, encode_position p)) ?ps) k = Some j" for k j
  proof (cases "k \<in> p_id ` set ?ps")
    case True
    then obtain p where p: "p \<in> set ?ps" "k = p_id p" by blast
    have e: "dget ?P k = Some (encode_position p)" using dget_put_rows [OF b(1) p(1)] p(2) by simp
    have m: "dget (map (\<lambda>p. (p_id p, encode_position p)) ?ps) k = Some (encode_position p)"
      by (subst dget_map_pairs [OF b(1)]) (use p in auto)
    have "k \<notin> ?closed" "is_open (encode_position p)" using b(2) p by simp_all
    then show ?thesis unfolding mem e m by auto
  next
    case False
    have "\<not> (dget (s_positions s) k = Some j \<and> is_open j \<and> k \<notin> ?closed)"
    proof
      assume c: "dget (s_positions s) k = Some j \<and> is_open j \<and> k \<notin> ?closed"
      then have "(k, j) \<in> set (s_positions s)" by (auto dest: map_of_SomeD)
      then have "k \<in> fst ` set (filter (\<lambda>r. is_open (snd r)) (s_positions s))" using c by force
      then show False using assms(3) c False by blast
    qed
    moreover have "dget (map (\<lambda>p. (p_id p, encode_position p)) ?ps) k = None" using False by (force simp: map_of_eq_None_iff)
    ultimately show ?thesis using False unfolding mem by (simp add: dget_put_rows_other)
  qed
  then have "mset (filter (\<lambda>r. is_open (snd r)) (s_positions s')) = mset (map (\<lambda>p. (p_id p, encode_position p)) ?ps)"
    using k by (intro dict_mset dkeys_ok_map b(1)) (auto simp: dkeys_ok_def intro: distinct_map_filter)
  then have "mset (map snd (filter (\<lambda>r. is_open (snd r)) (s_positions s')))
      = mset (map snd (map (\<lambda>p. (p_id p, encode_position p)) ?ps))" unfolding mset_map by simp
  then show "mset (open_rows s') = mset (map encode_position ?ps)" by (simp add: open_rows_filter dvals_def comp_def)
  show "positions_ok (s_positions s')" by (rule new(1))
qed

lemma encode_account_update: "encode_account (a\<lparr>a_open_positions := x, a_closed_trades := y\<rparr>) = encode_account a"
  unfolding encode_account_def by (simp del: sanitize.simps)

lemma encode_position_inj: "valid_side (p_side p) \<Longrightarrow> valid_side (p_side q) \<Longrightarrow> encode_position p = encode_position q \<Longrightarrow> p = q"
  by (metis decode_encode_position sum.inject(2))

lemma encode_order_inj: "valid_side (o_side x) \<Longrightarrow> valid_side (o_side y) \<Longrightarrow> encode_order x = encode_order y \<Longrightarrow> x = y"
  by (metis decode_encode_order sum.inject(2))

lemma mset_map_injD:
  assumes "mset (map f xs) = mset (map f ys)" and "inj_on f (set xs \<union> set ys)"
  shows "mset xs = mset ys"
proof -
  define g where "g = inv_into (set xs \<union> set ys) f"
  have "image_mset g (mset (map f xs)) = image_mset g (mset (map f ys))" using assms(1) by simp
  moreover have "image_mset g (mset (map f xs)) = mset xs" "image_mset g (mset (map f ys)) = mset ys"
    unfolding mset_map [symmetric] map_map g_def using assms(2) by (simp_all add: map_idI)
  ultimately show ?thesis by simp
qed

lemma load_after_save:
  assumes ok: "paper_ok s" and b: "storable br" and ld: "load_paper (a_id (br_account br)) s = Inr d" and acc: "accounts_for br d"
    and w: "write_paper now br s = Inr s'"
  shows "paper_ok s'" and "\<exists>d'. load_paper (a_id (br_account br)) s' = Inr d' \<and> paper_state d' = broker_view br"
proof -
  let ?a = "br_account br"
  obtain a ods fs where d: "d = (Some a, ods, fs)" using acc by (auto simp: accounts_for_def split: option.splits prod.splits)
  note old = load_some [OF ok ld [unfolded d]] and fr = write_paper_frame [OF w]
  note bd = b [unfolded storable_defs] and t = ok [unfolded paper_ok_def]
  have c: "fst ` set (s_orders s) \<subseteq> o_id ` set (dvals (br_orders br))" "fst ` set (s_fills s) \<subseteq> f_id ` set (dvals (br_fills br))"
      "fst ` set (s_trades s) \<subseteq> ct_id ` set (a_closed_trades ?a)"
    using acc unfolding old(2,3,5) by (auto simp: accounts_for_def d)
  have opn: "fst ` set (filter (\<lambda>r. is_open (snd r)) (s_positions s))
      \<subseteq> p_id ` set (dvals (a_open_positions ?a)) \<union> ct_position_id ` set (a_closed_trades ?a)"
    using acc unfolding old(4) by (auto simp: accounts_for_def d)
  note pos = open_rows_after [OF ok b opn fr(8)]
  have ok': "rows_ok o_id encode_order (\<lambda>x. valid_side (o_side x)) (s_orders s')" "rows_ok f_id encode_fill (\<lambda>x. valid_side (f_side x)) (s_fills s')"
    "rows_ok ct_id encode_trade (\<lambda>x. valid_side (ct_side x)) (s_trades s')"
    "rows_ok a_id encode_account (\<lambda>x. 0 < a_starting_equity x) (s_accounts s')"
    unfolding fr(4-7) using t bd by (auto intro!: put_rows_ok rows_ok_replace)
  then show pok: "paper_ok s'" using pos(2) by (simp add: paper_ok_def)
  have m: "mset (dvals (s_orders s')) = mset (map encode_order (dvals (br_orders br)))"
    "mset (dvals (s_fills s')) = mset (map encode_fill (dvals (br_fills br)))"
    "mset (dvals (s_trades s')) = mset (map encode_trade (a_closed_trades ?a))"
    unfolding fr(4-6) subgoal by (rule put_rows_all [where valid = "\<lambda>x. valid_side (o_side x)"]) (use t bd c in simp_all)
    subgoal by (rule put_rows_all [where valid = "\<lambda>x. valid_side (f_side x)"]) (use t bd c in simp_all)
    subgoal by (rule put_rows_all [where valid = "\<lambda>x. valid_side (ct_side x)"]) (use t bd c in simp_all)
    done
  obtain OL FL PL TL where l: "traverse decode_order (dvals (s_orders s')) = Inr OL" "s_orders s' = map (\<lambda>x. (o_id x, encode_order x)) OL" "distinct (map o_id OL)"
    "traverse decode_fill (dvals (s_fills s')) = Inr FL" "s_fills s' = map (\<lambda>x. (f_id x, encode_fill x)) FL" "distinct (map f_id FL)"
    "traverse decode_position (open_rows s') = Inr PL" "filter (\<lambda>r. is_open (snd r)) (s_positions s') = map (\<lambda>x. (p_id x, encode_position x)) PL"
    "distinct (map p_id PL)"
    "traverse decode_trade (dvals (s_trades s')) = Inr TL" "s_trades s' = map (\<lambda>x. (ct_id x, encode_trade x)) TL" "distinct (map ct_id TL)"
    "\<forall>p \<in> set PL. valid_side (p_side p)" "\<forall>x \<in> set OL. valid_side (o_side x)"
    "\<forall>x \<in> set FL. valid_side (f_side x)" "\<forall>x \<in> set TL. valid_side (ct_side x)"
    using load_parts [OF pok] by blast
  have e: "open_rows s' = map encode_position PL" "dvals (s_orders s') = map encode_order OL"
    "dvals (s_fills s') = map encode_fill FL" "dvals (s_trades s') = map encode_trade TL"
    using l(2,5,8,11) by (simp_all add: open_rows_filter dvals_def comp_def)
  have "inj_on encode_position (set PL \<union> set (dvals (a_open_positions ?a)))"
    using l(13) bd by (intro inj_onI encode_position_inj) auto
  then have "mset PL = mset (dvals (a_open_positions ?a))" by (rule mset_map_injD [OF pos(1) [unfolded e(1)]])
  then have "mset (map p_symbol PL) = mset (map p_symbol (dvals (a_open_positions ?a)))" by simp
  then have sym: "distinct (map p_symbol PL)" using bd mset_eq_imp_distinct_iff by blast
  have "load_account (a_id ?a) s' = Inr (Some (?a\<lparr>a_open_positions := [], a_closed_trades := []\<rparr>))"
    using bd unfolding load_account_def fr(7) by (simp add: decode_encode_account)
  then have ld': "load_paper (a_id ?a) s' = Inr (Some (?a\<lparr>a_open_positions := dict_by p_symbol PL, a_closed_trades := TL\<rparr>),
      dict_by o_id OL, dict_by f_id FL)"
    using l(1,4,7,10) sym by (simp add: load_paper_def)
  have "paper_state (Some (?a\<lparr>a_open_positions := dict_by p_symbol PL, a_closed_trades := TL\<rparr>), dict_by o_id OL, dict_by f_id FL)
      = broker_view br"
    using m [unfolded e] pos(1) [unfolded e] l(3,6,12) sym by (simp add: broker_view_def paper_state_def encode_account_update)
  then show "\<exists>d'. load_paper (a_id ?a) s' = Inr d' \<and> paper_state d' = broker_view br" using ld' by blast
qed

lemma encode_fill_inj: "valid_side (f_side x) \<Longrightarrow> valid_side (f_side y) \<Longrightarrow> encode_fill x = encode_fill y \<Longrightarrow> x = y"
  by (metis decode_encode_fill sum.inject(2))

lemma encode_trade_inj: "valid_side (ct_side x) \<Longrightarrow> valid_side (ct_side y) \<Longrightarrow> encode_trade x = encode_trade y \<Longrightarrow> x = y"
  by (metis decode_encode_trade sum.inject(2))

text \<open>Two valid states with the same view are the same state, up to the order of their collections.\<close>

lemma view_inj:
  assumes "state_ok a ods fs" and "state_ok a' ods' fs'" and "paper_state (Some a', ods', fs') = paper_state (Some a, ods, fs)"
  shows "mset (dvals ods') = mset (dvals ods)" and "mset (dvals fs') = mset (dvals fs)"
    and "mset (dvals (a_open_positions a')) = mset (dvals (a_open_positions a))"
    and "mset (a_closed_trades a') = mset (a_closed_trades a)"
    and "a'\<lparr>a_open_positions := [], a_closed_trades := []\<rparr> = a\<lparr>a_open_positions := [], a_closed_trades := []\<rparr>"
proof -
  have e: "encode_account a' = encode_account a" "mset (map encode_order (dvals ods')) = mset (map encode_order (dvals ods))"
    "mset (map encode_fill (dvals fs')) = mset (map encode_fill (dvals fs))"
    "mset (map encode_position (dvals (a_open_positions a'))) = mset (map encode_position (dvals (a_open_positions a)))"
    "mset (map encode_trade (a_closed_trades a')) = mset (map encode_trade (a_closed_trades a))"
    using assms(3) by (simp_all add: paper_state_def)
  note v = assms(1,2) [unfolded state_ok_def]
  show "mset (dvals ods') = mset (dvals ods)" by (rule mset_map_injD [OF e(2)]) (use v in \<open>intro inj_onI encode_order_inj; auto\<close>)
  show "mset (dvals fs') = mset (dvals fs)" by (rule mset_map_injD [OF e(3)]) (use v in \<open>intro inj_onI encode_fill_inj; auto\<close>)
  show "mset (dvals (a_open_positions a')) = mset (dvals (a_open_positions a))"
    by (rule mset_map_injD [OF e(4)]) (use v in \<open>intro inj_onI encode_position_inj; auto\<close>)
  show "mset (a_closed_trades a') = mset (a_closed_trades a)"
    by (rule mset_map_injD [OF e(5)]) (use v in \<open>intro inj_onI encode_trade_inj; auto\<close>)
  show "a'\<lparr>a_open_positions := [], a_closed_trades := []\<rparr> = a\<lparr>a_open_positions := [], a_closed_trades := []\<rparr>"
    using e(1) v decode_encode_account [of a] decode_encode_account [of a'] by simp
qed

lemma view_none: "paper_state d = paper_state (Some a, ods, fs) \<Longrightarrow> \<exists>a' ods' fs'. d = (Some a', ods', fs')"
  by (cases d; cases "fst d") (auto simp: paper_state_def)

text \<open>The invariant of the PAPER tables: well formed, and no closed trade has an open position.\<close>

definition paper_inv :: "string \<Rightarrow> store \<Rightarrow> bool" where
  "paper_inv aid s \<longleftrightarrow> paper_ok s \<and> (\<forall>a ods fs. load_paper aid s = Inr (Some a, ods, fs) \<longrightarrow> books_disjoint a)"

lemma books_disjoint_mset:
  "mset (dvals (a_open_positions a')) = mset (dvals (a_open_positions a)) \<Longrightarrow> mset (a_closed_trades a') = mset (a_closed_trades a)
    \<Longrightarrow> books_disjoint a' = books_disjoint a"
  unfolding books_disjoint_def by (metis set_mset_mset)

text \<open>The state a save leaves, as a later load sees it.\<close>

lemma load_saved:
  assumes "paper_ok s" and "storable br" and "load_paper (a_id (br_account br)) s = Inr d" and "accounts_for br d"
    and "write_paper now br s = Inr s'"
  obtains a' ods' fs' where "load_paper (a_id (br_account br)) s' = Inr (Some a', ods', fs')" "paper_inv (a_id (br_account br)) s'"
    "mset (dvals ods') = mset (dvals (br_orders br))" "mset (dvals fs') = mset (dvals (br_fills br))"
    "mset (dvals (a_open_positions a')) = mset (dvals (a_open_positions (br_account br)))"
    "a'\<lparr>a_open_positions := [], a_closed_trades := []\<rparr> = br_account br\<lparr>a_open_positions := [], a_closed_trades := []\<rparr>"
proof -
  note after = load_after_save [OF assms]
  obtain d' where d': "load_paper (a_id (br_account br)) s' = Inr d'" "paper_state d' = broker_view br" using after(2) by blast
  obtain a' ods' fs' where l: "d' = (Some a', ods', fs')" using view_none d'(2) unfolding broker_view_def by blast
  have b: "state_ok (br_account br) (br_orders br) (br_fills br)" using assms(2) by (simp add: storable_def)
  have ok': "state_ok a' ods' fs'" by (rule load_some(9) [OF after(1) d'(1) [unfolded l]])
  note m = view_inj [OF b ok' d'(2) [unfolded broker_view_def l]]
  have "books_disjoint a'" using assms(2) books_disjoint_mset [OF m(3,4)] by (simp add: storable_def)
  then have "paper_inv (a_id (br_account br)) s'" using after(1) d'(1) l by (simp add: paper_inv_def)
  then show thesis using that d'(1) l m by blast
qed

section \<open>Properties\<close>

definition stored_view :: "string \<Rightarrow> store \<Rightarrow> paper_view option" where
  "stored_view aid s = (case load_paper aid s of Inl _ \<Rightarrow> None | Inr d \<Rightarrow> Some (paper_state d))"

lemma write_paper_returns: "paper_ok s \<Longrightarrow> storable br \<Longrightarrow> \<exists>s'. write_paper now br s = Inr s'"
proof -
  assume a: "paper_ok s" "storable br"
  have "positions_ok (put_rows p_id encode_position (dvals (a_open_positions (br_account br))) (s_positions s))"
    using a by (intro put_rows_ok) (auto simp: paper_ok_def storable_defs)
  then obtain d' where "efold close_row (a_closed_trades (br_account br))
      (put_rows p_id encode_position (dvals (a_open_positions (br_account br))) (s_positions s)) = Inr d'"
    using close_rows_ok by blast
  then show ?thesis by (simp add: write_paper_def Let_def)
qed

lemma save_view_cases:
  assumes "paper_ok s" and "storable br" and "load_paper (a_id (br_account br)) s = Inr d" and "accounts_for br d"
  shows "if paper_state d = v
    then \<exists>s'. save_paper None symbol (Some v) now br s = Inr (True, s', br\<lparr>br_journal := []\<rparr>)
           \<and> write_paper now br s = Inr s' \<and> paper_ok s' \<and> stored_view (a_id (br_account br)) s' = Some (broker_view br)
           \<and> s_journal s' = s_journal s @ map (broker_row now) (br_journal br)
    else save_paper None symbol (Some v) now br s = Inr (False, s, br)"
proof (cases "paper_state d = v")
  case True
  obtain s' where w: "write_paper now br s = Inr s'" using write_paper_returns [OF assms(1,2)] by blast
  then show ?thesis using True assms(3) load_after_save [OF assms w] write_paper_frame(3) [OF w]
    by (auto simp: save_paper_def stored_view_def)
next
  case False
  then show ?thesis using assms(3) by (simp add: save_paper_def)
qed

text \<open>
  C14. \<open>save_paper\<close> is a compare-and-swap on the whole PAPER state. For a broker that holds valid objects and accounts
  for all it loaded, the call always returns; if the durable view is the expected one it commits, the
  tables stay well formed, the journal gets exactly the broker's events, and a later load sees exactly
  the broker's account, orders, fills, open positions and closed trades; if it is another, nothing is
  written and the broker keeps its events.
\<close>

theorem paper_save_is_compare_and_swap:
  assumes "paper_ok s" and "storable br" and "load_paper (a_id (br_account br)) s = Inr d" and "accounts_for br d"
  shows "if paper_state d = v
    then \<exists>s'. save_paper None symbol (Some v) now br s = Inr (True, s', br\<lparr>br_journal := []\<rparr>)
           \<and> paper_ok s' \<and> stored_view (a_id (br_account br)) s' = Some (broker_view br)
           \<and> s_journal s' = s_journal s @ map (broker_row now) (br_journal br)
    else save_paper None symbol (Some v) now br s = Inr (False, s, br)"
  using save_view_cases [OF assms, of v symbol now] by (auto split: if_splits)

text \<open>A store with an account and no exposure.\<close>

definition demo_store :: store where
  "demo_store = empty_store\<lparr>s_accounts := [(''paper'', encode_account (demo_account\<lparr>a_open_positions := []\<rparr>))]\<rparr>"

lemma demo_store_ok: "paper_ok demo_store"
  by (auto simp: paper_ok_def rows_ok_def dkeys_ok_def demo_store_def empty_store_def demo_account_def
      intro!: exI [of _ "demo_account\<lparr>a_open_positions := []\<rparr>"])

lemma demo_store_load: "load_paper ''paper'' demo_store = Inr (Some (demo_account\<lparr>a_open_positions := []\<rparr>), [], [])"
proof -
  have "decode_account (encode_account (demo_account\<lparr>a_open_positions := []\<rparr>)) = Inr (demo_account\<lparr>a_open_positions := []\<rparr>)"
    by (subst decode_encode_account) (simp_all add: demo_account_def)
  then show ?thesis
    by (simp add: load_paper_def load_account_def demo_store_def empty_store_def open_rows_def dvals_def dict_by_def demo_account_def)
qed

lemma demo_broker_storable: "storable demo_broker"
  by (simp add: storable_defs demo_broker_def new_broker_def demo_order_def demo_account_def dvals_def valid_side_def Let_def)

lemma paper_save_is_compare_and_swap_witness:
  "\<exists>s'. save_paper None None (Some (paper_state (Some (demo_account\<lparr>a_open_positions := []\<rparr>), [], []))) 9 demo_broker demo_store
      = Inr (True, s', demo_broker\<lparr>br_journal := []\<rparr>) \<and> stored_view ''paper'' s' = Some (broker_view demo_broker)"
proof -
  have a: "a_id (br_account demo_broker) = ''paper''" by (simp add: demo_broker_def new_broker_def demo_account_def)
  have "accounts_for demo_broker (Some (demo_account\<lparr>a_open_positions := []\<rparr>), [], [])"
    by (simp add: accounts_for_def demo_broker_def new_broker_def demo_account_def dvals_def)
  from paper_save_is_compare_and_swap [OF demo_store_ok demo_broker_storable demo_store_load [folded a] this, of _ None 9]
  show ?thesis unfolding a by (metis (no_types, lifting))
qed

text \<open>The register of one account: what the reservation paths retry against.\<close>

definition register_save ::
  "instant \<Rightarrow> string option \<Rightarrow> string option \<Rightarrow> paper_view \<Rightarrow> broker \<Rightarrow> store \<Rightarrow> py_error + bool \<times> store" where
  "register_save now owner symbol v br s = map_sum id (\<lambda>(saved, s', _). (saved, s')) (save_paper owner symbol (Some v) now br s)"

lemma register_save_Inr:
  "register_save now owner symbol v br s = Inr (saved, s') \<longleftrightarrow> (\<exists>br'. save_paper owner symbol (Some v) now br s = Inr (saved, s', br'))"
  by (cases "save_paper owner symbol (Some v) now br s") (auto simp: register_save_def split: prod.splits)

text \<open>Saves of one account only: a broker's account id is fixed when it is built.\<close>

definition account_save ::
  "string \<Rightarrow> instant \<Rightarrow> string option \<Rightarrow> string option \<Rightarrow> paper_view \<Rightarrow> broker \<Rightarrow> store \<Rightarrow> py_error + bool \<times> store" where
  "account_save aid now owner symbol v br s =
     (if a_id (br_account br) = aid then register_save now owner symbol v br s else Inl KeyError)"

lemma account_save_Inr:
  "account_save aid now owner symbol v br s = Inr (saved, s') \<Longrightarrow>
   a_id (br_account br) = aid \<and> (\<exists>br'. save_paper owner symbol (Some v) now br s = Inr (saved, s', br'))"
  by (auto simp: account_save_def register_save_Inr split: if_splits)

interpretation paper: paper_register "stored_view aid" "account_save aid now owner symbol" for aid now owner symbol
proof
  fix v b s s'
  assume a: "account_save aid now owner symbol v b s = Inr (False, s')"
  then obtain br' where "save_paper owner symbol (Some v) now b s = Inr (False, s', br')" "a_id (br_account b) = aid"
    using account_save_Inr by blast
  then show "s' = s \<and> stored_view aid s \<noteq> Some v"
    by (elim save_paper_cases) (auto simp: stored_view_def)
next
  fix v b s s'
  assume a: "account_save aid now owner symbol v b s = Inr (True, s')"
  then obtain br' where "save_paper owner symbol (Some v) now b s = Inr (True, s', br')" "a_id (br_account b) = aid"
    using account_save_Inr by blast
  then show "stored_view aid s = Some v"
    by (elim save_paper_cases) (auto simp: stored_view_def)
qed

end
