(* ===== verification/RiskEngine.thy ===== *)
theory RiskEngine
  imports PaperBroker "HOL-Library.List_Lexorder" "HOL-Library.Char_ord"
begin

text \<open>
  \<open>execution/risk_engine_v2.py\<close>: the gates a fixed-R:R plan must pass against the durable PAPER
  portfolio. Money is exact (\<open>Fraction\<close>), so no operation here rounds except the renderings
  \<open>_money\<close> (28 digits) and \<open>_float\<close>. The context variable that scopes a drawdown basis is the
  argument \<open>scoped\<close>. The record is the dictionary the code journals, later updates replacing earlier
  keys; the numbers it renders with \<open>str\<close> are carried by value.
\<close>

section \<open>Numbers\<close>

text \<open>\<open>_f\<close> is \<open>to_decimal\<close>; \<open>_real\<close> of a finite float; \<open>_basis_amount\<close> refuses floats.\<close>

definition real_of :: "rat \<Rightarrow> rat" where "real_of x = repr_dec x"

fun basis_amount :: "pynum \<Rightarrow> rat option" where
  "basis_amount (PDec d) = Some d"
| "basis_amount (PInt n) = Some (of_int n)"
| "basis_amount _ = None"

definition f_pos :: "rat \<Rightarrow> rat option" where "f_pos x = to_decimal (PFloat x)"

definition f_opt :: "rat option \<Rightarrow> rat option" where
  "f_opt v = (case v of None \<Rightarrow> None | Some x \<Rightarrow> f_pos x)"

definition as_float :: "rat \<Rightarrow> rat" where "as_float v = fl (dec28 v)"
definition money :: "rat \<Rightarrow> json" where "money v = JDec (dec28 v)"

section \<open>Exposure\<close>

definition position_risk :: "paper_position \<Rightarrow> rat option" where
  "position_risk p = (case (f_pos (p_entry_price p), f_pos (p_stop p), f_pos (p_quantity p), f_opt (p_multiplier p)) of
     (Some e, Some s, Some q, Some m) \<Rightarrow> Some (max 0 (if p_side p = LONG then e - s else s - e) * q * m)
   | _ \<Rightarrow> None)"

record reservation =
  rs_planned :: rat
  rs_reserved :: "rat option"
  rs_trace :: json

definition pending_reservation :: "paper_order \<Rightarrow> reservation option" where
  "pending_reservation od = (case (f_pos (o_planned_entry od), f_pos (o_stop od), f_pos (o_quantity od), f_opt (o_multiplier od)) of
     (Some e, Some s, Some q, Some m) \<Rightarrow>
       let planned = \<bar>e - s\<bar> * q * m;
           pol = registered_risk_policy (o_risk_policy_version od);
           reserved = map_option (\<lambda>p. planned * policy_fill_factor p) pol;
           known = pol \<noteq> None
       in Some \<lparr>rs_planned = planned, rs_reserved = reserved, rs_trace = JObj
         [(''order_id'', JStr (o_id od)), (''symbol'', JStr (o_symbol od)), (''policy_identity_known'', JBool known),
          (''risk_policy_version'', JStr (case o_risk_policy_version od of None \<Rightarrow> ''UNKNOWN''
             | Some v \<Rightarrow> if known then v else if v = [] then ''UNKNOWN'' else ''UNREGISTERED:'' @ v)),
          (''planned_monetary_risk'', money planned),
          (''reservation_factor'', jdec_opt (map_option policy_fill_factor pol)),
          (''reserved_monetary_risk'', case reserved of None \<Rightarrow> JNull | Some r \<Rightarrow> money r),
          (''fail_closed_reason'', if known then JNull else JStr ''UNKNOWN_PENDING_RISK_POLICY'')]\<rparr>
   | _ \<Rightarrow> None)"

text \<open>The two portfolio loops. \<open>None\<close> is the early \<open>INVALID_ACCOUNT_STATE\<close>.\<close>

fun open_exposure :: "string \<Rightarrow> paper_position list \<Rightarrow> (rat \<times> rat \<times> nat) option" where
  "open_exposure sy [] = Some (0, 0, 0)"
| "open_exposure sy (p # ps) = (case position_risk p of None \<Rightarrow> None
   | Some r \<Rightarrow> (case open_exposure sy ps of None \<Rightarrow> None
     | Some (tot, same, n) \<Rightarrow> Some (if p_symbol p = sy then (r + tot, r + same, Suc n) else (r + tot, same, n))))"

record pending_sum =
  ps_reserved :: rat
  ps_symbol_risk :: rat
  ps_count :: nat
  ps_traces :: "json list"
  ps_unknown :: "string list"

fun pending_exposure :: "string \<Rightarrow> paper_order list \<Rightarrow> pending_sum option" where
  "pending_exposure sy [] = Some \<lparr>ps_reserved = 0, ps_symbol_risk = 0, ps_count = 0, ps_traces = [], ps_unknown = []\<rparr>"
| "pending_exposure sy (od # ods) =
    (if o_status od \<noteq> PENDING then pending_exposure sy ods
     else (case pending_reservation od of None \<Rightarrow> None
       | Some it \<Rightarrow> (case pending_exposure sy ods of None \<Rightarrow> None
         | Some s \<Rightarrow>
           let same = o_symbol od = sy;
               s1 = s\<lparr>ps_count := (if same then Suc (ps_count s) else ps_count s), ps_traces := rs_trace it # ps_traces s\<rparr>
           in (case rs_reserved it of
               None \<Rightarrow> Some (s1\<lparr>ps_unknown := o_id od # ps_unknown s\<rparr>)
             | Some r \<Rightarrow> Some (s1\<lparr>ps_reserved := r + ps_reserved s,
                   ps_symbol_risk := (if same then r + ps_symbol_risk s else ps_symbol_risk s)\<rparr>)))))"

section \<open>The gates\<close>

record drawdown_basis =
  db_source :: "string option"
  db_error :: "string option"
  db_current :: pynum
  db_starting :: pynum

type_synonym trace = "(string \<times> json) list"

text \<open>Gate 2: the shape of the plan, recomputed.\<close>

definition plan_shape :: "risk_policy \<Rightarrow> trade_plan \<Rightarrow> string + geom" where
  "plan_shape pol plan =
    (if tp_policy_version plan \<noteq> rp_rr_policy pol \<or> rp_rr_policy pol \<notin> set FIXED_RR_POLICIES then Inl ''rr_policy_mismatch''
     else (case geometry (tp_side plan) (tp_entry plan) (tp_stop plan) (tp_target plan) of
         Inl why \<Rightarrow> Inl (if why = ''invalid_numeric'' then ''invalid_numeric_value'' else why)
       | Inr g \<Rightarrow>
           if \<not> declared_matches (tp_risk_reward plan) (g_rr g) then Inl ''rr_declared_mismatch''
           else if classify (g_rr g) (rp_rr_policy pol) \<noteq> Inr WITHIN_POLICY
           then Inl (if g_rr g < planned_rr pol then ''rr_below_minimum'' else ''rr_above_maximum'')
           else Inr g))"

text \<open>Gate 4: the drawdown, on the PAPER account or on the demo account's basis.\<close>

definition drawdown_gate :: "risk_policy \<Rightarrow> rat \<Rightarrow> rat \<Rightarrow> drawdown_basis option \<Rightarrow> (string \<times> trace) + trace" where
  "drawdown_gate pol current starting basis =
    (let dlimit = (''drawdown_limit'', JDec (account_drawdown_fraction pol));
         check = (\<lambda>tr cur start.
           let dd = max 0 ((start - cur) / start);
               tr' = tr @ [(''drawdown_fraction'', money dd), dlimit]
           in if cur \<le> start * (1 - account_drawdown_fraction pol) then Inl (''ACCOUNT_DRAWDOWN_LIMIT'', tr') else Inr tr')
     in (case basis of None \<Rightarrow> check [] current starting
       | Some b \<Rightarrow>
         let tr = [(''drawdown_source'', jstr_opt (db_source b)), dlimit]
         in if db_source b \<noteq> Some ''OANDA_DEMO'' \<or> db_error b \<noteq> None
            then Inl (''ACCOUNT_DRAWDOWN_UNAVAILABLE'', tr @ [(''drawdown_error'',
                   if db_source b = Some ''OANDA_DEMO'' then jstr_opt (db_error b) else JStr ''invalid_basis'')])
            else (case (basis_amount (db_current b), basis_amount (db_starting b)) of
                (Some cur, Some start) \<Rightarrow>
                  if start \<le> 0 then Inl (''ACCOUNT_DRAWDOWN_UNAVAILABLE'', tr @ [(''drawdown_error'', JStr ''invalid_basis'')])
                  else check (tr @ [(''drawdown_current_equity'', money cur), (''drawdown_starting_equity'', money start)]) cur start
              | _ \<Rightarrow> Inl (''ACCOUNT_DRAWDOWN_UNAVAILABLE'', tr @ [(''drawdown_error'', JStr ''invalid_basis'')]))))"

text \<open>Gate 5: the quantity.\<close>

definition sized_quantity :: "risk_policy \<Rightarrow> rat \<Rightarrow> geom \<Rightarrow> rat \<Rightarrow> rat \<Rightarrow> rat" where
  "sized_quantity pol conservative g mul increment =
    (let budget = conservative * per_trade_risk_fraction pol;
         raw = min (budget / (g_risk g * mul)) (conservative * notional_fraction_cap pol / (g_entry g * mul))
     in of_int \<lfloor>raw / increment\<rfloor> * increment)"

record sizing =
  sz_quantity :: rat
  sz_money :: rat
  sz_conservative :: rat
  sz_multiplier :: rat

text \<open>Gates 6 to 8.\<close>

definition portfolio_gate ::
  "risk_policy \<Rightarrow> string \<Rightarrow> rat \<Rightarrow> rat \<Rightarrow> paper_position list \<Rightarrow> paper_order list \<Rightarrow> (string \<times> trace) + trace" where
  "portfolio_gate pol sy conservative planned positions orders =
    (case open_exposure sy positions of None \<Rightarrow> Inl (''INVALID_ACCOUNT_STATE'', [])
     | Some (open_risk, open_symbol, open_n) \<Rightarrow> (case pending_exposure sy orders of None \<Rightarrow> Inl (''INVALID_ACCOUNT_STATE'', [])
       | Some ps \<Rightarrow>
         let post = open_risk + ps_reserved ps + planned * policy_fill_factor pol;
             limit = conservative * aggregate_portfolio_risk_fraction pol;
             tr = [(''pending_exposures'', JList (ps_traces ps)), (''existing_open_risk'', money open_risk),
                   (''existing_pending_risk'', money (ps_reserved ps)),
                   (''existing_symbol_risk'', money (open_symbol + ps_symbol_risk ps)),
                   (''post_trade_portfolio_risk'', money post), (''portfolio_risk_limit'', money limit),
                   (''correlation_state'', JStr (correlation_adjustment pol))]
         in if ps_unknown ps \<noteq> [] then Inl (''UNKNOWN_PENDING_RISK_POLICY'',
                 tr @ [(''unknown_pending_orders'', JList (map JStr (sort (ps_unknown ps))))])
            else if max_positions_or_pending_per_symbol pol \<le> open_n + ps_count ps then Inl (''SYMBOL_EXPOSURE_LIMIT'', tr)
            else if limit < post then Inl (''PORTFOLIO_RISK_LIMIT'', tr)
            else Inr tr))"

definition instrument_numbers :: "instrument_spec option \<Rightarrow> string \<Rightarrow> (rat \<times> rat) option" where
  "instrument_numbers ins sy = (case ins of None \<Rightarrow> None
   | Some i \<Rightarrow> if i_symbol i \<noteq> sy then None
       else (case (to_decimal (i_contract_multiplier i), to_decimal (i_quantity_increment i)) of
           (Some m, Some inc) \<Rightarrow> Some (m, inc) | _ \<Rightarrow> None))"

definition sizing_trace :: "risk_policy \<Rightarrow> rat \<Rightarrow> rat \<Rightarrow> rat \<Rightarrow> trace" where
  "sizing_trace pol conservative qty planned =
    [(''risk_fraction'', JDec (per_trade_risk_fraction pol)), (''risk_budget'', money (conservative * per_trade_risk_fraction pol)),
     (''quantity'', money qty), (''planned_monetary_risk'', money planned), (''fill_risk_factor'', JDec (policy_fill_factor pol)),
     (''reserved_fill_risk'', money (planned * policy_fill_factor pol)),
     (''maximum_fill_money_risk'', money (planned * policy_fill_factor pol))]"

text \<open>All gates in order: the first that fails decides.\<close>

definition risk_gates ::
  "risk_policy \<Rightarrow> trade_plan option \<Rightarrow> paper_account option \<Rightarrow> paper_order list \<Rightarrow> instrument_spec option \<Rightarrow> drawdown_basis option
   \<Rightarrow> (string \<times> trace) + (sizing \<times> trace)" where
  "risk_gates pol oplan oacc orders ins basis =
    (if \<not> stamps_registered_semantics pol then Inl (''RISK_POLICY_NOT_REGISTERED'', [])
     else (case oacc of None \<Rightarrow> Inl (''INVALID_ACCOUNT_STATE'', [])
     | Some a \<Rightarrow> (case f_pos (a_starting_equity a) of None \<Rightarrow> Inl (''INVALID_ACCOUNT_STATE'', [])
     | Some starting \<Rightarrow> (case oplan of None \<Rightarrow> Inl (''rr_policy_mismatch'', [])
     | Some plan \<Rightarrow> (case plan_shape pol plan of Inl why \<Rightarrow> Inl (why, [])
     | Inr g \<Rightarrow>
       let current = real_of (a_equity a);
           balance = starting + real_of (a_realized_pnl a);
           conservative = min current balance;
           tr1 = [(''planned_entry'', JDec (g_entry g)), (''sl'', JDec (g_stop g)), (''tp'', JDec (g_target g))];
           tr2 = tr1 @ [(''current_equity'', money current), (''realized_balance'', money balance),
                        (''conservative_equity'', money conservative)]
       in (case instrument_numbers ins (tp_symbol plan) of None \<Rightarrow> Inl (''instrument_contract_data_unavailable'', tr1)
       | Some (mul, increment) \<Rightarrow>
         if conservative \<le> 0 then Inl (''INVALID_ACCOUNT_STATE'', tr2)
         else (case drawdown_gate pol current starting basis of Inl (why, tr) \<Rightarrow> Inl (why, tr2 @ tr)
         | Inr tr3 \<Rightarrow>
           let qty = sized_quantity pol conservative g mul increment;
               planned = qty * g_risk g * mul;
               tr4 = tr2 @ tr3 @ sizing_trace pol conservative qty planned
           in if qty \<le> 0 then Inl (''PAPER_QUANTITY_BELOW_INCREMENT'', tr4)
              else if conservative * per_trade_risk_fraction pol < planned then Inl (''PER_TRADE_RISK_LIMIT'', tr4)
              else (case portfolio_gate pol (tp_symbol plan) conservative planned (dvals (a_open_positions a)) orders of
                  Inl (why, tr) \<Rightarrow> Inl (why, tr4 @ tr)
                | Inr tr \<Rightarrow> Inr (\<lparr>sz_quantity = qty, sz_money = planned, sz_conservative = conservative, sz_multiplier = mul\<rparr>,
                                 tr4 @ tr)))))))))"

section \<open>The decision\<close>

definition basis_in_force :: "drawdown_basis option \<Rightarrow> drawdown_basis option \<Rightarrow> drawdown_basis option" where
  "basis_in_force given scoped = (case given of None \<Rightarrow> scoped | Some b \<Rightarrow> Some b)"

definition plan_number :: "pynum \<Rightarrow> bool" where
  "plan_number v \<longleftrightarrow> (case v of PInt _ \<Rightarrow> True | PFloat _ \<Rightarrow> True | PBool _ \<Rightarrow> True | PInf \<Rightarrow> True | PNaN \<Rightarrow> True | _ \<Rightarrow> False)"

definition reject_decision :: "trade_plan option \<Rightarrow> string \<Rightarrow> risk_decision" where
  "reject_decision oplan reason = (case oplan of
     None \<Rightarrow> \<lparr>rd_status = REJECTED_RISK, rd_symbol = [], rd_side = OtherSide [], rd_quantity = PNone, rd_capital_at_risk = PNone,
        rd_entry = PFloat 0, rd_stop = PFloat 0, rd_target = PFloat 0, rd_reason = reason, rd_equity = PNone,
        rd_risk_fraction = PNone, rd_multiplier = PNone\<rparr>
   | Some p \<Rightarrow> \<lparr>rd_status = REJECTED_RISK, rd_symbol = tp_symbol p, rd_side = tp_side p, rd_quantity = PNone,
        rd_capital_at_risk = PNone, rd_entry = (if plan_number (tp_entry p) then tp_entry p else PFloat 0),
        rd_stop = tp_stop p, rd_target = tp_target p, rd_reason = reason, rd_equity = PNone, rd_risk_fraction = PNone,
        rd_multiplier = PNone\<rparr>)"

definition approve_decision :: "risk_policy \<Rightarrow> trade_plan \<Rightarrow> sizing \<Rightarrow> risk_decision" where
  "approve_decision pol p s = \<lparr>rd_status = APPROVED, rd_symbol = tp_symbol p, rd_side = tp_side p,
     rd_quantity = PFloat (as_float (sz_quantity s)), rd_capital_at_risk = PFloat (as_float (sz_money s)),
     rd_entry = tp_entry p, rd_stop = tp_stop p, rd_target = tp_target p, rd_reason = ''approved'',
     rd_equity = PFloat (as_float (sz_conservative s)), rd_risk_fraction = PFloat (fl (per_trade_risk_fraction pol)),
     rd_multiplier = PFloat (fl (sz_multiplier s))\<rparr>"

definition base_record :: "risk_policy \<Rightarrow> trade_plan option \<Rightarrow> string option \<Rightarrow> instant option \<Rightarrow> trace" where
  "base_record pol oplan setup t =
    [(''policy'', policy_record pol), (''policy_version'', JStr (rp_version pol)),
     (''run_id'', case oplan of None \<Rightarrow> JNull | Some p \<Rightarrow> jstr_opt (tp_run_id p)), (''setup_id'', jstr_opt setup),
     (''symbol'', case oplan of None \<Rightarrow> JNull | Some p \<Rightarrow> JStr (tp_symbol p)),
     (''direction'', case oplan of None \<Rightarrow> JNull | Some p \<Rightarrow> JStr (side_name (tp_side p))),
     (''planned_entry'', JNull), (''sl'', JNull), (''tp'', JNull), (''planned_rr'', JDec (planned_rr pol)),
     (''minimum_fill_rr'', JDec (minimum_actual_fill_rr pol)),
     (''timestamp'', case t of None \<Rightarrow> JNull | Some x \<Rightarrow> JTime x)]"

definition update_record :: "trace \<Rightarrow> trace \<Rightarrow> trace" where
  "update_record r kvs = foldl (\<lambda>r (k, v). dput k v r) r kvs"

definition evaluate ::
  "risk_policy \<Rightarrow> trade_plan option \<Rightarrow> paper_account option \<Rightarrow> (string, paper_order) dict \<Rightarrow> instrument_spec option \<Rightarrow>
   string option \<Rightarrow> instant option \<Rightarrow> drawdown_basis option \<Rightarrow> drawdown_basis option \<Rightarrow> risk_decision \<times> trace" where
  "evaluate pol oplan oacc orders ins setup t given scoped =
    (let base = base_record pol oplan setup t in
     case risk_gates pol oplan oacc (dvals orders) ins (basis_in_force given scoped) of
       Inl (why, tr) \<Rightarrow> (reject_decision oplan why,
         update_record base (tr @ [(''risk_status'', JStr ''REJECTED''), (''risk_reason'', JStr why)]))
     | Inr (s, tr) \<Rightarrow> (approve_decision pol (the oplan) s,
         update_record base (tr @ [(''risk_status'', JStr ''APPROVED''), (''risk_reason'', JStr ''approved'')])))"

section \<open>Facts: the exposure sums\<close>

definition risk_of_position :: "paper_position \<Rightarrow> rat" where
  "risk_of_position p = (case position_risk p of None \<Rightarrow> 0 | Some r \<Rightarrow> r)"

definition reserved_of :: "paper_order \<Rightarrow> rat" where
  "reserved_of od = (if o_status od \<noteq> PENDING then 0
     else (case pending_reservation od of None \<Rightarrow> 0 | Some it \<Rightarrow> (case rs_reserved it of None \<Rightarrow> 0 | Some r \<Rightarrow> r)))"

text \<open>The money at risk in a portfolio: open positions to their stops plus pending reservations.\<close>

definition portfolio_risk :: "paper_position list \<Rightarrow> paper_order list \<Rightarrow> rat" where
  "portfolio_risk ps ods = sum_list (map risk_of_position ps) + sum_list (map reserved_of ods)"

definition risk_known :: "paper_position list \<Rightarrow> paper_order list \<Rightarrow> bool" where
  "risk_known ps ods \<longleftrightarrow> (\<forall>p \<in> set ps. position_risk p \<noteq> None)
     \<and> (\<forall>od \<in> set ods. o_status od = PENDING \<longrightarrow> (\<exists>it r. pending_reservation od = Some it \<and> rs_reserved it = Some r))"

lemma position_risk_nonneg: "position_risk p = Some r \<Longrightarrow> 0 \<le> r"
  by (auto simp: position_risk_def f_pos_def f_opt_def split: option.splits if_splits dest!: to_decimal_pos intro!: mult_nonneg_nonneg)

lemma risk_of_position_nonneg: "0 \<le> risk_of_position p"
  by (auto simp: risk_of_position_def dest: position_risk_nonneg split: option.splits)

lemma reserved_of_nonneg: "0 \<le> reserved_of od"
proof -
  have f: "0 \<le> policy_fill_factor p" if "registered_risk_policy v = Some p" for v p
    using registered_factor_ge_1 [OF that] by simp
  show ?thesis
    by (auto simp: reserved_of_def pending_reservation_def f_pos_def f_opt_def Let_def split: option.splits
        dest!: to_decimal_pos intro!: mult_nonneg_nonneg f)
qed

lemma open_exposure_sum:
  "open_exposure sy ps = Some (tot, same, n) \<Longrightarrow>
   tot = sum_list (map risk_of_position ps) \<and> (\<forall>p \<in> set ps. position_risk p \<noteq> None)
   \<and> n = length (filter (\<lambda>p. p_symbol p = sy) ps)"
  by (induction ps arbitrary: tot same n)
    (auto simp: risk_of_position_def split: option.splits prod.splits if_splits)

lemma pending_exposure_sum:
  "pending_exposure sy ods = Some ps \<Longrightarrow> ps_unknown ps = [] \<Longrightarrow>
   ps_reserved ps = sum_list (map reserved_of ods)
   \<and> (\<forall>od \<in> set ods. o_status od = PENDING \<longrightarrow> (\<exists>it r. pending_reservation od = Some it \<and> rs_reserved it = Some r))
   \<and> ps_count ps = length (filter (\<lambda>od. o_status od = PENDING \<and> o_symbol od = sy) ods)"
proof (induction ods arbitrary: ps)
  case (Cons od ods)
  show ?case
  proof (cases "o_status od = PENDING")
    case False
    then show ?thesis using Cons by (simp add: reserved_of_def)
  next
    case True
    then obtain it s r where it: "pending_reservation od = Some it" "pending_exposure sy ods = Some s" "rs_reserved it = Some r"
        "ps_unknown s = []" "ps_reserved ps = r + ps_reserved s"
        "ps_count ps = (if o_symbol od = sy then Suc (ps_count s) else ps_count s)"
      using Cons.prems by (auto simp: Let_def split: option.splits)
    then show ?thesis using Cons.IH [OF it(2,4)] True by (auto simp: reserved_of_def)
  qed
qed simp

lemma portfolio_gate_passes:
  assumes "portfolio_gate pol sy conservative planned ps ods = Inr tr"
  shows "risk_known ps ods"
    and "portfolio_risk ps ods + planned * policy_fill_factor pol \<le> conservative * aggregate_portfolio_risk_fraction pol"
    and "length (filter (\<lambda>p. p_symbol p = sy) ps) + length (filter (\<lambda>od. o_status od = PENDING \<and> o_symbol od = sy) ods)
      < max_positions_or_pending_per_symbol pol"
proof -
  obtain tot same n s where s: "open_exposure sy ps = Some (tot, same, n)" "pending_exposure sy ods = Some s"
      "ps_unknown s = []" "n + ps_count s < max_positions_or_pending_per_symbol pol"
      "tot + ps_reserved s + planned * policy_fill_factor pol \<le> conservative * aggregate_portfolio_risk_fraction pol"
    using assms by (auto simp: portfolio_gate_def Let_def not_le not_less split: option.splits if_splits)
  note o = open_exposure_sum [OF s(1)] and p = pending_exposure_sum [OF s(2,3)]
  show "risk_known ps ods" using o p by (simp add: risk_known_def)
  show "portfolio_risk ps ods + planned * policy_fill_factor pol \<le> conservative * aggregate_portfolio_risk_fraction pol"
    using o p s(5) by (simp add: portfolio_risk_def)
  show "length (filter (\<lambda>p. p_symbol p = sy) ps) + length (filter (\<lambda>od. o_status od = PENDING \<and> o_symbol od = sy) ods)
      < max_positions_or_pending_per_symbol pol"
    using o p s(4) by simp
qed

section \<open>Facts: the sizing\<close>

lemma sized_quantity_bounds:
  assumes "0 < g_risk g" "0 < g_entry g" "0 < m" "0 < inc" "0 \<le> per_trade_risk_fraction pol" "0 < c"
  shows "sized_quantity pol c g m inc * g_risk g * m \<le> c * per_trade_risk_fraction pol"
    and "sized_quantity pol c g m inc * g_entry g * m \<le> c * notional_fraction_cap pol"
    and "\<exists>k. sized_quantity pol c g m inc = of_int k * inc"
proof -
  define raw where "raw = min (c * per_trade_risk_fraction pol / (g_risk g * m)) (c * notional_fraction_cap pol / (g_entry g * m))"
  have q: "sized_quantity pol c g m inc = of_int \<lfloor>raw / inc\<rfloor> * inc" by (simp add: sized_quantity_def raw_def Let_def)
  have "of_int \<lfloor>raw / inc\<rfloor> * inc \<le> raw / inc * inc" using assms(4) by (intro mult_right_mono) auto
  then have le: "sized_quantity pol c g m inc \<le> raw" unfolding q using assms(4) by simp
  have "sized_quantity pol c g m inc \<le> c * per_trade_risk_fraction pol / (g_risk g * m)" using le by (simp add: raw_def)
  then show "sized_quantity pol c g m inc * g_risk g * m \<le> c * per_trade_risk_fraction pol"
    using assms(1,3) by (simp add: pos_le_divide_eq mult.assoc)
  have "sized_quantity pol c g m inc \<le> c * notional_fraction_cap pol / (g_entry g * m)" using le by (simp add: raw_def)
  then show "sized_quantity pol c g m inc * g_entry g * m \<le> c * notional_fraction_cap pol"
    using assms(2,3) by (simp add: pos_le_divide_eq mult.assoc)
  show "\<exists>k. sized_quantity pol c g m inc = of_int k * inc" using q by blast
qed

lemma instrument_numbers_pos: "instrument_numbers ins sy = Some (m, inc) \<Longrightarrow> 0 < m \<and> 0 < inc"
  by (auto simp: instrument_numbers_def split: option.splits if_splits dest: to_decimal_pos)

lemma plan_shape_ok:
  assumes "plan_shape pol plan = Inr g"
  shows "geom_ok g" and "classify (g_rr g) (rp_rr_policy pol) = Inr WITHIN_POLICY" and "tp_policy_version plan = rp_rr_policy pol"
    and "geometry (tp_side plan) (tp_entry plan) (tp_stop plan) (tp_target plan) = Inr g"
    and "declared_matches (tp_risk_reward plan) (g_rr g)"
  using assms by (auto simp: plan_shape_def split: if_splits sum.splits dest: geometry_Inr(5))

text \<open>What a pass through every gate establishes.\<close>

lemma risk_gates_pass:
  assumes "risk_gates pol oplan oacc ods ins basis = Inr (s, tr)"
  obtains a plan g starting inc tr3 tr5 where "oacc = Some a" "oplan = Some plan" "plan_shape pol plan = Inr g"
    "f_pos (a_starting_equity a) = Some starting" "instrument_numbers ins (tp_symbol plan) = Some (sz_multiplier s, inc)"
    "sz_conservative s = min (real_of (a_equity a)) (starting + real_of (a_realized_pnl a))" "0 < sz_conservative s"
    "sz_quantity s = sized_quantity pol (sz_conservative s) g (sz_multiplier s) inc" "0 < sz_quantity s"
    "sz_money s = sz_quantity s * g_risk g * sz_multiplier s"
    "drawdown_gate pol (real_of (a_equity a)) starting basis = Inr tr3"
    "portfolio_gate pol (tp_symbol plan) (sz_conservative s) (sz_money s) (dvals (a_open_positions a)) ods = Inr tr5"
    "stamps_registered_semantics pol"
  using assms
  by (auto simp: risk_gates_def Let_def not_le split: if_splits option.splits sum.splits prod.splits)

section \<open>Properties\<close>

lemma registered_numbers:
  "registered_risk_policy v = Some p \<Longrightarrow> per_trade_risk_fraction p = 1 / 100 \<and> notional_fraction_cap p = 1
     \<and> aggregate_portfolio_risk_fraction p = 23 / 1000 \<and> account_drawdown_fraction p = 1 / 20
     \<and> max_positions_or_pending_per_symbol p = 1"
  by (auto dest!: registered_cases simp: policy_defs)

lemma evaluate_approved:
  assumes "evaluate pol oplan oacc orders ins setup t given scoped = (d, record)" and "rd_status d = APPROVED"
  obtains s tr where "risk_gates pol oplan oacc (dvals orders) ins (basis_in_force given scoped) = Inr (s, tr)"
    "d = approve_decision pol (the oplan) s"
  using assms by (auto simp: evaluate_def Let_def reject_decision_def split: sum.splits option.splits prod.splits)

text \<open>The exact quantities behind an approval: what the code computes before it renders them as floats.\<close>

definition approved_size :: "risk_decision \<Rightarrow> risk_policy \<Rightarrow> paper_account \<Rightarrow> geom \<Rightarrow> rat \<Rightarrow> rat \<Rightarrow> rat \<Rightarrow> rat \<Rightarrow> bool" where
  "approved_size d pol a g c q m inc \<longleftrightarrow>
     (\<exists>start. f_pos (a_starting_equity a) = Some start \<and> c = min (repr_dec (a_equity a)) (start + repr_dec (a_realized_pnl a)))
     \<and> rd_quantity d = PFloat (fl (dec28 q)) \<and> 0 < m \<and> 0 < inc \<and> 0 < c \<and> 0 < q \<and> (\<exists>k. q = of_int k * inc)"

lemma approval_limits:
  assumes "evaluate pol oplan (Some a) orders ins setup t given scoped = (d, record)" and "rd_status d = APPROVED"
    and "registered_risk_policy v = Some pol"
  shows "\<exists>plan g c q m inc. oplan = Some plan \<and> geom_ok g
    \<and> geometry (tp_side plan) (tp_entry plan) (tp_stop plan) (tp_target plan) = Inr g
    \<and> classify (g_rr g) (rp_rr_policy pol) = Inr WITHIN_POLICY \<and> declared_matches (tp_risk_reward plan) (g_rr g)
    \<and> approved_size d pol a g c q m inc
    \<and> q * g_risk g * m \<le> c / 100 \<and> q * g_entry g * m \<le> c
    \<and> risk_known (dvals (a_open_positions a)) (dvals orders)
    \<and> (\<forall>p \<in> set (dvals (a_open_positions a)). p_symbol p \<noteq> tp_symbol plan)
    \<and> (\<forall>od \<in> set (dvals orders). o_status od = PENDING \<longrightarrow> o_symbol od \<noteq> tp_symbol plan)
    \<and> portfolio_risk (dvals (a_open_positions a)) (dvals orders) + q * g_risk g * m * policy_fill_factor pol \<le> c * (23 / 1000)"
proof -
  obtain s tr where gates: "risk_gates pol oplan (Some a) (dvals orders) ins (basis_in_force given scoped) = Inr (s, tr)"
    and d: "d = approve_decision pol (the oplan) s"
    using evaluate_approved [OF assms(1,2)] by metis
  obtain plan g starting inc tr5 where g: "oplan = Some plan" "plan_shape pol plan = Inr g"
    "f_pos (a_starting_equity a) = Some starting" "instrument_numbers ins (tp_symbol plan) = Some (sz_multiplier s, inc)"
    "sz_conservative s = min (real_of (a_equity a)) (starting + real_of (a_realized_pnl a))" "0 < sz_conservative s"
    "sz_quantity s = sized_quantity pol (sz_conservative s) g (sz_multiplier s) inc" "0 < sz_quantity s"
    "sz_money s = sz_quantity s * g_risk g * sz_multiplier s"
    "portfolio_gate pol (tp_symbol plan) (sz_conservative s) (sz_money s) (dvals (a_open_positions a)) (dvals orders) = Inr tr5"
    using risk_gates_pass [OF gates] by (metis option.inject)
  note n = registered_numbers [OF assms(3)] and sh = plan_shape_ok [OF g(2)] and pg = portfolio_gate_passes [OF g(10)]
  have mi: "0 < sz_multiplier s" "0 < inc" using instrument_numbers_pos [OF g(4)] by auto
  have gp: "0 < g_risk g" "0 < g_entry g" using sh(1) by (auto simp: geom_ok_def)
  have b: "sz_quantity s * g_risk g * sz_multiplier s \<le> sz_conservative s / 100"
    "sz_quantity s * g_entry g * sz_multiplier s \<le> sz_conservative s" "\<exists>k. sz_quantity s = of_int k * inc"
    using sized_quantity_bounds [OF gp mi _ g(6), of pol] n unfolding g(7) by simp_all
  have "approved_size d pol a g (sz_conservative s) (sz_quantity s) (sz_multiplier s) inc"
    using g(3,5,6,8) mi b(3) by (auto simp: approved_size_def d approve_decision_def as_float_def real_of_def)
  then show ?thesis
    using g(1) sh b(1,2) pg n
    by (intro exI [of _ plan] exI [of _ g] exI [of _ "sz_conservative s"] exI [of _ "sz_quantity s"]
        exI [of _ "sz_multiplier s"] exI [of _ inc]) (auto simp: g(9) filter_empty_conv)
qed


text \<open>
  C13. The drawdown gate closes new risk. No plan is approved once the account that decides drawdown has lost 5% of its
  starting equity: the PAPER account, or, while a demo basis is in force, the broker's demo account and
  only it; a demo basis that is unavailable, erroneous or from another source never approves.
\<close>

theorem drawdown_closes_new_risk:
  assumes "evaluate pol oplan (Some a) orders ins setup t given scoped = (d, record)" and "rd_status d = APPROVED"
    and "registered_risk_policy v = Some pol"
  shows "case basis_in_force given scoped of
     None \<Rightarrow> (\<exists>start. f_pos (a_starting_equity a) = Some start \<and> start * (19 / 20) < repr_dec (a_equity a))
   | Some b \<Rightarrow> db_source b = Some ''OANDA_DEMO'' \<and> db_error b = None
       \<and> (\<exists>cur start. basis_amount (db_current b) = Some cur \<and> basis_amount (db_starting b) = Some start
            \<and> 0 < start \<and> start * (19 / 20) < cur)"
proof -
  obtain s tr where gates: "risk_gates pol oplan (Some a) (dvals orders) ins (basis_in_force given scoped) = Inr (s, tr)"
    using evaluate_approved [OF assms(1,2)] by metis
  obtain starting tr3 where g: "f_pos (a_starting_equity a) = Some starting"
    "drawdown_gate pol (real_of (a_equity a)) starting (basis_in_force given scoped) = Inr tr3"
    using risk_gates_pass [OF gates] by (metis option.inject)
  have f: "account_drawdown_fraction pol = 1 / 20" using registered_numbers [OF assms(3)] by simp
  show ?thesis
  proof (cases "basis_in_force given scoped")
    case None
    then show ?thesis using g by (auto simp: drawdown_gate_def Let_def real_of_def not_le f split: if_splits)
  next
    case (Some b)
    then show ?thesis using g(2) by (auto simp: drawdown_gate_def Let_def not_le f split: option.splits if_splits)
  qed
qed

section \<open>A concrete approval\<close>

definition gate_plan :: trade_plan where
  "gate_plan = \<lparr>tp_symbol = ''EURUSD'', tp_side = LONG, tp_timeframe = ''5m'', tp_entry = PFloat 1, tp_stop = PFloat (1/2),
     tp_target = PFloat 2, tp_risk_reward = PFloat 2, tp_run_id = Some ''run'', tp_as_of = Some 0,
     tp_policy_version = POLICY_FX, tp_target_decision = JNull\<rparr>"

definition gate_instrument :: instrument_spec where
  "gate_instrument = \<lparr>i_symbol = ''EURUSD'', i_asset_class = ''forex'', i_provider_symbol = None, i_timezone = ''UTC'',
     i_price_increment = PFloat (1/2), i_quantity_increment = PFloat 1, i_contract_multiplier = PFloat 1,
     i_allowed_timeframes = AUTHORIZED_TIMEFRAMES\<rparr>"

definition gate_account :: paper_account where
  "gate_account = demo_account\<lparr>a_open_positions := []\<rparr>"

definition gate_approval :: "risk_decision \<times> trace" where
  "gate_approval = evaluate RISK_POLICY_V2_FX (Some gate_plan) (Some gate_account) [] (Some gate_instrument) None (Some 0) None None"

lemma gate_gates:
  "\<not> isl (risk_gates RISK_POLICY_V2_FX (Some gate_plan) (Some gate_account) [] (Some gate_instrument) None)"
  by code_simp

lemma gate_approved: "rd_status (fst gate_approval) = APPROVED"
  using gate_gates unfolding gate_approval_def evaluate_def
  by (auto simp: dvals_def basis_in_force_def approve_decision_def Let_def split: sum.splits prod.splits)

lemma gate_approval_pair:
  "evaluate RISK_POLICY_V2_FX (Some gate_plan) (Some gate_account) [] (Some gate_instrument) None (Some 0) None None
    = (fst gate_approval, snd gate_approval)"
  by (simp add: gate_approval_def)


lemma drawdown_closes_new_risk_witness:
  "\<exists>start. f_pos (a_starting_equity gate_account) = Some start \<and> start * (19 / 20) < repr_dec (a_equity gate_account)"
  using drawdown_closes_new_risk [OF gate_approval_pair gate_approved registered_FX]
  by (simp add: basis_in_force_def)

end
