(* ===== verification/Reservation.thy ===== *)
theory Reservation
  imports PaperStore RiskEngine
begin

text \<open>
  \<open>execution/risk_reservation.py\<close>: the Risk Engine's decision, the order it allows and the guarded save that
  makes it durable, as the retry loop of the paper register. What other processes commit between the
  load and the save of an attempt is the list \<open>others\<close>; the ids of the orders to create, the clock
  and the scoped drawdown basis are arguments.
\<close>

section \<open>One evaluation\<close>

datatype prepared = Prepared_Rejected string trace trace | Prepared_Approved trace broker paper_order

definition RISK_EVENT :: string where "RISK_EVENT = ''RISK_V2_DECISION''"
definition RISK_SOURCE :: string where "RISK_SOURCE = ''risk_engine_v2''"

definition stamp_order :: "risk_policy \<Rightarrow> bool \<Rightarrow> string option \<Rightarrow> paper_order \<Rightarrow> paper_order" where
  "stamp_order pol stamp_setup setup od = od\<lparr>o_risk_policy_version := Some (rp_version pol),
     o_setup_id := (if stamp_setup then setup else o_setup_id od)\<rparr>"

definition loaded_broker :: "paper_account \<Rightarrow> instrument_spec option \<Rightarrow> risk_policy \<Rightarrow> (string, paper_order) dict \<Rightarrow> (string, paper_fill) dict \<Rightarrow> broker" where
  "loaded_broker a ins pol ods fs = (new_broker a ins (Some (rp_rr_policy pol)))\<lparr>br_orders := ods, br_fills := fs\<rparr>"

definition refuse_submission :: "trace \<Rightarrow> prepared" where
  "refuse_submission record = Prepared_Rejected ''broker_refused_submission'' record
     (update_record record [(''risk_status'', JStr ''REJECTED''), (''risk_reason'', JStr ''broker_refused_submission'')])"

definition prepare_reservation ::
  "string \<Rightarrow> floor_report \<Rightarrow> instrument_spec option \<Rightarrow> durable \<Rightarrow> instant option \<Rightarrow> string option \<Rightarrow> risk_policy \<Rightarrow> bool \<Rightarrow>
   drawdown_basis option \<Rightarrow> prepared" where
  "prepare_reservation oid report ins d as_of setup pol stamp_setup scoped = (case d of (oa, ods, fs) \<Rightarrow>
    (case evaluate pol (fr_trade_plan report) oa ods ins setup as_of None scoped of (dec, record) \<Rightarrow>
      if rd_status dec \<noteq> APPROVED then Prepared_Rejected (rd_reason dec) record record
      else (case oa of None \<Rightarrow> refuse_submission record
       | Some a \<Rightarrow> (case submit_plan oid (Some (report\<lparr>fr_risk_decision := Some dec\<rparr>)) as_of (loaded_broker a ins pol ods fs) of
           (None, _) \<Rightarrow> refuse_submission record
         | (Some od, br) \<Rightarrow>
             let od' = stamp_order pol stamp_setup setup od;
                 record' = update_record record [(''order_id'', JStr (o_id od))]
             in Prepared_Approved record'
                  (log_event as_of (o_run_id od) (o_symbol od) (o_id od) RISK_EVENT (JObj record')
                    (br\<lparr>br_orders := dput (o_id od) od' (br_orders br)\<rparr>)) od'))))"

section \<open>The guarded loop\<close>

record reservation_request =
  rq_report :: floor_report
  rq_instrument :: "instrument_spec option"
  rq_account :: string
  rq_as_of :: "instant option"
  rq_setup :: "string option"
  rq_owner :: "string option"
  rq_policy :: risk_policy
  rq_basis :: "drawdown_basis option"

record reservation_result =
  rr_status :: string
  rr_reason :: string
  rr_order :: "paper_order option"
  rr_record :: "trace option"
  rr_attempts :: nat

definition reservation_outcome ::
  "string \<Rightarrow> string \<Rightarrow> paper_order option \<Rightarrow> trace option \<Rightarrow> nat \<Rightarrow> reservation_result" where
  "reservation_outcome status reason od rec n =
    \<lparr>rr_status = status, rr_reason = reason, rr_order = od, rr_record = rec, rr_attempts = n\<rparr>"

text \<open>\<open>Store.event\<close>: \<open>utc\<close> refuses a time that is not aware.\<close>

definition journal_event_at :: "instant option \<Rightarrow> string option \<Rightarrow> string option \<Rightarrow> string \<Rightarrow> string \<Rightarrow> json \<Rightarrow> store \<Rightarrow> py_error + store" where
  "journal_event_at t run symbol source ty payload s = (case t of
     None \<Rightarrow> Inl (ValueError ''timezone-aware datetime required'')
   | Some x \<Rightarrow> Inr (add_event x run symbol source ty ''INFO'' payload s))"

type_synonym reservation_step =
  "(reservation_result \<times> (store \<Rightarrow> py_error + store)) + (paper_view \<times> broker \<times> reservation_result \<times> reservation_result)"

definition reserve_decide :: "(nat \<Rightarrow> string) \<Rightarrow> reservation_request \<Rightarrow> trade_plan \<Rightarrow> nat \<Rightarrow> store \<Rightarrow> py_error + reservation_step" where
  "reserve_decide oids rq plan n s = ebind (load_paper (rq_account rq) s) (\<lambda>d.
    (case find (\<lambda>od. o_run_id od = fr_run_id (rq_report rq)) (dvals (fst (snd d))) of
       Some od \<Rightarrow> Inr (Inl (reservation_outcome ''DUPLICATE_RUN'' ''run_id_already_submitted'' (Some od) None n, Inr))
     | None \<Rightarrow>
       (case prepare_reservation (oids n) (rq_report rq) (rq_instrument rq) d (rq_as_of rq) (rq_setup rq) (rq_policy rq) False (rq_basis rq) of
          Prepared_Rejected why record journal \<Rightarrow>
            Inr (Inl (reservation_outcome ''REJECTED'' why None (Some record) n,
              journal_event_at (rq_as_of rq) (Some (fr_run_id (rq_report rq))) (Some (tp_symbol plan)) RISK_SOURCE RISK_EVENT (JObj journal)))
        | Prepared_Approved record br od \<Rightarrow>
            Inr (Inr (paper_state d, br, reservation_outcome ''RESERVED'' ''approved'' (Some od) (Some record) n,
              reservation_outcome ''STALE'' ''STALE_PAPER_STATE'' None (Some record) 2)))))"

text \<open>Two attempts. \<open>others\<close> holds what the other writers do inside each.\<close>

definition reserve_and_submit ::
  "(nat \<Rightarrow> string) \<Rightarrow> (store \<Rightarrow> store) \<times> (store \<Rightarrow> store) \<Rightarrow> instant \<Rightarrow> reservation_request \<Rightarrow> store \<Rightarrow> py_error + reservation_result \<times> store" where
  "reserve_and_submit oids others now rq s =
    (if \<not> stamps_registered_semantics (rq_policy rq)
     then Inr (reservation_outcome ''NOT_SUBMITTED'' ''RISK_POLICY_NOT_REGISTERED'' None None 0, s)
     else (case fr_trade_plan (rq_report rq) of
         None \<Rightarrow> Inr (reservation_outcome ''NOT_SUBMITTED'' ''not_a_fixed_3r_plan_ready_report'' None None 0, s)
       | Some plan \<Rightarrow>
           if tp_policy_version plan \<noteq> rp_rr_policy (rq_policy rq) \<or> fr_final_status (rq_report rq) \<noteq> ''PLAN_READY''
           then Inr (reservation_outcome ''NOT_SUBMITTED'' ''not_a_fixed_3r_plan_ready_report'' None None 0, s)
           else paper.retry (rq_account rq) now (rq_owner rq) (Some (tp_symbol plan)) (reserve_decide oids rq plan) 1
                  [fst others, snd others] (reservation_outcome ''STALE'' ''STALE_PAPER_STATE'' None None 2) s))"

section \<open>Facts\<close>

text \<open>What an approved preparation holds: the engine's approval and the one new order.\<close>

lemma prepare_approved:
  assumes "prepare_reservation oid report ins (Some a, ods, fs) as_of setup pol st scoped = Prepared_Approved record br od"
    and "find (\<lambda>od. o_run_id od = fr_run_id report) (dvals ods) = None" and "dget ods oid = None"
  obtains dec rec plan where "evaluate pol (fr_trade_plan report) (Some a) ods ins setup as_of None scoped = (dec, rec)"
    "rd_status dec = APPROVED" "fr_trade_plan report = Some plan" "br_account br = a" "br_orders br = dput oid od ods" "br_fills br = fs"
    "od = stamp_order pol st setup (order_of_decision oid (loaded_broker a ins pol ods fs) (report\<lparr>fr_risk_decision := Some dec\<rparr>) plan dec)"
    "valid_side (o_side od)" "o_symbol od = tp_symbol plan"
proof -
  let ?lb = "loaded_broker a ins pol ods fs"
  obtain dec rec where e: "evaluate pol (fr_trade_plan report) (Some a) ods ins setup as_of None scoped = (dec, rec)" by fastforce
  have st: "rd_status dec = APPROVED" using assms(1) e by (auto simp: prepare_reservation_def split: if_splits)
  let ?r = "report\<lparr>fr_risk_decision := Some dec\<rparr>"
  obtain od0 br0 where sub: "submit_plan oid (Some ?r) as_of ?lb = (Some od0, br0)"
      "od = stamp_order pol st setup od0"
      "br_account br = br_account br0" "br_orders br = dput (o_id od0) od (br_orders br0)" "br_fills br = br_fills br0"
    using assms(1) e st by (auto simp: prepare_reservation_def refuse_submission_def Let_def split: prod.splits option.splits)
  have none: "order_of_run (fr_run_id ?r) ?lb = None"
    using assms(2) by (simp add: order_of_run_def loaded_broker_def new_broker_def)
  obtain plan t where p: "fr_trade_plan report = Some plan" "as_of = Some t" "submittable ?r plan dec" "order_values_ok ?lb ?r dec"
      "od0 = order_of_decision oid ?lb ?r plan dec" "br_account br0 = br_account ?lb"
      "br_orders br0 = dput oid od0 (br_orders ?lb)" "br_fills br0 = br_fills ?lb"
    using sub(1) none by (auto simp: submit_plan_def Let_def split: option.splits if_splits)
  have id: "o_id od0 = oid" unfolding p(5) by (simp add: order_of_decision_def)
  have "dput oid od (dput oid od0 ods) = dput oid od ods" by (induction ods) auto
  then have "br_orders br = dput oid od ods" using sub(4) id p(7) by (simp add: loaded_broker_def new_broker_def)
  moreover have "valid_side (rd_side dec)" using p(3) by (auto simp: submittable_def)
  then have "valid_side (o_side od)" unfolding sub(2) p(5) by (simp add: stamp_order_def order_of_decision_def)
  moreover have "rd_symbol dec = tp_symbol plan"
    by (rule evaluate_approved [OF e st]) (simp add: approve_decision_def p(1))
  then have "o_symbol od = tp_symbol plan"
    using p(3) unfolding sub(2) p(5) by (simp add: submittable_def stamp_order_def order_of_decision_def)
  ultimately show thesis
    using that [OF e st p(1)] sub(2,3,5) p(5,6,8) by (simp add: loaded_broker_def new_broker_def)
qed

lemma portfolio_risk_mset:
  "mset ps = mset ps' \<Longrightarrow> mset ods = mset ods' \<Longrightarrow> portfolio_risk ps ods = portfolio_risk ps' ods'"
  unfolding portfolio_risk_def sum_mset_sum_list [symmetric] mset_map by simp

text \<open>The conservative equity of an account, as the engine computes it.\<close>

definition conservative_of :: "paper_account \<Rightarrow> rat option" where
  "conservative_of a = map_option (\<lambda>start. min (repr_dec (a_equity a)) (start + repr_dec (a_realized_pnl a))) (f_pos (a_starting_equity a))"

text \<open>The invariant the other writers must keep: well-formed tables, and ids that are really fresh.\<close>

definition world_ok :: "(nat \<Rightarrow> string) \<Rightarrow> string \<Rightarrow> store \<Rightarrow> bool" where
  "world_ok oids aid s \<longleftrightarrow> paper_inv aid s \<and> (\<forall>n. dget (s_orders s) (oids n) = None)"

lemma loaded_id_fresh:
  assumes "paper_ok s" and "load_paper aid s = Inr (Some a, ods, fs)" and "dget (s_orders s) oid = None"
  shows "dget ods oid = None" and "oid \<notin> o_id ` set (dvals ods)"
proof -
  have "oid \<notin> fst ` set (s_orders s)" using assms(3) by (simp add: map_of_eq_None_iff)
  then show n: "oid \<notin> o_id ` set (dvals ods)" unfolding load_some(2) [OF assms(1,2)] by simp
  show "dget ods oid = None" using n load_some(7) [OF assms(1,2)] by (force simp: map_of_eq_None_iff dvals_def)
qed

lemma same_scalars:
  assumes "a\<lparr>a_open_positions := [], a_closed_trades := []\<rparr> = b\<lparr>a_open_positions := [], a_closed_trades := []\<rparr>"
  shows "a_id a = a_id b" and "a_starting_equity a = a_starting_equity b" and "a_equity a = a_equity b"
    and "a_realized_pnl a = a_realized_pnl b"
  using assms by (cases a; cases b; simp)+

text \<open>The state a committed reservation leaves: the decided one plus the new order.\<close>

lemma commit_adds_order:
  assumes dec: "paper_inv aid s0" "load_paper aid s0 = Inr (Some a, ods, fs)" "dget (s_orders s0) oid = None"
    and com: "paper_ok s1" "stored_view aid s1 = Some (paper_state (Some a, ods, fs))"
    and br: "br_account br = a" "br_orders br = dput oid od ods" "br_fills br = fs" "valid_side (o_side od)" "o_id od = oid"
    and w: "write_paper now br s1 = Inr s'"
  obtains a' ods' fs' where "load_paper aid s' = Inr (Some a', ods', fs')" "paper_inv aid s'"
    "mset (dvals ods') = add_mset od (mset (dvals ods))"
    "mset (dvals (a_open_positions a')) = mset (dvals (a_open_positions a))" "conservative_of a' = conservative_of a" "a_equity a' = a_equity a"
proof -
  have ok0: "paper_ok s0" "books_disjoint a" using dec(1,2) by (auto simp: paper_inv_def)
  note l0 = load_some [OF ok0(1) dec(2)]
  note fresh = loaded_id_fresh [OF ok0(1) dec(2,3)]
  have aid: "a_id a = aid" using l0(8) by (auto dest: arg_cong [of _ _ a_id])
  have vals: "dvals (br_orders br) = dvals ods @ [od]" unfolding br(2) by (rule dvals_dput_fresh [OF fresh(1)])
  have "state_ok a (br_orders br) fs"
    using l0(9) fresh(2) br(4,5) unfolding state_ok_def vals by simp
  then have st: "storable br" using ok0(2) br(1,3) by (simp add: storable_def)
  obtain d1 where d1: "load_paper aid s1 = Inr d1" "paper_state d1 = paper_state (Some a, ods, fs)"
    using com(2) by (auto simp: stored_view_def split: sum.splits)
  obtain a1 ods1 fs1 where p1: "d1 = (Some a1, ods1, fs1)" using view_none [OF d1(2)] by blast
  note ok1 = load_some(9) [OF com(1) d1(1) [unfolded p1]]
  note m = view_inj [OF l0(9) ok1 d1(2) [unfolded p1]]
  have "a_id a1 = a_id a" by (rule same_scalars(1) [OF m(5)])
  moreover have "set (dvals ods1) = set (dvals ods)" "set (dvals fs1) = set (dvals fs)"
    "set (dvals (a_open_positions a1)) = set (dvals (a_open_positions a))" "set (a_closed_trades a1) = set (a_closed_trades a)"
    using m(1-4) by (metis set_mset_mset)+
  ultimately have acc: "accounts_for br d1" unfolding accounts_for_def p1 using br(1,3) vals by auto
  obtain a' ods' fs' where f: "load_paper (a_id (br_account br)) s' = Inr (Some a', ods', fs')" "paper_inv (a_id (br_account br)) s'"
    "mset (dvals ods') = mset (dvals (br_orders br))" "mset (dvals (a_open_positions a')) = mset (dvals (a_open_positions (br_account br)))"
    "a'\<lparr>a_open_positions := [], a_closed_trades := []\<rparr> = br_account br\<lparr>a_open_positions := [], a_closed_trades := []\<rparr>"
    by (rule load_saved [OF com(1) st d1(1) [folded aid br(1)] acc w]) blast
  have "a_equity a' = a_equity a \<and> a_starting_equity a' = a_starting_equity a \<and> a_realized_pnl a' = a_realized_pnl a"
    using same_scalars [OF f(5)] unfolding br(1) by simp
  then show thesis using that f aid br(1) vals by (simp add: conservative_of_def)
qed

lemma prepare_needs_account:
  "prepare_reservation oid report ins (None, ods, fs) as_of setup pol st scoped \<noteq> Prepared_Approved rcd br od"
  by (auto simp: prepare_reservation_def refuse_submission_def split: prod.splits)

lemma reserve_decide_commits:
  assumes "reserve_decide oids rq plan n s0 = Inr (Inr (v, br, r, r1))"
  obtains d rcd od where "load_paper (rq_account rq) s0 = Inr d" "v = paper_state d"
    "find (\<lambda>od. o_run_id od = fr_run_id (rq_report rq)) (dvals (fst (snd d))) = None"
    "prepare_reservation (oids n) (rq_report rq) (rq_instrument rq) d (rq_as_of rq) (rq_setup rq) (rq_policy rq) False (rq_basis rq)
      = Prepared_Approved rcd br od"
    "r = reservation_outcome ''RESERVED'' ''approved'' (Some od) (Some rcd) n"
    "r1 = reservation_outcome ''STALE'' ''STALE_PAPER_STATE'' None (Some rcd) 2"
  using assms by (auto simp: reserve_decide_def ebind_eq_Inr split: option.splits prepared.splits)

lemma reserve_decide_stops:
  assumes "reserve_decide oids rq plan n s0 = Inr (Inl (r, g))"
  shows "rr_status r = ''DUPLICATE_RUN'' \<and> g = Inr \<or> rr_status r = ''REJECTED''"
  using assms by (auto simp: reserve_decide_def ebind_eq_Inr reservation_outcome_def split: option.splits prepared.splits)

lemma account_save_writes:
  assumes "account_save aid now owner symbol v br s1 = Inr (True, s')"
  shows "a_id (br_account br) = aid" and "write_paper now br s1 = Inr s'"
  using account_save_Inr [OF assms] by (auto elim: save_paper_cases)

section \<open>Properties\<close>


section \<open>A concrete reservation\<close>

definition demo_request :: reservation_request where
  "demo_request = \<lparr>rq_report = \<lparr>fr_run_id = ''run'', fr_as_of = Some 0, fr_symbol = ''EURUSD'', fr_trade_plan = Some gate_plan,
     fr_risk_decision = None, fr_final_status = ''PLAN_READY''\<rparr>, rq_instrument = Some gate_instrument, rq_account = ''paper'',
     rq_as_of = Some 0, rq_setup = None, rq_owner = None, rq_policy = RISK_POLICY_V2_FX, rq_basis = None\<rparr>"

lemma demo_decision_numbers:
  "rd_quantity (fst gate_approval) = PFloat (as_float 200)" "rd_symbol (fst gate_approval) = ''EURUSD''" "rd_side (fst gate_approval) = LONG"
  "rd_entry (fst gate_approval) = PFloat 1" "rd_stop (fst gate_approval) = PFloat (1/2)" "rd_target (fst gate_approval) = PFloat 2"
proof -
  let ?g = "risk_gates RISK_POLICY_V2_FX (Some gate_plan) (Some gate_account) [] (Some gate_instrument) None"
  have q: "sz_quantity (fst (projr ?g)) = 200" by code_simp
  have "fst gate_approval = approve_decision RISK_POLICY_V2_FX gate_plan (fst (projr ?g))"
    using gate_gates unfolding gate_approval_def evaluate_def
    by (auto simp: dvals_def basis_in_force_def Let_def split: sum.splits prod.splits)
  then show "rd_quantity (fst gate_approval) = PFloat (as_float 200)" "rd_symbol (fst gate_approval) = ''EURUSD''" "rd_side (fst gate_approval) = LONG"
    "rd_entry (fst gate_approval) = PFloat 1" "rd_stop (fst gate_approval) = PFloat (1/2)" "rd_target (fst gate_approval) = PFloat 2"
    using q by (simp_all add: approve_decision_def gate_plan_def)
qed

lemma gate_any_setup:
  "\<exists>rec. evaluate RISK_POLICY_V2_FX (Some gate_plan) (Some gate_account) [] (Some gate_instrument) sid (Some 0) None None = (fst gate_approval, rec)"
  using gate_gates unfolding gate_approval_def evaluate_def
  by (auto simp: dvals_def basis_in_force_def Let_def split: sum.splits prod.splits)

lemma demo_prepared:
  obtains rcd br od where "prepare_reservation ''o'' (rq_report demo_request) (Some gate_instrument) (Some gate_account, [], []) (Some 0) sid
     RISK_POLICY_V2_FX st None = Prepared_Approved rcd br od"
proof -
  let ?rep = "rq_report demo_request"
  have r: "fr_trade_plan ?rep = Some gate_plan" "fr_run_id ?rep = ''run''" "fr_symbol ?rep = ''EURUSD''" "fr_final_status ?rep = ''PLAN_READY''"
    by (simp_all add: demo_request_def)
  let ?lb = "loaded_broker gate_account (Some gate_instrument) RISK_POLICY_V2_FX [] []"
  obtain dec where g: "fst gate_approval = dec" by fastforce
  obtain rec where e: "evaluate RISK_POLICY_V2_FX (Some gate_plan) (Some gate_account) [] (Some gate_instrument) sid (Some 0) None None = (dec, rec)"
    using gate_any_setup g by blast
  note n = demo_decision_numbers [unfolded g]
  have q: "0 < as_float 200" unfolding as_float_def by code_simp
  have "order_values_ok ?lb (?rep\<lparr>fr_risk_decision := Some dec\<rparr>) dec"
    using q by (simp add: order_values_ok_def n r loaded_broker_def new_broker_def gate_instrument_def gate_account_def demo_account_def)
  moreover have st: "rd_status dec = APPROVED" using gate_approved unfolding g .
  moreover have "submittable (?rep\<lparr>fr_risk_decision := Some dec\<rparr>) gate_plan dec"
    by (simp add: submittable_def st n r valid_side_def) (simp add: gate_plan_def)
  moreover have "order_of_run ''run'' ?lb = None" by (simp add: order_of_run_def loaded_broker_def new_broker_def dvals_def)
  ultimately obtain od br where sub: "submit_plan ''o'' (Some (?rep\<lparr>fr_risk_decision := Some dec\<rparr>)) (Some 0) ?lb = (Some od, br)"
    by (simp add: submit_plan_def r Let_def)
  show thesis
    by (rule that) (simp add: prepare_reservation_def r e st sub Let_def)
qed

text \<open>What that preparation holds can be saved.\<close>

lemma demo_prepared_broker:
  assumes "prepare_reservation ''o'' (rq_report demo_request) (Some gate_instrument) (Some gate_account, [], []) (Some 0) sid
     RISK_POLICY_V2_FX st None = Prepared_Approved rcd br od"
  shows "storable br" and "accounts_for br (Some gate_account, [], [])" and "a_id (br_account br) = ''paper''"
proof -
  have br: "br_account br = gate_account" "br_orders br = dput ''o'' od []" "br_fills br = []" "valid_side (o_side od)" "o_id od = ''o''"
    by (rule prepare_approved [OF assms]; simp add: dvals_def stamp_order_def order_of_decision_def)+
  show "storable br" using br by (simp add: storable_defs gate_account_def demo_account_def dvals_def)
  show "accounts_for br (Some gate_account, [], [])" using br by (simp add: accounts_for_def gate_account_def demo_account_def dvals_def)
  show "a_id (br_account br) = ''paper''" using br by (simp add: gate_account_def demo_account_def)
qed

lemma demo_world: "world_ok (\<lambda>_. ''o'') ''paper'' demo_store"
  using demo_store_ok demo_store_load
  by (simp add: world_ok_def paper_inv_def books_disjoint_def demo_store_def empty_store_def dvals_def)

lemma demo_reserved:
  obtains r s' where "reserve_and_submit (\<lambda>_. ''o'') (id, id) 9 demo_request demo_store = Inr (r, s')" "rr_status r = ''RESERVED''"
proof -
  let ?d = "(Some gate_account, [], [])"
  have ld: "load_paper ''paper'' demo_store = Inr ?d" using demo_store_load by (simp add: gate_account_def)
  obtain rcd br od where p: "prepare_reservation ''o'' (rq_report demo_request) (Some gate_instrument) ?d (Some 0) None RISK_POLICY_V2_FX False None
      = Prepared_Approved rcd br od" by (rule demo_prepared)
  note st = demo_prepared_broker(1) [OF p] and aid = demo_prepared_broker(3) [OF p] and acc = demo_prepared_broker(2) [OF p]
  obtain s' where s': "save_paper None (Some ''EURUSD'') (Some (paper_state ?d)) 9 br demo_store = Inr (True, s', br\<lparr>br_journal := []\<rparr>)"
    using save_view_cases [OF demo_store_ok st ld [folded aid] acc, of "paper_state ?d" "Some ''EURUSD''" 9] by auto
  have "reserve_decide (\<lambda>_. ''o'') demo_request gate_plan 1 demo_store
      = Inr (Inr (paper_state ?d, br, reservation_outcome ''RESERVED'' ''approved'' (Some od) (Some rcd) 1,
          reservation_outcome ''STALE'' ''STALE_PAPER_STATE'' None (Some rcd) 2))"
    using p ld by (simp add: reserve_decide_def demo_request_def dvals_def)
  moreover have "account_save ''paper'' 9 None (Some ''EURUSD'') (paper_state ?d) br demo_store = Inr (True, s')"
    using s' aid by (simp add: account_save_def register_save_Inr)
  moreover have "stamps_registered_semantics RISK_POLICY_V2_FX" by code_simp
  ultimately have "reserve_and_submit (\<lambda>_. ''o'') (id, id) 9 demo_request demo_store
      = Inr (reservation_outcome ''RESERVED'' ''approved'' (Some od) (Some rcd) 1, s')"
    by (simp add: reserve_and_submit_def demo_request_def gate_plan_def RISK_POLICY_V2_FX_def paper.retry.simps)
  then show thesis by (rule that) (simp add: reservation_outcome_def)
qed


end
