(* ===== verification/Scouts.thy ===== *)
theory Scouts
  imports Contracts "HOL-Library.Multiset"
begin

text \<open>
  The deterministic scouts \<open>agents/structure_agent.py\<close> and \<open>agents/liquidity_agent.py\<close>, with
  \<open>mask_hasta_as_of\<close> of \<open>core/timeframes.py\<close>. A data frame is its rows: a cell is \<open>Some\<close> of a finite float
  when \<open>to_numeric\<close> reads one, a frame without an \<open>is_closed\<close> column has every row closed. Reports are
  records with the fields of the dictionaries the code builds; prices are floats, so every
  arithmetic result passes through \<open>fl\<close>.
\<close>

section \<open>Frames\<close>

record raw_row =
  rw_time :: instant
  rw_open :: "rat option"
  rw_high :: "rat option"
  rw_low :: "rat option"
  rw_close :: "rat option"
  rw_closed :: bool

record raw_frame =
  rf_aware :: bool
  rf_complete :: bool
  rf_rows :: "raw_row list"

record candle =
  cd_time :: instant
  cd_open :: rat
  cd_high :: rat
  cd_low :: rat
  cd_close :: rat

text \<open>\<open>mask_hasta_as_of\<close>: an aware cut-off needs an aware index.\<close>

definition mask_hasta_as_of :: "bool \<Rightarrow> instant option \<Rightarrow> (instant \<Rightarrow> bool) option" where
  "mask_hasta_as_of aware as_of = (case as_of of None \<Rightarrow> None
     | Some t \<Rightarrow> if aware then Some (\<lambda>x. x \<le> t) else None)"

definition row_candle :: "raw_row \<Rightarrow> candle option" where
  "row_candle r = (case (rw_open r, rw_high r, rw_low r, rw_close r) of
     (Some o', Some h, Some l, Some c) \<Rightarrow> Some \<lparr>cd_time = rw_time r, cd_open = o', cd_high = h, cd_low = l, cd_close = c\<rparr>
   | _ \<Rightarrow> None)"

text \<open>The liquidity scout does not ask for an open.\<close>

definition row_candle_hlc :: "raw_row \<Rightarrow> candle option" where
  "row_candle_hlc r = (case (rw_high r, rw_low r, rw_close r) of
     (Some h, Some l, Some c) \<Rightarrow> Some \<lparr>cd_time = rw_time r, cd_open = 0, cd_high = h, cd_low = l, cd_close = c\<rparr>
   | _ \<Rightarrow> None)"

definition visible_rows :: "instant option \<Rightarrow> raw_frame \<Rightarrow> raw_row list option" where
  "visible_rows as_of f =
    (if rf_rows f = [] \<or> \<not> distinct (map rw_time (rf_rows f)) \<or> \<not> rf_complete f then None
     else let rows = sort_key rw_time (rf_rows f) in
       (case as_of of None \<Rightarrow> Some rows
        | Some _ \<Rightarrow> (case mask_hasta_as_of (rf_aware f) as_of of None \<Rightarrow> None
            | Some m \<Rightarrow> Some (filter (\<lambda>r. m (rw_time r)) rows))))"

definition closed_frame :: "(raw_row \<Rightarrow> candle option) \<Rightarrow> instant option \<Rightarrow> raw_frame option \<Rightarrow> candle list option" where
  "closed_frame cell as_of datos = (case datos of None \<Rightarrow> None
   | Some f \<Rightarrow> (case visible_rows as_of f of None \<Rightarrow> None
     | Some rows \<Rightarrow> (case List.map_filter cell (filter rw_closed rows) of [] \<Rightarrow> None | cs \<Rightarrow> Some cs)))"

section \<open>Structure\<close>

record swing =
  sw_confirmed :: instant
  sw_pivot :: instant
  sw_price :: rat

fun swing_highs :: "candle list \<Rightarrow> swing list" where
  "swing_highs (a # b # c # cs) =
    (if cd_high a < cd_high b \<and> cd_high c < cd_high b
     then \<lparr>sw_confirmed = cd_time c, sw_pivot = cd_time b, sw_price = cd_high b\<rparr> # swing_highs (b # c # cs)
     else swing_highs (b # c # cs))"
| "swing_highs _ = []"

fun swing_lows :: "candle list \<Rightarrow> swing list" where
  "swing_lows (a # b # c # cs) =
    (if cd_low b < cd_low a \<and> cd_low b < cd_low c
     then \<lparr>sw_confirmed = cd_time c, sw_pivot = cd_time b, sw_price = cd_low b\<rparr> # swing_lows (b # c # cs)
     else swing_lows (b # c # cs))"
| "swing_lows _ = []"

definition last_two :: "swing list \<Rightarrow> (swing \<times> swing) option" where
  "last_two xs = (case rev xs of y # x # _ \<Rightarrow> Some (x, y) | _ \<Rightarrow> None)"

datatype trend = BULLISH | BEARISH | NEUTRAL

definition classify_trend :: "swing list \<Rightarrow> swing list \<Rightarrow> trend" where
  "classify_trend highs lows =
    (let hh = map_option (\<lambda>(x, y). sw_price x < sw_price y) (last_two highs);
         hl = map_option (\<lambda>(x, y). sw_price x < sw_price y) (last_two lows)
     in if hh = Some True \<and> hl = Some True then BULLISH
        else if hh = Some False \<and> hl = Some False then BEARISH else NEUTRAL)"

record bos =
  bo_direction :: trend
  bo_level :: rat
  bo_swing :: instant
  bo_confirmation :: instant
  bo_break :: instant
  bo_close :: rat

definition break_of :: "trend \<Rightarrow> candle list \<Rightarrow> swing \<Rightarrow> bos option" where
  "break_of dir frame sw = map_option
     (\<lambda>c. \<lparr>bo_direction = dir, bo_level = sw_price sw, bo_swing = sw_pivot sw, bo_confirmation = sw_confirmed sw,
           bo_break = cd_time c, bo_close = cd_close c\<rparr>)
     (find (\<lambda>c. sw_confirmed sw < cd_time c \<and> (if dir = BULLISH then sw_price sw < cd_close c else cd_close c < sw_price sw)) frame)"

text \<open>\<open>max(candidates, key=...)\<close>: the first of the greatest.\<close>

fun first_max :: "('a \<Rightarrow> 'k :: linorder) \<Rightarrow> 'a list \<Rightarrow> 'a option" where
  "first_max k [] = None"
| "first_max k (x # xs) = (case first_max k xs of None \<Rightarrow> Some x | Some y \<Rightarrow> if k x < k y then Some y else Some x)"

definition break_of_structure :: "candle list \<Rightarrow> swing list \<Rightarrow> swing list \<Rightarrow> bos option" where
  "break_of_structure frame highs lows =
     first_max bo_break (List.map_filter (break_of BULLISH frame) (rev highs) @ List.map_filter (break_of BEARISH frame) (rev lows))"

text \<open>The swings that move on from the one before them.\<close>

fun moving_on :: "(rat \<Rightarrow> rat \<Rightarrow> bool) \<Rightarrow> swing list \<Rightarrow> swing list" where
  "moving_on rel (x # y # xs) = (if rel (sw_price x) (sw_price y) then y # moving_on rel (y # xs) else moving_on rel (y # xs))"
| "moving_on rel _ = []"

record retracement =
  rt_direction :: trend
  rt_impulse :: rat
  rt_protected :: rat
  rt_close :: rat
  rt_impulse_time :: instant
  rt_protected_time :: instant
  rt_current_time :: instant

definition retrace :: "trend \<Rightarrow> swing list \<Rightarrow> swing list \<Rightarrow> candle \<Rightarrow> retracement option" where
  "retrace dir impulses protecteds last_bar =
    (if impulses = [] \<or> protecteds = [] then None
     else let i = last impulses; p = last protecteds; c = cd_close last_bar in
       if (if dir = BULLISH then sw_price p < c \<and> c < sw_price i else sw_price i < c \<and> c < sw_price p)
       then Some \<lparr>rt_direction = dir, rt_impulse = sw_price i, rt_protected = sw_price p, rt_close = c,
                  rt_impulse_time = sw_confirmed i, rt_protected_time = sw_confirmed p, rt_current_time = cd_time last_bar\<rparr>
       else None)"

definition retracement_of :: "candle list \<Rightarrow> swing list \<Rightarrow> swing list \<Rightarrow> retracement option" where
  "retracement_of frame highs lows =
    (if length highs < 2 \<or> length lows < 2 then None
     else (case retrace BULLISH (moving_on (<) highs) (moving_on (<) lows) (last frame) of
         Some r \<Rightarrow> Some r
       | None \<Rightarrow> retrace BEARISH (moving_on (>) lows) (moving_on (>) highs) (last frame)))"

record displacement =
  dp_direction :: trend
  dp_ratio :: rat

definition displacement_of :: "candle \<Rightarrow> displacement option" where
  "displacement_of c =
    (let range = fl (cd_high c - cd_low c); body = \<bar>fl (cd_close c - cd_open c)\<bar> in
     if 0 < range \<and> fl (6 / 10) \<le> fl (body / range)
     then Some \<lparr>dp_direction = (if cd_open c < cd_close c then BULLISH else BEARISH), dp_ratio = fl (body / range)\<rparr>
     else None)"

definition min_price :: "swing list \<Rightarrow> rat option" where
  "min_price xs = (if xs = [] then None else Some (Min (set (map sw_price xs))))"

definition max_price :: "swing list \<Rightarrow> rat option" where
  "max_price xs = (if xs = [] then None else Some (Max (set (map sw_price xs))))"

record structure_report =
  sr_symbol :: string
  sr_timeframe :: string
  sr_state :: trend
  sr_highs :: "swing list"
  sr_lows :: "swing list"
  sr_support :: "rat option"
  sr_resistance :: "rat option"
  sr_displacement :: "displacement option"
  sr_retracement :: "retracement option"
  sr_bos :: "bos option"
  sr_last_bar :: instant
  sr_closed_bars :: nat

record 'r agent_message =
  am_run_id :: string
  am_timestamp :: "instant option"
  am_symbol :: string
  am_timeframe :: string
  am_status :: string
  am_report :: "'r option"
  am_closed_bars :: "nat option"
  am_warnings :: "string list"

definition structure_of :: "string \<Rightarrow> string \<Rightarrow> candle list \<Rightarrow> structure_report" where
  "structure_of symbol timeframe frame =
    (let highs = swing_highs frame; lows = swing_lows frame in
     \<lparr>sr_symbol = symbol, sr_timeframe = timeframe, sr_state = classify_trend highs lows, sr_highs = highs, sr_lows = lows,
      sr_support = min_price lows, sr_resistance = max_price highs, sr_displacement = displacement_of (last frame),
      sr_retracement = retracement_of frame highs lows, sr_bos = break_of_structure frame highs lows,
      sr_last_bar = cd_time (last frame), sr_closed_bars = length frame\<rparr>)"

text \<open>The shape both scouts share; \<open>now\<close> is the clock, read when no cut-off is given.\<close>

definition scout ::
  "(raw_row \<Rightarrow> candle option) \<Rightarrow> (string \<Rightarrow> string \<Rightarrow> candle list \<Rightarrow> 'r) \<Rightarrow> instant \<Rightarrow> raw_frame option \<Rightarrow> string \<Rightarrow> string \<Rightarrow> string \<Rightarrow>
   instant option \<Rightarrow> 'r agent_message" where
  "scout cell report now datos symbol timeframe run as_of =
    (let msg = (\<lambda>status r n warnings. \<lparr>am_run_id = run, am_timestamp = Some (case as_of of None \<Rightarrow> now | Some t \<Rightarrow> t), am_symbol = symbol,
           am_timeframe = timeframe, am_status = status, am_report = r, am_closed_bars = n, am_warnings = warnings\<rparr>) in
     if timeframe \<notin> set AUTHORIZED_TIMEFRAMES then msg ''ERROR'' None None [''unsupported_timeframe'']
     else (case closed_frame cell as_of datos of
         None \<Rightarrow> msg ''NO_DATA'' None (Some 0) []
       | Some frame \<Rightarrow>
           if length frame < 3 then msg ''PARTIAL'' None (Some (length frame)) [''insufficient_bars'']
           else msg ''OK'' (Some (report symbol timeframe frame)) (Some (length frame)) []))"

definition analizar_estructura ::
  "instant \<Rightarrow> raw_frame option \<Rightarrow> string \<Rightarrow> string \<Rightarrow> string \<Rightarrow> instant option \<Rightarrow> structure_report agent_message" where
  "analizar_estructura = scout row_candle structure_of"

section \<open>Liquidity\<close>

record equal_level =
  el_price :: rat
  el_times :: "instant \<times> instant"

fun equal_levels :: "(rat \<times> instant) list \<Rightarrow> equal_level list" where
  "equal_levels ((v, s) # (w, t) # xs) =
    (if \<bar>fl (w - v)\<bar> \<le> fl (\<bar>v\<bar> * fl (1 / 1000)) then \<lparr>el_price = w, el_times = (s, t)\<rparr> # equal_levels ((w, t) # xs)
     else equal_levels ((w, t) # xs))"
| "equal_levels _ = []"

definition pivots :: "swing list \<Rightarrow> (rat \<times> instant) list" where
  "pivots = map (\<lambda>s. (sw_price s, sw_pivot s))"

record sweep =
  sp_high :: bool
  sp_time :: instant
  sp_price :: rat

definition sweeps_of :: "candle list \<Rightarrow> sweep list" where
  "sweeps_of frame =
    (let previous = butlast frame; c = last frame;
         previous_high = Max (set (map cd_high previous)); previous_low = Min (set (map cd_low previous))
     in (if previous_high < cd_high c \<and> cd_close c < previous_high
         then [\<lparr>sp_high = True, sp_time = cd_time c, sp_price = cd_high c\<rparr>] else [])
        @ (if cd_low c < previous_low \<and> previous_low < cd_close c
           then [\<lparr>sp_high = False, sp_time = cd_time c, sp_price = cd_low c\<rparr>] else []))"

record liquidity_report =
  lr_symbol :: string
  lr_timeframe :: string
  lr_above :: "rat list"
  lr_below :: "rat list"
  lr_sweeps :: "sweep list"
  lr_equal_highs :: "equal_level list"
  lr_equal_lows :: "equal_level list"
  lr_last_bar :: instant
  lr_closed_bars :: nat

definition liquidity_of :: "string \<Rightarrow> string \<Rightarrow> candle list \<Rightarrow> liquidity_report" where
  "liquidity_of symbol timeframe frame =
    (let eh = equal_levels (pivots (swing_highs frame)); el = equal_levels (pivots (swing_lows frame)) in
     \<lparr>lr_symbol = symbol, lr_timeframe = timeframe, lr_above = map el_price eh, lr_below = map el_price el,
      lr_sweeps = sweeps_of frame, lr_equal_highs = eh, lr_equal_lows = el, lr_last_bar = cd_time (last frame),
      lr_closed_bars = length frame\<rparr>)"

definition analizar_liquidez ::
  "instant \<Rightarrow> raw_frame option \<Rightarrow> string \<Rightarrow> string \<Rightarrow> string \<Rightarrow> instant option \<Rightarrow> liquidity_report agent_message" where
  "analizar_liquidez = scout row_candle_hlc liquidity_of"

section \<open>All timeframes\<close>

text \<open>The status of a multi-timeframe message, and its reports in the authorised order.\<close>

definition multitimeframe ::
  "(raw_frame option \<Rightarrow> string \<Rightarrow> 'm) \<Rightarrow> (string, raw_frame option) dict option \<Rightarrow> string \<times> (string \<times> 'm) list" where
  "multitimeframe analyse datos = (case datos of None \<Rightarrow> (''NO_DATA'', [])
   | Some d \<Rightarrow>
     let reports = List.map_filter (\<lambda>tf. map_option (\<lambda>f. (tf, analyse f tf)) (dget d tf)) AUTHORIZED_TIMEFRAMES
     in (if length reports = length AUTHORIZED_TIMEFRAMES then ''OK'' else if reports \<noteq> [] then ''PARTIAL'' else ''NO_DATA'', reports))"

section \<open>Facts\<close>

lemma ex_nat_split: "(\<exists>i. P i) \<longleftrightarrow> P 0 \<or> (\<exists>i. P (Suc i))"
  by (metis not0_implies_Suc)

lemma swing_highs_iff:
  "s \<in> set (swing_highs cs) \<longleftrightarrow> (\<exists>i. Suc (Suc i) < length cs \<and> cd_high (cs ! i) < cd_high (cs ! Suc i)
     \<and> cd_high (cs ! Suc (Suc i)) < cd_high (cs ! Suc i)
     \<and> s = \<lparr>sw_confirmed = cd_time (cs ! Suc (Suc i)), sw_pivot = cd_time (cs ! Suc i), sw_price = cd_high (cs ! Suc i)\<rparr>)"
  (is "_ \<longleftrightarrow> (\<exists>i. ?P cs i)")
proof (induction cs rule: swing_highs.induct)
  case (1 a b c cs)
  have "(\<exists>i. ?P (a # b # c # cs) i) \<longleftrightarrow> ?P (a # b # c # cs) 0 \<or> (\<exists>i. ?P (b # c # cs) i)"
    by (subst ex_nat_split) simp
  then show ?case using 1 by auto
qed auto

lemma swing_lows_iff:
  "s \<in> set (swing_lows cs) \<longleftrightarrow> (\<exists>i. Suc (Suc i) < length cs \<and> cd_low (cs ! Suc i) < cd_low (cs ! i)
     \<and> cd_low (cs ! Suc i) < cd_low (cs ! Suc (Suc i))
     \<and> s = \<lparr>sw_confirmed = cd_time (cs ! Suc (Suc i)), sw_pivot = cd_time (cs ! Suc i), sw_price = cd_low (cs ! Suc i)\<rparr>)"
  (is "_ \<longleftrightarrow> (\<exists>i. ?P cs i)")
proof (induction cs rule: swing_lows.induct)
  case (1 a b c cs)
  have "(\<exists>i. ?P (a # b # c # cs) i) \<longleftrightarrow> ?P (a # b # c # cs) 0 \<or> (\<exists>i. ?P (b # c # cs) i)"
    by (subst ex_nat_split) simp
  then show ?case using 1 by auto
qed auto

lemma first_max_None [simp]: "first_max k xs = None \<longleftrightarrow> xs = []"
  by (induction xs) (auto split: option.splits)

lemma first_max_Some: "first_max k xs = Some x \<Longrightarrow> x \<in> set xs \<and> (\<forall>y \<in> set xs. k y \<le> k x)"
proof (induction xs arbitrary: x)
  case (Cons a xs)
  show ?case
  proof (cases "first_max k xs")
    case None
    then show ?thesis using Cons.prems by simp
  next
    case (Some y)
    then show ?thesis using Cons.IH [of y] Cons.prems by (auto split: if_splits)
  qed
qed simp

lemma set_map_filter: "y \<in> set (List.map_filter f xs) \<longleftrightarrow> (\<exists>x \<in> set xs. f x = Some y)"
  by (force simp: List.map_filter_def)

text \<open>A swing is broken at a bar that closes beyond it after its confirmation; its break is the first such bar.\<close>

definition breaks :: "trend \<Rightarrow> swing \<Rightarrow> candle \<Rightarrow> bool" where
  "breaks dir sw c \<longleftrightarrow> sw_confirmed sw < cd_time c \<and> (if dir = BULLISH then sw_price sw < cd_close c else cd_close c < sw_price sw)"

lemma break_of_Some:
  "break_of dir frame sw = Some b \<longleftrightarrow> (\<exists>c. find (breaks dir sw) frame = Some c
     \<and> b = \<lparr>bo_direction = dir, bo_level = sw_price sw, bo_swing = sw_pivot sw, bo_confirmation = sw_confirmed sw,
            bo_break = cd_time c, bo_close = cd_close c\<rparr>)"
  by (auto simp: break_of_def breaks_def [abs_def])

lemma break_of_None: "break_of dir frame sw = None \<longleftrightarrow> (\<forall>c \<in> set frame. \<not> breaks dir sw c)"
  by (simp add: break_of_def breaks_def [abs_def] find_None_all)

lemma bos_Some:
  assumes "break_of_structure frame highs lows = Some b"
  shows "(\<exists>sw \<in> set highs. break_of BULLISH frame sw = Some b) \<or> (\<exists>sw \<in> set lows. break_of BEARISH frame sw = Some b)"
    and "sw \<in> set highs \<Longrightarrow> break_of BULLISH frame sw = Some b' \<Longrightarrow> bo_break b' \<le> bo_break b"
    and "sw \<in> set lows \<Longrightarrow> break_of BEARISH frame sw = Some b' \<Longrightarrow> bo_break b' \<le> bo_break b"
proof -
  note m = first_max_Some [OF assms [unfolded break_of_structure_def], unfolded set_append ball_Un Un_iff set_map_filter set_rev]
  show "(\<exists>sw \<in> set highs. break_of BULLISH frame sw = Some b) \<or> (\<exists>sw \<in> set lows. break_of BEARISH frame sw = Some b)"
    using m by blast
  show "sw \<in> set highs \<Longrightarrow> break_of BULLISH frame sw = Some b' \<Longrightarrow> bo_break b' \<le> bo_break b"
    using m set_map_filter [of b' "break_of BULLISH frame" "rev highs"] by auto
  show "sw \<in> set lows \<Longrightarrow> break_of BEARISH frame sw = Some b' \<Longrightarrow> bo_break b' \<le> bo_break b"
    using m set_map_filter [of b' "break_of BEARISH frame" "rev lows"] by auto
qed

lemma bos_None:
  "break_of_structure frame highs lows = None \<longleftrightarrow> (\<forall>sw \<in> set highs. break_of BULLISH frame sw = None)
     \<and> (\<forall>sw \<in> set lows. break_of BEARISH frame sw = None)"
  unfolding break_of_structure_def first_max_None append_is_Nil_conv
  by (auto simp: List.map_filter_def filter_empty_conv)

lemma visible_same:
  assumes "distinct (map rw_time xs)" and "distinct (map rw_time ys)" and "set (filter P xs) = set (filter P ys)"
  shows "filter P (sort_key rw_time xs) = filter P (sort_key rw_time ys)"
proof -
  have d: "distinct (map rw_time (filter P xs))" "distinct (map rw_time (filter P ys))" using assms(1,2) by (simp_all add: distinct_map_filter)
  then have "distinct (filter P xs)" "distinct (filter P ys)" by (simp_all add: distinct_map)
  then have "mset (filter P xs) = mset (filter P ys)" using assms(3) set_eq_iff_mset_eq_distinct by blast
  moreover have "inj_on rw_time (set (filter P xs))" using d(1) by (simp add: distinct_map)
  ultimately have "sort_key rw_time (filter P xs) = sort_key rw_time (filter P ys)"
    by (intro sort_key_inj_key_eq) auto
  then show ?thesis by (simp add: filter_sort)
qed

text \<open>The rows a report may use: closed, at or before the cut-off.\<close>

definition usable :: "instant \<Rightarrow> raw_row \<Rightarrow> bool" where
  "usable t r \<longleftrightarrow> rw_time r \<le> t \<and> rw_closed r"

definition frame_ok :: "raw_frame \<Rightarrow> bool" where
  "frame_ok f \<longleftrightarrow> rf_rows f \<noteq> [] \<and> distinct (map rw_time (rf_rows f)) \<and> rf_complete f \<and> rf_aware f"

lemma closed_frame_ok:
  "frame_ok f \<Longrightarrow> closed_frame cell (Some t) (Some f)
     = (case List.map_filter cell (filter (usable t) (sort_key rw_time (rf_rows f))) of [] \<Rightarrow> None | cs \<Rightarrow> Some cs)"
  by (simp add: closed_frame_def visible_rows_def mask_hasta_as_of_def frame_ok_def usable_def [abs_def] conj_commute)

lemma closed_frame_same:
  assumes "frame_ok f" and "frame_ok g" and "set (filter (usable t) (rf_rows f)) = set (filter (usable t) (rf_rows g))"
  shows "closed_frame cell (Some t) (Some f) = closed_frame cell (Some t) (Some g)"
  unfolding closed_frame_ok [OF assms(1)] closed_frame_ok [OF assms(2)]
  using visible_same [OF _ _ assms(3)] assms(1,2) by (simp add: frame_ok_def)

section \<open>Properties\<close>

text \<open>
  C19. The scouts do not look ahead. Two frames that agree on the closed bars at or before the cut-off give the
  same structure report and the same liquidity report, whatever unfinished or later bars they also
  hold and in whatever order their rows come.
\<close>

theorem scouts_do_not_look_ahead:
  assumes "frame_ok f" and "frame_ok g" and "set (filter (usable t) (rf_rows f)) = set (filter (usable t) (rf_rows g))"
  shows "analizar_estructura now (Some f) symbol tf run (Some t) = analizar_estructura now (Some g) symbol tf run (Some t)
    \<and> analizar_liquidez now (Some f) symbol tf run (Some t) = analizar_liquidez now (Some g) symbol tf run (Some t)"
  unfolding analizar_estructura_def analizar_liquidez_def scout_def closed_frame_same [OF assms] by simp

definition demo_row :: "instant \<Rightarrow> bool \<Rightarrow> rat \<Rightarrow> raw_row" where
  "demo_row t c x = \<lparr>rw_time = t, rw_open = Some x, rw_high = Some (x + 1), rw_low = Some (x - 1), rw_close = Some x, rw_closed = c\<rparr>"

definition demo_frame :: "raw_row list \<Rightarrow> raw_frame" where
  "demo_frame rows = \<lparr>rf_aware = True, rf_complete = True, rf_rows = rows\<rparr>"

lemma scouts_do_not_look_ahead_witness:
  "analizar_estructura 0 (Some (demo_frame [demo_row 1 True 5, demo_row 2 True 7, demo_row 3 True 6, demo_row 4 True 99])) ''EURUSD'' ''5m'' ''run'' (Some 3)
   = analizar_estructura 0 (Some (demo_frame [demo_row 3 True 6, demo_row 1 True 5, demo_row 2 True 7, demo_row 0 False 1])) ''EURUSD'' ''5m'' ''run'' (Some 3)"
  by (rule scouts_do_not_look_ahead [THEN conjunct1]) (auto simp: frame_ok_def demo_frame_def demo_row_def usable_def)

text \<open>
  C20. What a structure report says of its closed bars. Its swing highs are exactly the bars strictly higher than both
  neighbours, each confirmed by the next bar, and its lows likewise; support is the least confirmed swing
  low; a \<open>BULLISH\<close> state means the last two highs and the last two lows both rise (\<open>BEARISH\<close>: neither
  does); and its break of structure is a close beyond a confirmed swing, the first one for that swing, with no
  swing broken later; there is none exactly when no bar closes beyond any swing after its confirmation.
\<close>

theorem structure_report_is_sound:
  assumes "r = structure_of symbol tf cs"
  shows "(\<forall>s. s \<in> set (sr_highs r) \<longleftrightarrow> (\<exists>i. Suc (Suc i) < length cs \<and> cd_high (cs ! i) < cd_high (cs ! Suc i)
      \<and> cd_high (cs ! Suc (Suc i)) < cd_high (cs ! Suc i)
      \<and> s = \<lparr>sw_confirmed = cd_time (cs ! Suc (Suc i)), sw_pivot = cd_time (cs ! Suc i), sw_price = cd_high (cs ! Suc i)\<rparr>))
    \<and> (\<forall>s. s \<in> set (sr_lows r) \<longleftrightarrow> (\<exists>i. Suc (Suc i) < length cs \<and> cd_low (cs ! Suc i) < cd_low (cs ! i)
      \<and> cd_low (cs ! Suc i) < cd_low (cs ! Suc (Suc i))
      \<and> s = \<lparr>sw_confirmed = cd_time (cs ! Suc (Suc i)), sw_pivot = cd_time (cs ! Suc i), sw_price = cd_low (cs ! Suc i)\<rparr>))
    \<and> (case sr_support r of None \<Rightarrow> sr_lows r = [] | Some p \<Rightarrow> (\<exists>s \<in> set (sr_lows r). sw_price s = p) \<and> (\<forall>s \<in> set (sr_lows r). p \<le> sw_price s))
    \<and> (sr_state r = BULLISH \<longrightarrow> (\<exists>h h' l l'. last_two (sr_highs r) = Some (h, h') \<and> sw_price h < sw_price h'
         \<and> last_two (sr_lows r) = Some (l, l') \<and> sw_price l < sw_price l'))
    \<and> (sr_state r = BEARISH \<longrightarrow> (\<exists>h h' l l'. last_two (sr_highs r) = Some (h, h') \<and> sw_price h' \<le> sw_price h
         \<and> last_two (sr_lows r) = Some (l, l') \<and> sw_price l' \<le> sw_price l))
    \<and> (case sr_bos r of
         None \<Rightarrow> (\<forall>c \<in> set cs. (\<forall>s \<in> set (sr_highs r). \<not> breaks BULLISH s c) \<and> (\<forall>s \<in> set (sr_lows r). \<not> breaks BEARISH s c))
       | Some b \<Rightarrow> (\<exists>s dir c. (dir = BULLISH \<and> s \<in> set (sr_highs r) \<or> dir = BEARISH \<and> s \<in> set (sr_lows r))
           \<and> find (breaks dir s) cs = Some c \<and> bo_break b = cd_time c \<and> bo_level b = sw_price s \<and> bo_direction b = dir)
         \<and> (\<forall>s c. s \<in> set (sr_highs r) \<and> find (breaks BULLISH s) cs = Some c \<longrightarrow> cd_time c \<le> bo_break b)
         \<and> (\<forall>s c. s \<in> set (sr_lows r) \<and> find (breaks BEARISH s) cs = Some c \<longrightarrow> cd_time c \<le> bo_break b))"
proof -
  let ?h = "swing_highs cs" and ?l = "swing_lows cs"
  have r: "sr_highs r = ?h" "sr_lows r = ?l" "sr_support r = min_price ?l" "sr_state r = classify_trend ?h ?l"
    "sr_bos r = break_of_structure cs ?h ?l"
    by (simp_all add: assms structure_of_def Let_def)
  have sup: "case min_price ?l of None \<Rightarrow> ?l = [] | Some p \<Rightarrow> (\<exists>s \<in> set ?l. sw_price s = p) \<and> (\<forall>s \<in> set ?l. p \<le> sw_price s)"
  proof (cases "?l = []")
    case False
    then have "Min (sw_price ` set ?l) \<in> sw_price ` set ?l" by (intro Min_in) auto
    then obtain s where s: "s \<in> set ?l" "Min (sw_price ` set ?l) = sw_price s" by (rule imageE) auto
    then have "\<exists>s \<in> set ?l. sw_price s = Min (sw_price ` set ?l)" by auto
    moreover have "\<forall>s \<in> set ?l. Min (sw_price ` set ?l) \<le> sw_price s" by auto
    ultimately show ?thesis using False by (simp add: min_price_def)
  qed (simp add: min_price_def)
  have bull: "\<exists>h h' l l'. last_two ?h = Some (h, h') \<and> sw_price h < sw_price h' \<and> last_two ?l = Some (l, l') \<and> sw_price l < sw_price l'"
    if "classify_trend ?h ?l = BULLISH" using that by (auto simp: classify_trend_def Let_def split: if_splits)
  have bear: "\<exists>h h' l l'. last_two ?h = Some (h, h') \<and> sw_price h' \<le> sw_price h \<and> last_two ?l = Some (l, l') \<and> sw_price l' \<le> sw_price l"
    if "classify_trend ?h ?l = BEARISH" using that by (auto simp: classify_trend_def Let_def not_less split: if_splits)
  have brk: "break_of dir cs s = Some \<lparr>bo_direction = dir, bo_level = sw_price s, bo_swing = sw_pivot s, bo_confirmation = sw_confirmed s,
      bo_break = cd_time c, bo_close = cd_close c\<rparr>" if "find (breaks dir s) cs = Some c" for dir s c
    using that by (simp add: break_of_Some)
  have "case break_of_structure cs ?h ?l of
         None \<Rightarrow> (\<forall>c \<in> set cs. (\<forall>s \<in> set ?h. \<not> breaks BULLISH s c) \<and> (\<forall>s \<in> set ?l. \<not> breaks BEARISH s c))
       | Some b \<Rightarrow> (\<exists>s dir c. (dir = BULLISH \<and> s \<in> set ?h \<or> dir = BEARISH \<and> s \<in> set ?l)
           \<and> find (breaks dir s) cs = Some c \<and> bo_break b = cd_time c \<and> bo_level b = sw_price s \<and> bo_direction b = dir)
         \<and> (\<forall>s c. s \<in> set ?h \<and> find (breaks BULLISH s) cs = Some c \<longrightarrow> cd_time c \<le> bo_break b)
         \<and> (\<forall>s c. s \<in> set ?l \<and> find (breaks BEARISH s) cs = Some c \<longrightarrow> cd_time c \<le> bo_break b)"
  proof (cases "break_of_structure cs ?h ?l")
    case None
    then show ?thesis using None by (subst None) (auto simp: bos_None break_of_None)
  next
    case (Some b)
    note m = bos_Some [OF Some]
    have "(\<exists>s dir c. (dir = BULLISH \<and> s \<in> set ?h \<or> dir = BEARISH \<and> s \<in> set ?l)
        \<and> find (breaks dir s) cs = Some c \<and> bo_break b = cd_time c \<and> bo_level b = sw_price s \<and> bo_direction b = dir)"
      using m(1) unfolding break_of_Some by (elim disjE bexE exE conjE) (simp, blast)+
    moreover have "cd_time c \<le> bo_break b" if "s \<in> set ?h \<and> find (breaks BULLISH s) cs = Some c" for s c
      using m(2) [OF _ brk] that by force
    moreover have "cd_time c \<le> bo_break b" if "s \<in> set ?l \<and> find (breaks BEARISH s) cs = Some c" for s c
      using m(3) [OF _ brk] that by force
    ultimately show ?thesis using Some by simp
  qed
  then show ?thesis unfolding r using sup bull bear swing_highs_iff swing_lows_iff by simp
qed

lemma structure_report_is_sound_witness:
  "case sr_support (structure_of ''EURUSD'' ''5m'' [\<lparr>cd_time = 1, cd_open = 2, cd_high = 3, cd_low = 2, cd_close = 2\<rparr>,
       \<lparr>cd_time = 2, cd_open = 2, cd_high = 3, cd_low = 1, cd_close = 2\<rparr>, \<lparr>cd_time = 3, cd_open = 2, cd_high = 3, cd_low = 2, cd_close = 2\<rparr>]) of
     None \<Rightarrow> False | Some p \<Rightarrow> p = 1"
  using structure_report_is_sound [OF refl, of "''EURUSD''" "''5m''" "[\<lparr>cd_time = 1, cd_open = 2, cd_high = 3, cd_low = 2, cd_close = 2\<rparr>,
       \<lparr>cd_time = 2, cd_open = 2, cd_high = 3, cd_low = 1, cd_close = 2\<rparr>, \<lparr>cd_time = 3, cd_open = 2, cd_high = 3, cd_low = 2, cd_close = 2\<rparr>]"]
  by (simp add: structure_of_def min_price_def Let_def)

end
