(* ===== verification/SetupValidator.thy ===== *)
theory SetupValidator
  imports Scouts PyJson
begin

text \<open>
  \<open>agents/setup_validator.py\<close>: the frozen V1 decision (a cascade of checks that stops at the first
  one that does not pass), and the V2 explanation built from the check it stopped at. A report
  dictionary is keyed by timeframe; the payload of a message is the report in \<open>evidence[0]\<close>. The
  explanation is a record; \<open>uuid5(json.dumps(identity))\<close> is an argument on the identity tree.
  Bar times in a report are aware: the floor always passes an aware cut-off, and a scout given one
  reads no naive index. A naive time is \<open>None\<close>; with a naive cut-off no report passes the lineage check.
\<close>

section \<open>Data\<close>

record macro_item =
  mi_event_id :: "string option"
  mi_impact :: "string option"
  mi_window :: "string option"

type_synonym macro_message = "macro_item list agent_message"

datatype setup_status = NO_SETUP | WATCH | VALID_SETUP

datatype check_group = PASSED | FAILED | MISSING | NOT_APPLICABLE | NOT_EVALUATED

record evidence_ref =
  er_source :: string
  er_symbol :: string
  er_timeframe :: "string option"
  er_status :: "string option"
  er_state :: string
  er_reason :: "string option"
  er_bar_start :: "instant option"
  er_event_ids :: "string list"

record check_details =
  dt_active_window :: "string option list option"
  dt_alignment :: "(trend option \<times> trend option \<times> trend option) option"
  dt_structure :: "(bool \<times> bool) option"
  dt_liquidity :: "(nat \<times> nat \<times> nat) option"
  dt_invalidation :: "(rat option \<times> string) option"

record explanation =
  ex_status :: setup_status
  ex_side :: "side option"
  ex_reason :: string
  ex_groups :: "check_group \<Rightarrow> string list"
  ex_details :: check_details
  ex_refs :: "evidence_ref list"
  ex_setup_id :: "string option"
  ex_identity :: "json option"

record setup_assessment =
  sa_run_id :: string
  sa_timestamp :: "instant option"
  sa_symbol :: string
  sa_status :: setup_status
  sa_side :: "side option"
  sa_timeframes :: "string list"
  sa_evidence :: "((string, structure_report) dict \<times> (string, liquidity_report) dict) option"
  sa_invalidation :: "rat option"
  sa_warnings :: "string list"
  sa_explanation :: "explanation option"

text \<open>What the validator is called with.\<close>

record setup_inputs =
  in_structure :: "(string, structure_report agent_message) dict"
  in_liquidity :: "(string, liquidity_report agent_message) dict"
  in_macro :: "macro_message option"
  in_symbol :: string
  in_run :: string
  in_as_of :: "instant option"

section \<open>The checks\<close>

definition KNOWN_STATUSES :: "string list" where
  "KNOWN_STATUSES = [''OK'', ''PARTIAL'', ''NO_DATA'', ''ERROR'']"

definition not_after :: "instant option \<Rightarrow> instant option \<Rightarrow> bool" where
  "not_after t cutoff = (case (t, cutoff) of (Some a, Some b) \<Rightarrow> a \<le> b | _ \<Rightarrow> False)"

definition report_valid :: "'r agent_message option \<Rightarrow> string \<Rightarrow> string \<Rightarrow> string \<Rightarrow> instant option \<Rightarrow> bool" where
  "report_valid message run symbol timeframe as_of = (case message of None \<Rightarrow> False | Some m \<Rightarrow>
     am_run_id m = run \<and> am_symbol m = symbol \<and> am_timeframe m = timeframe
     \<and> am_status m \<in> set KNOWN_STATUSES \<and> not_after (am_timestamp m) as_of)"

definition scouts_traced :: "setup_inputs \<Rightarrow> bool" where
  "scouts_traced x \<longleftrightarrow> list_all (\<lambda>tf. report_valid (dget (in_structure x) tf) (in_run x) (in_symbol x) tf (in_as_of x)
     \<and> report_valid (dget (in_liquidity x) tf) (in_run x) (in_symbol x) tf (in_as_of x)) AUTHORIZED_TIMEFRAMES"

definition macro_traced :: "string \<Rightarrow> string \<Rightarrow> macro_message \<Rightarrow> bool" where
  "macro_traced run symbol m \<longleftrightarrow> am_run_id m = run \<and> am_symbol m = symbol \<and> am_status m \<in> set KNOWN_STATUSES"

definition unavailable :: "'r agent_message \<Rightarrow> bool" where
  "unavailable m \<longleftrightarrow> am_status m = ''ERROR'' \<or> am_status m = ''NO_DATA''"

definition scouts_available :: "setup_inputs \<Rightarrow> bool" where
  "scouts_available x \<longleftrightarrow> \<not> list_ex unavailable (dvals (in_structure x)) \<and> \<not> list_ex unavailable (dvals (in_liquidity x))"

definition macro_items :: "macro_message \<Rightarrow> macro_item list" where
  "macro_items m = (case am_report m of None \<Rightarrow> [] | Some items \<Rightarrow> items)"

definition in_active_window :: "macro_item \<Rightarrow> bool" where
  "in_active_window i \<longleftrightarrow> mi_impact i = Some ''HIGH'' \<and> mi_window i = Some ''ACTIVE_WINDOW''"

definition payload :: "('k, 'r agent_message) dict \<Rightarrow> 'k \<Rightarrow> 'r option" where
  "payload d k = Option.bind (dget d k) am_report"

definition all_payloads :: "setup_inputs \<Rightarrow> bool" where
  "all_payloads x \<longleftrightarrow> list_all (\<lambda>tf. payload (in_structure x) tf \<noteq> None) AUTHORIZED_TIMEFRAMES
     \<and> list_all (\<lambda>tf. payload (in_liquidity x) tf \<noteq> None) AUTHORIZED_TIMEFRAMES"

definition trend_of :: "setup_inputs \<Rightarrow> string \<Rightarrow> trend option" where
  "trend_of x tf = map_option sr_state (payload (in_structure x) tf)"

definition aligned_side :: "setup_inputs \<Rightarrow> side option" where
  "aligned_side x =
    (let aligned = (\<lambda>t. trend_of x ''1h'' = Some t \<and> trend_of x ''15m'' = Some t \<and> trend_of x ''5m'' = Some t)
     in if aligned BULLISH then Some LONG else if aligned BEARISH then Some SHORT else None)"

definition structure_confirmed :: "setup_inputs \<Rightarrow> bool" where
  "structure_confirmed x \<longleftrightarrow> (case payload (in_structure x) ''15m'' of None \<Rightarrow> False
     | Some r \<Rightarrow> sr_bos r \<noteq> None \<or> sr_retracement r \<noteq> None)"

definition liquidity_confirmed :: "setup_inputs \<Rightarrow> bool" where
  "liquidity_confirmed x \<longleftrightarrow> (case payload (in_liquidity x) ''5m'' of None \<Rightarrow> False
     | Some r \<Rightarrow> lr_sweeps r \<noteq> [] \<or> lr_above r \<noteq> [] \<or> lr_below r \<noteq> [])"

definition invalidation_of :: "setup_inputs \<Rightarrow> rat option" where
  "invalidation_of x = Option.bind (payload (in_structure x) ''15m'')
     (if aligned_side x = Some LONG then sr_support else sr_resistance)"

section \<open>\<open>_evaluar_setup_v1\<close>\<close>

definition stopped :: "setup_inputs \<Rightarrow> setup_status \<Rightarrow> side option \<Rightarrow> string \<Rightarrow> setup_assessment" where
  "stopped x status side reason = \<lparr>sa_run_id = in_run x, sa_timestamp = in_as_of x, sa_symbol = in_symbol x, sa_status = status,
     sa_side = side, sa_timeframes = AUTHORIZED_TIMEFRAMES, sa_evidence = None, sa_invalidation = None, sa_warnings = [reason],
     sa_explanation = None\<rparr>"

definition payloads :: "(string, 'r agent_message) dict \<Rightarrow> (string, 'r) dict" where
  "payloads d = List.map_filter (\<lambda>tf. map_option (Pair tf) (payload d tf)) AUTHORIZED_TIMEFRAMES"

definition macro_stops :: "setup_inputs \<Rightarrow> (macro_message \<Rightarrow> bool) \<Rightarrow> bool" where
  "macro_stops x bad = (case in_macro x of None \<Rightarrow> False | Some m \<Rightarrow> bad m)"

definition evaluar_setup_v1 :: "setup_inputs \<Rightarrow> setup_assessment" where
  "evaluar_setup_v1 x =
    (if length (in_structure x) < 3 \<or> length (in_liquidity x) < 3 then stopped x NO_SETUP None ''missing_timeframe''
     else if \<not> scouts_traced x then stopped x NO_SETUP None ''scout_lineage_invalid''
     else if macro_stops x (\<lambda>m. \<not> macro_traced (in_run x) (in_symbol x) m) then stopped x NO_SETUP None ''macro_lineage_invalid''
     else if macro_stops x (\<lambda>m. am_timestamp m \<noteq> None \<and> in_as_of x \<noteq> None \<and> \<not> not_after (am_timestamp m) (in_as_of x))
       then stopped x NO_SETUP None ''macro_future_timestamp''
     else if macro_stops x (\<lambda>m. am_timestamp m = None \<or> in_as_of x = None)
       then stopped x NO_SETUP None ''macro_timestamp_invalid''
     else if \<not> scouts_available x then stopped x NO_SETUP None ''scout_unavailable''
     else if macro_stops x (\<lambda>m. am_status m = ''ERROR'') then stopped x NO_SETUP None ''macro_error''
     else if macro_stops x (\<lambda>m. list_ex in_active_window (macro_items m)) then stopped x WATCH None ''high_impact_active_window''
     else if \<not> all_payloads x then stopped x NO_SETUP None ''missing_evidence''
     else if aligned_side x = None then stopped x WATCH None ''timeframe_incompatibility''
     else if \<not> structure_confirmed x then stopped x WATCH (aligned_side x) ''structure_confirmation_missing''
     else if \<not> liquidity_confirmed x then stopped x WATCH (aligned_side x) ''liquidity_confirmation_missing''
     else if invalidation_of x = None then stopped x NO_SETUP None ''invalidation_missing''
     else \<lparr>sa_run_id = in_run x, sa_timestamp = in_as_of x, sa_symbol = in_symbol x, sa_status = VALID_SETUP,
           sa_side = aligned_side x, sa_timeframes = AUTHORIZED_TIMEFRAMES,
           sa_evidence = Some (payloads (in_structure x), payloads (in_liquidity x)),
           sa_invalidation = invalidation_of x, sa_warnings = [], sa_explanation = None\<rparr>)"

section \<open>Identity\<close>

definition CHECKS :: "string list" where
  "CHECKS = [''timeframes_present'', ''scout_lineage'', ''macro_lineage'', ''macro_timestamp'', ''scouts_available'',
    ''macro_available'', ''no_high_impact_active_window'', ''scout_evidence_present'', ''timeframe_alignment'',
    ''structure_confirmation'', ''liquidity_confirmation'', ''invalidation_level'']"

definition MACRO_CHECKS :: "string list" where
  "MACRO_CHECKS = [''macro_lineage'', ''macro_timestamp'', ''macro_available'', ''no_high_impact_active_window'']"

definition DECIDING_CHECK :: "(string, string \<times> check_group) dict" where
  "DECIDING_CHECK =
    [(''missing_timeframe'', ''timeframes_present'', MISSING), (''scout_lineage_invalid'', ''scout_lineage'', FAILED),
     (''macro_lineage_invalid'', ''macro_lineage'', FAILED), (''macro_future_timestamp'', ''macro_timestamp'', FAILED),
     (''macro_timestamp_invalid'', ''macro_timestamp'', FAILED), (''scout_unavailable'', ''scouts_available'', MISSING),
     (''macro_error'', ''macro_available'', MISSING), (''high_impact_active_window'', ''no_high_impact_active_window'', FAILED),
     (''missing_evidence'', ''scout_evidence_present'', MISSING), (''timeframe_incompatibility'', ''timeframe_alignment'', FAILED),
     (''structure_confirmation_missing'', ''structure_confirmation'', FAILED),
     (''liquidity_confirmation_missing'', ''liquidity_confirmation'', FAILED), (''invalidation_missing'', ''invalidation_level'', MISSING)]"

fun trend_name :: "trend \<Rightarrow> string" where
  "trend_name BULLISH = ''bullish''"
| "trend_name BEARISH = ''bearish''"
| "trend_name NEUTRAL = ''neutral''"

definition anchor_of :: "structure_report option \<Rightarrow> json" where
  "anchor_of r = (case Option.bind r sr_bos of
     Some b \<Rightarrow> JObj [(''kind'', JStr ''BOS''), (''timestamp'', JTime (bo_break b)), (''level'', JNum (bo_level b)),
       (''direction'', JStr (trend_name (bo_direction b)))]
   | None \<Rightarrow> (case Option.bind r sr_retracement of
       Some t \<Rightarrow> JObj [(''kind'', JStr ''RETRACEMENT''), (''impulse'', JTime (rt_impulse_time t)), (''protected'', JTime (rt_protected_time t)),
         (''impulse_price'', JNum (rt_impulse t)), (''protected_price'', JNum (rt_protected t))]
     | None \<Rightarrow> JObj [(''kind'', JStr ''RETRACEMENT''), (''impulse'', JStr ''None''), (''protected'', JStr ''None''),
         (''impulse_price'', JNull), (''protected_price'', JNull)]))"

definition setup_identity :: "(json \<Rightarrow> string) \<Rightarrow> setup_assessment \<Rightarrow> (string \<times> json) option" where
  "setup_identity ident a =
    (if sa_status a \<noteq> VALID_SETUP then None
     else let signal = (case sa_evidence a of None \<Rightarrow> None | Some (s, _) \<Rightarrow> dget s ''15m'');
              tree = JObj [(''symbol'', JStr (sa_symbol a)),
                (''side'', (case sa_side a of None \<Rightarrow> JNull | Some s \<Rightarrow> JStr (side_name s))),
                (''invalidation'', (case sa_invalidation a of None \<Rightarrow> JNull | Some v \<Rightarrow> JNum v)), (''anchor'', anchor_of signal)]
          in Some (ident tree, tree))"

section \<open>Evidence references and details\<close>

definition BAR_LENGTH :: "(string, int) dict" where
  "BAR_LENGTH = [(''1h'', HOUR), (''15m'', 15 * MINUTE), (''5m'', 5 * MINUTE)]"

definition bar_ref ::
  "('r \<Rightarrow> instant) \<Rightarrow> 'r agent_message option \<Rightarrow> string \<Rightarrow> string \<Rightarrow> setup_assessment \<Rightarrow> evidence_ref" where
  "bar_ref last_bar message source timeframe a =
    (let ref = (\<lambda>state reason start. \<lparr>er_source = source, er_symbol = sa_symbol a, er_timeframe = Some timeframe,
           er_status = map_option am_status message, er_state = state, er_reason = reason, er_bar_start = start, er_event_ids = []\<rparr>)
     in case message of None \<Rightarrow> ref ''UNAVAILABLE'' (Some ''report_missing'') None
      | Some m \<Rightarrow>
        if \<not> report_valid message (sa_run_id a) (sa_symbol a) timeframe (sa_timestamp a)
        then ref ''INVALID'' (Some ''lineage_invalid'') None
        else (case am_report m of None \<Rightarrow> ref ''UNAVAILABLE'' (Some ''bar_missing'') None
          | Some r \<Rightarrow> (case sa_timestamp a of None \<Rightarrow> ref ''INVALID'' (Some ''bar_timestamp_invalid'') None
            | Some as_of \<Rightarrow>
              let start = last_bar r; duration = the (dget BAR_LENGTH timeframe) in
              if start mod duration \<noteq> 0 then ref ''INVALID'' (Some ''bar_misaligned_for_timeframe'') None
              else if as_of < start + duration then ref ''INVALID'' (Some ''bar_not_closed_by_as_of'') None
              else ref ''VALID'' None (Some start))))"

definition macro_ref :: "macro_message \<Rightarrow> setup_assessment \<Rightarrow> evidence_ref" where
  "macro_ref m a =
    (let ref = (\<lambda>state reason ids. \<lparr>er_source = ''macro'', er_symbol = sa_symbol a, er_timeframe = None, er_status = Some (am_status m),
           er_state = state, er_reason = reason, er_bar_start = None, er_event_ids = ids\<rparr>)
     in if \<not> macro_traced (sa_run_id a) (sa_symbol a) m then ref ''INVALID'' (Some ''lineage_invalid'') []
        else if am_timestamp m = None \<or> sa_timestamp a = None then ref ''INVALID'' (Some ''timestamp_invalid'') []
        else if \<not> not_after (am_timestamp m) (sa_timestamp a) then ref ''INVALID'' (Some ''timestamp_after_as_of'') []
        else ref ''VALID'' None (List.map_filter (\<lambda>i. case mi_event_id i of Some e \<Rightarrow> if e = [] then None else Some e | None \<Rightarrow> None)
               (macro_items m)))"

definition evidence_refs :: "setup_inputs \<Rightarrow> setup_assessment \<Rightarrow> evidence_ref list" where
  "evidence_refs x a =
    map (\<lambda>tf. bar_ref sr_last_bar (dget (in_structure x) tf) ''structure'' tf a) AUTHORIZED_TIMEFRAMES
    @ map (\<lambda>tf. bar_ref lr_last_bar (dget (in_liquidity x) tf) ''liquidity'' tf a) AUTHORIZED_TIMEFRAMES
    @ (case in_macro x of None \<Rightarrow> [] | Some m \<Rightarrow> [macro_ref m a])"

definition details_of :: "string set \<Rightarrow> setup_inputs \<Rightarrow> setup_assessment \<Rightarrow> check_details" where
  "details_of evaluated x a =
    \<lparr>dt_active_window = (if ''no_high_impact_active_window'' \<in> evaluated
        then map_option (\<lambda>items. map mi_event_id (filter in_active_window items)) (Option.bind (in_macro x) am_report) else None),
     dt_alignment = (if ''timeframe_alignment'' \<in> evaluated
        then Some (trend_of x ''1h'', trend_of x ''15m'', trend_of x ''5m'') else None),
     dt_structure = (if ''structure_confirmation'' \<in> evaluated
        then Some (let r = payload (in_structure x) ''15m'' in (Option.bind r sr_bos \<noteq> None, Option.bind r sr_retracement \<noteq> None)) else None),
     dt_liquidity = (if ''liquidity_confirmation'' \<in> evaluated
        then Some (case payload (in_liquidity x) ''5m'' of None \<Rightarrow> (0, 0, 0)
          | Some r \<Rightarrow> (length (lr_sweeps r), length (lr_above r), length (lr_below r))) else None),
     dt_invalidation = (if ''invalidation_level'' \<in> evaluated \<and> sa_side a \<noteq> None
        then Some (sa_invalidation a, if sa_side a = Some LONG then ''15m support'' else ''15m resistance'') else None)\<rparr>"

section \<open>\<open>explain\<close> and \<open>evaluar_setup\<close>\<close>

fun index_of :: "'a \<Rightarrow> 'a list \<Rightarrow> nat option" where
  "index_of x [] = None"
| "index_of x (y # ys) = (if x = y then Some 0 else map_option Suc (index_of x ys))"

text \<open>The check V1 stopped at, with its outcome, and the reason; a code V1 does not use is an error.\<close>

definition deciding :: "setup_assessment \<Rightarrow> py_error + string \<times> nat \<times> check_group" where
  "deciding a =
    (if sa_status a = VALID_SETUP then Inr (''all_checks_passed'', length CHECKS, NOT_EVALUATED)
     else (case sa_warnings a of [] \<Rightarrow> Inl (ValueError ''index'')
       | reason # _ \<Rightarrow> (case dget DECIDING_CHECK reason of None \<Rightarrow> Inl KeyError
           | Some (name, outcome) \<Rightarrow> (case index_of name CHECKS of None \<Rightarrow> Inl (ValueError ''index'')
               | Some i \<Rightarrow> Inr (reason, i, outcome)))))"

definition group_of :: "bool \<Rightarrow> nat \<Rightarrow> check_group \<Rightarrow> nat \<times> string \<Rightarrow> check_group" where
  "group_of no_macro stop outcome c =
    (if no_macro \<and> snd c \<in> set MACRO_CHECKS then NOT_APPLICABLE
     else if fst c < stop then PASSED else if fst c = stop then outcome else NOT_EVALUATED)"

definition check_groups :: "bool \<Rightarrow> nat \<Rightarrow> check_group \<Rightarrow> check_group \<Rightarrow> string list" where
  "check_groups no_macro stop outcome g = map snd (filter (\<lambda>c. group_of no_macro stop outcome c = g) (enumerate 0 CHECKS))"

definition explain :: "(json \<Rightarrow> string) \<Rightarrow> setup_inputs \<Rightarrow> setup_assessment \<Rightarrow> py_error + explanation" where
  "explain ident x a = ebind (deciding a) (\<lambda>(reason, stop, outcome).
    let groups = check_groups (in_macro x = None) stop outcome;
        evaluated = set (groups PASSED @ groups FAILED @ groups MISSING); identity = setup_identity ident a
    in Inr \<lparr>ex_status = sa_status a, ex_side = sa_side a, ex_reason = reason, ex_groups = groups,
      ex_details = details_of evaluated x a, ex_refs = evidence_refs x a,
      ex_setup_id = map_option fst identity, ex_identity = map_option snd identity\<rparr>)"

definition evaluar_setup :: "(json \<Rightarrow> string) \<Rightarrow> setup_inputs \<Rightarrow> py_error + setup_assessment" where
  "evaluar_setup ident x = (let a = evaluar_setup_v1 x in
    ebind (explain ident x a) (\<lambda>e. Inr (a\<lparr>sa_explanation := Some e\<rparr>)))"

section \<open>The checks as a table\<close>

text \<open>What each check of \<open>CHECKS\<close> asks, independently of the cascade.\<close>

definition check_holds :: "setup_inputs \<Rightarrow> string \<Rightarrow> bool" where
  "check_holds x name = (case dget
    [(''timeframes_present'', 3 \<le> length (in_structure x) \<and> 3 \<le> length (in_liquidity x)),
     (''scout_lineage'', scouts_traced x),
     (''macro_lineage'', \<not> macro_stops x (\<lambda>m. \<not> macro_traced (in_run x) (in_symbol x) m)),
     (''macro_timestamp'', \<not> macro_stops x (\<lambda>m. \<not> not_after (am_timestamp m) (in_as_of x))),
     (''scouts_available'', scouts_available x),
     (''macro_available'', \<not> macro_stops x (\<lambda>m. am_status m = ''ERROR'')),
     (''no_high_impact_active_window'', \<not> macro_stops x (\<lambda>m. list_ex in_active_window (macro_items m))),
     (''scout_evidence_present'', all_payloads x),
     (''timeframe_alignment'', aligned_side x \<noteq> None),
     (''structure_confirmation'', structure_confirmed x),
     (''liquidity_confirmation'', liquidity_confirmed x),
     (''invalidation_level'', invalidation_of x \<noteq> None)] name of None \<Rightarrow> False | Some b \<Rightarrow> b)"

definition applicable :: "setup_inputs \<Rightarrow> string list" where
  "applicable x = filter (\<lambda>c. in_macro x \<noteq> None \<or> c \<notin> set MACRO_CHECKS) CHECKS"

definition first_failing :: "setup_inputs \<Rightarrow> string option" where
  "first_failing x = find (\<lambda>c. \<not> check_holds x c) (applicable x)"

section \<open>Facts\<close>

text \<open>Positions of a list up to, at and after \<open>k\<close>.\<close>

lemma enumerate_before: "map snd (filter (\<lambda>c. A (snd c) \<and> fst c < n + k) (enumerate n xs)) = filter A (take k xs)"
proof (induction xs arbitrary: n k)
  case (Cons x xs)
  show ?case
  proof (cases k)
    case 0
    have "filter (\<lambda>c. A (snd c) \<and> fst c < n) (enumerate n (x # xs)) = []"
      by (auto simp: filter_empty_conv in_set_enumerate_eq simp del: enumerate_simps)
    then show ?thesis using 0 by simp
  next
    case (Suc m)
    then show ?thesis using Cons [of "Suc n" m] by simp
  qed
qed simp

lemma enumerate_after: "map snd (filter (\<lambda>c. A (snd c) \<and> n + k < fst c) (enumerate n xs)) = filter A (drop (Suc k) xs)"
proof (induction xs arbitrary: n k)
  case (Cons x xs)
  show ?case
  proof (cases k)
    case 0
    have "map snd (filter (\<lambda>c. A (snd c) \<and> n < fst c) (enumerate (Suc n) xs)) = map snd (filter (\<lambda>c. A (snd c)) (enumerate (Suc n) xs))"
      by (intro arg_cong [where f = "map snd"] filter_cong) (auto simp: in_set_enumerate_eq)
    also have "\<dots> = filter A xs" by (simp add: filter_map [symmetric, unfolded comp_def])
    finally show ?thesis using 0 by simp
  next
    case (Suc m)
    then show ?thesis using Cons [of "Suc n" m] by simp
  qed
qed simp

lemma enumerate_at:
  "map snd (filter (\<lambda>c. A (snd c) \<and> fst c = n + k) (enumerate n xs)) = (if k < length xs \<and> A (xs ! k) then [xs ! k] else [])"
proof (induction xs arbitrary: n k)
  case (Cons x xs)
  show ?case
  proof (cases k)
    case 0
    have "filter (\<lambda>c. A (snd c) \<and> fst c = n) (enumerate (Suc n) xs) = []"
      by (auto simp: filter_empty_conv in_set_enumerate_eq)
    then show ?thesis using 0 by simp
  next
    case (Suc m)
    then show ?thesis using Cons [of "Suc n" m] by simp
  qed
qed simp

lemma split_at_first:
  assumes "\<And>i. i < k \<Longrightarrow> i < length xs \<Longrightarrow> A (xs ! i) \<Longrightarrow> P (xs ! i)" and "k < length xs \<Longrightarrow> A (xs ! k) \<and> \<not> P (xs ! k)"
  shows "takeWhile P (filter A xs) = filter A (take k xs)"
    and "drop 1 (dropWhile P (filter A xs)) = filter A (drop (Suc k) xs)"
    and "find (\<lambda>c. \<not> P c) (filter A xs) = (if k < length xs then Some (xs ! k) else None)"
proof -
  have all: "\<forall>c \<in> set (filter A (take k xs)). P c" using assms(1) by (auto simp: in_set_conv_nth)
  have split: "filter A xs = filter A (take k xs) @ (if k < length xs then xs ! k # filter A (drop (Suc k) xs) else [])"
  proof (cases "k < length xs")
    case True
    then have "filter A xs = filter A (take k xs @ xs ! k # drop (Suc k) xs)" by (rule arg_cong [OF id_take_nth_drop])
    also have "\<dots> = filter A (take k xs) @ xs ! k # filter A (drop (Suc k) xs)" using True assms(2) by simp
    finally show ?thesis using True by simp
  qed simp
  have tw: "takeWhile P (filter A (take k xs) @ ys) = filter A (take k xs) @ takeWhile P ys" for ys
    using all by (intro takeWhile_append2) auto
  have dw: "dropWhile P (filter A (take k xs) @ ys) = dropWhile P ys" for ys
    using all by (intro dropWhile_append2) auto
  show "takeWhile P (filter A xs) = filter A (take k xs)" and "drop 1 (dropWhile P (filter A xs)) = filter A (drop (Suc k) xs)"
  proof (atomize (full), cases "k < length xs")
    case True
    then show "takeWhile P (filter A xs) = filter A (take k xs) \<and> drop 1 (dropWhile P (filter A xs)) = filter A (drop (Suc k) xs)"
      using assms(2) by (subst (1 2) split) (simp add: tw dw)
  next
    case False
    then have d: "dropWhile P (filter A xs) = []" using dw [of "[]"] by simp
    show "takeWhile P (filter A xs) = filter A (take k xs) \<and> drop 1 (dropWhile P (filter A xs)) = filter A (drop (Suc k) xs)"
      using tw [of "[]"] False by (simp add: d)
  qed
  show "find (\<lambda>c. \<not> P c) (filter A xs) = (if k < length xs then Some (xs ! k) else None)"
  proof -
    have "find (\<lambda>c. \<not> P c) (filter A (take k xs)) = None" using all by (simp only: find_None_all not_not)
    then show ?thesis using assms(2) by (cases "k < length xs"; subst split) (simp_all add: find_append)
  qed
qed

text \<open>The stage the cascade stops at, as a position of \<open>CHECKS\<close>.\<close>

lemma check_holds_simps:
  "check_holds x ''timeframes_present'' \<longleftrightarrow> \<not> (length (in_structure x) < 3 \<or> length (in_liquidity x) < 3)"
  "check_holds x ''scout_lineage'' \<longleftrightarrow> scouts_traced x"
  "check_holds x ''macro_lineage'' \<longleftrightarrow> \<not> macro_stops x (\<lambda>m. \<not> macro_traced (in_run x) (in_symbol x) m)"
  "check_holds x ''macro_timestamp'' \<longleftrightarrow> \<not> macro_stops x (\<lambda>m. \<not> not_after (am_timestamp m) (in_as_of x))"
  "check_holds x ''scouts_available'' \<longleftrightarrow> scouts_available x"
  "check_holds x ''macro_available'' \<longleftrightarrow> \<not> macro_stops x (\<lambda>m. am_status m = ''ERROR'')"
  "check_holds x ''no_high_impact_active_window'' \<longleftrightarrow> \<not> macro_stops x (\<lambda>m. list_ex in_active_window (macro_items m))"
  "check_holds x ''scout_evidence_present'' \<longleftrightarrow> all_payloads x"
  "check_holds x ''timeframe_alignment'' \<longleftrightarrow> aligned_side x \<noteq> None"
  "check_holds x ''structure_confirmation'' \<longleftrightarrow> structure_confirmed x"
  "check_holds x ''liquidity_confirmation'' \<longleftrightarrow> liquidity_confirmed x"
  "check_holds x ''invalidation_level'' \<longleftrightarrow> invalidation_of x \<noteq> None"
  by (simp_all add: check_holds_def not_less)

lemma deciding_stopped:
  assumes "status \<noteq> VALID_SETUP"
  shows
  "deciding (stopped x status side ''missing_timeframe'') = Inr (''missing_timeframe'', 0, MISSING)"
  "deciding (stopped x status side ''scout_lineage_invalid'') = Inr (''scout_lineage_invalid'', 1, FAILED)"
  "deciding (stopped x status side ''macro_lineage_invalid'') = Inr (''macro_lineage_invalid'', 2, FAILED)"
  "deciding (stopped x status side ''macro_future_timestamp'') = Inr (''macro_future_timestamp'', 3, FAILED)"
  "deciding (stopped x status side ''macro_timestamp_invalid'') = Inr (''macro_timestamp_invalid'', 3, FAILED)"
  "deciding (stopped x status side ''scout_unavailable'') = Inr (''scout_unavailable'', 4, MISSING)"
  "deciding (stopped x status side ''macro_error'') = Inr (''macro_error'', 5, MISSING)"
  "deciding (stopped x status side ''high_impact_active_window'') = Inr (''high_impact_active_window'', 6, FAILED)"
  "deciding (stopped x status side ''missing_evidence'') = Inr (''missing_evidence'', 7, MISSING)"
  "deciding (stopped x status side ''timeframe_incompatibility'') = Inr (''timeframe_incompatibility'', 8, FAILED)"
  "deciding (stopped x status side ''structure_confirmation_missing'') = Inr (''structure_confirmation_missing'', 9, FAILED)"
  "deciding (stopped x status side ''liquidity_confirmation_missing'') = Inr (''liquidity_confirmation_missing'', 10, FAILED)"
  "deciding (stopped x status side ''invalidation_missing'') = Inr (''invalidation_missing'', 11, MISSING)"
  using assms by (simp_all add: deciding_def stopped_def DECIDING_CHECK_def CHECKS_def)

text \<open>\<open>stage x a k\<close>: the assessment \<open>a\<close> names check \<open>k\<close>, and the checks agree.\<close>

definition relevant :: "setup_inputs \<Rightarrow> string \<Rightarrow> bool" where
  "relevant x c \<longleftrightarrow> in_macro x \<noteq> None \<or> c \<notin> set MACRO_CHECKS"

definition stage :: "setup_inputs \<Rightarrow> setup_assessment \<Rightarrow> nat \<Rightarrow> bool" where
  "stage x a k \<longleftrightarrow> (\<exists>r g. deciding a = Inr (r, k, g) \<and> (k < 12 \<longrightarrow> g = FAILED \<or> g = MISSING))
     \<and> (sa_status a = VALID_SETUP \<longleftrightarrow> 12 \<le> k)
     \<and> list_all (check_holds x) (take k CHECKS)
     \<and> (k < 12 \<longrightarrow> relevant x (CHECKS ! k) \<and> \<not> check_holds x (CHECKS ! k))"

lemma macro_time_stops:
  "macro_stops x (\<lambda>m. \<not> not_after (am_timestamp m) (in_as_of x)) \<longleftrightarrow>
     macro_stops x (\<lambda>m. am_timestamp m \<noteq> None \<and> in_as_of x \<noteq> None \<and> \<not> not_after (am_timestamp m) (in_as_of x))
     \<or> macro_stops x (\<lambda>m. am_timestamp m = None \<or> in_as_of x = None)"
  by (auto simp: macro_stops_def not_after_def split: option.splits)

lemma macro_stops_relevant: "macro_stops x bad \<Longrightarrow> in_macro x \<noteq> None"
  by (auto simp: macro_stops_def split: option.splits)

lemma stage_stopped:
  assumes "status \<noteq> VALID_SETUP" and "deciding (stopped x status side reason) = Inr (reason, k, g)" and "g = FAILED \<or> g = MISSING"
    and "k < 12" and "list_all (check_holds x) (take k CHECKS)" and "relevant x (CHECKS ! k)" and "\<not> check_holds x (CHECKS ! k)"
  shows "stage x (stopped x status side reason) k"
  using assms by (simp add: stage_def) (simp add: stopped_def)

lemma if_stage: "(c \<Longrightarrow> \<exists>k. stage x a k) \<Longrightarrow> (\<not> c \<Longrightarrow> \<exists>k. stage x b k) \<Longrightarrow> \<exists>k. stage x (if c then a else b) k"
  by simp

lemma v1_stage: "\<exists>k. stage x (evaluar_setup_v1 x) k"
proof -
  note s = CHECKS_def check_holds_simps macro_time_stops relevant_def MACRO_CHECKS_def macro_stops_relevant
  show ?thesis
    unfolding evaluar_setup_v1_def
    apply (rule if_stage, rule exI, rule stage_stopped, simp, rule deciding_stopped, simp, simp, simp,
        simp add: s, simp add: s, simp add: s)+
    apply (rule exI [of _ 12])
    apply (simp add: stage_def deciding_def)
    apply (simp add: s)
    done
qed

lemma groups_at_stage:
  assumes "stage x a k" and "deciding a = Inr (r, k, g)"
  defines "G \<equiv> check_groups (in_macro x = None) k g"
  shows "G PASSED = takeWhile (check_holds x) (applicable x)"
    and "G FAILED @ G MISSING = (case first_failing x of None \<Rightarrow> [] | Some c \<Rightarrow> [c])"
    and "k < 12 \<Longrightarrow> G NOT_EVALUATED = drop 1 (dropWhile (check_holds x) (applicable x))"
    and "G NOT_APPLICABLE = filter (\<lambda>c. \<not> relevant x c) CHECKS"
    and "sa_status a = VALID_SETUP \<longleftrightarrow> first_failing x = None"
    and "12 \<le> k \<Longrightarrow> G NOT_EVALUATED = []"
proof -
  have len: "length CHECKS = 12" by (simp add: CHECKS_def)
  have app: "applicable x = filter (relevant x) CHECKS" unfolding applicable_def relevant_def by (rule refl)
  have pre: "\<And>i. i < k \<Longrightarrow> i < length CHECKS \<Longrightarrow> relevant x (CHECKS ! i) \<Longrightarrow> check_holds x (CHECKS ! i)"
    and at: "k < length CHECKS \<Longrightarrow> relevant x (CHECKS ! k) \<and> \<not> check_holds x (CHECKS ! k)"
    using assms(1) by (auto simp: stage_def len list_all_length)
  note sp = split_at_first [where xs = CHECKS and A = "relevant x" and P = "check_holds x" and k = k, OF pre at]
  have g: "g = FAILED \<or> g = MISSING" if "k < 12" using assms(1,2) that by (auto simp: stage_def)
  have grp: "group_of (in_macro x = None) k g c = (if \<not> relevant x (snd c) then NOT_APPLICABLE
      else if fst c < k then PASSED else if fst c = k then g else NOT_EVALUATED)" for c
    by (auto simp: group_of_def relevant_def)
  have small: "fst c < 12" if "c \<in> set (enumerate 0 CHECKS)" for c
    using that len by (auto simp: in_set_enumerate_eq)
  have gk: "g \<noteq> PASSED \<and> g \<noteq> NOT_APPLICABLE" if "c \<in> set (enumerate 0 CHECKS)" "fst c = k" for c
    using g small [OF that(1)] that(2) by auto
  have passed: "G PASSED = map snd (filter (\<lambda>c. relevant x (snd c) \<and> fst c < 0 + k) (enumerate 0 CHECKS))"
    unfolding G_def check_groups_def grp
    by (intro arg_cong [where f = "map snd"] filter_cong refl) (use gk in auto)
  then show "G PASSED = takeWhile (check_holds x) (applicable x)"
    unfolding enumerate_before app by (simp add: sp)
  have "G NOT_EVALUATED = map snd (filter (\<lambda>c. relevant x (snd c) \<and> 0 + k < fst c) (enumerate 0 CHECKS))" if "k < 12"
    unfolding G_def check_groups_def grp using g that
    by (intro arg_cong [where f = "map snd"] filter_cong refl) auto
  then show "k < 12 \<Longrightarrow> G NOT_EVALUATED = drop 1 (dropWhile (check_holds x) (applicable x))"
    unfolding enumerate_after app using sp(2) by simp
  show "G NOT_APPLICABLE = filter (\<lambda>c. \<not> relevant x c) CHECKS"
  proof -
    have "G NOT_APPLICABLE = map snd (filter (\<lambda>c. \<not> relevant x (snd c) \<and> fst c < 0 + 12) (enumerate 0 CHECKS))"
      unfolding G_def check_groups_def grp
      by (intro arg_cong [where f = "map snd"] filter_cong refl) (use gk small in auto)
    then show ?thesis unfolding enumerate_before [of "\<lambda>c. \<not> relevant x c" 0 12 CHECKS] by (simp add: len)
  qed
  have first: "first_failing x = (if k < 12 then Some (CHECKS ! k) else None)"
    using sp(3) by (simp add: first_failing_def app len)
  then show "sa_status a = VALID_SETUP \<longleftrightarrow> first_failing x = None" using assms(1) by (auto simp: stage_def)
  have one: "G h = map snd (filter (\<lambda>c. relevant x (snd c) \<and> fst c = 0 + k \<and> g = h) (enumerate 0 CHECKS))"
    if "h = FAILED \<or> h = MISSING" for h
    unfolding G_def check_groups_def grp using that
    by (intro arg_cong [where f = "map snd"] filter_cong refl) auto
  show "G FAILED @ G MISSING = (case first_failing x of None \<Rightarrow> [] | Some c \<Rightarrow> [c])"
  proof (cases "k < 12")
    case True
    then have "map snd (filter (\<lambda>c. relevant x (snd c) \<and> fst c = 0 + k) (enumerate 0 CHECKS)) = [CHECKS ! k]"
      unfolding enumerate_at using at len by simp
    then show ?thesis using g [OF True] first True by (auto simp: one)
  next
    case False
    have "G h = []" if "h = FAILED \<or> h = MISSING" for h
      unfolding one [OF that] using small False by (auto simp: filter_empty_conv)
    then show ?thesis using first False by simp
  qed
  show "G NOT_EVALUATED = []" if "12 \<le> k"
    unfolding G_def check_groups_def grp using small that by (fastforce simp: filter_empty_conv split: if_splits)
qed

text \<open>
  C23. The validator always answers, and its explanation is truthful: the setup is valid exactly when
  every check that applies holds; otherwise the one failed or missing check is the first, in the order of
  \<open>CHECKS\<close>, whose condition does not hold on the inputs, the passed checks are the ones before it and
  the checks not evaluated the ones after it. The macro checks are not applicable exactly when there is no
  macro report.
\<close>

theorem setup_explained_by_first_failing_check:
  "\<exists>a e. evaluar_setup ident x = Inr a \<and> sa_explanation a = Some e \<and> a\<lparr>sa_explanation := None\<rparr> = evaluar_setup_v1 x
     \<and> (sa_status a = VALID_SETUP \<longleftrightarrow> list_all (check_holds x) (applicable x))
     \<and> ex_groups e PASSED = takeWhile (check_holds x) (applicable x)
     \<and> ex_groups e FAILED @ ex_groups e MISSING = (case find (\<lambda>c. \<not> check_holds x c) (applicable x) of None \<Rightarrow> [] | Some c \<Rightarrow> [c])
     \<and> ex_groups e NOT_EVALUATED = drop 1 (dropWhile (check_holds x) (applicable x))
     \<and> ex_groups e NOT_APPLICABLE = filter (\<lambda>c. in_macro x = None \<and> c \<in> set MACRO_CHECKS) CHECKS"
proof -
  obtain k where k: "stage x (evaluar_setup_v1 x) k" using v1_stage by blast
  then obtain r g where d: "deciding (evaluar_setup_v1 x) = Inr (r, k, g)" by (auto simp: stage_def)
  note G = groups_at_stage [OF k d]
  have all: "first_failing x = None \<longleftrightarrow> list_all (check_holds x) (applicable x)"
    unfolding first_failing_def find_None_all by (simp add: list_all_iff)
  have rest: "check_groups (in_macro x = None) k g NOT_EVALUATED = drop 1 (dropWhile (check_holds x) (applicable x))"
  proof (cases "k < 12")
    case False
    then have "first_failing x = None" using G(5) k by (simp add: stage_def)
    then have empty: "dropWhile (check_holds x) (applicable x) = []" by (simp add: all dropWhile_eq_Nil_conv list_all_iff)
    show ?thesis unfolding empty using False G(6) by simp
  qed (rule G(3))
  have na: "filter (\<lambda>c. \<not> relevant x c) CHECKS = filter (\<lambda>c. in_macro x = None \<and> c \<in> set MACRO_CHECKS) CHECKS"
    by (rule filter_cong) (auto simp: relevant_def)
  have none: "sa_explanation (evaluar_setup_v1 x) = None"
    by (simp add: evaluar_setup_v1_def stopped_def)
  show ?thesis
    using G(1,2,4,5) rest none all unfolding evaluar_setup_def explain_def Let_def d na first_failing_def by simp
qed

text \<open>The identity of the setup the inputs make.\<close>

definition identity_tree :: "setup_inputs \<Rightarrow> json" where
  "identity_tree x = JObj [(''symbol'', JStr (in_symbol x)),
     (''side'', (case aligned_side x of None \<Rightarrow> JNull | Some s \<Rightarrow> JStr (side_name s))),
     (''invalidation'', (case invalidation_of x of None \<Rightarrow> JNull | Some v \<Rightarrow> JNum v)),
     (''anchor'', anchor_of (payload (in_structure x) ''15m''))]"

text \<open>What makes two structure reports the same opportunity: the break of structure, else the retracement.\<close>

definition anchor_key :: "structure_report \<Rightarrow> (instant \<times> rat \<times> trend) + (instant \<times> instant \<times> rat \<times> rat) option" where
  "anchor_key r = (case sr_bos r of
     Some b \<Rightarrow> Inl (bo_break b, bo_level b, bo_direction b)
   | None \<Rightarrow> Inr (map_option (\<lambda>t. (rt_impulse_time t, rt_protected_time t, rt_impulse t, rt_protected t)) (sr_retracement r)))"

lemma anchor_of_key: "anchor_of (Some r) = anchor_of (Some r') \<longleftrightarrow> anchor_key r = anchor_key r'"
proof -
  have "trend_name t = trend_name t' \<longleftrightarrow> t = t'" for t t' by (cases t; cases t') simp_all
  then show ?thesis by (auto simp: anchor_of_def anchor_key_def split: option.splits)
qed

lemma valid_assessment:
  assumes "sa_status (evaluar_setup_v1 x) = VALID_SETUP"
  shows "\<exists>r. payload (in_structure x) ''15m'' = Some r"
    and "evaluar_setup_v1 x = \<lparr>sa_run_id = in_run x, sa_timestamp = in_as_of x, sa_symbol = in_symbol x, sa_status = VALID_SETUP,
           sa_side = aligned_side x, sa_timeframes = AUTHORIZED_TIMEFRAMES,
           sa_evidence = Some (payloads (in_structure x), payloads (in_liquidity x)),
           sa_invalidation = invalidation_of x, sa_warnings = [], sa_explanation = None\<rparr>"
    and "all_payloads x" and "aligned_side x = Some LONG \<or> aligned_side x = Some SHORT" and "invalidation_of x \<noteq> None"
proof -
  show v: "evaluar_setup_v1 x = \<lparr>sa_run_id = in_run x, sa_timestamp = in_as_of x, sa_symbol = in_symbol x, sa_status = VALID_SETUP,
           sa_side = aligned_side x, sa_timeframes = AUTHORIZED_TIMEFRAMES,
           sa_evidence = Some (payloads (in_structure x), payloads (in_liquidity x)),
           sa_invalidation = invalidation_of x, sa_warnings = [], sa_explanation = None\<rparr>"
    and a: "all_payloads x" and i: "invalidation_of x \<noteq> None"
    using assms unfolding evaluar_setup_v1_def stopped_def by (simp_all split: if_splits)
  have "aligned_side x \<noteq> None" using assms unfolding evaluar_setup_v1_def stopped_def by (simp split: if_splits)
  then show "aligned_side x = Some LONG \<or> aligned_side x = Some SHORT" by (auto simp: aligned_side_def Let_def split: if_splits)
  show "\<exists>r. payload (in_structure x) ''15m'' = Some r" using a by (auto simp: all_payloads_def AUTHORIZED_TIMEFRAMES_def)
qed

lemma dget_payloads:
  assumes "tf \<in> set AUTHORIZED_TIMEFRAMES" shows "dget (payloads d) tf = payload d tf"
proof -
  have "dget (List.map_filter (\<lambda>tf. map_option (Pair tf) (payload d tf)) tfs) tf = (if tf \<in> set tfs then payload d tf else None)" for tfs
    by (induction tfs) (auto simp: List.map_filter_simps split: option.splits)
  then show ?thesis using assms by (simp add: payloads_def)
qed

text \<open>
  C24. Two valid setups have the same identity exactly when they name the same symbol, side, invalidation and
  15-minute anchor: the run, the clock, the liquidity, the macro report and the other timeframes do not enter
  it, so a retry or a restart gives the same id; and the id is the hash of that identity alone.
\<close>

theorem setup_identity_is_the_opportunity:
  assumes "evaluar_setup ident x = Inr a" and "evaluar_setup ident y = Inr b"
    and "sa_status a = VALID_SETUP" and "sa_status b = VALID_SETUP"
    and "sa_explanation a = Some e" and "sa_explanation b = Some f"
  shows "ex_setup_id e = map_option ident (ex_identity e) \<and> ex_identity e \<noteq> None
    \<and> (ex_identity e = ex_identity f \<longleftrightarrow> in_symbol x = in_symbol y \<and> aligned_side x = aligned_side y
        \<and> invalidation_of x = invalidation_of y
        \<and> map_option anchor_key (payload (in_structure x) ''15m'') = map_option anchor_key (payload (in_structure y) ''15m''))"
proof -
  have core: "sa_status (evaluar_setup_v1 z) = VALID_SETUP \<and> ex_setup_id g = map_option fst (setup_identity ident (evaluar_setup_v1 z))
      \<and> ex_identity g = map_option snd (setup_identity ident (evaluar_setup_v1 z))"
    if "evaluar_setup ident z = Inr c" "sa_status c = VALID_SETUP" "sa_explanation c = Some g" for z c g
    using that unfolding evaluar_setup_def explain_def Let_def by (auto simp: ebind_eq_Inr split: prod.splits)
  note X = core [OF assms(1,3,5)] and Y = core [OF assms(2,4,6)]
  obtain r r' where r: "payload (in_structure x) ''15m'' = Some r" "payload (in_structure y) ''15m'' = Some r'"
    using valid_assessment(1) X Y by blast
  have id: "setup_identity ident (evaluar_setup_v1 z) = Some (ident (identity_tree z), identity_tree z)"
    if "sa_status (evaluar_setup_v1 z) = VALID_SETUP" for z
    unfolding setup_identity_def valid_assessment(2) [OF that] identity_tree_def
    by (simp add: Let_def dget_payloads AUTHORIZED_TIMEFRAMES_def)
  have "identity_tree x = identity_tree y \<longleftrightarrow> in_symbol x = in_symbol y \<and> aligned_side x = aligned_side y
      \<and> invalidation_of x = invalidation_of y \<and> anchor_key r = anchor_key r'"
    using valid_assessment(4,5) [OF conjunct1 [OF X]] valid_assessment(4,5) [OF conjunct1 [OF Y]]
    by (auto simp: identity_tree_def r anchor_of_key)
  then show ?thesis using X Y id r by simp
qed

section \<open>A valid setup\<close>

definition demo_structure :: "string \<Rightarrow> structure_report" where
  "demo_structure tf = \<lparr>sr_symbol = ''EURUSD'', sr_timeframe = tf, sr_state = BULLISH, sr_highs = [], sr_lows = [],
     sr_support = Some 1, sr_resistance = Some 2, sr_displacement = None, sr_retracement = None,
     sr_bos = Some \<lparr>bo_direction = BULLISH, bo_level = 1, bo_swing = 0, bo_confirmation = 1, bo_break = 2, bo_close = 2\<rparr>,
     sr_last_bar = 0, sr_closed_bars = 9\<rparr>"

definition demo_liquidity :: "string \<Rightarrow> liquidity_report" where
  "demo_liquidity tf = \<lparr>lr_symbol = ''EURUSD'', lr_timeframe = tf, lr_above = [2], lr_below = [], lr_sweeps = [],
     lr_equal_highs = [], lr_equal_lows = [], lr_last_bar = 0, lr_closed_bars = 9\<rparr>"

definition demo_message :: "string \<Rightarrow> string \<Rightarrow> 'r \<Rightarrow> 'r agent_message" where
  "demo_message run tf r = \<lparr>am_run_id = run, am_timestamp = Some 0, am_symbol = ''EURUSD'', am_timeframe = tf, am_status = ''OK'',
     am_report = Some r, am_closed_bars = Some 9, am_warnings = []\<rparr>"

definition demo_inputs :: "string \<Rightarrow> setup_inputs" where
  "demo_inputs run = \<lparr>in_structure = map (\<lambda>tf. (tf, demo_message run tf (demo_structure tf))) AUTHORIZED_TIMEFRAMES,
     in_liquidity = map (\<lambda>tf. (tf, demo_message run tf (demo_liquidity tf))) AUTHORIZED_TIMEFRAMES,
     in_macro = None, in_symbol = ''EURUSD'', in_run = run, in_as_of = Some DAY\<rparr>"

lemma demo_valid: "sa_status (evaluar_setup_v1 (demo_inputs run)) = VALID_SETUP"
  by (simp add: evaluar_setup_v1_def demo_inputs_def demo_message_def demo_structure_def demo_liquidity_def AUTHORIZED_TIMEFRAMES_def
      scouts_traced_def report_valid_def KNOWN_STATUSES_def not_after_def unit_defs macro_stops_def scouts_available_def unavailable_def
      dvals_def all_payloads_def payload_def aligned_side_def trend_of_def structure_confirmed_def liquidity_confirmed_def invalidation_of_def)

lemma demo_explained: "\<exists>a e. evaluar_setup ident (demo_inputs run) = Inr a \<and> sa_status a = VALID_SETUP \<and> sa_explanation a = Some e"
  using demo_valid [of run] by (simp add: evaluar_setup_def explain_def deciding_def Let_def)

theorem setup_identity_is_the_opportunity_witness:
  "\<exists>a b e f. evaluar_setup (\<lambda>_. ''id'') (demo_inputs ''first'') = Inr a \<and> evaluar_setup (\<lambda>_. ''id'') (demo_inputs ''retry'') = Inr b
     \<and> sa_explanation a = Some e \<and> sa_explanation b = Some f \<and> ex_identity e = ex_identity f"
proof -
  obtain a e where a: "evaluar_setup (\<lambda>_. ''id'') (demo_inputs ''first'') = Inr a" "sa_status a = VALID_SETUP" "sa_explanation a = Some e"
    using demo_explained by blast
  obtain b f where b: "evaluar_setup (\<lambda>_. ''id'') (demo_inputs ''retry'') = Inr b" "sa_status b = VALID_SETUP" "sa_explanation b = Some f"
    using demo_explained by blast
  have "ex_identity e = ex_identity f"
    using setup_identity_is_the_opportunity [OF a(1) b(1) a(2) b(2) a(3) b(3)]
    by (simp add: demo_inputs_def demo_message_def payload_def aligned_side_def trend_of_def invalidation_of_def AUTHORIZED_TIMEFRAMES_def)
  then show ?thesis using a b by blast
qed

end
