(* ===== verification/ConflictEngine.thy ===== *)
theory ConflictEngine
  imports RiskEngine
begin

text \<open>
  \<open>execution/conflict_engine.py\<close>: the classification of a new candidate against the durable exposure on its
  symbol. Reads only. \<open>as_record\<close> is the dictionary the decision is journalled as.
\<close>

definition CONFLICT_POLICY_VERSION :: string where "CONFLICT_POLICY_VERSION = ''V2_P6_CONFLICT_1''"

datatype exposure_kind = POSITION | PENDING_ORDER

record exposure =
  x_kind :: exposure_kind
  x_entity :: string
  x_run_id :: string
  x_direction :: side
  x_setup_id :: "string option"
  x_entry :: rat
  x_stop :: rat
  x_target :: rat
  x_quantity :: rat

datatype classification = NO_CONFLICT | DUPLICATE_SETUP | SAME_DIRECTION_NEW_SETUP | OPPOSITE_SETUP | UNKNOWN_SETUP_ID | INVALID_CANDIDATE

record conflict_decision =
  k_allow :: bool
  k_class :: classification
  k_kind :: "string option"
  k_reason :: string
  k_symbol :: string
  k_setup_id :: "string option"
  k_direction :: side
  k_entry :: pynum
  k_stop :: pynum
  k_target :: pynum
  k_as_of :: "instant option"
  k_exposures :: "exposure list"
  k_blocking :: "(exposure_kind \<times> string) option"

definition position_exposure :: "paper_position \<Rightarrow> exposure" where
  "position_exposure p = \<lparr>x_kind = POSITION, x_entity = p_id p, x_run_id = p_run_id p, x_direction = p_side p, x_setup_id = p_setup_id p,
     x_entry = p_entry_price p, x_stop = p_stop p, x_target = p_target p, x_quantity = p_quantity p\<rparr>"

definition order_exposure :: "paper_order \<Rightarrow> exposure" where
  "order_exposure od = \<lparr>x_kind = PENDING_ORDER, x_entity = o_id od, x_run_id = o_run_id od, x_direction = o_side od, x_setup_id = o_setup_id od,
     x_entry = o_planned_entry od, x_stop = o_stop od, x_target = o_target od, x_quantity = o_quantity od\<rparr>"

text \<open>The open position of the symbol first, then its pending orders by id.\<close>

definition exposures_for :: "string \<Rightarrow> paper_account option \<Rightarrow> (string, paper_order) dict \<Rightarrow> exposure list" where
  "exposures_for symbol account ods =
    (case Option.bind account (\<lambda>a. dget (a_open_positions a) symbol) of None \<Rightarrow> [] | Some p \<Rightarrow> [position_exposure p])
    @ map order_exposure (filter (\<lambda>od. o_symbol od = symbol \<and> o_status od = PENDING)
        (List.map_filter (dget ods) (sort (map fst ods))))"

record conflict_query =
  q_symbol :: string
  q_direction :: side
  q_setup_id :: "string option"
  q_entry :: pynum
  q_stop :: pynum
  q_target :: pynum
  q_as_of :: "instant option"

definition where_name :: "exposure_kind \<Rightarrow> string" where
  "where_name k = (case k of POSITION \<Rightarrow> ''POSITION'' | PENDING_ORDER \<Rightarrow> ''PENDING'')"

definition conflict_kind :: "exposure_kind \<Rightarrow> string" where
  "conflict_kind k = (case k of POSITION \<Rightarrow> ''EXISTING_POSITION_CONFLICT'' | PENDING_ORDER \<Rightarrow> ''EXISTING_PENDING_CONFLICT'')"

definition decide_conflict :: "conflict_query \<Rightarrow> exposure list \<Rightarrow> classification \<Rightarrow> string \<Rightarrow> exposure option \<Rightarrow> conflict_decision" where
  "decide_conflict q xs cl reason blocking =
    \<lparr>k_allow = (cl = NO_CONFLICT), k_class = cl, k_kind = map_option (\<lambda>x. conflict_kind (x_kind x)) blocking, k_reason = reason,
     k_symbol = q_symbol q, k_setup_id = q_setup_id q, k_direction = q_direction q, k_entry = q_entry q, k_stop = q_stop q,
     k_target = q_target q, k_as_of = q_as_of q, k_exposures = xs,
     k_blocking = map_option (\<lambda>x. (x_kind x, x_entity x)) blocking\<rparr>"

definition classify_conflict :: "conflict_query \<Rightarrow> paper_account option \<Rightarrow> (string, paper_order) dict \<Rightarrow> conflict_decision" where
  "classify_conflict q account ods =
    (let xs = exposures_for (q_symbol q) account ods; decide = decide_conflict q xs in
     if q_direction q \<noteq> LONG \<and> q_direction q \<noteq> SHORT then decide INVALID_CANDIDATE ''INVALID_DIRECTION'' None
     else if q_setup_id q = None \<or> q_setup_id q = Some [] then decide INVALID_CANDIDATE ''MISSING_NEW_SETUP_ID'' None
     else (case xs of [] \<Rightarrow> decide NO_CONFLICT ''NO_CONFLICT'' None
       | b # _ \<Rightarrow>
         if x_setup_id b = None then decide UNKNOWN_SETUP_ID ''UNKNOWN_EXISTING_SETUP_ID'' (Some b)
         else if x_setup_id b = q_setup_id q then decide DUPLICATE_SETUP ''DUPLICATE_SETUP'' (Some b)
         else if x_direction b = q_direction q
           then decide SAME_DIRECTION_NEW_SETUP (''SAME_DIRECTION_'' @ where_name (x_kind b) @ ''_CONFLICT'') (Some b)
         else decide OPPOSITE_SETUP (''OPPOSITE_'' @ where_name (x_kind b) @ ''_CONFLICT'') (Some b)))"

section \<open>The record\<close>

fun class_name :: "classification \<Rightarrow> string" where
  "class_name NO_CONFLICT = ''NO_CONFLICT''"
| "class_name DUPLICATE_SETUP = ''DUPLICATE_SETUP''"
| "class_name SAME_DIRECTION_NEW_SETUP = ''SAME_DIRECTION_NEW_SETUP''"
| "class_name OPPOSITE_SETUP = ''OPPOSITE_SETUP''"
| "class_name UNKNOWN_SETUP_ID = ''UNKNOWN_SETUP_ID''"
| "class_name INVALID_CANDIDATE = ''INVALID_CANDIDATE''"

fun kind_name :: "exposure_kind \<Rightarrow> string" where
  "kind_name POSITION = ''POSITION''"
| "kind_name PENDING_ORDER = ''PENDING_ORDER''"

text \<open>A level of the plan as JSON carries it.\<close>

fun level_json :: "pynum \<Rightarrow> json" where
  "level_json (PInt n) = JInt n"
| "level_json (PFloat x) = JNum x"
| "level_json (PDec d) = JDec d"
| "level_json _ = JNull"

definition exposure_record :: "exposure \<Rightarrow> json" where
  "exposure_record x = JObj [(''kind'', JStr (kind_name (x_kind x))), (''entity_id'', JStr (x_entity x)), (''run_id'', JStr (x_run_id x)),
     (''direction'', JStr (side_name (x_direction x))),
     (''setup_id'', JStr (case x_setup_id x of None \<Rightarrow> ''UNKNOWN'' | Some i \<Rightarrow> i)), (''entry'', JNum (x_entry x)),
     (''stop'', JNum (x_stop x)), (''target'', JNum (x_target x)), (''quantity'', JNum (x_quantity x))]"

definition first_of_kind :: "exposure_kind \<Rightarrow> exposure list \<Rightarrow> exposure option" where
  "first_of_kind k = find (\<lambda>x. x_kind x = k)"

definition setup_or_unknown :: "exposure \<Rightarrow> json" where
  "setup_or_unknown x = JStr (case x_setup_id x of None \<Rightarrow> ''UNKNOWN'' | Some i \<Rightarrow> if i = [] then ''UNKNOWN'' else i)"

definition of_first :: "(exposure \<Rightarrow> json) \<Rightarrow> exposure option \<Rightarrow> json" where
  "of_first f x = (case x of None \<Rightarrow> JNull | Some e \<Rightarrow> f e)"

definition conflict_record :: "conflict_decision \<Rightarrow> (string \<times> json) list" where
  "conflict_record k =
    (let pos = first_of_kind POSITION (k_exposures k); od = first_of_kind PENDING_ORDER (k_exposures k) in
     [(''conflict_policy_version'', JStr CONFLICT_POLICY_VERSION), (''conflict_status'', JStr (if k_allow k then ''ALLOW'' else ''BLOCK'')),
      (''classification'', JStr (class_name (k_class k))), (''conflict_kind'', jstr_opt (k_kind k)), (''reason_code'', JStr (k_reason k)),
      (''economic_action'', JStr (if k_allow k then ''CONTINUE_TO_RISK'' else ''BLOCK_NEW_EXPOSURE'')),
      (''requires_risk_evaluation'', JBool (k_allow k)), (''symbol'', JStr (k_symbol k)), (''new_setup_id'', jstr_opt (k_setup_id k)),
      (''new_direction'', JStr (side_name (k_direction k))), (''new_entry'', level_json (k_entry k)), (''new_stop'', level_json (k_stop k)),
      (''new_target'', level_json (k_target k)), (''as_of'', (case k_as_of k of None \<Rightarrow> JNull | Some t \<Rightarrow> JTime t)),
      (''existing_position_id'', of_first (\<lambda>x. JStr (x_entity x)) pos), (''existing_position_setup_id'', of_first setup_or_unknown pos),
      (''existing_position_direction'', of_first (\<lambda>x. JStr (side_name (x_direction x))) pos),
      (''existing_order_id'', of_first (\<lambda>x. JStr (x_entity x)) od), (''existing_order_setup_id'', of_first setup_or_unknown od),
      (''existing_order_direction'', of_first (\<lambda>x. JStr (side_name (x_direction x))) od),
      (''exposures'', JList (map exposure_record (k_exposures k))),
      (''blocking_entity_type'', (case k_blocking k of None \<Rightarrow> JNull | Some (kd, _) \<Rightarrow> JStr (kind_name kd))),
      (''blocking_entity_id'', (case k_blocking k of None \<Rightarrow> JNull | Some (_, i) \<Rightarrow> JStr i))])"

section \<open>Facts\<close>

text \<open>A pending order counts however it is keyed; the loaded dictionaries key an order by its id.\<close>

lemma exposures_none:
  assumes "dkeys_ok ods"
  shows "exposures_for symbol (Some a) ods = [] \<longleftrightarrow> dget (a_open_positions a) symbol = None
    \<and> (\<forall>od \<in> set (dvals ods). \<not> (o_symbol od = symbol \<and> o_status od = PENDING))"
proof -
  have "set (List.map_filter (dget ods) (sort (map fst ods))) = set (dvals ods)"
    using assms by (auto simp: List.map_filter_def dvals_def dkeys_ok_def image_image dest: map_of_SomeD) force+
  then show ?thesis by (auto simp: exposures_for_def filter_empty_conv split: option.splits)
qed



end
