(* ===== verification/ConflictPath.thy ===== *)
theory ConflictPath
  imports Reservation SetupValidator ConflictEngine
begin

text \<open>
  \<open>execution/candidate_identity.py\<close> and \<open>execution/conflict_path.py\<close>: a run is bound to one candidate by an
  immutable journal row, its conflict is decided on the durable state, and the decision (with its order, if
  the risk engine allows one) commits only if that state is unchanged. The hashes (\<open>uuid5\<close> of an identity,
  \<open>sha256\<close> of a fingerprint), the ids of new orders and the clock are arguments; what other processes do
  inside an attempt, after its load, is \<open>other\<close>. A plan's levels are the floats (or ints) the planners put there.
\<close>

section \<open>Candidate identity\<close>

definition FINGERPRINT_VERSION :: string where "FINGERPRINT_VERSION = ''V2_P6_CANDIDATE_1''"
definition CLAIM_EVENT :: string where "CLAIM_EVENT = ''RUN_CANDIDATE_CLAIM''"

datatype claim = CLAIMED | SAME | MISMATCH | UNKNOWN_HISTORY

definition number_field :: "pynum \<Rightarrow> py_error + json" where
  "number_field v = (case to_decimal v of None \<Rightarrow> Inl (ValueError ''candidate fingerprint requires finite positive numbers'')
     | Some d \<Rightarrow> Inr (JDec (dec28 d)))"

definition candidate_fields ::
  "string \<Rightarrow> trade_plan \<Rightarrow> instrument_spec option \<Rightarrow> string \<Rightarrow> string \<Rightarrow> risk_policy \<Rightarrow> py_error + (string \<times> json) list" where
  "candidate_fields symbol plan instrument account setup policy =
    (case (instrument, tp_as_of plan) of (Some i, Some t) \<Rightarrow>
       ebind (traverse number_field [tp_entry plan, tp_stop plan, tp_target plan, tp_risk_reward plan, i_price_increment i,
                i_quantity_increment i, i_contract_multiplier i]) (\<lambda>ns.
         Inr [(''fingerprint_version'', JStr FINGERPRINT_VERSION), (''account_id'', JStr account), (''symbol'', JStr symbol),
           (''setup_id'', JStr setup), (''side'', JStr (side_name (tp_side plan))), (''planner_policy'', JStr (policy_name (tp_policy_version plan))),
           (''entry'', ns ! 0), (''stop'', ns ! 1), (''target'', ns ! 2), (''declared_rr'', ns ! 3), (''plan_as_of'', JTime t),
           (''conflict_policy_version'', JStr CONFLICT_POLICY_VERSION), (''risk_policy'', policy_record policy),
           (''instrument'', JObj [(''symbol'', JStr (i_symbol i)), (''price_increment'', ns ! 4), (''quantity_increment'', ns ! 5),
              (''contract_multiplier'', ns ! 6)])])
     | _ \<Rightarrow> Inl (TypeError ''attribute''))"

definition journal_of :: "string \<Rightarrow> string \<Rightarrow> store \<Rightarrow> json list" where
  "journal_of ty run s = map j_payload (filter (\<lambda>r. j_type r = ty \<and> j_run_id r = Some run) (s_journal s))"

definition claimed_fingerprint :: "string \<Rightarrow> store \<Rightarrow> json option" where
  "claimed_fingerprint run s = (case journal_of CLAIM_EVENT run s of [] \<Rightarrow> None | p # _ \<Rightarrow> Some (jget p ''fingerprint''))"

definition unowned :: "string option \<Rightarrow> string \<Rightarrow> store \<Rightarrow> bool" where
  "unowned owner symbol s = (case owner of None \<Rightarrow> False | Some k \<Rightarrow> \<not> owns_slot k (Some symbol) s)"

definition claim_run ::
  "string option \<Rightarrow> string \<Rightarrow> string \<Rightarrow> (string \<times> json) list \<Rightarrow> string \<Rightarrow> instant option \<Rightarrow> (store \<Rightarrow> py_error + bool) \<Rightarrow> store \<Rightarrow>
   py_error + claim \<times> store" where
  "claim_run owner run symbol fs print as_of has_history s =
    (if unowned owner symbol s then Inl (RuntimeError ''candidate claim without slot ownership'')
     else (case claimed_fingerprint run s of
         Some f \<Rightarrow> Inr (if f = JStr print then SAME else MISMATCH, s)
       | None \<Rightarrow> ebind (has_history s) (\<lambda>h. if h then Inr (UNKNOWN_HISTORY, s)
           else ebind (journal_event_at as_of (Some run) (Some symbol) ''conflict_engine'' CLAIM_EVENT
               (JObj [(''fingerprint_version'', JStr FINGERPRINT_VERSION), (''fingerprint'', JStr print), (''candidate'', JObj fs),
                 (''economic_action'', JStr ''NONE''), (''decisive'', JBool False)]) s) (\<lambda>s'. Inr (CLAIMED, s')))))"

section \<open>The path\<close>

definition CONFLICT_EVENT :: string where "CONFLICT_EVENT = ''CONFLICT_DECISION''"
definition STALE_EVENT :: string where "STALE_EVENT = ''CONFLICT_ATTEMPT_STALE''"
definition CONFLICT_SOURCE :: string where "CONFLICT_SOURCE = ''conflict_engine''"
definition DECISIVE :: "json list" where "DECISIVE = [JStr ''BLOCKED'', JStr ''RISK_REJECTED'', JStr ''RESERVED'']"

record conflict_result =
  cr_status :: string
  cr_reason :: string
  cr_conflict :: "conflict_decision option"
  cr_order :: "paper_order option"
  cr_record :: "json option"
  cr_attempts :: nat

record conflict_request =
  cq_report :: floor_report
  cq_setup :: "setup_assessment option"
  cq_instrument :: "instrument_spec option"
  cq_account :: string
  cq_as_of :: "instant option"
  cq_owner :: "string option"
  cq_policy :: risk_policy
  cq_basis :: "drawdown_basis option"

definition conflict_outcome ::
  "string \<Rightarrow> string \<Rightarrow> conflict_decision option \<Rightarrow> paper_order option \<Rightarrow> json option \<Rightarrow> nat \<Rightarrow> conflict_result" where
  "conflict_outcome status reason k od rec n =
    \<lparr>cr_status = status, cr_reason = reason, cr_conflict = k, cr_order = od, cr_record = rec, cr_attempts = n\<rparr>"

definition not_submitted :: "string \<Rightarrow> nat \<Rightarrow> conflict_result" where
  "not_submitted reason n = conflict_outcome ''NOT_SUBMITTED'' reason None None None n"

text \<open>The setup id of a valid candidate, or why it is none.\<close>

definition candidate_id :: "(json \<Rightarrow> string) \<Rightarrow> floor_report \<Rightarrow> setup_assessment option \<Rightarrow> string + trade_plan \<times> string" where
  "candidate_id ident report setup = (case (fr_trade_plan report, setup) of
     (Some plan, Some a) \<Rightarrow>
       if fr_final_status report \<noteq> ''PLAN_READY'' then Inl ''not_a_plan_ready_report''
       else if tp_policy_version plan \<notin> set FIXED_RR_POLICIES then Inl ''not_a_fixed_3r_plan''
       else if sa_status a \<noteq> VALID_SETUP \<or> sa_symbol a \<noteq> tp_symbol plan \<or> sa_symbol a \<noteq> fr_symbol report
         \<or> sa_side a \<noteq> Some (tp_side plan) \<or> tp_run_id plan \<noteq> Some (fr_run_id report) then Inl ''candidate_lineage_invalid''
       else (case setup_identity ident a of None \<Rightarrow> Inl ''setup_identity_unavailable''
         | Some (i, _) \<Rightarrow>
             let explained = Option.bind (sa_explanation a) ex_setup_id in
             if explained \<noteq> None \<and> explained \<noteq> Some i then Inl ''setup_identity_unavailable'' else Inr (plan, i))
   | _ \<Rightarrow> Inl ''not_a_plan_ready_report'')"

definition trace_get :: "trace \<Rightarrow> string \<Rightarrow> json" where
  "trace_get tr k = (case map_of tr k of None \<Rightarrow> JNull | Some v \<Rightarrow> v)"

fun decimal_sum :: "json \<Rightarrow> json \<Rightarrow> json" where
  "decimal_sum (JDec a) (JDec b) = JDec (dec28 (dec28 a + b))"
| "decimal_sum _ _ = JNull"

definition risk_summary :: "trace \<Rightarrow> risk_policy \<Rightarrow> (string \<times> json) list" where
  "risk_summary r policy =
    [(''risk_policy_version'', JStr (rp_version policy)), (''risk_status'', trace_get r ''risk_status''), (''risk_reason'', trace_get r ''risk_reason''),
     (''portfolio_risk_before'', decimal_sum (trace_get r ''existing_open_risk'') (trace_get r ''existing_pending_risk'')),
     (''proposed_reservation'', trace_get r ''reserved_fill_risk''), (''portfolio_risk_after'', trace_get r ''post_trade_portfolio_risk''),
     (''portfolio_risk_limit'', trace_get r ''portfolio_risk_limit'')]"

definition prior_decision :: "string \<Rightarrow> store \<Rightarrow> json option" where
  "prior_decision run s = find (\<lambda>p. jget p ''decision'' \<in> set DECISIVE) (journal_of CONFLICT_EVENT run s)"

definition run_order :: "string \<Rightarrow> (string, paper_order) dict \<Rightarrow> paper_order option" where
  "run_order run ods = find (\<lambda>od. o_run_id od = run) (dvals ods)"

definition has_outcome :: "string \<Rightarrow> string \<Rightarrow> store \<Rightarrow> py_error + bool" where
  "has_outcome account run s = ebind (load_paper account s) (\<lambda>(_, ods, _).
     Inr (run_order run ods \<noteq> None \<or> prior_decision run s \<noteq> None))"

datatype commit_result = COMMITTED | STALE | DUPLICATE | WRONG_CLAIM

definition commit_decision_rows ::
  "string \<Rightarrow> paper_view \<Rightarrow> (string \<times> string \<times> json) list \<Rightarrow> instant option \<Rightarrow> string \<Rightarrow> string option \<Rightarrow> string \<Rightarrow> string \<Rightarrow> store \<Rightarrow>
   py_error + commit_result \<times> store" where
  "commit_decision_rows account expected rows as_of run owner symbol print s =
    (if unowned owner symbol s then Inl (RuntimeError ''conflict journal without slot ownership'')
     else if claimed_fingerprint run s \<noteq> Some (JStr print) then Inr (WRONG_CLAIM, s)
     else ebind (load_paper account s) (\<lambda>d.
       if prior_decision run s \<noteq> None \<or> run_order run (fst (snd d)) \<noteq> None then Inr (DUPLICATE, s)
       else if paper_state d \<noteq> expected then Inr (STALE, s)
       else ebind (efold (\<lambda>(source, event, p). journal_event_at as_of (Some run) (Some symbol) source event p) rows s)
              (\<lambda>s'. Inr (COMMITTED, s'))))"

section \<open>What a run already has\<close>

definition candidate_order_matches :: "paper_order \<Rightarrow> (string \<times> json) list \<Rightarrow> bool" where
  "candidate_order_matches od fs =
    (case (to_decimal (PFloat (o_planned_entry od)), to_decimal (PFloat (o_stop od)), to_decimal (PFloat (o_target od))) of
       (Some e, Some s, Some t) \<Rightarrow>
         map_of fs ''symbol'' = Some (JStr (o_symbol od)) \<and> map_of fs ''side'' = Some (JStr (side_name (o_side od)))
         \<and> map_of fs ''setup_id'' = Some (jstr_opt (o_setup_id od)) \<and> map_of fs ''entry'' = Some (JDec (dec28 e))
         \<and> map_of fs ''stop'' = Some (JDec (dec28 s)) \<and> map_of fs ''target'' = Some (JDec (dec28 t))
     | _ \<Rightarrow> False)"

definition reconciled :: "string \<Rightarrow> string \<Rightarrow> nat \<Rightarrow> (string \<times> json) list \<Rightarrow> string \<Rightarrow> store \<Rightarrow> py_error + conflict_result" where
  "reconciled account run n fs print s = ebind (load_paper account s) (\<lambda>(_, ods, _).
    let od = run_order run ods; prior = prior_decision run s in
    Inr (if (case od of None \<Rightarrow> False | Some x \<Rightarrow> \<not> candidate_order_matches x fs)
            \<or> (case prior of None \<Rightarrow> False | Some p \<Rightarrow> jget p ''candidate_fingerprint'' \<noteq> JStr print)
         then not_submitted ''RUN_ID_CANDIDATE_MISMATCH'' n
         else if od \<noteq> None then conflict_outcome ''DUPLICATE_RUN'' ''run_id_already_submitted'' None od prior n
         else conflict_outcome ''DUPLICATE_RUN'' ''run_id_already_decided'' None None prior n))"

definition stale_observation :: "string \<Rightarrow> string \<Rightarrow> string \<Rightarrow> string \<Rightarrow> json" where
  "stale_observation run setup symbol print = JObj
    [(''run_id'', JStr run), (''setup_id'', JStr setup), (''symbol'', JStr symbol), (''observation'', JStr ''STALE_STATE''), (''attempts'', JInt 2),
     (''economic_action'', JStr ''NONE''), (''decisive'', JBool False), (''candidate_fingerprint'', JStr print),
     (''conflict_policy_version'', JStr CONFLICT_POLICY_VERSION)]"

definition journal_warning :: "instant option \<Rightarrow> string \<Rightarrow> string \<Rightarrow> string \<Rightarrow> string \<Rightarrow> json \<Rightarrow> store \<Rightarrow> py_error + store" where
  "journal_warning t run symbol source ty p s = (case t of None \<Rightarrow> Inl (ValueError ''timezone-aware datetime required'')
     | Some x \<Rightarrow> Inr (add_event x (Some run) (Some symbol) source ty ''WARNING'' p s))"

definition after_double_stale ::
  "string \<Rightarrow> string \<Rightarrow> string \<Rightarrow> string \<Rightarrow> instant option \<Rightarrow> string option \<Rightarrow> (string \<times> json) list \<Rightarrow> string \<Rightarrow> store \<Rightarrow>
   py_error + conflict_result \<times> store" where
  "after_double_stale account run symbol setup as_of owner fs print s =
    (if unowned owner symbol s then Inl (RuntimeError ''conflict journal without slot ownership'')
     else ebind (has_outcome account run s) (\<lambda>decided.
       let obs = stale_observation run setup symbol print in
       ebind (if \<not> decided \<and> journal_of STALE_EVENT run s = []
              then journal_warning as_of run symbol CONFLICT_SOURCE STALE_EVENT obs s else Inr s) (\<lambda>s'.
         if decided then ebind (reconciled account run 2 fs print s') (\<lambda>r. Inr (r, s'))
         else Inr (conflict_outcome ''STALE'' ''STALE_STATE'' None None (Some obs) 2, s'))))"

section \<open>Submission\<close>

definition conflict_base :: "string \<Rightarrow> string \<Rightarrow> string \<Rightarrow> nat \<Rightarrow> conflict_decision \<Rightarrow> (string \<times> json) list" where
  "conflict_base run setup print n k =
    [(''run_id'', JStr run), (''setup_id'', JStr setup), (''candidate_fingerprint'', JStr print), (''attempt'', JInt (int n))]
    @ conflict_record k
    @ [(''risk_policy_version'', JNull), (''risk_status'', JStr ''NOT_EVALUATED''), (''risk_reason'', JNull), (''portfolio_risk_before'', JNull),
       (''proposed_reservation'', JNull), (''portfolio_risk_after'', JNull), (''portfolio_risk_limit'', JNull), (''order_id'', JNull)]"

definition decision_record :: "(string \<times> json) list \<Rightarrow> (string \<times> json) list \<Rightarrow> string \<Rightarrow> string \<Rightarrow> json" where
  "decision_record base risk decision execution =
    jmerge (JObj base) (risk @ [(''decision'', JStr decision), (''execution_status'', JStr execution)])"

text \<open>The result of a guarded journal write, or another attempt.\<close>

definition after_commit ::
  "string \<Rightarrow> string \<Rightarrow> nat \<Rightarrow> (string \<times> json) list \<Rightarrow> string \<Rightarrow> conflict_result \<Rightarrow> commit_result \<times> store \<Rightarrow> py_error + conflict_result option \<times> store" where
  "after_commit account run n fs print done c = (case fst c of
     COMMITTED \<Rightarrow> Inr (Some done, snd c)
   | STALE \<Rightarrow> Inr (None, snd c)
   | _ \<Rightarrow> ebind (reconciled account run n fs print (snd c)) (\<lambda>r. Inr (Some r, snd c)))"

definition conflict_attempt ::
  "(nat \<Rightarrow> string) \<Rightarrow> instant \<Rightarrow> conflict_request \<Rightarrow> trade_plan \<Rightarrow> string \<Rightarrow> (string \<times> json) list \<Rightarrow> string \<Rightarrow> nat \<Rightarrow> (store \<Rightarrow> store) \<Rightarrow> store \<Rightarrow>
   py_error + conflict_result option \<times> store" where
  "conflict_attempt oids now rq plan setup fs print n other s =
    (let run = fr_run_id (cq_report rq); symbol = fr_symbol (cq_report rq); account = cq_account rq; as_of = cq_as_of rq; owner = cq_owner rq
     in ebind (load_paper account s) (\<lambda>d. case d of (oa, ods, fills) \<Rightarrow>
       if run_order run ods \<noteq> None \<or> prior_decision run s \<noteq> None
       then ebind (reconciled account run n fs print (other s)) (\<lambda>r. Inr (Some r, other s))
       else
         let k = classify_conflict \<lparr>q_symbol = symbol, q_direction = tp_side plan, q_setup_id = Some setup, q_entry = tp_entry plan,
                   q_stop = tp_stop plan, q_target = tp_target plan, q_as_of = as_of\<rparr> oa ods;
             base = conflict_base run setup print n k
         in if \<not> k_allow k
            then let rec = decision_record base [] ''BLOCKED'' ''NOT_SUBMITTED'' in
              ebind (commit_decision_rows account (paper_state d) [(CONFLICT_SOURCE, CONFLICT_EVENT, rec)] as_of run owner symbol print (other s))
                (after_commit account run n fs print (conflict_outcome ''BLOCKED'' (k_reason k) (Some k) None (Some rec) n))
            else (case prepare_reservation (oids n) (cq_report rq) (cq_instrument rq) d as_of (Some setup) (cq_policy rq) True (cq_basis rq) of
              Prepared_Rejected why risk journal \<Rightarrow>
                let rec = decision_record base (risk_summary risk (cq_policy rq)) ''RISK_REJECTED'' ''NOT_SUBMITTED'' in
                ebind (commit_decision_rows account (paper_state d)
                    [(RISK_SOURCE, RISK_EVENT, JObj journal), (CONFLICT_SOURCE, CONFLICT_EVENT, rec)] as_of run owner symbol print (other s))
                  (after_commit account run n fs print (conflict_outcome ''RISK_REJECTED'' why (Some k) None (Some rec) n))
            | Prepared_Approved risk br od \<Rightarrow>
                let rec = jput ''order_id'' (JStr (o_id od)) (decision_record base (risk_summary risk (cq_policy rq)) ''RESERVED'' ''SUBMITTED'');
                    br' = log_event as_of run symbol (o_id od) CONFLICT_EVENT rec br
                in ebind (register_save now owner (Some symbol) (paper_state d) br' (other s)) (\<lambda>(saved, s').
                  Inr (if saved then Some (conflict_outcome ''RESERVED'' ''approved'' (Some k) (Some od) (Some rec) n) else None, s')))))"

definition submit_with_conflict_control ::
  "(json \<Rightarrow> string) \<Rightarrow> (json \<Rightarrow> string) \<Rightarrow> (nat \<Rightarrow> string) \<Rightarrow> (store \<Rightarrow> store) \<times> (store \<Rightarrow> store) \<Rightarrow> instant \<Rightarrow> conflict_request \<Rightarrow> store \<Rightarrow>
   py_error + conflict_result \<times> store" where
  "submit_with_conflict_control ident hash oids others now rq s =
    (let run = fr_run_id (cq_report rq); symbol = fr_symbol (cq_report rq); account = cq_account rq in
     if \<not> stamps_registered_semantics (cq_policy rq) then Inr (not_submitted ''RISK_POLICY_NOT_REGISTERED'' 0, s)
     else (case candidate_id ident (cq_report rq) (cq_setup rq) of
       Inl invalid \<Rightarrow> Inr (not_submitted invalid 0, s)
     | Inr (plan, setup) \<Rightarrow>
       (case candidate_fields symbol plan (cq_instrument rq) account setup (cq_policy rq) of
         Inl _ \<Rightarrow> Inr (not_submitted ''candidate_identity_invalid'' 0, s)
       | Inr fs \<Rightarrow>
         let print = hash (JObj fs) in
         ebind (claim_run (cq_owner rq) run symbol fs print (cq_as_of rq) (has_outcome account run) s) (\<lambda>(c, s0).
           if c = MISMATCH then Inr (not_submitted ''RUN_ID_CANDIDATE_MISMATCH'' 0, s0)
           else if c = UNKNOWN_HISTORY then Inr (not_submitted ''RUN_ID_IDENTITY_UNKNOWN'' 0, s0)
           else ebind (conflict_attempt oids now rq plan setup fs print 1 (fst others) s0) (\<lambda>(r1, s1). case r1 of
             Some r \<Rightarrow> Inr (r, s1)
           | None \<Rightarrow> ebind (conflict_attempt oids now rq plan setup fs print 2 (snd others) s1) (\<lambda>(r2, s2). case r2 of
               Some r \<Rightarrow> Inr (r, s2)
             | None \<Rightarrow> after_double_stale account run symbol setup (cq_as_of rq) (cq_owner rq) fs print s2))))))"

section \<open>Facts\<close>

text \<open>Journal writes leave the PAPER tables alone.\<close>

definition paper_tables where
  "paper_tables s = (s_accounts s, s_orders s, s_fills s, s_positions s, s_trades s)"

lemma tables_load: "paper_tables s' = paper_tables s \<Longrightarrow> load_paper aid s' = load_paper aid s"
proof -
  assume t: "paper_tables s' = paper_tables s"
  then have "load_account aid s' = load_account aid s" "open_rows s' = open_rows s"
    by (simp_all add: paper_tables_def load_account_def open_rows_def)
  then show ?thesis using t unfolding load_paper_def by (simp only: paper_tables_def prod.inject)
qed

lemma tables_ok: "paper_tables s' = paper_tables s \<Longrightarrow> paper_ok s' = paper_ok s"
  by (simp add: paper_tables_def paper_ok_def)

lemma tables_world:
  assumes "paper_tables s' = paper_tables s" shows "world_ok oids aid s' = world_ok oids aid s"
  using tables_load [OF assms] tables_ok [OF assms] assms by (simp add: world_ok_def paper_inv_def paper_tables_def)

text \<open>A journal write: the PAPER tables stay, the journal grows.\<close>

definition journal_only :: "store \<Rightarrow> store \<Rightarrow> bool" where
  "journal_only s s' \<longleftrightarrow> paper_tables s' = paper_tables s \<and> (\<exists>rows. s_journal s' = s_journal s @ rows)"

lemma journal_only_refl: "journal_only s s"
  by (simp add: journal_only_def)

lemma journal_only_eq: "s' = s \<Longrightarrow> journal_only s s'"
  by (simp add: journal_only_refl)

lemma journal_only_trans: "journal_only a b \<Longrightarrow> journal_only b c \<Longrightarrow> journal_only a c"
  unfolding journal_only_def by (metis append.assoc)

lemma journal_event_only: "journal_event_at t r y c ty p s = Inr s' \<Longrightarrow> journal_only s s'"
  by (auto simp: journal_event_at_def journal_only_def paper_tables_def split: option.splits)

lemma journal_rows_only:
  "efold (\<lambda>(source, event, p). journal_event_at t (Some run) (Some symbol) source event p) rows s = Inr s' \<Longrightarrow> journal_only s s'"
proof (induction rows arbitrary: s)
  case (Cons row rows)
  then show ?case
    using journal_event_only journal_only_trans by (fastforce simp: ebind_eq_Inr split: prod.splits)
qed (simp add: journal_only_refl)

lemma commit_rows_only: "commit_decision_rows account v rows as_of run owner symbol print s = Inr (c, s') \<Longrightarrow> journal_only s s'"
  using journal_rows_only journal_only_refl by (auto simp: commit_decision_rows_def ebind_eq_Inr split: if_splits)

lemma claim_only: "claim_run owner run symbol fs print as_of h s = Inr (c, s') \<Longrightarrow> journal_only s s'"
  using journal_event_only journal_only_refl by (auto simp: claim_run_def ebind_eq_Inr split: if_splits option.splits)

lemma reconciled_status: "reconciled account run n fs print s = Inr r \<Longrightarrow> cr_status r \<noteq> ''RESERVED''"
  by (auto simp: reconciled_def ebind_eq_Inr Let_def not_submitted_def conflict_outcome_def split: if_splits)

lemma after_commit_Inr:
  assumes "after_commit account run n fs print done c = Inr (r, s')" and "cr_status done \<noteq> ''RESERVED''"
  shows "s' = snd c" and "r = Some x \<Longrightarrow> cr_status x \<noteq> ''RESERVED''"
  using assms reconciled_status by (auto simp: after_commit_def ebind_eq_Inr split: commit_result.splits)

lemma stale_only:
  assumes "after_double_stale account run symbol setup as_of owner fs print s = Inr (r, s')"
  shows "journal_only s s'" and "cr_status r \<noteq> ''RESERVED''"
  using assms reconciled_status
  by (auto simp: after_double_stale_def ebind_eq_Inr Let_def journal_warning_def journal_only_def paper_tables_def conflict_outcome_def
        split: if_splits option.splits)

text \<open>An attempt either leaves the PAPER tables to the others, or commits the order it prepared on the state it loaded.\<close>

lemma attempt_cases:
  assumes "conflict_attempt oids now rq plan setup fs print n other s = Inr (r, s')"
  obtains (quiet) "journal_only (other s) s'" "\<And>x. r = Some x \<Longrightarrow> cr_status x \<noteq> ''RESERVED''"
  | (reserved) oa ods fills k risk br od rec x where "load_paper (cq_account rq) s = Inr (oa, ods, fills)"
      "run_order (fr_run_id (cq_report rq)) ods = None"
      "k = classify_conflict \<lparr>q_symbol = fr_symbol (cq_report rq), q_direction = tp_side plan, q_setup_id = Some setup,
         q_entry = tp_entry plan, q_stop = tp_stop plan, q_target = tp_target plan, q_as_of = cq_as_of rq\<rparr> oa ods" "k_allow k"
      "prepare_reservation (oids n) (cq_report rq) (cq_instrument rq) (oa, ods, fills) (cq_as_of rq) (Some setup) (cq_policy rq) True (cq_basis rq)
         = Prepared_Approved risk br od"
      "register_save now (cq_owner rq) (Some (fr_symbol (cq_report rq))) (paper_state (oa, ods, fills))
         (log_event (cq_as_of rq) (fr_run_id (cq_report rq)) (fr_symbol (cq_report rq)) (o_id od) CONFLICT_EVENT rec br) (other s) = Inr (True, s')"
      "r = Some x" "cr_status x = ''RESERVED''" "cr_order x = Some od"
proof -
  let ?run = "fr_run_id (cq_report rq)" and ?symbol = "fr_symbol (cq_report rq)"
  obtain oa ods fills where d: "load_paper (cq_account rq) s = Inr (oa, ods, fills)"
    using assms by (auto simp: conflict_attempt_def Let_def ebind_eq_Inr)
  define k where "k = classify_conflict \<lparr>q_symbol = ?symbol, q_direction = tp_side plan, q_setup_id = Some setup,
         q_entry = tp_entry plan, q_stop = tp_stop plan, q_target = tp_target plan, q_as_of = cq_as_of rq\<rparr> oa ods"
  note body = assms [unfolded conflict_attempt_def d ebind_Inr Let_def prod.case k_def [symmetric]]
  have journal: thesis
    if "commit_decision_rows account v rows as_of run owner symbol print (other s) = Inr c"
      "after_commit account' run' n' fs' print' done c = Inr (r, s')" "cr_status done \<noteq> ''RESERVED''"
    for account v rows as_of run owner symbol print c account' run' n' fs' print' "done"
  proof (rule quiet)
    show "journal_only (other s) s'"
      using that(1) commit_rows_only [of _ _ _ _ _ _ _ _ _ "fst c" "snd c"] after_commit_Inr(1) [OF that(2,3)] by simp
    show "cr_status x \<noteq> ''RESERVED''" if "r = Some x" for x
      using after_commit_Inr(2) [OF \<open>after_commit account' run' n' fs' print' done c = Inr (r, s')\<close> \<open>cr_status done \<noteq> ''RESERVED''\<close> that] .
  qed
  show thesis
  proof (cases "run_order ?run ods \<noteq> None \<or> prior_decision ?run s \<noteq> None")
    case True
    then show thesis using body quiet [OF journal_only_eq] reconciled_status by (auto simp: ebind_eq_Inr)
  next
    case False
    note body = body [unfolded if_not_P [OF False]]
    show thesis
    proof (cases "k_allow k")
      case blocked: False
      then show thesis using body by (auto simp: ebind_eq_Inr intro!: journal simp: conflict_outcome_def)
    next
      case True
      show thesis
      proof (cases "prepare_reservation (oids n) (cq_report rq) (cq_instrument rq) (oa, ods, fills) (cq_as_of rq) (Some setup) (cq_policy rq) True (cq_basis rq)")
        case (Prepared_Rejected why risk journal_record)
        then show thesis using body True by (auto simp: ebind_eq_Inr intro!: journal simp: conflict_outcome_def)
      next
        case (Prepared_Approved risk br od)
        define rec where "rec = jput ''order_id'' (JStr (o_id od)) (decision_record (conflict_base ?run setup print n k) (risk_summary risk (cq_policy rq)) ''RESERVED'' ''SUBMITTED'')"
        define br' where "br' = log_event (cq_as_of rq) ?run ?symbol (o_id od) CONFLICT_EVENT rec br"
        note body = body [unfolded Prepared_Approved prepared.case Let_def rec_def [symmetric] br'_def [symmetric]]
        obtain saved where reg: "register_save now (cq_owner rq) (Some ?symbol) (paper_state (oa, ods, fills)) br' (other s) = Inr (saved, s')"
          "r = (if saved then Some (conflict_outcome ''RESERVED'' ''approved'' (Some k) (Some od) (Some rec) n) else None)"
          using body True by (auto simp: ebind_eq_Inr)
        show thesis
        proof (cases saved)
          case saved: True
          have r: "run_order ?run ods = None" "r = Some (conflict_outcome ''RESERVED'' ''approved'' (Some k) (Some od) (Some rec) n)"
            using False reg(2) saved by auto
          show thesis
            by (rule reserved [OF d r(1) k_def True Prepared_Approved _ r(2)])
              (use reg(1) saved in \<open>simp_all add: br'_def conflict_outcome_def\<close>)
        next
          case stale: False
          obtain b where "save_paper (cq_owner rq) (Some ?symbol) (Some (paper_state (oa, ods, fills))) now br' (other s) = Inr (False, s', b)"
            using reg(1) stale by (auto simp: register_save_Inr)
          then have "s' = other s" by (auto elim: save_paper_cases)
          then show thesis using quiet [OF journal_only_eq] reg(2) stale by simp
        qed
      qed
    qed
  qed
qed

lemma attempt_journal:
  assumes "conflict_attempt oids now rq plan setup fs print n other s = Inr (r, s')"
  shows "\<exists>rows. s_journal s' = s_journal (other s) @ rows"
  using assms
proof (rule attempt_cases)
  fix oa ods fills risk br od rec
  assume "register_save now (cq_owner rq) (Some (fr_symbol (cq_report rq))) (paper_state (oa, ods, fills))
         (log_event (cq_as_of rq) (fr_run_id (cq_report rq)) (fr_symbol (cq_report rq)) (o_id od) CONFLICT_EVENT rec br) (other s) = Inr (True, s')"
  then show ?thesis unfolding register_save_Inr using save_paper_frame by blast
qed (simp add: journal_only_def)

text \<open>The first claim of a run stays its claim as long as the journal only grows.\<close>

lemma claim_grows:
  assumes "claimed_fingerprint run s = Some f" and "s_journal s' = s_journal s @ rows"
  shows "claimed_fingerprint run s' = Some f"
  using assms by (auto simp: claimed_fingerprint_def journal_of_def split: list.splits)

lemma fingerprint_is_public: "\<not> secret_key ''fingerprint''"
  by code_simp

lemma claim_run_cases:
  assumes "claim_run owner run symbol fs print as_of h s = Inr (c, s')"
  obtains "c = SAME" "s' = s" "claimed_fingerprint run s = Some (JStr print)"
  | f where "c = MISMATCH" "s' = s" "claimed_fingerprint run s = Some f" "f \<noteq> JStr print"
  | "c = UNKNOWN_HISTORY" "s' = s" "claimed_fingerprint run s = None"
  | "c = CLAIMED" "claimed_fingerprint run s' = Some (JStr print)"
proof (cases "claimed_fingerprint run s")
  case (Some f)
  then show thesis using assms that(1,2) by (auto simp: claim_run_def split: if_splits)
next
  case None
  then have no: "filter (\<lambda>r. j_type r = CLAIM_EVENT \<and> j_run_id r = Some run) (s_journal s) = []"
    by (simp add: claimed_fingerprint_def journal_of_def split: list.splits)
  obtain h' where h: "h s = Inr h'" "\<not> unowned owner symbol s"
    using assms None by (auto simp: claim_run_def ebind_eq_Inr split: if_splits)
  show thesis
  proof (cases h')
    case True
    then show thesis using assms None h that(3) by (simp add: claim_run_def)
  next
    case False
    then obtain t where "as_of = Some t" "c = CLAIMED" "s' = add_event t (Some run) (Some symbol) ''conflict_engine'' CLAIM_EVENT ''INFO''
        (JObj [(''fingerprint_version'', JStr FINGERPRINT_VERSION), (''fingerprint'', JStr print), (''candidate'', JObj fs),
          (''economic_action'', JStr ''NONE''), (''decisive'', JBool False)]) s"
      using assms None h by (auto simp: claim_run_def ebind_eq_Inr journal_event_at_def split: option.splits)
    then show thesis using that(4) no fingerprint_is_public by (simp add: claimed_fingerprint_def journal_of_def add_event_def)
  qed
qed

text \<open>A submission past its validation: the claim, then at most two attempts.\<close>

lemma submit_cases:
  assumes "submit_with_conflict_control ident hash oids others now rq s = Inr (r, s')"
  obtains (unsubmitted) "cr_status r = ''NOT_SUBMITTED''" "cr_attempts r = 0" "s' = s"
  | (first) plan sid fs c s0 where "candidate_id ident (cq_report rq) (cq_setup rq) = Inr (plan, sid)"
      "candidate_fields (fr_symbol (cq_report rq)) plan (cq_instrument rq) (cq_account rq) sid (cq_policy rq) = Inr fs"
      "claim_run (cq_owner rq) (fr_run_id (cq_report rq)) (fr_symbol (cq_report rq)) fs (hash (JObj fs)) (cq_as_of rq)
         (has_outcome (cq_account rq) (fr_run_id (cq_report rq))) s = Inr (c, s0)" "c = CLAIMED \<or> c = SAME"
      "conflict_attempt oids now rq plan sid fs (hash (JObj fs)) 1 (fst others) s0 = Inr (Some r, s')"
  | (second) plan sid fs c s0 s1 where "candidate_id ident (cq_report rq) (cq_setup rq) = Inr (plan, sid)"
      "candidate_fields (fr_symbol (cq_report rq)) plan (cq_instrument rq) (cq_account rq) sid (cq_policy rq) = Inr fs"
      "claim_run (cq_owner rq) (fr_run_id (cq_report rq)) (fr_symbol (cq_report rq)) fs (hash (JObj fs)) (cq_as_of rq)
         (has_outcome (cq_account rq) (fr_run_id (cq_report rq))) s = Inr (c, s0)" "c = CLAIMED \<or> c = SAME"
      "conflict_attempt oids now rq plan sid fs (hash (JObj fs)) 1 (fst others) s0 = Inr (None, s1)"
      "conflict_attempt oids now rq plan sid fs (hash (JObj fs)) 2 (snd others) s1 = Inr (Some r, s')"
  | (stale) plan sid fs c s0 s1 s2 where "candidate_id ident (cq_report rq) (cq_setup rq) = Inr (plan, sid)"
      "candidate_fields (fr_symbol (cq_report rq)) plan (cq_instrument rq) (cq_account rq) sid (cq_policy rq) = Inr fs"
      "claim_run (cq_owner rq) (fr_run_id (cq_report rq)) (fr_symbol (cq_report rq)) fs (hash (JObj fs)) (cq_as_of rq)
         (has_outcome (cq_account rq) (fr_run_id (cq_report rq))) s = Inr (c, s0)" "c = CLAIMED \<or> c = SAME"
      "conflict_attempt oids now rq plan sid fs (hash (JObj fs)) 1 (fst others) s0 = Inr (None, s1)"
      "conflict_attempt oids now rq plan sid fs (hash (JObj fs)) 2 (snd others) s1 = Inr (None, s2)"
      "after_double_stale (cq_account rq) (fr_run_id (cq_report rq)) (fr_symbol (cq_report rq)) sid (cq_as_of rq) (cq_owner rq) fs
         (hash (JObj fs)) s2 = Inr (r, s')"
proof -
  show thesis
  proof (cases "stamps_registered_semantics (cq_policy rq)")
    case False
    then show thesis using assms unsubmitted by (auto simp: submit_with_conflict_control_def not_submitted_def conflict_outcome_def)
  next
    case reg: True
    show thesis
    proof (cases "candidate_id ident (cq_report rq) (cq_setup rq)")
      case (Inl e)
      then show thesis using assms reg unsubmitted by (auto simp: submit_with_conflict_control_def not_submitted_def conflict_outcome_def)
    next
      case (Inr ps)
      obtain plan sid where ps: "ps = (plan, sid)" by fastforce
      show thesis
      proof (cases "candidate_fields (fr_symbol (cq_report rq)) plan (cq_instrument rq) (cq_account rq) sid (cq_policy rq)")
        case (Inl e)
        then show thesis using assms reg Inr ps unsubmitted
          by (auto simp: submit_with_conflict_control_def not_submitted_def conflict_outcome_def)
      next
        case fs: (Inr fs)
        note body = assms [unfolded submit_with_conflict_control_def Let_def Inr ps, unfolded sum.case prod.case, unfolded fs sum.case]
        note body = body [unfolded eqTrueI [OF reg] not_True_eq_False if_False]
        obtain c s0 where c: "claim_run (cq_owner rq) (fr_run_id (cq_report rq)) (fr_symbol (cq_report rq)) fs (hash (JObj fs)) (cq_as_of rq)
             (has_outcome (cq_account rq) (fr_run_id (cq_report rq))) s = Inr (c, s0)"
          using body by (auto simp: ebind_eq_Inr)
        show thesis
        proof (cases "c = CLAIMED \<or> c = SAME")
          case False
          then have "c = MISMATCH \<or> c = UNKNOWN_HISTORY" by (cases c) auto
          moreover from c this have "s0 = s" by (auto elim: claim_run_cases)
          ultimately show thesis using body c unsubmitted by (auto simp: not_submitted_def conflict_outcome_def)
        next
          case True
          obtain r1 s1 where a1: "conflict_attempt oids now rq plan sid fs (hash (JObj fs)) 1 (fst others) s0 = Inr (r1, s1)"
            using body c True by (auto simp: ebind_eq_Inr)
          show thesis
          proof (cases r1)
            case (Some x)
            then show thesis using body c True a1 first [OF Inr [unfolded ps] fs c True] by auto
          next
            case None
            then obtain r2 s2 where a2: "conflict_attempt oids now rq plan sid fs (hash (JObj fs)) 2 (snd others) s1 = Inr (r2, s2)"
              using body c True a1 by (auto simp: ebind_eq_Inr)
            show thesis
            proof (cases r2)
              case (Some x)
              then show thesis using body c True a1 a2 None second [OF Inr [unfolded ps] fs c True] by auto
            next
              case n: None
              then show thesis using body c True a1 a2 None stale [OF Inr [unfolded ps] fs c True] by auto
            qed
          qed
        qed
      qed
    qed
  qed
qed

text \<open>Every outcome that reached an attempt holds the run's claim, and other writers cannot take it back.\<close>

lemma attempted_claim:
  assumes "submit_with_conflict_control ident hash oids others now rq s = Inr (r, s')" and "0 < cr_attempts r"
    and rely: "\<forall>f \<in> {fst others, snd others}. \<forall>t. \<exists>rows. s_journal (f t) = s_journal t @ rows"
  obtains plan sid fs where "candidate_id ident (cq_report rq) (cq_setup rq) = Inr (plan, sid)"
    "candidate_fields (fr_symbol (cq_report rq)) plan (cq_instrument rq) (cq_account rq) sid (cq_policy rq) = Inr fs"
    "claimed_fingerprint (fr_run_id (cq_report rq)) s' = Some (JStr (hash (JObj fs)))"
proof -
  let ?run = "fr_run_id (cq_report rq)"
  have claimed: "claimed_fingerprint ?run s0 = Some (JStr print)"
    if "claim_run owner ?run symbol fs print as_of h s = Inr (c, s0)" "c = CLAIMED \<or> c = SAME" for owner symbol fs print as_of h c s0
    using that by (auto elim: claim_run_cases)
  have attempt: "claimed_fingerprint ?run t' = Some f"
    if "conflict_attempt oids now rq plan sid fs print n g t = Inr (x, t')" "g = fst others \<or> g = snd others" "claimed_fingerprint ?run t = Some f"
    for plan sid fs print n g t x t' f
  proof -
    note a = that
    obtain rows rows' where "s_journal t' = s_journal (g t) @ rows'" "s_journal (g t) = s_journal t @ rows"
      using attempt_journal [OF a(1)] rely a(2) by blast
    then show ?thesis using claim_grows [OF a(3), of t' "rows @ rows'"] by simp
  qed
  show thesis
    using assms(1)
  proof (cases rule: submit_cases)
    case unsubmitted
    then show thesis using assms(2) by simp
  next
    case (first plan sid fs c s0)
    show thesis by (rule that [OF first(1,2) attempt [OF first(5) _ claimed [OF first(3,4)]]]) simp
  next
    case (second plan sid fs c s0 s1)
    have "claimed_fingerprint ?run s1 = Some (JStr (hash (JObj fs)))" by (rule attempt [OF second(5) _ claimed [OF second(3,4)]]) simp
    then show thesis by (intro that [OF second(1,2)] attempt [OF second(6)]) simp_all
  next
    case (stale plan sid fs c s0 s1 s2)
    have "claimed_fingerprint ?run s1 = Some (JStr (hash (JObj fs)))" by (rule attempt [OF stale(5) _ claimed [OF stale(3,4)]]) simp
    then have "claimed_fingerprint ?run s2 = Some (JStr (hash (JObj fs)))" by (intro attempt [OF stale(6)]) simp_all
    moreover obtain rows where "s_journal s' = s_journal s2 @ rows" using stale_only(1) [OF stale(7)] by (auto simp: journal_only_def)
    ultimately show thesis using that [OF stale(1,2)] claim_grows by blast
  qed
qed

lemma mismatch_is_refused:
  assumes "claimed_fingerprint run s = Some f" and "fr_run_id (cq_report rq) = run" and "f \<noteq> JStr (hash (JObj fs))"
    and "candidate_id ident (cq_report rq) (cq_setup rq) = Inr (plan, sid)"
    and "candidate_fields (fr_symbol (cq_report rq)) plan (cq_instrument rq) (cq_account rq) sid (cq_policy rq) = Inr fs"
    and "stamps_registered_semantics (cq_policy rq)" and "\<not> unowned (cq_owner rq) (fr_symbol (cq_report rq)) s"
  shows "submit_with_conflict_control ident hash oids others now rq s = Inr (not_submitted ''RUN_ID_CANDIDATE_MISMATCH'' 0, s)"
  using assms by (simp add: submit_with_conflict_control_def claim_run_def)

section \<open>Properties\<close>

text \<open>
  C26. A run stands for one candidate. Once a submission of a run has reached an attempt, the run's claim is the fingerprint
  of its candidate, whatever other writers append meanwhile, and it stays so through every later write of the
  store; a later submission of the run with another fingerprint (another plan, level, instrument, account,
  setup or policy) is refused and writes nothing.
\<close>

theorem a_run_has_one_candidate:
  assumes "submit_with_conflict_control ident hash oids others now rq s = Inr (r, s')" and "0 < cr_attempts r"
    and "\<forall>f \<in> {fst others, snd others}. \<forall>t. \<exists>rows. s_journal (f t) = s_journal t @ rows"
    and "slots_ok s'" and "store_step\<^sup>*\<^sup>* s' s''"
  shows "\<exists>plan sid fs. candidate_id ident (cq_report rq) (cq_setup rq) = Inr (plan, sid)
    \<and> candidate_fields (fr_symbol (cq_report rq)) plan (cq_instrument rq) (cq_account rq) sid (cq_policy rq) = Inr fs
    \<and> claimed_fingerprint (fr_run_id (cq_report rq)) s'' = Some (JStr (hash (JObj fs)))
    \<and> (\<forall>rq2 plan2 sid2 fs2 oids2 others2 now2. fr_run_id (cq_report rq2) = fr_run_id (cq_report rq)
        \<and> candidate_id ident (cq_report rq2) (cq_setup rq2) = Inr (plan2, sid2)
        \<and> candidate_fields (fr_symbol (cq_report rq2)) plan2 (cq_instrument rq2) (cq_account rq2) sid2 (cq_policy rq2) = Inr fs2
        \<and> hash (JObj fs2) \<noteq> hash (JObj fs) \<and> stamps_registered_semantics (cq_policy rq2)
        \<and> \<not> unowned (cq_owner rq2) (fr_symbol (cq_report rq2)) s''
        \<longrightarrow> submit_with_conflict_control ident hash oids2 others2 now2 rq2 s'' = Inr (not_submitted ''RUN_ID_CANDIDATE_MISMATCH'' 0, s''))"
proof -
  obtain plan sid fs where c: "candidate_id ident (cq_report rq) (cq_setup rq) = Inr (plan, sid)"
    "candidate_fields (fr_symbol (cq_report rq)) plan (cq_instrument rq) (cq_account rq) sid (cq_policy rq) = Inr fs"
    "claimed_fingerprint (fr_run_id (cq_report rq)) s' = Some (JStr (hash (JObj fs)))"
    using attempted_claim [OF assms(1-3)] by blast
  obtain rows where "s_journal s'' = s_journal s' @ rows"
    using store_steps_ok [OF assms(5,4)] by (auto simp: history_kept_def)
  with c(3) have claim: "claimed_fingerprint (fr_run_id (cq_report rq)) s'' = Some (JStr (hash (JObj fs)))" by (rule claim_grows)
  have "submit_with_conflict_control ident hash oids2 others2 now2 rq2 s'' = Inr (not_submitted ''RUN_ID_CANDIDATE_MISMATCH'' 0, s'')"
    if "fr_run_id (cq_report rq2) = fr_run_id (cq_report rq)" "candidate_id ident (cq_report rq2) (cq_setup rq2) = Inr (plan2, sid2)"
      "candidate_fields (fr_symbol (cq_report rq2)) plan2 (cq_instrument rq2) (cq_account rq2) sid2 (cq_policy rq2) = Inr fs2"
      "hash (JObj fs2) \<noteq> hash (JObj fs)" "stamps_registered_semantics (cq_policy rq2)"
      "\<not> unowned (cq_owner rq2) (fr_symbol (cq_report rq2)) s''"
    for rq2 plan2 sid2 fs2 oids2 others2 now2
    by (rule mismatch_is_refused [OF claim that(1) _ that(2,3,5,6)]) (use that(4) in simp)
  then show ?thesis using c(1,2) claim by blast
qed

section \<open>One exposure per symbol\<close>

definition single_exposure :: "string \<Rightarrow> store \<Rightarrow> bool" where
  "single_exposure aid s \<longleftrightarrow> (\<forall>a ods fs sy. load_paper aid s = Inr (Some a, ods, fs) \<longrightarrow> length (exposures_for sy (Some a) ods) \<le> 1)"

lemma sorted_values_mset:
  assumes "dkeys_ok ods" shows "mset (List.map_filter (dget ods) (sort (map fst ods))) = mset (dvals ods)"
proof -
  have "mset (List.map_filter (dget ods) (sort (map fst ods))) = mset (List.map_filter (dget ods) (map fst ods))"
    by (simp add: List.map_filter_def mset_filter)
  moreover have "List.map_filter (dget ods) (map fst xs) = dvals xs" if "set xs \<subseteq> set ods" for xs
    using that
  proof (induction xs)
    case (Cons x xs)
    then have "dget ods (fst x) = Some (snd x)" using assms by (cases x) (simp add: dkeys_ok_def)
    then show ?case using Cons by (simp add: List.map_filter_simps dvals_def)
  qed (simp add: dvals_def List.map_filter_simps)
  ultimately show ?thesis by simp
qed

lemma exposures_length:
  assumes "dkeys_ok ods"
  shows "length (exposures_for sy (Some a) ods) = (case dget (a_open_positions a) sy of None \<Rightarrow> 0 | Some _ \<Rightarrow> 1)
    + size (filter_mset (\<lambda>od. o_symbol od = sy \<and> o_status od = PENDING) (mset (dvals ods)))"
proof -
  let ?P = "\<lambda>od. o_symbol od = sy \<and> o_status od = PENDING"
  have "length (filter ?P (List.map_filter (dget ods) (sort (map fst ods)))) = size (filter_mset ?P (mset (dvals ods)))"
    unfolding sorted_values_mset [OF assms, symmetric] by (simp flip: mset_filter)
  then show ?thesis by (simp add: exposures_for_def split: option.splits)
qed

lemma load_positions:
  assumes "load_paper aid s = Inr (Some a, ods, fs)"
  obtains ps where "a_open_positions a = map (\<lambda>p. (p_symbol p, p)) ps" "distinct (map p_symbol ps)"
proof -
  obtain ps where "a_open_positions a = dict_by p_symbol ps" "distinct (map p_symbol ps)"
    using assms by (auto simp: load_paper_def ebind_eq_Inr split: option.splits if_splits)
  then show thesis using that by (simp add: dict_by_distinct)
qed

lemma position_of_symbol:
  assumes "load_paper aid s = Inr (Some a, ods, fs)"
  shows "dget (a_open_positions a) sy = None \<longleftrightarrow> (\<forall>p \<in> set (dvals (a_open_positions a)). p_symbol p \<noteq> sy)"
proof -
  obtain ps where "a_open_positions a = map (\<lambda>p. (p_symbol p, p)) ps" using load_positions [OF assms] by blast
  then have "fst ` set (a_open_positions a) = p_symbol ` set (dvals (a_open_positions a))" by (simp add: dvals_def image_image)
  then show ?thesis by (auto simp: map_of_eq_None_iff)
qed

text \<open>The exposures of a symbol in a loaded state are counted by the state's positions and orders alone.\<close>

lemma exposures_count:
  assumes "paper_ok s" and "load_paper aid s = Inr (Some a, ods, fs)"
  shows "length (exposures_for sy (Some a) ods) = (if \<exists>p \<in># mset (dvals (a_open_positions a)). p_symbol p = sy then 1 else 0)
    + size (filter_mset (\<lambda>od. o_symbol od = sy \<and> o_status od = PENDING) (mset (dvals ods)))"
  unfolding exposures_length [OF load_some(6) [OF assms]] using position_of_symbol [OF assms(2), of sy] by (auto split: option.splits)

lemma exposures_one:
  assumes "paper_ok s" and "load_paper aid s = Inr (Some a, ods, fs)" and "\<forall>p \<in># mset (dvals (a_open_positions a)). p_symbol p \<noteq> sy"
    and "filter_mset (\<lambda>od. o_symbol od = sy \<and> o_status od = PENDING) (mset (dvals ods)) = {#od#}"
  shows "exposures_for sy (Some a) ods = [order_exposure od]"
proof -
  let ?xs = "List.map_filter (dget ods) (sort (map fst ods))"
  have "mset (filter (\<lambda>od. o_symbol od = sy \<and> o_status od = PENDING) ?xs) = {#od#}"
    using assms(4) unfolding sorted_values_mset [OF load_some(6) [OF assms(1,2)], symmetric] by (simp only: mset_filter)
  then have "filter (\<lambda>od. o_symbol od = sy \<and> o_status od = PENDING) ?xs = [od]" unfolding mset_single_iff .
  moreover have "dget (a_open_positions a) sy = None" using assms(3) position_of_symbol [OF assms(2)] by simp
  ultimately show ?thesis by (simp add: exposures_for_def)
qed

lemma allowed_is_free: "k_allow (classify_conflict q oa ods) \<Longrightarrow> exposures_for (q_symbol q) oa ods = []"
  by (auto simp: classify_conflict_def decide_conflict_def Let_def split: list.splits if_splits)

lemma candidate_lineage:
  "candidate_id ident report a = Inr (plan, sid) \<Longrightarrow> fr_trade_plan report = Some plan \<and> tp_symbol plan = fr_symbol report"
  by (auto simp: candidate_id_def Let_def split: option.splits if_splits)

text \<open>What a reservation leaves on its symbol.\<close>

definition only_exposure :: "conflict_request \<Rightarrow> string \<Rightarrow> paper_order \<Rightarrow> store \<Rightarrow> bool" where
  "only_exposure rq sid od s \<longleftrightarrow> (\<exists>a ods fs. load_paper (cq_account rq) s = Inr (Some a, ods, fs) \<and> od \<in> set (dvals ods)
     \<and> o_symbol od = fr_symbol (cq_report rq) \<and> exposures_for (fr_symbol (cq_report rq)) (Some a) ods = [order_exposure od]
     \<and> o_status od = PENDING \<and> o_setup_id od = Some sid \<and> o_risk_policy_version od = Some (rp_version (cq_policy rq)))"

lemma attempt_reserves:
  assumes att: "conflict_attempt oids now rq plan sid fs print n other s = Inr (r, s')"
    and plan: "fr_trade_plan (cq_report rq) = Some plan" "tp_symbol plan = fr_symbol (cq_report rq)"
    and w: "world_ok oids (cq_account rq) s" "world_ok oids (cq_account rq) (other s)"
    and one: "single_exposure (cq_account rq) s" "single_exposure (cq_account rq) (other s)"
  obtains (quiet) "journal_only (other s) s'" "\<And>x. r = Some x \<Longrightarrow> cr_status x \<noteq> ''RESERVED''"
  | (reserved) od x where "r = Some x" "cr_order x = Some od" "only_exposure rq sid od s'" "single_exposure (cq_account rq) s'"
  using att
proof (cases rule: attempt_cases)
  case quiet
  then show thesis using that(1) by blast
next
  case (reserved oa ods fills k risk br od rec x)
  let ?aid = "cq_account rq" and ?sy = "fr_symbol (cq_report rq)"
  obtain a where oa: "oa = Some a" using reserved(5) prepare_needs_account by (cases oa) blast+
  have ok: "paper_inv ?aid s" "paper_ok s" "paper_ok (other s)" "dget (s_orders s) (oids n) = None"
    using w by (simp_all add: world_ok_def paper_inv_def)
  note ld = reserved(1) [unfolded oa] and prep = reserved(5) [unfolded oa]
  have nf: "find (\<lambda>od. o_run_id od = fr_run_id (cq_report rq)) (dvals ods) = None" using reserved(2) by (simp add: run_order_def)
  note fresh = loaded_id_fresh [OF ok(2) ld ok(4)]
  obtain dec plan' where p: "fr_trade_plan (cq_report rq) = Some plan'" "br_account br = a" "br_orders br = dput (oids n) od ods" "br_fills br = fills"
    "od = stamp_order (cq_policy rq) True (Some sid) (order_of_decision (oids n) (loaded_broker a (cq_instrument rq) (cq_policy rq) ods fills)
       ((cq_report rq)\<lparr>fr_risk_decision := Some dec\<rparr>) plan' dec)"
    "valid_side (o_side od)" "o_symbol od = tp_symbol plan'"
    by (rule prepare_approved [OF prep nf fresh(1)])
  have od: "o_id od = oids n" "o_status od = PENDING" "o_setup_id od = Some sid" "o_risk_policy_version od = Some (rp_version (cq_policy rq))"
    "o_symbol od = ?sy"
    using p(1,7) plan unfolding p(5) by (simp_all add: stamp_order_def order_of_decision_def)
  obtain a0 where a0: "a_id a0 = ?aid" "a = a0\<lparr>a_open_positions := a_open_positions a, a_closed_trades := a_closed_trades a\<rparr>"
    using load_some(8) [OF ok(2) ld] by blast
  have aid: "a_id a = ?aid" using a0 by (metis paper_account.simps(1) paper_account.update_convs paper_account.surjective paper_account.select_convs(1))
  define br' where "br' = log_event (cq_as_of rq) (fr_run_id (cq_report rq)) ?sy (o_id od) CONFLICT_EVENT rec br"
  obtain b' where "save_paper (cq_owner rq) (Some ?sy) (Some (paper_state (Some a, ods, fills))) now br' (other s) = Inr (True, s', b')"
    using reserved(6) oa unfolding register_save_Inr br'_def by blast
  then have wr: "write_paper now br' (other s) = Inr s'" "stored_view ?aid (other s) = Some (paper_state (Some a, ods, fills))"
    using aid p(2) by (auto elim!: save_paper_cases simp: br'_def stored_view_def)
  obtain a' ods' fs' where f: "load_paper ?aid s' = Inr (Some a', ods', fs')" "paper_inv ?aid s'"
    "mset (dvals ods') = add_mset od (mset (dvals ods))" "mset (dvals (a_open_positions a')) = mset (dvals (a_open_positions a))"
    by (rule commit_adds_order [OF ok(1) ld ok(4,3) wr(2) _ _ _ p(6) od(1) wr(1)]) (simp_all add: br'_def p)
  have ok': "paper_ok s'" using f(2) by (simp add: paper_inv_def)
  note before = exposures_count [OF ok(2) ld] and after = exposures_count [OF ok' f(1)]
  have "exposures_for ?sy (Some a) ods = []" using allowed_is_free [OF reserved(4) [unfolded reserved(3)]] oa by simp
  with before [of ?sy] have free: "\<forall>p \<in># mset (dvals (a_open_positions a)). p_symbol p \<noteq> ?sy"
      "filter_mset (\<lambda>od. o_symbol od = ?sy \<and> o_status od = PENDING) (mset (dvals ods)) = {#}"
    by (auto split: if_splits)
  have "length (exposures_for sy (Some a') ods') \<le> 1" for sy
  proof (cases "sy = ?sy")
    case True
    then show ?thesis using free unfolding after f(3,4) by (simp add: od)
  next
    case False
    then have "length (exposures_for sy (Some a') ods') = length (exposures_for sy (Some a) ods)" unfolding after before f(3,4) by (simp add: od)
    then show ?thesis using one(1) ld by (simp add: single_exposure_def)
  qed
  then have "single_exposure ?aid s'" using f(1) by (simp add: single_exposure_def)
  moreover have "exposures_for ?sy (Some a') ods' = [order_exposure od]"
    by (rule exposures_one [OF ok' f(1)]) (use free f(3,4) od in simp_all)
  then have "only_exposure rq sid od s'"
    unfolding only_exposure_def using f(1,3) od by (intro exI [of _ a'] exI [of _ ods'] exI [of _ fs'] conjI) (simp_all flip: set_mset_mset)
  ultimately show thesis using that(2) reserved(7,9) by blast
qed

text \<open>
  C27. The conflict path keeps one exposure per symbol. If every symbol has at most one open position or pending order
  before, and the other writers keep it so, it is so after any submission; and when a submission reports \<open>RESERVED\<close>,
  the only exposure of its symbol in the state it leaves is its own order, pending, and stamped with the setup
  of its candidate and with the policy that reserved it.
\<close>

theorem conflict_path_keeps_one_exposure:
  assumes run: "submit_with_conflict_control ident hash oids others now rq s = Inr (r, s')"
    and init: "world_ok oids (cq_account rq) s" "single_exposure (cq_account rq) s"
    and rely: "\<And>f t. f = fst others \<or> f = snd others \<Longrightarrow> world_ok oids (cq_account rq) t \<Longrightarrow> single_exposure (cq_account rq) t
      \<Longrightarrow> world_ok oids (cq_account rq) (f t) \<and> single_exposure (cq_account rq) (f t)"
  shows "single_exposure (cq_account rq) s'
    \<and> (cr_status r = ''RESERVED'' \<longrightarrow> (\<exists>od plan sid. cr_order r = Some od
         \<and> candidate_id ident (cq_report rq) (cq_setup rq) = Inr (plan, sid) \<and> only_exposure rq sid od s'))"
proof -
  let ?aid = "cq_account rq"
  define good where "good t \<longleftrightarrow> world_ok oids ?aid t \<and> single_exposure ?aid t" for t
  have only: "good t'" if "journal_only t t'" "good t" for t t'
    using that tables_world [of t' t] tables_load [of t' t] by (simp add: good_def journal_only_def single_exposure_def)
  have rely': "good (f t)" if "f = fst others \<or> f = snd others" "good t" for f t using rely that by (simp add: good_def)
  have start: "good s" using init by (simp add: good_def)
  have step: "(r' = None \<longrightarrow> good t') \<and> single_exposure ?aid t'
      \<and> (\<forall>x. r' = Some x \<longrightarrow> cr_status x = ''RESERVED'' \<longrightarrow> (\<exists>od. cr_order x = Some od \<and> only_exposure rq sid od t'))"
    if c: "candidate_id ident (cq_report rq) (cq_setup rq) = Inr (plan, sid)" and g: "good t" and f: "f = fst others \<or> f = snd others"
      and a: "conflict_attempt oids now rq plan sid fs print n f t = Inr (r', t')" for plan sid fs print n f t r' t'
  proof -
    note l = candidate_lineage [OF c] and g' = rely' [OF f g]
    show ?thesis
    proof (rule attempt_reserves [OF a])
      assume j: "journal_only (f t) t'" "\<And>x. r' = Some x \<Longrightarrow> cr_status x \<noteq> ''RESERVED''"
      show ?thesis using only [OF j(1) g'] j(2) by (auto simp: good_def)
    qed (use l g g' in \<open>auto simp: good_def\<close>)
  qed
  show ?thesis
    using run
  proof (cases rule: submit_cases)
    case unsubmitted
    then show ?thesis using init by simp
  next
    case (first plan sid fs c s0)
    then show ?thesis using step [OF first(1) only [OF claim_only [OF first(3)] start] _ first(5)] by blast
  next
    case (second plan sid fs c s0 s1)
    have "good s1" using step [OF second(1) only [OF claim_only [OF second(3)] start] _ second(5)] by simp
    then show ?thesis using step [OF second(1) _ _ second(6)] second(1) by blast
  next
    case (stale plan sid fs c s0 s1 s2)
    have "good s1" using step [OF stale(1) only [OF claim_only [OF stale(3)] start] _ stale(5)] by simp
    then have "good s2" using step [OF stale(1) _ _ stale(6)] by simp
    then show ?thesis using only [OF stale_only(1) [OF stale(7)]] stale_only(2) [OF stale(7)] by (simp add: good_def)
  qed
qed

section \<open>A concrete submission\<close>

definition demo_assessment :: setup_assessment where
  "demo_assessment = \<lparr>sa_run_id = ''run'', sa_timestamp = Some 0, sa_symbol = ''EURUSD'', sa_status = VALID_SETUP, sa_side = Some LONG,
     sa_timeframes = [], sa_evidence = None, sa_invalidation = Some (1/2), sa_warnings = [], sa_explanation = None\<rparr>"

definition demo_submission :: conflict_request where
  "demo_submission = \<lparr>cq_report = rq_report demo_request, cq_setup = Some demo_assessment, cq_instrument = Some gate_instrument,
     cq_account = ''paper'', cq_as_of = Some 0, cq_owner = None, cq_policy = RISK_POLICY_V2_FX, cq_basis = None\<rparr>"

lemma demo_candidate: "candidate_id (\<lambda>_. ''s'') (rq_report demo_request) (Some demo_assessment) = Inr (gate_plan, ''s'')"
  by (simp add: candidate_id_def demo_request_def demo_assessment_def gate_plan_def FIXED_RR_POLICIES_def setup_identity_def Let_def)

lemma demo_fields:
  obtains fs where "candidate_fields ''EURUSD'' gate_plan (Some gate_instrument) ''paper'' ''s'' RISK_POLICY_V2_FX = Inr fs"
proof -
  have "\<not> isl (candidate_fields ''EURUSD'' gate_plan (Some gate_instrument) ''paper'' ''s'' RISK_POLICY_V2_FX)" by code_simp
  then show thesis using that by (cases "candidate_fields ''EURUSD'' gate_plan (Some gate_instrument) ''paper'' ''s'' RISK_POLICY_V2_FX") auto
qed

lemma demo_claimed:
  obtains s0 where "claim_run None ''run'' ''EURUSD'' fs print (Some 0) (has_outcome ''paper'' ''run'') demo_store = Inr (CLAIMED, s0)"
    "journal_only demo_store s0" "journal_of CONFLICT_EVENT ''run'' s0 = []" "slots_ok s0"
proof -
  have e: "s_journal demo_store = []" by (simp add: demo_store_def empty_store_def)
  have "has_outcome ''paper'' ''run'' demo_store = Inr False"
    using demo_store_load e by (simp add: has_outcome_def run_order_def prior_decision_def journal_of_def dvals_def)
  then obtain s0 where s0: "claim_run None ''run'' ''EURUSD'' fs print (Some 0) (has_outcome ''paper'' ''run'') demo_store = Inr (CLAIMED, s0)"
      "journal_of CONFLICT_EVENT ''run'' s0 = []" "s_runs s0 = s_runs demo_store" "s_locks s0 = s_locks demo_store"
    using e by (simp add: claim_run_def unowned_def claimed_fingerprint_def journal_of_def journal_event_at_def add_event_def
        CLAIM_EVENT_def CONFLICT_EVENT_def)
  moreover have "slots_ok demo_store" using empty_slots_ok slots_cong [of demo_store empty_store] by (simp add: demo_store_def empty_store_def)
  ultimately show thesis using that claim_only [OF s0(1)] slots_cong [OF s0(3,4)] by blast
qed

lemma demo_conflict_reserved:
  obtains r s' where "submit_with_conflict_control (\<lambda>_. ''s'') (\<lambda>_. ''f'') (\<lambda>_. ''o'') (id, id) 9 demo_submission demo_store = Inr (r, s')"
    "cr_status r = ''RESERVED''" "cr_attempts r = 1" "slots_ok s'"
proof -
  let ?d = "(Some gate_account, [], [])" and ?rep = "rq_report demo_request"
  have rep: "fr_run_id ?rep = ''run''" "fr_symbol ?rep = ''EURUSD''" by (simp_all add: demo_request_def)
  obtain fs where fs: "candidate_fields ''EURUSD'' gate_plan (Some gate_instrument) ''paper'' ''s'' RISK_POLICY_V2_FX = Inr fs" by (rule demo_fields)
  obtain s0 where s0: "claim_run None ''run'' ''EURUSD'' fs ''f'' (Some 0) (has_outcome ''paper'' ''run'') demo_store = Inr (CLAIMED, s0)"
    "journal_only demo_store s0" "journal_of CONFLICT_EVENT ''run'' s0 = []" "slots_ok s0" by (rule demo_claimed)
  have same: "paper_tables s0 = paper_tables demo_store" using s0(2) by (simp add: journal_only_def)
  have ld: "load_paper ''paper'' s0 = Inr ?d" using tables_load [OF same] demo_store_load by (simp add: gate_account_def)
  have ok: "paper_ok s0" using tables_ok [OF same] demo_store_ok by simp
  obtain rcd br od where p: "prepare_reservation ''o'' ?rep (Some gate_instrument) ?d (Some 0) (Some ''s'') RISK_POLICY_V2_FX True None
      = Prepared_Approved rcd br od" by (rule demo_prepared)
  define k where "k = classify_conflict \<lparr>q_symbol = ''EURUSD'', q_direction = tp_side gate_plan, q_setup_id = Some ''s'', q_entry = tp_entry gate_plan,
     q_stop = tp_stop gate_plan, q_target = tp_target gate_plan, q_as_of = Some 0\<rparr> (Some gate_account) []"
  have allow: "k_allow k"
    by (simp add: k_def classify_conflict_def exposures_for_def decide_conflict_def gate_plan_def gate_account_def demo_account_def List.map_filter_simps Let_def)
  define rec where "rec = jput ''order_id'' (JStr (o_id od)) (decision_record (conflict_base ''run'' ''s'' ''f'' 1 k) (risk_summary rcd RISK_POLICY_V2_FX) ''RESERVED'' ''SUBMITTED'')"
  define b where "b = log_event (Some 0) ''run'' ''EURUSD'' (o_id od) CONFLICT_EVENT rec br"
  have b: "storable b" "load_paper (a_id (br_account b)) s0 = Inr ?d" "accounts_for b ?d"
    using demo_prepared_broker [OF p] ld by (simp_all add: b_def storable_defs accounts_for_def)
  obtain s' where s': "register_save 9 None (Some ''EURUSD'') (paper_state ?d) b s0 = Inr (True, s')"
    using save_view_cases [OF ok b, of "paper_state ?d" "Some ''EURUSD''" 9] by (auto simp: register_save_Inr)
  have "conflict_attempt (\<lambda>_. ''o'') 9 demo_submission gate_plan ''s'' fs ''f'' 1 id s0
      = Inr (Some (conflict_outcome ''RESERVED'' ''approved'' (Some k) (Some od) (Some rec) 1), s')"
    using p ld s0(3) allow s'
    by (simp add: conflict_attempt_def demo_submission_def rep run_order_def prior_decision_def dvals_def Let_def del: One_nat_def flip: k_def rec_def b_def)
  moreover have "stamps_registered_semantics RISK_POLICY_V2_FX" by code_simp
  ultimately have "submit_with_conflict_control (\<lambda>_. ''s'') (\<lambda>_. ''f'') (\<lambda>_. ''o'') (id, id) 9 demo_submission demo_store
      = Inr (conflict_outcome ''RESERVED'' ''approved'' (Some k) (Some od) (Some rec) 1, s')"
    using demo_candidate fs s0(1) by (simp add: submit_with_conflict_control_def demo_submission_def rep Let_def)
  moreover have "slots_ok s'"
    using s' save_paper_frame slots_cong [OF _ _] s0(4) unfolding register_save_Inr by metis
  ultimately show thesis using that by (simp add: conflict_outcome_def)
qed

lemma demo_single: "single_exposure ''paper'' demo_store"
  using demo_store_load by (simp add: single_exposure_def exposures_for_def List.map_filter_simps)

lemma conflict_path_keeps_one_exposure_witness: "\<exists>od s'. only_exposure demo_submission ''s'' od s' \<and> single_exposure ''paper'' s'"
proof -
  obtain r s' where run: "submit_with_conflict_control (\<lambda>_. ''s'') (\<lambda>_. ''f'') (\<lambda>_. ''o'') (id, id) 9 demo_submission demo_store = Inr (r, s')"
    "cr_status r = ''RESERVED''" "cr_attempts r = 1" "slots_ok s'" by (rule demo_conflict_reserved)
  have "cq_account demo_submission = ''paper''" "cq_report demo_submission = rq_report demo_request" "cq_setup demo_submission = Some demo_assessment"
    by (simp_all add: demo_submission_def)
  then show ?thesis
    using conflict_path_keeps_one_exposure [OF run(1)] demo_world demo_single run(2) by (auto simp: demo_candidate)
qed

lemma a_run_has_one_candidate_witness:
  "\<exists>s'. claimed_fingerprint ''run'' (heartbeat 5 ''OK'' s') = Some (JStr ''f'')"
proof -
  obtain r s' where run: "submit_with_conflict_control (\<lambda>_. ''s'') (\<lambda>_. ''f'') (\<lambda>_. ''o'') (id, id) 9 demo_submission demo_store = Inr (r, s')"
    "cr_status r = ''RESERVED''" "cr_attempts r = 1" "slots_ok s'" by (rule demo_conflict_reserved)
  have step: "store_step\<^sup>*\<^sup>* s' (heartbeat 5 ''OK'' s')" by (blast intro: step_heartbeat)
  have "claimed_fingerprint (fr_run_id (cq_report demo_submission)) (heartbeat 5 ''OK'' s') = Some (JStr ''f'')"
    using a_run_has_one_candidate [OF run(1) _ _ run(4) step] run(3) by auto
  then show ?thesis by (auto simp: demo_submission_def demo_request_def)
qed

end
