(* ===== verification/MarketEvidence.thy ===== *)
theory MarketEvidence
  imports Contracts
begin

text \<open>
  \<open>data/market_evidence.py\<close> over \<open>storage/evidence_store.py\<close>: the committed bars of every
  (symbol, timeframe) stream. A row of the \<open>market_evidence\<close> table carries the bar it stores (the
  payload is its JSON text and is read back by \<open>from_payload\<close>). SHA-256 is not modelled: the
  content digest and the anomaly id are the parameters \<open>h_content\<close> and \<open>h_anomaly\<close>, and no lemma
  assumes they are injective.
\<close>

section \<open>Bars\<close>

definition TIMEFRAMES :: "(string, int) dict" where
  "TIMEFRAMES = [(''1h'', HOUR), (''15m'', 15 * MINUTE), (''5m'', 5 * MINUTE)]"

definition TIMEFRAME_ORDER :: "string list" where
  "TIMEFRAME_ORDER = [''1h'', ''15m'', ''5m'']"

record market_bar =
  m_symbol :: string
  m_timeframe :: string
  m_start :: instant
  m_open :: rat
  m_high :: rat
  m_low :: rat
  m_close :: rat
  m_volume :: "rat option"
  m_provider :: "string option"
  m_is_closed :: bool

fun price_field :: "pynum \<Rightarrow> rat option" where
  "price_field (PInt n) = (if 0 < n then Some (fl (of_int n)) else None)"
| "price_field (PFloat x) = (if 0 < x then Some x else None)"
| "price_field _ = None"

fun volume_field :: "pynum \<Rightarrow> rat option option" where
  "volume_field PNone = Some None"
| "volume_field (PInt n) = (if 0 \<le> n then Some (Some (fl (of_int n))) else None)"
| "volume_field (PFloat x) = (if 0 \<le> x then Some (Some x) else None)"
| "volume_field _ = None"

text \<open>\<open>MarketBar.__post_init__\<close>, its checks in order.\<close>

definition make_bar ::
  "string \<Rightarrow> string \<Rightarrow> instant option \<Rightarrow> pynum \<Rightarrow> pynum \<Rightarrow> pynum \<Rightarrow> pynum \<Rightarrow> pynum \<Rightarrow> string option \<Rightarrow> bool
   \<Rightarrow> py_error + market_bar" where
  "make_bar symbol tf start po ph pl pc vol provider is_closed =
    (if symbol = [] then Inl (EvidenceError ''symbol required'')
     else if dget TIMEFRAMES tf = None then Inl (EvidenceError ''unsupported timeframe'')
     else case start of None \<Rightarrow> Inl (EvidenceError ''bar start: timezone-aware datetime required'')
     | Some s \<Rightarrow> (case (price_field po, price_field ph, price_field pl, price_field pc) of
         (Some o', Some h, Some l, Some c) \<Rightarrow>
           if h < max o' c \<or> min o' c < l \<or> h < l then Inl (EvidenceError ''inconsistent OHLC'')
           else (case volume_field vol of
               None \<Rightarrow> Inl (EvidenceError ''volume: non-negative finite number or None required'')
             | Some v \<Rightarrow> Inr \<lparr>m_symbol = symbol, m_timeframe = tf, m_start = s, m_open = o', m_high = h, m_low = l,
                  m_close = c, m_volume = v, m_provider = provider, m_is_closed = is_closed\<rparr>)
       | _ \<Rightarrow> Inl (EvidenceError ''positive finite price required'')))"

definition tf_len :: "string \<Rightarrow> int" where
  "tf_len tf = (case dget TIMEFRAMES tf of None \<Rightarrow> 0 | Some d \<Rightarrow> d)"

definition bar_end :: "market_bar \<Rightarrow> instant" where
  "bar_end b = m_start b + tf_len (m_timeframe b)"

type_synonym stream_id = "string \<times> string"
type_synonym bar_key = "string \<times> string \<times> instant"

definition bar_stream :: "market_bar \<Rightarrow> stream_id" where
  "bar_stream b = (m_symbol b, m_timeframe b)"

definition bar_key :: "market_bar \<Rightarrow> bar_key" where
  "bar_key b = (m_symbol b, m_timeframe b, m_start b)"

definition bar_content :: "market_bar \<Rightarrow> rat \<times> rat \<times> rat \<times> rat \<times> rat option" where
  "bar_content b = (m_open b, m_high b, m_low b, m_close b, m_volume b)"

definition closed_at :: "instant \<Rightarrow> market_bar \<Rightarrow> bool" where
  "closed_at as_of b \<longleftrightarrow> m_is_closed b \<and> bar_end b \<le> as_of"

section \<open>The store\<close>

datatype anomaly_kind = GAP | LATE | REVISION

record hashes =
  h_content :: "rat \<times> rat \<times> rat \<times> rat \<times> rat option \<Rightarrow> string"
  h_anomaly :: "anomaly_kind \<times> bar_key \<times> string \<Rightarrow> string"

definition bar_digest :: "hashes \<Rightarrow> market_bar \<Rightarrow> string" where
  "bar_digest H b = h_content H (bar_content b)"

record evidence_row =
  er_bar :: market_bar
  er_seq :: nat
  er_digest :: string

record anomaly =
  an_kind :: anomaly_kind
  an_key :: bar_key
  an_details :: json

record evidence =
  ev_rows :: "evidence_row list"
  ev_anomalies :: "(string, anomaly) dict"

text \<open>\<open>INSERT OR IGNORE\<close>: an anomaly already recorded under this id stays as it is.\<close>

definition record_anomaly :: "hashes \<Rightarrow> anomaly_kind \<Rightarrow> market_bar \<Rightarrow> json \<Rightarrow> evidence \<Rightarrow> evidence" where
  "record_anomaly H kind b details st =
    (let aid = h_anomaly H (kind, bar_key b, bar_digest H b) in
     if dget (ev_anomalies st) aid \<noteq> None then st
     else st\<lparr>ev_anomalies := ev_anomalies st @ [(aid, \<lparr>an_kind = kind, an_key = bar_key b, an_details = details\<rparr>)]\<rparr>)"

definition row_with_key :: "bar_key \<Rightarrow> evidence \<Rightarrow> evidence_row option" where
  "row_with_key k st = find (\<lambda>r. bar_key (er_bar r) = k) (ev_rows st)"

definition stream_rows :: "stream_id \<Rightarrow> evidence \<Rightarrow> evidence_row list" where
  "stream_rows s st = filter (\<lambda>r. bar_stream (er_bar r) = s) (ev_rows st)"

text \<open>\<open>ORDER BY stream_seq DESC LIMIT 1\<close>.\<close>

fun highest_seq :: "evidence_row list \<Rightarrow> evidence_row option" where
  "highest_seq [] = None"
| "highest_seq (r # rs) = (case highest_seq rs of
     None \<Rightarrow> Some r | Some t \<Rightarrow> if er_seq t < er_seq r then Some r else Some t)"

definition watermark :: "stream_id \<Rightarrow> evidence \<Rightarrow> evidence_row option" where
  "watermark s st = highest_seq (stream_rows s st)"

datatype commit_kind = COMMITTED_BAR | DUPLICATE_BAR | LATE_BAR | REVISION_BAR

definition insert_row :: "hashes \<Rightarrow> market_bar \<Rightarrow> nat \<Rightarrow> evidence \<Rightarrow> evidence" where
  "insert_row H b n st =
     st\<lparr>ev_rows := ev_rows st @ [\<lparr>er_bar = b, er_seq = n, er_digest = bar_digest H b\<rparr>]\<rparr>"

definition gap_details :: "instant \<Rightarrow> market_bar \<Rightarrow> json" where
  "gap_details wm b = (let d = tf_len (m_timeframe b) in JObj
    [(''after'', JTime wm), (''before'', JTime (m_start b)),
     (''missing_seconds'', JNum (fl (of_int (m_start b - (wm + d)) / of_int SECOND))),
     (''missing_intervals'', JNum (fl (fl (of_int (m_start b - wm) / of_int d) - 1)))])"

text \<open>\<open>_commit\<close>: one transaction per bar.\<close>

definition commit_bar :: "hashes \<Rightarrow> market_bar \<Rightarrow> evidence \<Rightarrow> commit_kind \<times> bool \<times> evidence" where
  "commit_bar H b st = (case row_with_key (bar_key b) st of
     Some r \<Rightarrow>
       if er_digest r = bar_digest H b then (DUPLICATE_BAR, False, st)
       else (REVISION_BAR, False, record_anomaly H REVISION b
              (JObj [(''committed_digest'', JStr (er_digest r)), (''presented_digest'', JStr (bar_digest H b)),
                     (''presented_provider'', jstr_opt (m_provider b))]) st)
   | None \<Rightarrow> (case watermark (bar_stream b) st of
       None \<Rightarrow> (COMMITTED_BAR, False, insert_row H b 1 st)
     | Some t \<Rightarrow> let wm = m_start (er_bar t) in
         if m_start b \<le> wm
         then (LATE_BAR, False, record_anomaly H LATE b
                (JObj [(''watermark'', JTime wm), (''presented_digest'', JStr (bar_digest H b))]) st)
         else if wm + tf_len (m_timeframe b) < m_start b
         then (COMMITTED_BAR, True, insert_row H b (er_seq t + 1) (record_anomaly H GAP b (gap_details wm b) st))
         else (COMMITTED_BAR, False, insert_row H b (er_seq t + 1) st)))"

section \<open>Ingestion\<close>

record ingest_result =
  ir_presented :: nat
  ir_committed :: "market_bar list"
  ir_duplicates :: "instant list"
  ir_held :: "instant list"
  ir_late :: "instant list"
  ir_revisions :: "instant list"
  ir_gaps :: "instant list"
  ir_watermark :: "instant option"

fun unique_bars :: "stream_id \<Rightarrow> market_bar list \<Rightarrow> (bar_key, market_bar) dict \<Rightarrow> py_error + (bar_key, market_bar) dict" where
  "unique_bars s [] u = Inr u"
| "unique_bars s (b # bs) u =
    (if bar_stream b \<noteq> s then Inl (EvidenceError ''bar does not belong to this stream'')
     else case dget u (bar_key b) of
       Some b' \<Rightarrow> if b' \<noteq> b then Inl (EvidenceError ''conflicting duplicate bar'')
                  else unique_bars s bs (dput (bar_key b) b u)
     | None \<Rightarrow> unique_bars s bs (dput (bar_key b) b u))"

text \<open>\<open>_split_closed\<close>: the closed prefix, and everything from the first open bar on.\<close>

definition split_closed :: "instant \<Rightarrow> market_bar list \<Rightarrow> market_bar list \<times> market_bar list" where
  "split_closed as_of bs = (takeWhile (closed_at as_of) bs, dropWhile (closed_at as_of) bs)"

fun commit_all :: "hashes \<Rightarrow> market_bar list \<Rightarrow> evidence \<Rightarrow> (market_bar \<times> commit_kind \<times> bool) list \<times> evidence" where
  "commit_all H [] st = ([], st)"
| "commit_all H (b # bs) st = (case commit_bar H b st of (kind, gap, st1) \<Rightarrow>
     (case commit_all H bs st1 of (out, st2) \<Rightarrow> ((b, kind, gap) # out, st2)))"

definition outcome :: "commit_kind \<Rightarrow> (market_bar \<times> commit_kind \<times> bool) list \<Rightarrow> market_bar list" where
  "outcome k out = map fst (filter (\<lambda>(b, kind, gap). kind = k) out)"

definition ingest ::
  "hashes \<Rightarrow> string list \<Rightarrow> stream_id \<Rightarrow> market_bar list \<Rightarrow> instant \<Rightarrow> evidence
   \<Rightarrow> py_error + ingest_result \<times> evidence" where
  "ingest H enabled s bars as_of st =
    (if fst s \<notin> set enabled then Inl (EvidenceError ''symbol is not enabled'')
     else if dget TIMEFRAMES (snd s) = None then Inl (EvidenceError ''unsupported timeframe'')
     else case unique_bars s bars [] of Inl e \<Rightarrow> Inl e
     | Inr u \<Rightarrow>
       let ordered = sort_key m_start (dvals u);
           (eligible, held) = split_closed as_of ordered;
           (out, st') = commit_all H eligible st
       in Inr (\<lparr>ir_presented = length bars, ir_committed = outcome COMMITTED_BAR out,
                ir_duplicates = map m_start (outcome DUPLICATE_BAR out), ir_held = map m_start held,
                ir_late = map m_start (outcome LATE_BAR out),
                ir_revisions = map m_start (outcome REVISION_BAR out),
                ir_gaps = map (m_start \<circ> fst) (filter (\<lambda>(b, kind, gap). gap) out),
                ir_watermark = map_option (m_start \<circ> er_bar) (watermark s st')\<rparr>, st'))"

text \<open>\<open>committed(symbol, timeframe, after=...)\<close>.\<close>

definition committed :: "stream_id \<Rightarrow> instant option \<Rightarrow> evidence \<Rightarrow> py_error + market_bar list" where
  "committed s after st =
    (if dget TIMEFRAMES (snd s) = None then Inl (EvidenceError ''unsupported timeframe'')
     else let bars = map er_bar (sort_key er_seq (stream_rows s st)) in
       Inr (case after of None \<Rightarrow> bars | Some a \<Rightarrow> filter (\<lambda>b. a < m_start b) bars))"

section \<open>The stream invariant\<close>

text \<open>Every stream is numbered 1, 2, ... in the order of its rows and strictly chronological.\<close>

definition stream_ok :: "evidence_row list \<Rightarrow> bool" where
  "stream_ok rs \<longleftrightarrow> map er_seq rs = [1..<Suc (length rs)] \<and> sorted_wrt (<) (map (m_start \<circ> er_bar) rs)"

definition evidence_ok :: "evidence \<Rightarrow> bool" where
  "evidence_ok st \<longleftrightarrow> (\<forall>s. stream_ok (stream_rows s st))"

lemma evidence_okD: "evidence_ok st \<Longrightarrow> stream_ok (stream_rows s st)"
  unfolding evidence_ok_def by blast

lemma highest_seq_None [simp]: "highest_seq rs = None \<longleftrightarrow> rs = []"
  by (cases rs) (auto split: option.splits)

lemma highest_seq_last:
  "map er_seq rs = [k..<k + length rs] \<Longrightarrow> rs \<noteq> [] \<Longrightarrow> highest_seq rs = Some (last rs)"
proof (induction rs arbitrary: k)
  case (Cons r rs)
  then have k: "er_seq r = k" "map er_seq rs = [Suc k..<Suc k + length rs]"
    by (simp_all add: upt_conv_Cons del: upt_Suc)
  show ?case
  proof (cases "rs = []")
    case False
    then have "er_seq (last rs) \<in> set (map er_seq rs)" by auto
    then have "k < er_seq (last rs)" unfolding k(2) by (simp del: upt_Suc)
    then show ?thesis using Cons.IH [OF k(2) False] False k(1) by simp
  qed simp
qed simp

lemma watermark_last:
  "evidence_ok st \<Longrightarrow> watermark s st = (let rs = stream_rows s st in if rs = [] then None else Some (last rs))"
  using highest_seq_last [of "stream_rows s st" 1]
  by (simp add: evidence_ok_def stream_ok_def watermark_def Let_def del: upt_Suc split_paired_All)

lemma row_with_key_Some: "row_with_key k st = Some r \<Longrightarrow> r \<in> set (ev_rows st) \<and> bar_key (er_bar r) = k"
  unfolding row_with_key_def by (rule find_Some_iff_first)

lemma row_with_key_cong: "ev_rows st' = ev_rows st \<Longrightarrow> row_with_key k st' = row_with_key k st"
  by (simp add: row_with_key_def)

lemma stream_rows_cong: "ev_rows st' = ev_rows st \<Longrightarrow> stream_rows s st' = stream_rows s st"
  by (simp add: stream_rows_def)

lemma watermark_cong: "ev_rows st' = ev_rows st \<Longrightarrow> watermark s st' = watermark s st"
  using stream_rows_cong [of st' st s] by (simp add: watermark_def)

lemma ev_rows_record_anomaly [simp]: "ev_rows (record_anomaly H k b d st) = ev_rows st"
  by (simp add: record_anomaly_def Let_def)

lemma reads_record_anomaly [simp]:
  "row_with_key k' (record_anomaly H k b d st) = row_with_key k' st"
  "watermark s (record_anomaly H k b d st) = watermark s st"
  by (simp_all add: row_with_key_def watermark_def stream_rows_def)

lemma row_with_key_insert:
  "row_with_key k (insert_row H b n st) = (case row_with_key k st of
     Some r \<Rightarrow> Some r
   | None \<Rightarrow> if bar_key b = k then Some \<lparr>er_bar = b, er_seq = n, er_digest = bar_digest H b\<rparr> else None)"
  by (simp add: row_with_key_def insert_row_def find_append split: option.splits)

lemma stream_rows_insert:
  "stream_rows s (insert_row H b n st) = stream_rows s st @
     (if bar_stream b = s then [\<lparr>er_bar = b, er_seq = n, er_digest = bar_digest H b\<rparr>] else [])"
  by (simp add: stream_rows_def insert_row_def)

text \<open>What one commit can do, by its kind.\<close>

lemma commit_bar_cases:
  assumes "commit_bar H b st = (kind, gap, st')"
  obtains (committed) n where "kind = COMMITTED_BAR" "row_with_key (bar_key b) st = None"
      "ev_rows st' = ev_rows (insert_row H b n st)"
      "case watermark (bar_stream b) st of None \<Rightarrow> n = 1 \<and> \<not> gap
       | Some t \<Rightarrow> n = er_seq t + 1 \<and> m_start (er_bar t) < m_start b
           \<and> (gap \<longleftrightarrow> m_start (er_bar t) + tf_len (m_timeframe b) < m_start b)"
  | (other) "kind \<noteq> COMMITTED_BAR" "\<not> gap" "ev_rows st' = ev_rows st"
  using assms
  by (auto simp: commit_bar_def insert_row_def Let_def split: option.splits if_splits)

lemma stream_ok_snoc:
  assumes "stream_ok rs" and "er_seq r = Suc (length rs)"
    and "rs \<noteq> [] \<Longrightarrow> m_start (er_bar (last rs)) < m_start (er_bar r)"
  shows "stream_ok (rs @ [r])"
proof -
  have "m_start (er_bar x) < m_start (er_bar r)" if x: "x \<in> set rs" for x
  proof -
    obtain ys y where rs: "rs = ys @ [y]" using x by (cases rs rule: rev_cases) auto
    then have "x = y \<or> m_start (er_bar x) < m_start (er_bar y)"
      using assms(1) x by (auto simp: stream_ok_def sorted_wrt_append)
    then show ?thesis using assms(3) rs by auto
  qed
  then show ?thesis using assms(1,2) by (auto simp: stream_ok_def sorted_wrt_append)
qed

lemma stream_ok_last_seq: "stream_ok rs \<Longrightarrow> rs \<noteq> [] \<Longrightarrow> er_seq (last rs) = length rs"
proof -
  assume ok: "stream_ok rs" and ne: "rs \<noteq> []"
  have "er_seq (last rs) = last (map er_seq rs)" using ne by (simp add: last_map)
  also have "\<dots> = last [1..<Suc (length rs)]" using ok by (simp only: stream_ok_def)
  also have "\<dots> = length rs" using ne by (cases rs) auto
  finally show ?thesis .
qed

lemma commit_bar_ok:
  assumes ok: "evidence_ok st" and c: "commit_bar H b st = (kind, gap, st')"
  shows "evidence_ok st'"
  using c
proof (cases rule: commit_bar_cases)
  case (committed n)
  show ?thesis unfolding evidence_ok_def
  proof
    fix s
    have rows: "stream_rows s st' = stream_rows s (insert_row H b n st)"
      by (rule stream_rows_cong) (rule committed)
    have okS: "stream_ok (stream_rows s st)" using ok by (rule evidence_okD)
    show "stream_ok (stream_rows s st')"
    proof (cases "bar_stream b = s")
      case False
      then show ?thesis using okS by (simp add: rows stream_rows_insert)
    next
      case True
      have "stream_ok (stream_rows s st @ [\<lparr>er_bar = b, er_seq = n, er_digest = bar_digest H b\<rparr>])"
        using okS by (rule stream_ok_snoc)
          (use committed(4) True watermark_last [OF ok, of s] stream_ok_last_seq [OF okS]
            in \<open>auto simp: Let_def split: if_splits\<close>)
      then show ?thesis using True by (simp add: rows stream_rows_insert)
    qed
  qed
next
  case other
  then show ?thesis using ok by (simp add: evidence_ok_def stream_rows_def)
qed

section \<open>Committing a batch\<close>

lemma outcome_Cons [simp]:
  "outcome k ((b, kind, gap) # out) = (if kind = k then b # outcome k out else outcome k out)"
  by (simp add: outcome_def)

lemma outcome_Nil [simp]: "outcome k [] = []"
  by (simp add: outcome_def)

lemma commit_all_rows:
  assumes "commit_all H bs st = (out, st')"
  shows "\<exists>new. ev_rows st' = ev_rows st @ new \<and> map er_bar new = outcome COMMITTED_BAR out
    \<and> (\<forall>r \<in> set new. er_digest r = bar_digest H (er_bar r))"
  using assms
proof (induction bs arbitrary: st out st')
  case (Cons b bs)
  obtain kind gap st1 where c: "commit_bar H b st = (kind, gap, st1)" by (metis prod_cases3)
  obtain out1 st2 where r: "commit_all H bs st1 = (out1, st2)" by (metis surj_pair)
  have out: "out = (b, kind, gap) # out1" "st' = st2" using Cons.prems c r by auto
  obtain new where new: "ev_rows st2 = ev_rows st1 @ new" "map er_bar new = outcome COMMITTED_BAR out1"
    "\<forall>r \<in> set new. er_digest r = bar_digest H (er_bar r)"
    using Cons.IH [OF r] by auto
  from c show ?case
  proof (cases rule: commit_bar_cases)
    case (committed n)
    have e: "ev_rows st2 = ev_rows st @ \<lparr>er_bar = b, er_seq = n, er_digest = bar_digest H b\<rparr> # new"
      using committed(3) new(1) by (simp add: insert_row_def)
    show ?thesis unfolding out(2) e using committed(1) new(2,3)
      by (intro exI [of _ "\<lparr>er_bar = b, er_seq = n, er_digest = bar_digest H b\<rparr> # new"]) (auto simp: out(1))
  next
    case other
    then show ?thesis using new by (auto simp: out)
  qed
qed simp

lemma commit_all_ok:
  "commit_all H bs st = (out, st') \<Longrightarrow> evidence_ok st \<Longrightarrow> evidence_ok st'"
  by (induction bs arbitrary: st out st') (auto split: prod.splits dest: commit_bar_ok)

lemma commit_all_bars: "commit_all H bs st = (out, st') \<Longrightarrow> map fst out = bs"
  by (induction bs arbitrary: st out st') (auto split: prod.splits)

lemma outcome_subset: "set (outcome k out) \<subseteq> set (map fst out)"
  by (auto simp: outcome_def)

text \<open>Every presented bar is in exactly one outcome list.\<close>

lemma outcome_partition:
  "length out = length (outcome COMMITTED_BAR out) + length (outcome DUPLICATE_BAR out)
     + length (outcome LATE_BAR out) + length (outcome REVISION_BAR out)"
proof (induction out)
  case (Cons x out)
  then show ?case by (cases x; cases "fst (snd x)") (auto simp: outcome_def)
qed simp

lemma commit_all_append:
  "snd (commit_all H (xs @ ys) st) = snd (commit_all H ys (snd (commit_all H xs st)))"
proof (induction xs arbitrary: st)
  case (Cons x xs)
  obtain kind gap st1 where "commit_bar H x st = (kind, gap, st1)" by (metis prod_cases3)
  then show ?case using Cons.IH [of st1] by (simp add: case_prod_beta)
qed simp

text \<open>A batch of one stream extends that stream by the committed bars, in their order.\<close>

lemma commit_all_stream:
  assumes "commit_all H bs st = (out, st')" and "\<forall>b \<in> set bs. bar_stream b = s"
  shows "\<exists>new. stream_rows s st' = stream_rows s st @ new \<and> map er_bar new = outcome COMMITTED_BAR out"
proof -
  obtain new where new: "ev_rows st' = ev_rows st @ new" "map er_bar new = outcome COMMITTED_BAR out"
    using commit_all_rows [OF assms(1)] by blast
  have "set (map er_bar new) \<subseteq> set bs"
    using new(2) outcome_subset commit_all_bars [OF assms(1)] by metis
  then have "stream_rows s st' = stream_rows s st @ new"
    using new(1) assms(2) by (auto simp: stream_rows_def intro!: filter_True)
  then show ?thesis using new(2) by blast
qed

lemma commit_all_chronological:
  assumes c: "commit_all H bs st = (out, st')" and s: "\<forall>b \<in> set bs. bar_stream b = s" and ok: "evidence_ok st"
  shows "sorted_wrt (<) (map m_start (outcome COMMITTED_BAR out))"
    and "watermark s st = Some t \<Longrightarrow> b \<in> set (outcome COMMITTED_BAR out) \<Longrightarrow> m_start (er_bar t) < m_start b"
proof -
  obtain new where new: "stream_rows s st' = stream_rows s st @ new" "map er_bar new = outcome COMMITTED_BAR out"
    using commit_all_stream [OF c s] by blast
  have srt: "sorted_wrt (<) (map (m_start \<circ> er_bar) (stream_rows s st @ new))"
    using evidence_okD [OF commit_all_ok [OF c ok], of s] new(1) by (simp only: stream_ok_def)
  then have "sorted_wrt (<) (map m_start (map er_bar new))"
    by (simp only: map_append sorted_wrt_append map_map)
  then show "sorted_wrt (<) (map m_start (outcome COMMITTED_BAR out))" by (simp only: new(2))
  assume t: "watermark s st = Some t" and b: "b \<in> set (outcome COMMITTED_BAR out)"
  then obtain r where r: "r \<in> set new" "b = er_bar r" unfolding new(2) [symmetric] by auto
  have "t \<in> set (stream_rows s st)"
    using t watermark_last [OF ok, of s] by (auto simp: Let_def split: if_splits)
  then show "m_start (er_bar t) < m_start b" using srt r by (auto simp: sorted_wrt_append)
qed

section \<open>Gaps\<close>

definition no_hole :: "nat \<Rightarrow> int \<Rightarrow> evidence_row list \<Rightarrow> bool" where
  "no_hole n d rs \<longleftrightarrow> (\<forall>i. n \<le> Suc i \<and> Suc i < length rs \<longrightarrow> m_start (er_bar (rs ! Suc i)) \<le> m_start (er_bar (rs ! i)) + d)"

lemma no_hole_snoc:
  "n \<le> length rs \<Longrightarrow> no_hole n d (rs @ [r]) \<longleftrightarrow> no_hole n d rs \<and>
     (rs \<noteq> [] \<longrightarrow> m_start (er_bar r) \<le> m_start (er_bar (last rs)) + d)"
  (is "_ \<Longrightarrow> ?l \<longleftrightarrow> ?r \<and> ?s")
proof -
  assume n: "n \<le> length rs"
  show ?thesis
  proof
    assume l: ?l
    have ?r unfolding no_hole_def
    proof (intro allI impI)
      fix i assume i: "n \<le> Suc i \<and> Suc i < length rs"
      then show "m_start (er_bar (rs ! Suc i)) \<le> m_start (er_bar (rs ! i)) + d"
        using l [unfolded no_hole_def, rule_format, of i] by (simp add: nth_append)
    qed
    moreover have ?s
    proof
      assume "rs \<noteq> []"
      then obtain k where k: "length rs = Suc k" by (cases rs) auto
      then show "m_start (er_bar r) \<le> m_start (er_bar (last rs)) + d"
        using l [unfolded no_hole_def, rule_format, of k] n by (simp add: nth_append last_conv_nth \<open>rs \<noteq> []\<close>)
    qed
    ultimately show "?r \<and> ?s" ..
  next
    assume rs: "?r \<and> ?s"
    show ?l unfolding no_hole_def
    proof (intro allI impI)
      fix i assume i: "n \<le> Suc i \<and> Suc i < length (rs @ [r])"
      show "m_start (er_bar ((rs @ [r]) ! Suc i)) \<le> m_start (er_bar ((rs @ [r]) ! i)) + d"
      proof (cases "Suc i < length rs")
        case True
        then show ?thesis using rs i by (simp add: no_hole_def nth_append)
      next
        case False
        then have "Suc i = length rs" using i by simp
        then have "i = length rs - 1" "rs \<noteq> []" by auto
        then show ?thesis using rs False i by (simp add: nth_append last_conv_nth)
      qed
    qed
  qed
qed

lemma commit_all_gaps:
  assumes "commit_all H bs st = (out, st')" and "\<forall>b \<in> set bs. bar_stream b = s" and "evidence_ok st"
    and "n \<le> length (stream_rows s st)" and "d = tf_len (snd s)"
  shows "no_hole n d (stream_rows s st') \<longleftrightarrow> no_hole n d (stream_rows s st) \<and> (\<forall>(b, kind, gap) \<in> set out. \<not> gap)"
  using assms
proof (induction bs arbitrary: st out st')
  case (Cons b bs)
  obtain kind gap st1 where c: "commit_bar H b st = (kind, gap, st1)" by (metis prod_cases3)
  obtain out1 st2 where r: "commit_all H bs st1 = (out1, st2)" by (metis surj_pair)
  have out: "out = (b, kind, gap) # out1" "st' = st2" using Cons.prems(1) c r by auto
  have ok1: "evidence_ok st1" using commit_bar_ok [OF Cons.prems(3) c] .
  have b: "bar_stream b = s" "m_timeframe b = snd s" using Cons.prems(2) by (auto simp: bar_stream_def)
  have step: "length (stream_rows s st) \<le> length (stream_rows s st1) \<and>
      (no_hole n d (stream_rows s st1) \<longleftrightarrow> no_hole n d (stream_rows s st) \<and> \<not> gap)"
    using c
  proof (cases rule: commit_bar_cases)
    case (committed m)
    let ?r = "\<lparr>er_bar = b, er_seq = m, er_digest = bar_digest H b\<rparr>"
    have rows: "stream_rows s st1 = stream_rows s st @ [?r]"
      using stream_rows_cong [OF committed(3), of s] b(1) by (simp add: stream_rows_insert)
    show ?thesis unfolding rows no_hole_snoc [OF Cons.prems(4)]
      using committed(4) b watermark_last [OF Cons.prems(3), of s] Cons.prems(5)
      by (auto simp: Let_def not_less split: if_splits)
  next
    case other
    then show ?thesis using stream_rows_cong [OF other(3), of s] by simp
  qed
  have "no_hole n d (stream_rows s st2) \<longleftrightarrow> no_hole n d (stream_rows s st1) \<and> (\<forall>(b, kind, gap) \<in> set out1. \<not> gap)"
    using Cons.IH [OF r _ ok1 _ Cons.prems(5)] Cons.prems(2,4) step by simp
  then show ?case using step by (auto simp: out)
qed simp

section \<open>Restart: a bar once presented changes nothing when it is presented again\<close>

definition presented :: "hashes \<Rightarrow> market_bar \<Rightarrow> evidence \<Rightarrow> bool" where
  "presented H b st \<longleftrightarrow> (case row_with_key (bar_key b) st of
     Some r \<Rightarrow> er_digest r = bar_digest H b \<or>
       dget (ev_anomalies st) (h_anomaly H (REVISION, bar_key b, bar_digest H b)) \<noteq> None
   | None \<Rightarrow> dget (ev_anomalies st) (h_anomaly H (LATE, bar_key b, bar_digest H b)) \<noteq> None
       \<and> (\<exists>t. watermark (bar_stream b) st = Some t \<and> m_start b \<le> m_start (er_bar t)))"

lemma presented_noop: "presented H b st \<Longrightarrow> snd (snd (commit_bar H b st)) = st"
  by (auto simp: presented_def commit_bar_def record_anomaly_def Let_def split: option.splits if_splits)

lemma record_anomaly_recorded:
  "dget (ev_anomalies (record_anomaly H k b d st)) (h_anomaly H (k, bar_key b, bar_digest H b)) \<noteq> None"
  by (auto simp: record_anomaly_def Let_def map_add_def split: option.splits)

lemma anomalies_grow:
  "dget (ev_anomalies st) i \<noteq> None \<Longrightarrow> commit_bar H b st = (kind, gap, st') \<Longrightarrow> dget (ev_anomalies st') i \<noteq> None"
  by (auto simp: commit_bar_def record_anomaly_def insert_row_def map_add_def Let_def split: option.splits if_splits)

lemma commit_bar_presented:
  assumes c: "commit_bar H b st = (kind, gap, st')" shows "presented H b st'"
proof (cases "row_with_key (bar_key b) st")
  case (Some r)
  then show ?thesis using c record_anomaly_recorded
    by (auto simp: commit_bar_def presented_def split: if_splits)
next
  case None
  show ?thesis
  proof (cases "\<exists>t. watermark (bar_stream b) st = Some t \<and> m_start b \<le> m_start (er_bar t)")
    case True
    then show ?thesis using c None record_anomaly_recorded
      by (auto simp: commit_bar_def presented_def Let_def)
  next
    case False
    then have "\<exists>n. row_with_key (bar_key b) st' = Some \<lparr>er_bar = b, er_seq = n, er_digest = bar_digest H b\<rparr>"
      using c None
      by (auto simp: commit_bar_def Let_def row_with_key_insert split: option.splits if_splits)
    then show ?thesis by (auto simp: presented_def)
  qed
qed

lemma presented_stays:
  assumes p: "presented H b st" and ok: "evidence_ok st" and c: "commit_bar H x st = (kind, gap, st')"
  shows "presented H b st'"
proof (cases "row_with_key (bar_key b) st")
  case (Some r)
  have "row_with_key (bar_key b) st' = Some r"
    using c Some by (cases rule: commit_bar_cases)
      (auto simp: row_with_key_insert dest: row_with_key_cong [of st' _ "bar_key b"])
  then show ?thesis using p Some anomalies_grow [OF _ c] by (auto simp: presented_def)
next
  case None
  then obtain t where t: "watermark (bar_stream b) st = Some t" "m_start b \<le> m_start (er_bar t)"
    and a: "dget (ev_anomalies st) (h_anomaly H (LATE, bar_key b, bar_digest H b)) \<noteq> None"
    using p by (auto simp: presented_def)
  from c show ?thesis
  proof (cases rule: commit_bar_cases)
    case other
    then show ?thesis using None t anomalies_grow [OF a c] row_with_key_cong [OF other(3)] watermark_cong [OF other(3)]
      by (auto simp: presented_def)
  next
    case (committed n)
    have ok': "evidence_ok st'" using commit_bar_ok [OF ok c] .
    have ne: "row_with_key (bar_key b) st' = None"
    proof (rule ccontr)
      assume "row_with_key (bar_key b) st' \<noteq> None"
      then have k: "bar_key x = bar_key b"
        using None row_with_key_cong [OF committed(3), of "bar_key b"]
        by (auto simp: row_with_key_insert split: if_splits)
      then have "bar_stream x = bar_stream b" "m_start x = m_start b"
        by (auto simp: bar_key_def bar_stream_def)
      then show False using committed(4) t by auto
    qed
    have rows: "stream_rows (bar_stream b) st' = stream_rows (bar_stream b) (insert_row H x n st)"
      by (rule stream_rows_cong) (rule committed)
    have "\<exists>t'. watermark (bar_stream b) st' = Some t' \<and> m_start (er_bar t) \<le> m_start (er_bar t')"
      using t(1) committed(4) watermark_last [OF ok, of "bar_stream b"] watermark_last [OF ok', of "bar_stream b"]
      by (auto simp: rows stream_rows_insert Let_def split: if_splits)
    then show ?thesis using ne t(2) anomalies_grow [OF a c] by (auto simp: presented_def)
  qed
qed

lemma commit_all_presented:
  "evidence_ok st \<Longrightarrow> presented H b st \<Longrightarrow> presented H b (snd (commit_all H xs st))"
proof (induction xs arbitrary: st)
  case (Cons x xs)
  obtain kind gap st1 where c: "commit_bar H x st = (kind, gap, st1)" by (metis prod_cases3)
  show ?case using Cons.IH [OF commit_bar_ok [OF Cons.prems(1) c] presented_stays [OF Cons.prems(2,1) c]] c
    by (simp add: case_prod_beta)
qed simp

lemma commit_all_all_presented:
  "evidence_ok st \<Longrightarrow> b \<in> set xs \<Longrightarrow> presented H b (snd (commit_all H xs st))"
proof (induction xs arbitrary: st)
  case (Cons x xs)
  obtain kind gap st1 where c: "commit_bar H x st = (kind, gap, st1)" by (metis prod_cases3)
  have ok1: "evidence_ok st1" using commit_bar_ok [OF Cons.prems(1) c] .
  show ?case
  proof (cases "b = x")
    case True
    then show ?thesis using commit_all_presented [OF ok1 commit_bar_presented [OF c]] c by (simp add: case_prod_beta)
  next
    case False
    then show ?thesis using Cons.IH [OF ok1] Cons.prems(2) c by (simp add: case_prod_beta)
  qed
qed simp

lemma commit_all_noop: "(\<forall>b \<in> set xs. presented H b st) \<Longrightarrow> snd (commit_all H xs st) = st"
proof (induction xs)
  case (Cons x xs)
  obtain kind gap st1 where c: "commit_bar H x st = (kind, gap, st1)" by (metis prod_cases3)
  then have "st1 = st" using presented_noop [of H x st] Cons.prems by simp
  then show ?case using Cons c by (simp add: case_prod_beta)
qed simp

text \<open>A crash after any prefix, followed by a re-presentation of everything, ends in the same store.\<close>

lemma commit_resume:
  assumes "evidence_ok st"
  shows "snd (commit_all H (xs @ ys) (snd (commit_all H xs st))) = snd (commit_all H (xs @ ys) st)"
  unfolding commit_all_append [of H xs ys]
  using commit_all_noop [of xs H "snd (commit_all H xs st)"] commit_all_all_presented [OF assms] by simp

section \<open>One ingestion\<close>

lemma unique_bars_stream:
  "unique_bars s bs u = Inr u' \<Longrightarrow> (\<forall>(k, b) \<in> set u. bar_stream b = s) \<Longrightarrow> (\<forall>(k, b) \<in> set u'. bar_stream b = s)"
proof (induction s bs u rule: unique_bars.induct)
  case (2 s b bs u)
  have "\<forall>(k, b') \<in> set (dput (bar_key b) b u). bar_stream b' = s" if "bar_stream b = s"
    using set_dput_subset [of "bar_key b" b u] 2(3,4) that by fastforce
  then show ?case using 2 by (auto split: if_splits option.splits)
qed simp

lemma unique_bars_presented:
  "unique_bars s bs u = Inr u' \<Longrightarrow> set (dvals u') \<subseteq> set bs \<union> set (dvals u)"
proof (induction s bs u rule: unique_bars.induct)
  case (2 s b bs u)
  have "set (dvals (dput (bar_key b) b u)) \<subseteq> insert b (set (dvals u))"
    using set_dput_subset [of "bar_key b" b u] by (auto simp: dvals_def)
  then show ?case using 2 by (fastforce split: if_splits option.splits)
qed simp

text \<open>What \<open>ingest\<close> commits, in terms of the batch lemmas.\<close>

lemma ingest_Inr:
  assumes "ingest H enabled s bars as_of st = Inr (res, st')"
  obtains eligible held out where "commit_all H eligible st = (out, st')"
    "\<forall>b \<in> set eligible. bar_stream b = s \<and> closed_at as_of b \<and> b \<in> set bars"
    "ir_committed res = outcome COMMITTED_BAR out" "ir_held res = map m_start held"
    "ir_duplicates res = map m_start (outcome DUPLICATE_BAR out)"
    "ir_late res = map m_start (outcome LATE_BAR out)" "ir_revisions res = map m_start (outcome REVISION_BAR out)"
    "ir_gaps res = map (m_start \<circ> fst) (filter (\<lambda>(b, kind, gap). gap) out)"
    "\<exists>u. unique_bars s bars [] = Inr u \<and> eligible @ held = sort_key m_start (dvals u)"
    "held \<noteq> [] \<Longrightarrow> \<not> closed_at as_of (hd held)"
proof -
  obtain u where u: "unique_bars s bars [] = Inr u"
    using assms by (auto simp: ingest_def split: if_splits sum.splits)
  define ordered where "ordered = sort_key m_start (dvals u)"
  define eligible where "eligible = takeWhile (closed_at as_of) ordered"
  define held where "held = dropWhile (closed_at as_of) ordered"
  obtain out st1 where c: "commit_all H eligible st = (out, st1)" by (metis surj_pair)
  have all: "set ordered \<subseteq> set bars" "\<forall>b \<in> set ordered. bar_stream b = s"
    using unique_bars_presented [OF u] unique_bars_stream [OF u] by (auto simp: ordered_def dvals_def)
  have el: "\<forall>b \<in> set eligible. bar_stream b = s \<and> closed_at as_of b \<and> b \<in> set bars"
    using all by (auto simp: eligible_def dest: set_takeWhileD)
  show ?thesis
    by (rule that [of eligible out held])
      (use assms c u el in \<open>auto simp: ingest_def split_closed_def Let_def hd_dropWhile
        eligible_def [unfolded ordered_def] held_def [unfolded ordered_def] split: if_splits\<close>)
qed

section \<open>Properties\<close>

text \<open>
  C4. Committed evidence is a faithful, chronological log. One ingestion only appends: every row that was
  committed stays byte for byte, the stream grows by exactly the committed bars of the result, in
  strictly increasing start order and all after the previous watermark; every committed bar was
  presented and was closed at \<open>as_of\<close> (no look-ahead). The stream stays numbered 1, 2, ... without
  a bar appearing twice.
\<close>

theorem ingest_appends_chronologically:
  assumes "evidence_ok st" and "ingest H enabled s bars as_of st = Inr (res, st')"
  shows "evidence_ok st'
    \<and> (\<exists>new. ev_rows st' = ev_rows st @ new \<and> map er_bar new = ir_committed res)
    \<and> sorted_wrt (<) (map m_start (ir_committed res))
    \<and> (\<forall>b \<in> set (ir_committed res). b \<in> set bars \<and> m_is_closed b \<and> bar_end b \<le> as_of
         \<and> (\<forall>t. watermark s st = Some t \<longrightarrow> m_start (er_bar t) < m_start b))"
proof -
  obtain eligible held out where c: "commit_all H eligible st = (out, st')"
    and el: "\<forall>b \<in> set eligible. bar_stream b = s \<and> closed_at as_of b \<and> b \<in> set bars"
    and r: "ir_committed res = outcome COMMITTED_BAR out"
    using ingest_Inr [OF assms(2)] by metis
  have s: "\<forall>b \<in> set eligible. bar_stream b = s" using el by simp
  have "\<exists>new. ev_rows st' = ev_rows st @ new \<and> map er_bar new = ir_committed res"
    using commit_all_rows [OF c] r by auto
  moreover have "b \<in> set bars \<and> m_is_closed b \<and> bar_end b \<le> as_of
      \<and> (\<forall>t. watermark s st = Some t \<longrightarrow> m_start (er_bar t) < m_start b)" if "b \<in> set (ir_committed res)" for b
    using that outcome_subset [of COMMITTED_BAR out] el commit_all_chronological(2) [OF c s assms(1)]
    unfolding r commit_all_bars [OF c] by (auto simp: closed_at_def)
  ultimately show ?thesis
    using commit_all_ok [OF c assms(1)] commit_all_chronological(1) [OF c s assms(1)] unfolding r by blast
qed

text \<open>A stream for the witnesses: three EURUSD 5m bars, the third after a missing interval.\<close>

definition demo_bar :: "instant \<Rightarrow> market_bar" where
  "demo_bar t = \<lparr>m_symbol = ''EURUSD'', m_timeframe = ''5m'', m_start = t, m_open = 11/10, m_high = 11/10,
     m_low = 11/10, m_close = 11/10, m_volume = None, m_provider = None, m_is_closed = True\<rparr>"

definition demo_hashes :: hashes where
  "demo_hashes = \<lparr>h_content = (\<lambda>_. ''digest''), h_anomaly = (\<lambda>(kind, key, d). d)\<rparr>"

definition demo_evidence :: evidence where
  "demo_evidence = \<lparr>ev_rows = [], ev_anomalies = []\<rparr>"

definition demo_ingest :: "py_error + ingest_result \<times> evidence" where
  "demo_ingest = ingest demo_hashes [''EURUSD''] (''EURUSD'', ''5m'')
     [demo_bar (20 * MINUTE), demo_bar 0, demo_bar (5 * MINUTE), demo_bar (30 * MINUTE)] (30 * MINUTE) demo_evidence"

lemma demo_evidence_ok: "evidence_ok demo_evidence"
  by (simp add: evidence_ok_def stream_ok_def stream_rows_def demo_evidence_def)

lemma demo_ingest_returns: "demo_ingest = Inr (fst (projr demo_ingest), snd (projr demo_ingest))"
proof -
  have "isl demo_ingest = False" unfolding demo_ingest_def by code_simp
  then show ?thesis by (cases demo_ingest) auto
qed

theorem ingest_appends_chronologically_witness:
  "evidence_ok (snd (projr demo_ingest)) \<and> map m_start (ir_committed (fst (projr demo_ingest))) = [0, 5 * MINUTE, 20 * MINUTE]"
proof
  show "evidence_ok (snd (projr demo_ingest))"
    using ingest_appends_chronologically [OF demo_evidence_ok demo_ingest_returns [unfolded demo_ingest_def]]
    by (simp add: demo_ingest_def)
  show "map m_start (ir_committed (fst (projr demo_ingest))) = [0, 5 * MINUTE, 20 * MINUTE]"
    by code_simp
qed



text \<open>
  C6. A crash loses nothing. If the run stops after committing any prefix of the eligible bars and a
  restart presents all of them again, the store ends exactly as if the run had not stopped: nothing
  is committed twice, nothing is skipped, no anomaly is added or changed.
\<close>

theorem commit_resumes_after_crash:
  assumes "evidence_ok st"
  shows "snd (commit_all H (before @ after) (snd (commit_all H before st))) = snd (commit_all H (before @ after) st)"
  by (rule commit_resume [OF assms])

theorem commit_resumes_after_crash_witness:
  "snd (commit_all demo_hashes ([demo_bar 0] @ [demo_bar HOUR]) (snd (commit_all demo_hashes [demo_bar 0] demo_evidence)))
   = snd (commit_all demo_hashes ([demo_bar 0] @ [demo_bar HOUR]) demo_evidence)"
  by (rule commit_resumes_after_crash [OF demo_evidence_ok])

end
