(* ===== verification/CatchUp.thy ===== *)
theory CatchUp
  imports ConflictPath MarketEvidence
begin

text \<open>
  \<open>execution/position_catch_up.py\<close>: the closed bars after an open position's watermark, each applied to the
  durable state in a transaction of its own. Every bar of a call has its surroundings: the ids of a new
  trade, the clock, what other processes commit before the load of the bar and between its load and its
  save, and whether the halt gate refuses it at either read (\<open>halt_gate=None\<close> never does). A call that raises
  keeps the bars it had committed, so the result is a store and an outcome. \<open>applied\<close> lists each bar with the
  position it was applied to; the code keeps the bar's start alone. The observer of the REX evidence can change
  nothing and is left out.
\<close>

section \<open>Eligible bars\<close>

definition position_watermark :: "paper_position \<Rightarrow> instant option" where
  "position_watermark p = (if p_last_processed_at p \<noteq> None then p_last_processed_at p else p_opened_at p)"

fun stream_checked :: "string \<Rightarrow> instant \<Rightarrow> market_bar list \<Rightarrow> py_error + unit" where
  "stream_checked symbol previous [] = Inr ()"
| "stream_checked symbol previous (b # bs) =
    (if m_symbol b \<noteq> symbol \<or> m_timeframe b \<noteq> ''5m'' \<or> \<not> m_is_closed b
     then Inl (RuntimeError ''committed evidence does not match the requested stream'')
     else if m_start b \<le> previous then Inl (RuntimeError ''committed evidence is not strictly chronological'')
     else stream_checked symbol (m_start b) bs)"

text \<open>The two sources; with neither, and with a watermark that is not aware, reading them raises.\<close>

definition source_bars ::
  "evidence option \<Rightarrow> market_bar list option \<Rightarrow> string \<Rightarrow> instant option \<Rightarrow> instant \<Rightarrow> py_error + market_bar list" where
  "source_bars ev observed symbol after as_of =
    (let unavailable = Inl (RuntimeError ''committed evidence unavailable'') in
     case observed of
       None \<Rightarrow> (case (ev, after) of
           (Some e, Some w) \<Rightarrow> (case committed (symbol, ''5m'') (Some w) e of Inl _ \<Rightarrow> unavailable | Inr bs \<Rightarrow> Inr bs)
         | _ \<Rightarrow> unavailable)
     | Some bs \<Rightarrow> (case after of
           None \<Rightarrow> if bs = [] then Inr [] else unavailable
         | Some w \<Rightarrow> Inr (sort_key m_start (filter (\<lambda>b. w < m_start b \<and> closed_at as_of b) bs))))"

definition eligible_bars ::
  "evidence option \<Rightarrow> market_bar list option \<Rightarrow> string \<Rightarrow> instant option \<Rightarrow> instant \<Rightarrow> py_error + market_bar list" where
  "eligible_bars ev observed symbol after as_of =
    ebind (source_bars ev observed symbol after as_of) (\<lambda>bs.
      ebind (case after of None \<Rightarrow> Inr () | Some w \<Rightarrow> stream_checked symbol w bs) (\<lambda>_. Inr (filter (closed_at as_of) bs)))"

definition tm_bar :: "market_bar \<Rightarrow> bar" where
  "tm_bar b = \<lparr>b_symbol = m_symbol b, b_timestamp = Some (m_start b), b_is_closed = True, b_open = PFloat (m_open b),
     b_high = PFloat (m_high b), b_low = PFloat (m_low b), b_close = PFloat (m_close b)\<rparr>"

section \<open>The loop\<close>

record surroundings =
  su_tid :: "nat \<Rightarrow> string"
  su_now :: "nat \<Rightarrow> instant"
  su_before :: "nat \<Rightarrow> store \<Rightarrow> store"
  su_inside :: "nat \<Rightarrow> store \<Rightarrow> store"
  su_read1 :: "nat \<Rightarrow> bool"
  su_read2 :: "nat \<Rightarrow> bool"

record catch_up_request =
  cu_account :: string
  cu_symbol :: string
  cu_instrument :: "instrument_spec option"
  cu_owner :: "string option"

datatype catch_up_status = NO_OP | UP_TO_DATE | APPLIED | CLOSED_BY instant | STALE_STATE

record catch_up_result =
  cr_state :: catch_up_status
  cr_applied :: "(string \<times> instant) list"
  cr_watermark :: "instant option"

type_synonym loop_outcome = "store \<times> (string \<times> instant) list \<times> (py_error + instant option \<times> bool)"

definition durable_broker :: "paper_account \<Rightarrow> instrument_spec option \<Rightarrow> (string, paper_order) dict \<Rightarrow> (string, paper_fill) dict \<Rightarrow> broker" where
  "durable_broker a ins ods fs = (new_broker a ins None)\<lparr>br_orders := ods, br_fills := fs\<rparr>"

definition after_bar :: "string \<Rightarrow> market_bar \<Rightarrow> broker \<Rightarrow> broker \<times> closed_trade list" where
  "after_bar tid b br = (case process_bar tid (Some (tm_bar b)) (br_account br) of (a, journal, trades) \<Rightarrow>
     (br\<lparr>br_account := a, br_journal := br_journal br @ journal\<rparr>, trades))"

text \<open>The outcome of the loop: the bar that closed the position, if one did, and whether a save was stale.\<close>

fun catch_up_loop :: "catch_up_request \<Rightarrow> surroundings \<Rightarrow> nat \<Rightarrow> market_bar list \<Rightarrow> (string \<times> instant) list \<Rightarrow> store \<Rightarrow> loop_outcome" where
  "catch_up_loop q e i [] applied s = (s, applied, Inr (None, False))"
| "catch_up_loop q e i (b # bs) applied s =
    (if su_read1 e i then (s, applied, Inl (HaltRefused ''catch_up_bar'' ''admission''))
     else let s0 = su_before e i s in
     (case load_paper (cu_account q) s0 of
        Inl err \<Rightarrow> (s0, applied, Inl err)
      | Inr (None, ods, fs) \<Rightarrow> (s0, applied, Inl (TypeError ''attribute''))
      | Inr (Some a, ods, fs) \<Rightarrow>
        (case dget (a_open_positions a) (cu_symbol q) of
           None \<Rightarrow> (s0, applied, Inr (None, False))
         | Some p \<Rightarrow>
           (case position_watermark p of None \<Rightarrow> (s0, applied, Inl (TypeError ''compare'')) | Some w \<Rightarrow>
            if m_start b \<le> w then (s0, applied, Inr (None, False))
            else (case after_bar (su_tid e i) b (durable_broker a (cu_instrument q) ods fs) of (br, trades) \<Rightarrow>
              let s1 = su_inside e i s0 in
              if su_read2 e i then (s1, applied, Inl (HaltRefused ''catch_up_bar'' ''read2''))
              else (case save_paper (cu_owner q) (Some (cu_symbol q)) (Some (paper_state (Some a, ods, fs))) (su_now e i) br s1 of
                  Inl err \<Rightarrow> (s1, applied, Inl err)
                | Inr (saved, s2, _) \<Rightarrow>
                    if \<not> saved then (s2, applied, Inr (None, True))
                    else let applied' = applied @ [(p_id p, m_start b)] in
                      if trades \<noteq> [] then (s2, applied', Inr (Some (m_start b), False))
                      else catch_up_loop q e (i + 1) bs applied' s2))))))"

definition catch_up_result_of :: "catch_up_request \<Rightarrow> loop_outcome \<Rightarrow> store \<times> (py_error + catch_up_result)" where
  "catch_up_result_of q out = (case out of (s, applied, result) \<Rightarrow> (s,
     ebind result (\<lambda>(closed, stale). case closed of
       Some t \<Rightarrow> Inr \<lparr>cr_state = CLOSED_BY t, cr_applied = applied, cr_watermark = None\<rparr>
     | None \<Rightarrow> ebind (load_paper (cu_account q) s) (\<lambda>(oa, _, _). case oa of None \<Rightarrow> Inl (TypeError ''attribute'') | Some a \<Rightarrow>
         ebind (case dget (a_open_positions a) (cu_symbol q) of None \<Rightarrow> Inr None
             | Some p \<Rightarrow> (case position_watermark p of None \<Rightarrow> Inl (ValueError ''timezone-aware datetime required'') | Some w \<Rightarrow> Inr (Some w))) (\<lambda>w.
           Inr \<lparr>cr_state = (if stale then STALE_STATE else if applied \<noteq> [] then APPLIED else UP_TO_DATE), cr_applied = applied,
             cr_watermark = w\<rparr>)))))"

definition catch_up_position ::
  "catch_up_request \<Rightarrow> surroundings \<Rightarrow> evidence option \<Rightarrow> market_bar list option \<Rightarrow> instant option \<Rightarrow> store \<Rightarrow>
   store \<times> (py_error + catch_up_result)" where
  "catch_up_position q e ev observed as_of s = (case as_of of
     None \<Rightarrow> (s, Inl (ValueError ''as_of: timezone-aware datetime required''))
   | Some t \<Rightarrow>
     if ev \<noteq> None \<and> observed \<noteq> None then (s, Inl (ValueError ''provide evidence or observed_bars, not both''))
     else (case load_paper (cu_account q) s of
         Inl err \<Rightarrow> (s, Inl err)
       | Inr (oa, _, _) \<Rightarrow>
         (case Option.bind oa (\<lambda>a. dget (a_open_positions a) (cu_symbol q)) of
            None \<Rightarrow> (s, Inr \<lparr>cr_state = NO_OP, cr_applied = [], cr_watermark = None\<rparr>)
          | Some p \<Rightarrow> (case eligible_bars ev observed (cu_symbol q) (position_watermark p) t of
               Inl err \<Rightarrow> (s, Inl err)
             | Inr bars \<Rightarrow> catch_up_result_of q (catch_up_loop q e 0 bars [] s)))))"

section \<open>Facts\<close>

text \<open>A bar that a position has behind it, or will never see again because the position is over.\<close>

definition bar_settled :: "string \<Rightarrow> string \<Rightarrow> instant \<Rightarrow> store \<Rightarrow> bool" where
  "bar_settled aid pid t s \<longleftrightarrow> (\<forall>a ods fs p. load_paper aid s = Inr (Some a, ods, fs) \<longrightarrow> p \<in> set (dvals (a_open_positions a)) \<longrightarrow> p_id p = pid \<longrightarrow>
     (\<exists>w. position_watermark p = Some w \<and> t \<le> w))"

text \<open>Well-formed tables whose open positions a bar can be applied to.\<close>

definition manageable :: "paper_position \<Rightarrow> bool" where
  "manageable p \<longleftrightarrow> valid_opt (p_multiplier p) \<and> (\<exists>t w. p_opened_at p = Some t \<and> position_watermark p = Some w \<and> t \<le> w)"

definition positions_ready :: "string \<Rightarrow> store \<Rightarrow> bool" where
  "positions_ready aid s \<longleftrightarrow> paper_inv aid s
     \<and> (\<forall>a ods fs. load_paper aid s = Inr (Some a, ods, fs) \<longrightarrow> (\<forall>p \<in> set (dvals (a_open_positions a)). manageable p))"

definition trade_ids_fresh :: "(nat \<Rightarrow> string) \<Rightarrow> store \<Rightarrow> bool" where
  "trade_ids_fresh tid s \<longleftrightarrow> (\<forall>i. dget (s_trades s) (tid i) = None)"

definition bar_values_ok :: "market_bar \<Rightarrow> bool" where
  "bar_values_ok b \<longleftrightarrow> 0 < m_low b \<and> m_low b \<le> m_open b \<and> m_open b \<le> m_high b \<and> m_low b \<le> m_close b \<and> m_close b \<le> m_high b"

text \<open>The bars the checks let through are strictly chronological and after the watermark.\<close>

lemma stream_checked_sorted:
  "stream_checked symbol w bs = Inr () \<Longrightarrow> sorted_wrt (<) (w # map m_start bs) \<and> (\<forall>b \<in> set bs. m_symbol b = symbol)"
proof (induction bs arbitrary: w)
  case (Cons b bs)
  then have "sorted_wrt (<) (m_start b # map m_start bs) \<and> (\<forall>b \<in> set bs. m_symbol b = symbol)" "w < m_start b" "m_symbol b = symbol"
    by (auto split: if_splits)
  then show ?case by force
qed simp

lemma eligible_sorted:
  assumes "eligible_bars ev observed symbol (Some w) as_of = Inr bars"
  shows "sorted_wrt (<) (map m_start bars) \<and> (\<forall>b \<in> set bars. m_symbol b = symbol \<and> w < m_start b)"
proof -
  obtain bs where "stream_checked symbol w bs = Inr ()" "bars = filter (closed_at as_of) bs"
    using assms by (auto simp: eligible_bars_def ebind_eq_Inr)
  moreover from this(1) have "sorted_wrt (<) (w # map m_start bs) \<and> (\<forall>b \<in> set bs. m_symbol b = symbol)" by (rule stream_checked_sorted)
  ultimately show ?thesis by (auto simp: sorted_wrt_map intro: sorted_wrt_filter)
qed

lemma tm_bar_valid: "bar_values_ok b \<Longrightarrow> valid_ohlc (tm_bar b)"
  by (simp add: bar_values_ok_def valid_ohlc_def tm_bar_def)

text \<open>What a bar does to a broker loaded from the tables: one position moves its watermark, or is closed.\<close>

lemma after_bar_cases:
  assumes "dkeys_ok (a_open_positions a)" and "dget (a_open_positions a) (m_symbol b) = Some p" and "p_status p = OPEN"
    and "valid_side (p_side p)" and "manageable p" and "position_watermark p = Some w" and "w < m_start b" and "bar_values_ok b"
    and "after_bar tid b (durable_broker a ins ods fs) = (br, trades)"
  obtains (moved) p' where "trades = []" "br_account br = mark_to_market (a\<lparr>a_open_positions := dput (m_symbol b) p' (a_open_positions a)\<rparr>)"
      "p' = p\<lparr>p_last_price := Some (m_close b), p_last_processed_at := Some (m_start b)\<rparr>" "br_orders br = ods" "br_fills br = fs"
  | (closed) price reason where "trades = [make_closed_trade tid p price (m_start b) reason]"
      "br_account br = mark_to_market (book_trade (m_symbol b) (make_closed_trade tid p price (m_start b) reason) a)"
      "br_orders br = ods" "br_fills br = fs"
proof -
  have "bar_applies (m_symbol b) p (tm_bar b) (m_start b)"
    using assms(3-8) tm_bar_valid [OF assms(8)]
    by (auto simp: bar_applies_def manageable_def position_watermark_def tm_bar_def split: option.splits if_splits)
  moreover have t: "b_timestamp (tm_bar b) = Some (m_start b)" "b_is_closed (tm_bar b)" "b_symbol (tm_bar b) = m_symbol b"
    "b_close (tm_bar b) = PFloat (m_close b)" by (simp_all add: tm_bar_def)
  ultimately show thesis
    using assms(1,2,9) moved closed
    by (auto simp: after_bar_def process_bar_eq [OF _ t(1,2)] process_position_def durable_broker_def new_broker_def Let_def t(3,4)
        split: option.splits prod.splits)
qed

text \<open>Positions keyed by their symbols.\<close>

lemma dvals_dput_keyed:
  "distinct (map p_symbol ps) \<Longrightarrow> sy \<in> p_symbol ` set ps \<Longrightarrow>
   dvals (dput sy p' (map (\<lambda>p. (p_symbol p, p)) ps)) = map (\<lambda>p. if p_symbol p = sy then p' else p) ps"
proof (induction ps)
  case (Cons p ps)
  show ?case
  proof (cases "p_symbol p = sy")
    case True
    then have "p_symbol x \<noteq> sy" if "x \<in> set ps" for x using Cons.prems(1) that by (auto simp: image_iff)
    then have "map (\<lambda>p. if p_symbol p = sy then p' else p) ps = ps" by (intro map_idI) simp
    then show ?thesis using True by (simp add: dvals_def comp_def)
  next
    case False
    then show ?thesis using Cons by (simp add: dvals_def)
  qed
qed simp

lemma dvals_ddel_keyed: "dvals (ddel sy (map (\<lambda>p. (p_symbol p, p)) ps)) = filter (\<lambda>p. p_symbol p \<noteq> sy) ps"
  by (induction ps) (auto simp: ddel_def dvals_def)

text \<open>The broker after a bar can be saved over the state it was loaded from.\<close>

lemma after_bar_storable:
  assumes "paper_inv aid s" and ld: "load_paper aid s = Inr (Some a, ods, fs)" and p: "dget (a_open_positions a) (m_symbol b) = Some p"
    and "manageable p" and "position_watermark p = Some w" and "w < m_start b" and "bar_values_ok b"
    and bar: "after_bar tid b (durable_broker a ins ods fs) = (br, trades)" and fresh: "tid \<notin> ct_id ` set (a_closed_trades a)"
  shows "storable br" and "accounts_for br (Some a, ods, fs)" and "a_id (br_account br) = aid"
    and "br_orders br = ods" and "br_fills br = fs"
    and "trades = [] \<Longrightarrow> a_closed_trades (br_account br) = a_closed_trades a"
    and "\<forall>x \<in> set (dvals (a_open_positions (br_account br))). x \<in> set (dvals (a_open_positions a)) \<and> p_id x \<noteq> p_id p
       \<or> x = p\<lparr>p_last_price := Some (m_close b), p_last_processed_at := Some (m_start b)\<rparr>"
proof -
  have ok: "paper_ok s" "books_disjoint a" using assms(1) ld by (auto simp: paper_inv_def)
  note st = load_some(9) [OF ok(1) ld]
  obtain ps where ps: "a_open_positions a = map (\<lambda>p. (p_symbol p, p)) ps" "distinct (map p_symbol ps)" using load_positions [OF ld] .
  have vals: "dvals (a_open_positions a) = ps" by (simp add: ps dvals_def comp_def)
  have keys: "dkeys_ok (a_open_positions a)" using ps by (simp add: dkeys_ok_def comp_def)
  have mem: "p \<in> set ps" "p_symbol p = m_symbol b" using p ps(1) by (auto dest!: map_of_SomeD)
  have open_p: "p_status p = OPEN" "valid_side (p_side p)" using st mem(1) by (auto simp: state_ok_def vals)
  have uniq: "x = p" if "x \<in> set ps" "p_symbol x = m_symbol b" for x
    using ps(2) mem that by (metis distinct_map inj_onD)
  have ids: "distinct (map p_id ps)" using st by (simp add: state_ok_def vals)
  then have uniq_id: "x = p" if "x \<in> set ps" "p_id x = p_id p" for x using mem(1) that by (metis distinct_map inj_onD)
  obtain a0 where a0: "a_id a0 = aid" "a = a0\<lparr>a_open_positions := a_open_positions a, a_closed_trades := a_closed_trades a\<rparr>"
    using load_some(8) [OF ok(1) ld] by blast
  have aid: "a_id a = aid" using arg_cong [OF a0(2), of a_id] a0(1) by simp
  have mtm: "a_id (mark_to_market x) = a_id x" for x by (simp add: mark_to_market_def Let_def)
  have "storable br \<and> accounts_for br (Some a, ods, fs) \<and> a_id (br_account br) = aid \<and> br_orders br = ods \<and> br_fills br = fs
     \<and> (trades = [] \<longrightarrow> a_closed_trades (br_account br) = a_closed_trades a)
     \<and> (\<forall>x \<in> set (dvals (a_open_positions (br_account br))). x \<in> set (dvals (a_open_positions a)) \<and> p_id x \<noteq> p_id p
         \<or> x = p\<lparr>p_last_price := Some (m_close b), p_last_processed_at := Some (m_start b)\<rparr>)"
    using keys p open_p assms(4-7) bar
  proof (cases rule: after_bar_cases)
    case (moved p')
    let ?f = "\<lambda>x. if p_symbol x = m_symbol b then p' else x"
    have new: "dvals (a_open_positions (br_account br)) = map ?f ps"
    proof -
      have "m_symbol b \<in> p_symbol ` set ps" using mem(1) mem(2) [symmetric] by (rule rev_image_eqI)
      then show ?thesis by (simp add: moved(2) ps(1) dvals_dput_keyed [OF ps(2)])
    qed
    have same: "map p_id (map ?f ps) = map p_id ps" "map p_symbol (map ?f ps) = map p_symbol ps"
      using uniq mem(2) by (auto simp: moved(3) dest: uniq)
    have "\<forall>x \<in> set (map ?f ps). valid_side (p_side x) \<and> p_status x = OPEN"
      using st open_p by (auto simp: state_ok_def vals moved(3))
    then have "state_ok (br_account br) ods fs"
    proof -
      have d: "distinct (map p_id (map ?f ps))" "distinct (map p_symbol (map ?f ps))" using ids ps(2) by (simp_all only: same)
      have c: "a_closed_trades (br_account br) = a_closed_trades a" "a_starting_equity (br_account br) = a_starting_equity a"
        by (simp_all add: moved(2))
      show ?thesis unfolding state_ok_def new c
        using st d \<open>\<forall>x \<in> set (map ?f ps). valid_side (p_side x) \<and> p_status x = OPEN\<close> unfolding state_ok_def by blast
    qed
    moreover have ids_eq: "p_id ` set (map ?f ps) = p_id ` set ps" using same(1) by (metis set_map)
    moreover have "books_disjoint (br_account br)"
    proof -
      have c: "a_closed_trades (br_account br) = a_closed_trades a" by (simp add: moved(2))
      have "p_id x \<in> p_id ` set ps" if "x \<in> set (map ?f ps)" for x using imageI [OF that, of p_id] unfolding ids_eq .
      then show ?thesis using ok(2) unfolding books_disjoint_def new c vals by fastforce
    qed
    moreover have "accounts_for br (Some a, ods, fs)"
      unfolding accounts_for_def new vals prod.case option.case ids_eq by (simp add: moved aid mtm)
    moreover have "\<forall>x \<in> set (map ?f ps). x \<in> set ps \<and> p_id x \<noteq> p_id p \<or> x = p'" using uniq_id mem(2) by auto
    moreover have "a_id (br_account br) = aid" "a_closed_trades (br_account br) = a_closed_trades a"
      by (simp_all add: moved(2) aid mtm)
    ultimately show ?thesis unfolding storable_def new vals by (simp only: moved(3-5) simp_thms)
  next
    case (closed price reason)
    let ?tr = "make_closed_trade tid p price (m_start b) reason"
    have new: "dvals (a_open_positions (br_account br)) = filter (\<lambda>x. p_symbol x \<noteq> m_symbol b) ps"
      "a_closed_trades (br_account br) = a_closed_trades a @ [?tr]"
      using closed(2) by (simp_all add: ps dvals_ddel_keyed)
    have side: "ct_side ?tr = p_side p" by (simp add: make_closed_trade_def Let_def)
    have "state_ok (br_account br) ods fs"
      using st open_p(2) fresh side unfolding state_ok_def new vals by (auto simp: closed(2) distinct_map_filter)
    moreover have other: "p_id x \<noteq> p_id p" if "x \<in> set ps" "p_symbol x \<noteq> m_symbol b" for x using uniq_id [OF that(1)] that(2) mem(2) by blast
    then have "books_disjoint (br_account br)" using ok(2) unfolding books_disjoint_def new vals by auto
    moreover have "p_id ` set ps \<subseteq> insert (p_id p) (p_id ` {x \<in> set ps. p_symbol x \<noteq> m_symbol b})" using uniq by auto
    then have "accounts_for br (Some a, ods, fs)"
      unfolding accounts_for_def new vals prod.case option.case by (auto simp: closed aid mtm book_trade_def)
    moreover have "a_id (br_account br) = aid" by (simp add: closed(2) aid mtm book_trade_def)
    moreover have "\<forall>x \<in> set (filter (\<lambda>x. p_symbol x \<noteq> m_symbol b) ps). x \<in> set ps \<and> p_id x \<noteq> p_id p" using other by simp
    moreover have "trades \<noteq> []" by (simp add: closed(1))
    ultimately show ?thesis unfolding storable_def new(1) vals using closed(3,4) by blast
  qed
  then show "storable br" "accounts_for br (Some a, ods, fs)" "a_id (br_account br) = aid" "br_orders br = ods" "br_fills br = fs"
    "trades = [] \<Longrightarrow> a_closed_trades (br_account br) = a_closed_trades a"
    "\<forall>x \<in> set (dvals (a_open_positions (br_account br))). x \<in> set (dvals (a_open_positions a)) \<and> p_id x \<noteq> p_id p
       \<or> x = p\<lparr>p_last_price := Some (m_close b), p_last_processed_at := Some (m_start b)\<rparr>"
    by blast+
qed

text \<open>Committing over a state with the view that was loaded.\<close>

lemma commit_loaded:
  assumes "paper_ok s0" and "load_paper aid s0 = Inr (Some a, ods, fs)" and "paper_ok s1" and "stored_view aid s1 = Some (paper_state (Some a, ods, fs))"
    and br: "storable br" "accounts_for br (Some a, ods, fs)" "a_id (br_account br) = aid" and w: "write_paper now br s1 = Inr s'"
  obtains a1 ods1 fs1 a' ods' fs' where "load_paper aid s1 = Inr (Some a1, ods1, fs1)" "mset (dvals (a_open_positions a1)) = mset (dvals (a_open_positions a))"
    "mset (a_closed_trades a1) = mset (a_closed_trades a)"
    "load_paper aid s' = Inr (Some a', ods', fs')" "paper_inv aid s'" "mset (dvals (a_open_positions a')) = mset (dvals (a_open_positions (br_account br)))"
proof -
  obtain d1 where d1: "load_paper aid s1 = Inr d1" "paper_state d1 = paper_state (Some a, ods, fs)"
    using assms(4) by (auto simp: stored_view_def split: sum.splits)
  obtain a1 ods1 fs1 where p1: "d1 = (Some a1, ods1, fs1)" using view_none [OF d1(2)] by blast
  note m = view_inj [OF load_some(9) [OF assms(1,2)] load_some(9) [OF assms(3) d1(1) [unfolded p1]] d1(2) [unfolded p1]]
  have "a_id a1 = a_id a" by (rule same_scalars(1) [OF m(5)])
  moreover have "set (dvals ods1) = set (dvals ods)" "set (dvals fs1) = set (dvals fs)"
    "set (dvals (a_open_positions a1)) = set (dvals (a_open_positions a))" "set (a_closed_trades a1) = set (a_closed_trades a)"
    using m(1-4) by (metis set_mset_mset)+
  ultimately have acc: "accounts_for br d1" using br(2) unfolding accounts_for_def p1 prod.case option.case by simp
  obtain a' ods' fs' where f: "load_paper (a_id (br_account br)) s' = Inr (Some a', ods', fs')" "paper_inv (a_id (br_account br)) s'"
    "mset (dvals (a_open_positions a')) = mset (dvals (a_open_positions (br_account br)))"
    by (rule load_saved [OF assms(3) br(1) d1(1) [folded br(3)] acc w]) blast
  show thesis by (rule that [OF d1(1) [unfolded p1] m(3,4) f [unfolded br(3)]])
qed

lemma write_paper_trades: "write_paper now br s = Inr s' \<Longrightarrow> s_trades s' = put_rows ct_id encode_trade (a_closed_trades (br_account br)) (s_trades s)"
proof -
  have j: "s_trades (foldl (\<lambda>s e. journal_broker_event now e s) x es) = s_trades x" for x es
    by (induction es arbitrary: x) (simp_all add: journal_broker_event_def)
  show "write_paper now br s = Inr s' \<Longrightarrow> s_trades s' = put_rows ct_id encode_trade (a_closed_trades (br_account br)) (s_trades s)"
    by (auto simp: write_paper_def Let_def ebind_eq_Inr j)
qed

text \<open>One bar, committed: its guarantee.\<close>

lemma bar_committed:
  assumes ready: "positions_ready aid s0" "positions_ready aid s1" and ld: "load_paper aid s0 = Inr (Some a, ods, fs)"
    and p: "dget (a_open_positions a) (m_symbol b) = Some p" "position_watermark p = Some w" "w < m_start b" and "bar_values_ok b"
    and bar: "after_bar (tid i) b (durable_broker a ins ods fs) = (br, trades)" and fresh: "trade_ids_fresh tid s0" "trade_ids_fresh tid s1"
    and save: "save_paper owner symbol (Some (paper_state (Some a, ods, fs))) now br s1 = Inr (True, s2, br')"
  shows "positions_ready aid s2" and "\<not> bar_settled aid (p_id p) (m_start b) s0" and "bar_settled aid (p_id p) (m_start b) s2"
    and "\<And>pid t. bar_settled aid pid t s1 \<Longrightarrow> bar_settled aid pid t s2" and "trades = [] \<Longrightarrow> trade_ids_fresh tid s2"
proof -
  have ok: "paper_inv aid s0" "paper_ok s0" "paper_ok s1" using ready by (auto simp: positions_ready_def paper_inv_def)
  have mem: "p \<in> set (dvals (a_open_positions a))" using p(1) by (force simp: dvals_def dest: map_of_SomeD)
  have man: "manageable p" using ready(1) ld mem by (auto simp: positions_ready_def)
  have ids: "ct_id ` set (a_closed_trades a) = fst ` set (s_trades s0)" using load_some(5) [OF ok(2) ld] by simp
  have "dget (s_trades s0) (tid i) = None" using fresh(1) by (simp add: trade_ids_fresh_def)
  then have "tid i \<notin> ct_id ` set (a_closed_trades a)" unfolding ids by (simp add: map_of_eq_None_iff)
  note st = after_bar_storable [OF ok(1) ld p(1) man p(2,3) assms(7) bar this]
  have wr: "write_paper now br s1 = Inr s2" "stored_view aid s1 = Some (paper_state (Some a, ods, fs))"
    using save st(3) by (auto elim!: save_paper_cases simp: stored_view_def)
  obtain a1 ods1 fs1 a' ods' fs' where l: "load_paper aid s1 = Inr (Some a1, ods1, fs1)" "mset (dvals (a_open_positions a1)) = mset (dvals (a_open_positions a))"
    "mset (a_closed_trades a1) = mset (a_closed_trades a)"
    "load_paper aid s2 = Inr (Some a', ods', fs')" "paper_inv aid s2" "mset (dvals (a_open_positions a')) = mset (dvals (a_open_positions (br_account br)))"
    by (rule commit_loaded [OF ok(2) ld ok(3) wr(2) st(1-3) wr(1)])
  have pos: "set (dvals (a_open_positions a1)) = set (dvals (a_open_positions a))"
    "set (dvals (a_open_positions a')) = set (dvals (a_open_positions (br_account br)))"
    using l(2,6) by (metis set_mset_mset)+
  let ?p' = "p\<lparr>p_last_price := Some (m_close b), p_last_processed_at := Some (m_start b)\<rparr>"
  have new: "x \<in> set (dvals (a_open_positions a1)) \<and> p_id x \<noteq> p_id p \<or> x = ?p'" if "x \<in> set (dvals (a_open_positions a'))" for x
    using st(7) that pos by blast
  have wm: "position_watermark ?p' = Some (m_start b)" by (simp add: position_watermark_def)
  have man': "manageable ?p'" using man p(2,3) by (auto simp: manageable_def wm)
  then show "positions_ready aid s2" using l(1,4,5) new ready(2) unfolding positions_ready_def by fastforce
  show "\<not> bar_settled aid (p_id p) (m_start b) s0" using ld mem p(2,3) by (force simp: bar_settled_def)
  show "bar_settled aid (p_id p) (m_start b) s2" using l(4) new wm unfolding bar_settled_def by fastforce
  have "\<exists>x. x = p \<and> x \<in> set (dvals (a_open_positions a1))" using mem pos(1) by simp
  show "bar_settled aid pid t s2" if s: "bar_settled aid pid t s1" for pid t
    unfolding bar_settled_def
  proof (intro allI impI)
    fix a2 ods2 fs2 x
    assume x: "load_paper aid s2 = Inr (Some a2, ods2, fs2)" "x \<in> set (dvals (a_open_positions a2))" "p_id x = pid"
    consider "x \<in> set (dvals (a_open_positions a1))" | "x = ?p'" using new x(1,2) l(4) by fastforce
    then show "\<exists>w. position_watermark x = Some w \<and> t \<le> w"
    proof cases
      case 1
      then show ?thesis using s l(1) x(3) by (auto simp: bar_settled_def)
    next
      case 2
      then have "pid = p_id p" using x(3) by simp
      then have "t \<le> w" using s l(1) mem pos(1) p(2) unfolding bar_settled_def by fastforce
      then show ?thesis using p(3) 2 wm by simp
    qed
  qed
  show "trade_ids_fresh tid s2" if "trades = []"
    unfolding trade_ids_fresh_def
  proof
    fix j
    have "set (a_closed_trades a1) = set (a_closed_trades a)" using l(3) by (metis set_mset_mset)
    then have "ct_id ` set (a_closed_trades (br_account br)) = fst ` set (s_trades s1)"
      using st(6) [OF that] load_some(5) [OF ok(3) l(1)] by simp
    moreover have "dget (s_trades s1) (tid j) = None" using fresh(2) by (simp add: trade_ids_fresh_def)
    ultimately show "dget (s_trades s2) (tid j) = None"
      unfolding write_paper_trades [OF wr(1)] by (subst dget_put_rows_other) (simp_all add: map_of_eq_None_iff)
  qed
qed

section \<open>The guarantee of a call\<close>

text \<open>What the others must keep: ready positions, unused trade ids, and that no position falls back behind a bar.\<close>

definition world :: "string \<Rightarrow> (nat \<Rightarrow> string) \<Rightarrow> store \<Rightarrow> bool" where
  "world aid tid s \<longleftrightarrow> positions_ready aid s \<and> trade_ids_fresh tid s"

definition keeps_settled :: "string \<Rightarrow> store \<Rightarrow> store \<Rightarrow> bool" where
  "keeps_settled aid s s' \<longleftrightarrow> (\<forall>pid t. bar_settled aid pid t s \<longrightarrow> bar_settled aid pid t s')"

definition well_behaved :: "string \<Rightarrow> (nat \<Rightarrow> string) \<Rightarrow> (store \<Rightarrow> store) \<Rightarrow> bool" where
  "well_behaved aid tid f \<longleftrightarrow> (\<forall>s. world aid tid s \<longrightarrow> world aid tid (f s) \<and> keeps_settled aid s (f s))"

lemma keeps_refl: "keeps_settled aid s s" and keeps_trans: "keeps_settled aid s s' \<Longrightarrow> keeps_settled aid s' s'' \<Longrightarrow> keeps_settled aid s s''"
  by (auto simp: keeps_settled_def)

definition loop_guarantee :: "string \<Rightarrow> market_bar list \<Rightarrow> store \<Rightarrow> (string \<times> instant) list \<Rightarrow> store \<Rightarrow> bool" where
  "loop_guarantee aid bs s new s' \<longleftrightarrow> positions_ready aid s' \<and> keeps_settled aid s s'
     \<and> (\<forall>(pid, t) \<in> set new. \<not> bar_settled aid pid t s \<and> bar_settled aid pid t s') \<and> (\<exists>n. map snd new = take n (map m_start bs))"

lemma loop_stop: "positions_ready aid s \<Longrightarrow> loop_guarantee aid bs s [] s"
  by (auto simp: loop_guarantee_def keeps_refl intro: exI [of _ 0])

lemma loop_nothing: "world aid tid s' \<Longrightarrow> keeps_settled aid s s' \<Longrightarrow> loop_guarantee aid bs s [] s'"
  by (auto simp: loop_guarantee_def world_def intro: exI [of _ 0])

lemma loop_bar:
  assumes "positions_ready aid s2" and "keeps_settled aid s s0" and "keeps_settled aid s0 s2" and "\<not> bar_settled aid pid (m_start b) s0"
    and "bar_settled aid pid (m_start b) s2" and "loop_guarantee aid bs s2 new s'"
  shows "loop_guarantee aid (b # bs) s ((pid, m_start b) # new) s'"
proof -
  have k: "keeps_settled aid s s2" "keeps_settled aid s2 s'" using assms keeps_trans by (auto simp: loop_guarantee_def)
  obtain n where "map snd new = take n (map m_start bs)" using assms(6) by (auto simp: loop_guarantee_def)
  then have "map snd ((pid, m_start b) # new) = take (Suc n) (map m_start (b # bs))" by simp
  moreover have "\<forall>(x, t) \<in> set ((pid, m_start b) # new). \<not> bar_settled aid x t s \<and> bar_settled aid x t s'"
    using assms k unfolding loop_guarantee_def keeps_settled_def by fastforce
  ultimately show ?thesis using assms(6) keeps_trans [OF k] unfolding loop_guarantee_def by blast
qed

lemma catch_up_loop_guarantee:
  assumes "catch_up_loop q e i bs applied s = (s', applied', out)" and "world (cu_account q) (su_tid e) s"
    and "\<forall>i. well_behaved (cu_account q) (su_tid e) (su_before e i) \<and> well_behaved (cu_account q) (su_tid e) (su_inside e i)"
    and "\<forall>b \<in> set bs. m_symbol b = cu_symbol q \<and> bar_values_ok b"
  shows "\<exists>new. applied' = applied @ new \<and> loop_guarantee (cu_account q) bs s new s'"
  using assms(1,2,4)
proof (induction bs arbitrary: i applied s)
  case Nil
  then show ?case using loop_nothing keeps_refl by auto
next
  case (Cons b bs)
  let ?aid = "cu_account q" and ?s0 = "su_before e i s" and ?s1 = "su_inside e i (su_before e i s)"
  note W = Cons.prems(2)
  have w0: "world ?aid (su_tid e) ?s0" "keeps_settled ?aid s ?s0" and w1: "world ?aid (su_tid e) ?s1" "keeps_settled ?aid ?s0 ?s1"
    using assms(3) W by (auto simp: well_behaved_def)
  note stop = loop_nothing [OF W keeps_refl] loop_nothing [OF w0] loop_nothing [OF w1(1) keeps_trans [OF w0(2) w1(2)]]
  have done_s: ?case if "s' = s \<or> s' = ?s0 \<or> s' = ?s1" "applied' = applied" using that stop by auto
  note run = Cons.prems(1) [unfolded catch_up_loop.simps Let_def]
  show ?case
  proof (cases "su_read1 e i")
    case True
    then show ?thesis using run done_s by simp
  next
    case go: False
    show ?thesis
    proof (cases "\<exists>a ods fs p w. load_paper ?aid ?s0 = Inr (Some a, ods, fs) \<and> dget (a_open_positions a) (cu_symbol q) = Some p
        \<and> position_watermark p = Some w \<and> w < m_start b")
      case False
      then have "(s' = s \<or> s' = ?s0 \<or> s' = ?s1) \<and> applied' = applied"
        using run go by (fastforce split: sum.splits option.splits prod.splits if_splits)
      then show ?thesis using done_s by blast
    next
      case True
      then obtain a ods fs p w where ld: "load_paper ?aid ?s0 = Inr (Some a, ods, fs)" "dget (a_open_positions a) (cu_symbol q) = Some p"
        "position_watermark p = Some w" "w < m_start b" by blast
      obtain br trades where bar: "after_bar (su_tid e i) b (durable_broker a (cu_instrument q) ods fs) = (br, trades)" by fastforce
      note run = run [unfolded if_not_P [OF go] ld sum.case prod.case option.case bar if_not_P [OF ld(4) [unfolded not_le [symmetric]]]]
      show ?thesis
      proof (cases "su_read2 e i")
        case True
        then show ?thesis using run done_s by simp
      next
        case False
        note run = run [unfolded if_not_P [OF False]]
        show ?thesis
        proof (cases "save_paper (cu_owner q) (Some (cu_symbol q)) (Some (paper_state (Some a, ods, fs))) (su_now e i) br ?s1")
          case (Inl err)
          then show ?thesis using run done_s by simp
        next
          case (Inr res)
          obtain saved s2 br' where res: "res = (saved, s2, br')" by (cases res)
          note save = Inr [unfolded res]
          show ?thesis
          proof (cases saved)
            case False
            then have "s2 = ?s1" using save by (auto elim: save_paper_cases)
            then show ?thesis using run save False done_s by simp
          next
            case True
            have b: "m_symbol b = cu_symbol q" "bar_values_ok b" using Cons.prems(3) by auto
            have ready: "positions_ready ?aid ?s0" "positions_ready ?aid ?s1" "trade_ids_fresh (su_tid e) ?s0" "trade_ids_fresh (su_tid e) ?s1"
              using w0(1) w1(1) by (auto simp: world_def)
            have save': "save_paper (cu_owner q) (Some (cu_symbol q)) (Some (paper_state (Some a, ods, fs))) (su_now e i) br ?s1 = Inr (True, s2, br')"
              using save by (simp only: True)
            note bc = bar_committed [OF ready(1,2) ld(1) ld(2) [folded b(1)] ld(3,4) b(2) bar ready(3,4) save']
            have "keeps_settled ?aid ?s1 s2" unfolding keeps_settled_def using bc(4) by blast
            note ks = keeps_trans [OF w1(2) this]
            note sv = True and run = run [unfolded save sum.case prod.case]
            show ?thesis
            proof (cases "trades = []")
              case False
              then have "s' = s2" "applied' = applied @ [(p_id p, m_start b)]" using run sv by auto
              then show ?thesis
                using loop_bar [OF bc(1) w0(2) ks bc(2,3) loop_stop [OF bc(1)]] by blast
            next
              case True
              then have "catch_up_loop q e (i + 1) bs (applied @ [(p_id p, m_start b)]) s2 = (s', applied', out)" using run sv by simp
              moreover have "world ?aid (su_tid e) s2" using bc(1) bc(5) [OF True] by (simp add: world_def)
              moreover have "\<forall>b \<in> set bs. m_symbol b = cu_symbol q \<and> bar_values_ok b" using Cons.prems(3) by simp
              ultimately obtain new where new: "applied' = (applied @ [(p_id p, m_start b)]) @ new" "loop_guarantee ?aid bs s2 new s'"
                using Cons.IH by blast
              then show ?thesis using loop_bar [OF bc(1) w0(2) ks bc(2,3) new(2)] by (intro exI [of _ "(p_id p, m_start b) # new"]) simp
            qed
          qed
        qed
      qed
    qed
  qed
qed

lemma catch_up_result_applied:
  "fst (catch_up_result_of q (s, applied, out)) = s"
  "snd (catch_up_result_of q (s, applied, out)) = Inr r \<Longrightarrow> cr_applied r = applied"
proof -
  have "\<forall>r. snd (catch_up_result_of q (s, applied, out)) = Inr r \<longrightarrow> cr_applied r = applied"
  proof (cases "\<exists>stale a ods fs. out = Inr (None, stale) \<and> load_paper (cu_account q) s = Inr (Some a, ods, fs)")
    case True
    then obtain stale a ods fs where "out = Inr (None, stale)" "load_paper (cu_account q) s = Inr (Some a, ods, fs)" by blast
    then show ?thesis by (auto simp: catch_up_result_of_def split: option.split)
  next
    case False
    then show ?thesis by (auto simp: catch_up_result_of_def ebind_eq_Inr split: option.split_asm)
  qed
  then show "snd (catch_up_result_of q (s, applied, out)) = Inr r \<Longrightarrow> cr_applied r = applied" by blast
qed (simp add: catch_up_result_of_def)

text \<open>Bars with consistent prices, whatever the watermark they are read from.\<close>

definition sound_source :: "evidence option \<Rightarrow> market_bar list option \<Rightarrow> string \<Rightarrow> instant \<Rightarrow> bool" where
  "sound_source ev observed symbol as_of \<longleftrightarrow>
    (\<forall>w bs. source_bars ev observed symbol w as_of = Inr bs \<longrightarrow> (\<forall>b \<in> set bs. bar_values_ok b))"

text \<open>A whole call: the durable state it leaves, and what it says it applied.\<close>

definition applied_bars :: "store \<times> (py_error + catch_up_result) \<Rightarrow> (string \<times> instant) list" where
  "applied_bars out = (case snd out of Inl _ \<Rightarrow> [] | Inr r \<Rightarrow> cr_applied r)"

lemma catch_up_guarantee:
  assumes "world (cu_account q) (su_tid e) s"
    and "\<And>i. well_behaved (cu_account q) (su_tid e) (su_before e i)" and "\<And>i. well_behaved (cu_account q) (su_tid e) (su_inside e i)"
    and "sound_source ev observed (cu_symbol q) as_of"
    and run: "catch_up_position q e ev observed (Some as_of) s = out"
  shows "positions_ready (cu_account q) (fst out) \<and> keeps_settled (cu_account q) s (fst out)
    \<and> (\<forall>(pid, t) \<in> set (applied_bars out). \<not> bar_settled (cu_account q) pid t s \<and> bar_settled (cu_account q) pid t (fst out))
    \<and> sorted_wrt (<) (map snd (applied_bars out))"
proof (cases "\<exists>a ods fs p bars. load_paper (cu_account q) s = Inr (Some a, ods, fs) \<and> dget (a_open_positions a) (cu_symbol q) = Some p
    \<and> eligible_bars ev observed (cu_symbol q) (position_watermark p) as_of = Inr bars \<and> \<not> (ev \<noteq> None \<and> observed \<noteq> None)")
  case False
  then have "fst out = s \<and> applied_bars out = []"
    using run by (fastforce simp: catch_up_position_def applied_bars_def bind_eq_Some_conv split: sum.splits option.splits prod.splits if_splits)
  then show ?thesis using assms(1) keeps_refl by (auto simp: world_def)
next
  case True
  then obtain a ods fs p bars where ld: "load_paper (cu_account q) s = Inr (Some a, ods, fs)" "dget (a_open_positions a) (cu_symbol q) = Some p"
    and el: "eligible_bars ev observed (cu_symbol q) (position_watermark p) as_of = Inr bars" and src: "\<not> (ev \<noteq> None \<and> observed \<noteq> None)" by blast
  have mem: "p \<in> set (dvals (a_open_positions a))" using ld(2) by (force simp: dvals_def dest: map_of_SomeD)
  obtain w where w: "position_watermark p = Some w" using assms(1) ld(1) mem by (fastforce simp: world_def positions_ready_def manageable_def)
  have sorted: "sorted_wrt (<) (map m_start bars)" "\<forall>b \<in> set bars. m_symbol b = cu_symbol q" using eligible_sorted [OF el [unfolded w]] by auto
  have ok: "\<forall>b \<in> set bars. bar_values_ok b" using el assms(4) by (fastforce simp: sound_source_def eligible_bars_def ebind_eq_Inr)
  obtain s1 applied res where loop: "catch_up_loop q e 0 bars [] s = (s1, applied, res)" by (metis prod_cases3)
  have "\<exists>new. applied = [] @ new \<and> loop_guarantee (cu_account q) bars s new s1"
    by (rule catch_up_loop_guarantee [OF loop assms(1)]) (use assms(2,3) ok sorted(2) in blast)+
  then have g: "loop_guarantee (cu_account q) bars s applied s1" by simp
  have "out = catch_up_result_of q (s1, applied, res)" using src run ld el loop
    by (cases ev; cases observed) (simp_all add: catch_up_position_def)
  then have out: "fst out = s1" "applied_bars out = applied \<or> applied_bars out = []"
    using catch_up_result_applied(2) [of q s1 applied res]
    by (simp_all add: catch_up_result_applied(1) applied_bars_def split: sum.split)
  obtain n where "map snd applied = take n (map m_start bars)" using g by (auto simp: loop_guarantee_def)
  then have "sorted_wrt (<) (map snd applied)" using sorted(1) by (simp add: sorted_wrt_take)
  then show ?thesis using g out unfolding loop_guarantee_def by auto
qed

section \<open>Properties\<close>

text \<open>
  C34. A bar is applied to a position at most once, over any two calls for the account with anything well-behaved
  in between and at every point inside them: the bars a call reports as applied are strictly chronological,
  none of them is behind the position when the call starts, each is behind it in the durable state when
  the call ends, whatever way it ends, and no later call reports one of them again. The positions stay
  well-formed and none falls back.
\<close>

theorem catch_up_applies_each_bar_once:
  assumes q: "cu_account q = aid" "cu_account q' = aid"
    and start: "world aid (su_tid e) s" "world aid (su_tid e') s'"
    and others: "\<And>i. well_behaved aid (su_tid e) (su_before e i)" "\<And>i. well_behaved aid (su_tid e) (su_inside e i)"
      "\<And>i. well_behaved aid (su_tid e') (su_before e' i)" "\<And>i. well_behaved aid (su_tid e') (su_inside e' i)"
    and bars: "sound_source ev observed (cu_symbol q) as_of" "sound_source ev' observed' (cu_symbol q') as_of'"
    and call: "catch_up_position q e ev observed (Some as_of) s = out" and between: "keeps_settled aid (fst out) s'"
    and later: "catch_up_position q' e' ev' observed' (Some as_of') s' = out'"
  shows "positions_ready aid (fst out) \<and> keeps_settled aid s (fst out) \<and> sorted_wrt (<) (map snd (applied_bars out))
    \<and> (\<forall>(pid, t) \<in> set (applied_bars out). \<not> bar_settled aid pid t s \<and> bar_settled aid pid t (fst out))
    \<and> set (applied_bars out) \<inter> set (applied_bars out') = {}"
proof -
  note first = catch_up_guarantee [where q = q and e = e and s = s, unfolded q, OF start(1) others(1,2) bars(1) call]
  note second = catch_up_guarantee [where q = q' and e = e' and s = s', unfolded q, OF start(2) others(3,4) bars(2) later]
  have "bar_settled aid pid t s'" if "(pid, t) \<in> set (applied_bars out)" for pid t
    using first that between unfolding keeps_settled_def by blast
  then have "set (applied_bars out) \<inter> set (applied_bars out') = {}" using second by fastforce
  then show ?thesis using first by blast
qed

definition demo_open_store :: store where
  "demo_open_store = demo_store\<lparr>s_positions := [(''pos'', encode_position demo_position)]\<rparr>"

definition quiet :: surroundings where
  "quiet = \<lparr>su_tid = (\<lambda>_. ''t9''), su_now = (\<lambda>_. 9), su_before = (\<lambda>_ s. s), su_inside = (\<lambda>_ s. s), su_read1 = (\<lambda>_. False),
     su_read2 = (\<lambda>_. False)\<rparr>"

definition demo_catch_up :: catch_up_request where
  "demo_catch_up = \<lparr>cu_account = ''paper'', cu_symbol = ''EURUSD'', cu_instrument = None, cu_owner = None\<rparr>"

definition demo_call :: "market_bar list \<Rightarrow> store \<Rightarrow> store \<times> (py_error + catch_up_result)" where
  "demo_call bars s = catch_up_position demo_catch_up quiet None (Some bars) (Some (60 * MINUTE)) s"

definition demo_calls :: "(store \<times> (py_error + catch_up_result)) \<times> (store \<times> (py_error + catch_up_result))" where
  "demo_calls = (case demo_call [demo_bar (5 * MINUTE)] demo_open_store of (s, r) \<Rightarrow>
     ((s, r), demo_call [demo_bar (10 * MINUTE), demo_bar (5 * MINUTE)] s))"

lemma demo_calls_eval:
  "(case demo_calls of (out, out') \<Rightarrow> (applied_bars out, s_trades (fst out), applied_bars out'))
   = ([(''pos'', 5 * MINUTE)], [], [(''pos'', 10 * MINUTE)])"
  by code_simp

lemma demo_open_ok: "paper_ok demo_open_store"
proof -
  have "rows_ok p_id encode_position (\<lambda>x. valid_side (p_side x)) [(''pos'', encode_position demo_position)]"
    by (auto simp: rows_ok_def dkeys_ok_def demo_position_def valid_side_def intro!: exI [of _ demo_position])
  then show ?thesis using demo_store_ok by (simp add: paper_ok_def demo_open_store_def demo_store_def)
qed

lemma demo_open_load: "load_paper ''paper'' demo_open_store = Inr (Some demo_account, [], [])"
  by code_simp

lemma demo_open_world: "world ''paper'' (\<lambda>_. ''t9'') demo_open_store"
proof -
  have "s_trades demo_open_store = []" by (simp add: demo_open_store_def demo_store_def empty_store_def)
  then show ?thesis
    by (simp add: world_def positions_ready_def paper_inv_def demo_open_ok demo_open_load books_disjoint_def trade_ids_fresh_def
        manageable_def demo_account_def demo_position_def dvals_def position_watermark_def valid_opt_def)
qed

lemma quiet_behaves: "well_behaved aid tid (su_before quiet i)" "well_behaved aid tid (su_inside quiet i)"
  by (simp_all add: well_behaved_def quiet_def keeps_settled_def)

lemma demo_sound: "\<forall>b \<in> set bs. bar_values_ok b \<Longrightarrow> sound_source None (Some bs) sy t"
  by (auto simp: sound_source_def source_bars_def Let_def split: option.splits if_splits)

lemma catch_up_applies_each_bar_once_witness:
  "case demo_calls of (out, out') \<Rightarrow> applied_bars out = [(''pos'', 5 * MINUTE)] \<and> applied_bars out' = [(''pos'', 10 * MINUTE)]
     \<and> bar_settled ''paper'' ''pos'' (5 * MINUTE) (fst out)"
proof -
  obtain out out' where calls: "demo_calls = (out, out')" by (cases demo_calls) blast
  then have runs: "demo_call [demo_bar (5 * MINUTE)] demo_open_store = out"
    "demo_call [demo_bar (10 * MINUTE), demo_bar (5 * MINUTE)] (fst out) = out'"
    by (auto simp: demo_calls_def case_prod_beta)
  note run = runs [unfolded demo_call_def]
  have eval: "applied_bars out = [(''pos'', 5 * MINUTE)]" "s_trades (fst out) = []" "applied_bars out' = [(''pos'', 10 * MINUTE)]"
    using demo_calls_eval unfolding calls by simp_all
  have ok: "bar_values_ok (demo_bar t)" for t by (simp add: demo_bar_def bar_values_ok_def)
  have sound: "sound_source None (Some [demo_bar (5 * MINUTE)]) ''EURUSD'' (60 * MINUTE)"
    "sound_source None (Some [demo_bar (10 * MINUTE), demo_bar (5 * MINUTE)]) ''EURUSD'' (60 * MINUTE)"
    by (simp_all add: demo_sound ok)
  have q: "cu_account demo_catch_up = ''paper''" "cu_symbol demo_catch_up = ''EURUSD''" "su_tid quiet = (\<lambda>_. ''t9'')"
    by (simp_all add: demo_catch_up_def quiet_def)
  have "positions_ready ''paper'' (fst out)"
    using catch_up_guarantee [OF _ quiet_behaves _ run(1), unfolded q, OF demo_open_world sound(1)] by blast
  then have ready: "world ''paper'' (\<lambda>_. ''t9'') (fst out)" using eval(2) by (simp add: world_def trade_ids_fresh_def)
  have "\<forall>(pid, t) \<in> set (applied_bars out). bar_settled ''paper'' pid t (fst out)"
    using catch_up_applies_each_bar_once [OF q(1) q(1) _ _ quiet_behaves quiet_behaves _ _ run(1) keeps_refl run(2),
        unfolded q, OF demo_open_world ready sound] by blast
  then show ?thesis by (simp add: calls eval)
qed

end
