(* ===== verification/HaltGate.thy ===== *)
theory HaltGate
  imports Store
begin

text \<open>
  The halt gate of \<open>runtime/halt.py\<close> and the guarded write of \<open>runtime/service.py\<close> and
  \<open>runtime/rex.py\<close> that it admits. A signal handler may run between any two bytecodes of the main
  thread, so the main thread is a program counter and each of its steps touches the shared fields once; the
  handler (\<open>request\<close>) is one step of its own. \<open>monotonic_ns\<close> and the UTC clock may return anything. A
  nested signal inside the handler itself is not modelled. An \<open>Admission\<close> object is named by its
  sequence number, which is what \<open>gate.current\<close> and the arguments of \<open>pre_save\<close> and
  \<open>saved\<close> refer to.
\<close>

section \<open>The gate\<close>

abbreviation (input) SIGTERM :: int where "SIGTERM \<equiv> 15"

definition HALT_EVENT :: string where "HALT_EVENT = ''HALT_OBSERVED''"
definition CLEAN_SHUTDOWN_EVENT :: string where "CLEAN_SHUTDOWN_EVENT = ''CLEAN_SHUTDOWN''"
definition HALT_SOURCE :: string where "HALT_SOURCE = ''halt''"

record admission =
  ad_process :: string
  ad_seq :: nat
  ad_kind :: string
  ad_lw :: int
  ad_lw_utc :: instant
  ad_read2 :: "int option"
  ad_read2_utc :: "instant option"
  ad_stop :: "int option"

record halt_request =
  hr_ns :: int
  hr_utc :: instant
  hr_signum :: "int option"

record refusal =
  rf_kind :: string
  rf_stage :: string
  rf_seq :: "nat option"

record halt_gate =
  hg_process :: string
  hg_requested :: "halt_request option"
  hg_seq :: nat
  hg_admissions :: "admission list"
  hg_current :: "nat option"
  hg_refused :: "refusal list"
  hg_recorded :: "nat option"
  hg_active_run :: "string option"
  hg_depth :: nat
  hg_deferred :: "int option"
  hg_evidence_writes :: "nat list"
  hg_evidence_runs :: "string list"
  hg_last :: int

definition new_gate :: "string \<Rightarrow> halt_gate" where
  "new_gate process = \<lparr>hg_process = process, hg_requested = None, hg_seq = 0, hg_admissions = [], hg_current = None, hg_refused = [],
     hg_recorded = None, hg_active_run = None, hg_depth = 0, hg_deferred = None, hg_evidence_writes = [], hg_evidence_runs = [], hg_last = 0\<rparr>"

definition halted :: "halt_gate \<Rightarrow> bool" where
  "halted g = (hg_requested g \<noteq> None)"

text \<open>The signal handler.\<close>

definition request :: "int \<Rightarrow> instant \<Rightarrow> int option \<Rightarrow> halt_gate \<Rightarrow> halt_gate" where
  "request tick utc signum g = (case hg_requested g of
     None \<Rightarrow>
       if hg_depth g \<noteq> 0 then
         if hg_deferred g = None \<or> hg_deferred g = Some SIGTERM
         then g\<lparr>hg_deferred := Some (case signum of None \<Rightarrow> 0 | Some n \<Rightarrow> n)\<rparr> else g
       else g\<lparr>hg_requested := Some \<lparr>hr_ns = max tick (hg_last g + 1), hr_utc = utc, hr_signum = signum\<rparr>\<rparr>
   | Some r \<Rightarrow>
       if hg_recorded g = None \<and> hr_signum r = Some SIGTERM \<and> signum \<noteq> Some SIGTERM
       then g\<lparr>hg_requested := Some (r\<lparr>hr_signum := signum\<rparr>)\<rparr> else g)"

definition halt_event :: "halt_request \<Rightarrow> string" where
  "halt_event r = (if hr_signum r = Some SIGTERM then CLEAN_SHUTDOWN_EVENT else HALT_EVENT)"

text \<open>The four accesses of \<open>now_ns\<close>: read the last value, store the new one, read the request, move above it.\<close>

definition clock_read :: "int \<Rightarrow> halt_gate \<Rightarrow> int" where
  "clock_read tick g = max tick (hg_last g + 1)"

definition clock_store :: "int \<Rightarrow> halt_gate \<Rightarrow> halt_gate" where
  "clock_store now g = g\<lparr>hg_last := now\<rparr>"

definition clock_settled :: "int \<Rightarrow> halt_gate \<Rightarrow> int option" where
  "clock_settled now g = (case hg_requested g of Some r \<Rightarrow> if now \<le> hr_ns r then Some (hr_ns r + 1) else None | None \<Rightarrow> None)"

definition now_ns :: "int \<Rightarrow> halt_gate \<Rightarrow> int \<times> halt_gate" where
  "now_ns tick g = (let now = clock_read tick g; g1 = clock_store now g in
     case clock_settled now g1 of None \<Rightarrow> (now, g1) | Some later \<Rightarrow> (later, clock_store later g1))"

text \<open>Admission: what follows the clock, when no halt was seen and when one was.\<close>

definition admit_grant :: "string \<Rightarrow> int \<Rightarrow> instant \<Rightarrow> halt_gate \<Rightarrow> halt_gate" where
  "admit_grant kind now utc g = (let n = hg_seq g + 1 in
     g\<lparr>hg_seq := n, hg_admissions := hg_admissions g @ [\<lparr>ad_process = hg_process g, ad_seq = n, ad_kind = kind, ad_lw = now,
         ad_lw_utc = utc, ad_read2 = None, ad_read2_utc = None, ad_stop = None\<rparr>], hg_current := Some n\<rparr>)"

definition refuse :: "string \<Rightarrow> string \<Rightarrow> nat option \<Rightarrow> halt_gate \<Rightarrow> halt_gate" where
  "refuse kind stage n g = g\<lparr>hg_refused := hg_refused g @ [\<lparr>rf_kind = kind, rf_stage = stage, rf_seq = n\<rparr>]\<rparr>"

definition on_admission :: "nat \<Rightarrow> (admission \<Rightarrow> admission) \<Rightarrow> halt_gate \<Rightarrow> halt_gate" where
  "on_admission n f g = g\<lparr>hg_admissions := map (\<lambda>a. if ad_seq a = n then f a else a) (hg_admissions g)\<rparr>"

definition read2_grant :: "nat \<Rightarrow> int \<Rightarrow> instant \<Rightarrow> halt_gate \<Rightarrow> halt_gate" where
  "read2_grant n now utc g = (on_admission n (\<lambda>a. a\<lparr>ad_read2 := Some now, ad_read2_utc := Some utc\<rparr>) g)\<lparr>hg_current := Some n\<rparr>"

definition saved :: "nat \<Rightarrow> int \<Rightarrow> halt_gate \<Rightarrow> halt_gate" where
  "saved n now = on_admission n (\<lambda>a. a\<lparr>ad_stop := Some now\<rparr>)"

text \<open>Other persistence, by category, and the evidence of the halted run.\<close>

definition CATEGORIES :: "string list" where
  "CATEGORIES = [''E'', ''D'', ''O'', ''L'', ''H'', ''P'', ''S'', ''R'', ''STARTUP'', ''READ'']"

definition ALLOWED_AFTER_HALT :: "string list" where
  "ALLOWED_AFTER_HALT = [''H'', ''P'', ''R'']"

definition allow :: "string \<Rightarrow> halt_gate \<Rightarrow> py_error + bool" where
  "allow category g = (if category \<notin> set CATEGORIES then Inl (ValueError ''unclassified persistence category'')
     else Inr (\<not> halted g \<or> category \<in> set ALLOWED_AFTER_HALT))"

definition allow_evidence :: "string \<Rightarrow> string option \<Rightarrow> string option \<Rightarrow> admission option \<Rightarrow> halt_gate \<Rightarrow> bool \<times> halt_gate" where
  "allow_evidence kind process run adm g = (case hg_requested g of
     None \<Rightarrow> (True, g)
   | Some r \<Rightarrow>
     if (kind \<noteq> ''REX_WRITE'' \<and> kind \<noteq> ''REX_RUN'') \<or> process \<noteq> Some (hg_process g) then (False, g)
     else (case run of None \<Rightarrow> (False, g) | Some run_id \<Rightarrow>
       if hg_active_run g \<noteq> Some run_id then (False, g)
       else if kind = ''REX_WRITE'' then
         (case adm of None \<Rightarrow> (False, g) | Some a \<Rightarrow>
           (case ad_read2 a of None \<Rightarrow> (False, g) | Some read2 \<Rightarrow>
             if ad_process a \<noteq> hg_process g \<or> hr_ns r \<le> read2 \<or> ad_seq a \<in> set (hg_evidence_writes g) then (False, g)
             else (True, g\<lparr>hg_evidence_writes := ad_seq a # hg_evidence_writes g\<rparr>)))
       else if run_id \<in> set (hg_evidence_runs g) then (False, g)
       else (True, g\<lparr>hg_evidence_runs := run_id # hg_evidence_runs g\<rparr>)))"

definition residual_of :: "int \<Rightarrow> admission \<Rightarrow> bool" where
  "residual_of t a = (case (ad_read2 a, ad_stop a) of (Some _, Some stop) \<Rightarrow> t < stop | _ \<Rightarrow> False)"

definition residual :: "halt_gate \<Rightarrow> (nat \<times> string \<times> int \<times> int) list" where
  "residual g = (case hg_requested g of None \<Rightarrow> []
   | Some r \<Rightarrow> map (\<lambda>a. (ad_seq a, ad_kind a, hr_ns r - the (ad_read2 a), the (ad_stop a) - hr_ns r))
       (filter (residual_of (hr_ns r)) (hg_admissions g)))"

section \<open>The main thread\<close>

text \<open>What the clock is read for.\<close>

datatype purpose = For_Admit string | For_Read2 nat | For_Stop nat | For_Ack

datatype pc =
    Idle
  | Clock_Read purpose
  | Clock_Store purpose int
  | Clock_Test purpose int
  | Clock_Settle purpose int
  | Clock_Done purpose int
  | Admitting string int
  | Computing nat
  | Reading2 nat int
  | Ready nat
  | Saving nat
  | Entering string
  | Writing string
  | Leaving
  | Left
  | Deferred int

text \<open>The calls with an effect on the database, each with whether the halt had been requested.\<close>

datatype effect = Save_Called nat bool | Startup_Write string bool

record machine =
  m_pc :: pc
  m_gate :: halt_gate
  m_effects :: "effect list"

abbreviation kind_of :: "nat \<Rightarrow> halt_gate \<Rightarrow> string" where
  "kind_of n g \<equiv> (case find (\<lambda>a. ad_seq a = n) (hg_admissions g) of None \<Rightarrow> [] | Some a \<Rightarrow> ad_kind a)"

text \<open>
  \<open>_guarded_paper_write\<close>: \<open>admit\<close>, the load and the computation, \<open>pre_save\<close>, \<open>save_paper\<close> and its
  \<open>T_stop\<close>; a retry is another round. A startup section: \<open>startup_write\<close>. The halt bookkeeping
  reads the clock for \<open>T_ack\<close> and ends by recording its journal id.
\<close>

inductive main_step :: "machine \<Rightarrow> machine \<Rightarrow> bool" where
  begin_write: "main_step \<lparr>m_pc = Idle, m_gate = g, m_effects = l\<rparr> \<lparr>m_pc = Clock_Read (For_Admit kind), m_gate = g, m_effects = l\<rparr>"
| begin_ack: "halted g \<Longrightarrow>
    main_step \<lparr>m_pc = Idle, m_gate = g, m_effects = l\<rparr> \<lparr>m_pc = Clock_Read For_Ack, m_gate = g, m_effects = l\<rparr>"
| clock_1: "main_step \<lparr>m_pc = Clock_Read p, m_gate = g, m_effects = l\<rparr> \<lparr>m_pc = Clock_Store p (clock_read tick g), m_gate = g, m_effects = l\<rparr>"
| clock_2: "main_step \<lparr>m_pc = Clock_Store p n, m_gate = g, m_effects = l\<rparr> \<lparr>m_pc = Clock_Test p n, m_gate = clock_store n g, m_effects = l\<rparr>"
| clock_3: "clock_settled n g = None \<Longrightarrow>
    main_step \<lparr>m_pc = Clock_Test p n, m_gate = g, m_effects = l\<rparr> \<lparr>m_pc = Clock_Done p n, m_gate = g, m_effects = l\<rparr>"
| clock_4: "clock_settled n g = Some later \<Longrightarrow>
    main_step \<lparr>m_pc = Clock_Test p n, m_gate = g, m_effects = l\<rparr> \<lparr>m_pc = Clock_Settle p later, m_gate = g, m_effects = l\<rparr>"
| clock_5: "main_step \<lparr>m_pc = Clock_Settle p n, m_gate = g, m_effects = l\<rparr> \<lparr>m_pc = Clock_Done p n, m_gate = clock_store n g, m_effects = l\<rparr>"
| admit_refused: "halted g \<Longrightarrow>
    main_step \<lparr>m_pc = Clock_Done (For_Admit kind) n, m_gate = g, m_effects = l\<rparr>
      \<lparr>m_pc = Idle, m_gate = refuse kind ''admission'' None g, m_effects = l\<rparr>"
| admit_seen: "\<not> halted g \<Longrightarrow>
    main_step \<lparr>m_pc = Clock_Done (For_Admit kind) n, m_gate = g, m_effects = l\<rparr> \<lparr>m_pc = Admitting kind n, m_gate = g, m_effects = l\<rparr>"
| admitted: "main_step \<lparr>m_pc = Admitting kind n, m_gate = g, m_effects = l\<rparr>
      \<lparr>m_pc = Computing (hg_seq g + 1), m_gate = admit_grant kind n utc g, m_effects = l\<rparr>"
| nothing_to_save: "main_step \<lparr>m_pc = Computing k, m_gate = g, m_effects = l\<rparr> \<lparr>m_pc = Idle, m_gate = g, m_effects = l\<rparr>"
| begin_save: "main_step \<lparr>m_pc = Computing k, m_gate = g, m_effects = l\<rparr> \<lparr>m_pc = Clock_Read (For_Read2 k), m_gate = g, m_effects = l\<rparr>"
| read2_refused: "halted g \<Longrightarrow>
    main_step \<lparr>m_pc = Clock_Done (For_Read2 k) n, m_gate = g, m_effects = l\<rparr>
      \<lparr>m_pc = Idle, m_gate = refuse (kind_of k g) ''read2'' (Some k) g, m_effects = l\<rparr>"
| read2_seen: "\<not> halted g \<Longrightarrow>
    main_step \<lparr>m_pc = Clock_Done (For_Read2 k) n, m_gate = g, m_effects = l\<rparr> \<lparr>m_pc = Reading2 k n, m_gate = g, m_effects = l\<rparr>"
| read2_done: "main_step \<lparr>m_pc = Reading2 k n, m_gate = g, m_effects = l\<rparr> \<lparr>m_pc = Ready k, m_gate = read2_grant k n utc g, m_effects = l\<rparr>"
| call_save: "main_step \<lparr>m_pc = Ready k, m_gate = g, m_effects = l\<rparr> \<lparr>m_pc = Saving k, m_gate = g, m_effects = Save_Called k (halted g) # l\<rparr>"
| save_returned: "main_step \<lparr>m_pc = Saving k, m_gate = g, m_effects = l\<rparr> \<lparr>m_pc = Clock_Read (For_Stop k), m_gate = g, m_effects = l\<rparr>"
| write_done: "main_step \<lparr>m_pc = Clock_Done (For_Stop k) n, m_gate = g, m_effects = l\<rparr> \<lparr>m_pc = Idle, m_gate = saved k n g, m_effects = l\<rparr>"
| ack_done: "main_step \<lparr>m_pc = Clock_Done For_Ack n, m_gate = g, m_effects = l\<rparr>
      \<lparr>m_pc = Idle, m_gate = g\<lparr>hg_recorded := Some jid\<rparr>, m_effects = l\<rparr>"
| enter: "main_step \<lparr>m_pc = Idle, m_gate = g, m_effects = l\<rparr> \<lparr>m_pc = Entering site, m_gate = g\<lparr>hg_depth := hg_depth g + 1\<rparr>, m_effects = l\<rparr>"
| startup_refused: "halted g \<Longrightarrow>
    main_step \<lparr>m_pc = Entering site, m_gate = g, m_effects = l\<rparr> \<lparr>m_pc = Leaving, m_gate = refuse ''startup'' site None g, m_effects = l\<rparr>"
| startup_seen: "\<not> halted g \<Longrightarrow>
    main_step \<lparr>m_pc = Entering site, m_gate = g, m_effects = l\<rparr> \<lparr>m_pc = Writing site, m_gate = g, m_effects = l\<rparr>"
| startup_written: "main_step \<lparr>m_pc = Writing site, m_gate = g, m_effects = l\<rparr>
      \<lparr>m_pc = Leaving, m_gate = g, m_effects = Startup_Write site (halted g) # l\<rparr>"
| leave: "main_step \<lparr>m_pc = Leaving, m_gate = g, m_effects = l\<rparr> \<lparr>m_pc = Left, m_gate = g\<lparr>hg_depth := hg_depth g - 1\<rparr>, m_effects = l\<rparr>"
| left_quiet: "hg_depth g \<noteq> 0 \<or> hg_deferred g = None \<Longrightarrow>
    main_step \<lparr>m_pc = Left, m_gate = g, m_effects = l\<rparr> \<lparr>m_pc = Idle, m_gate = g, m_effects = l\<rparr>"
| left_deferred: "hg_depth g = 0 \<Longrightarrow> hg_deferred g = Some d \<Longrightarrow>
    main_step \<lparr>m_pc = Left, m_gate = g, m_effects = l\<rparr> \<lparr>m_pc = Deferred d, m_gate = g\<lparr>hg_deferred := None\<rparr>, m_effects = l\<rparr>"
| deferred_done: "main_step \<lparr>m_pc = Deferred d, m_gate = g, m_effects = l\<rparr>
      \<lparr>m_pc = Idle, m_gate = request tick utc (if d = 0 then None else Some d) g, m_effects = l\<rparr>"

text \<open>
  Nested sections (\<open>startup_depth > 1\<close>) do not occur: a section is left before the next is entered. The signals
  received so far are kept beside the machine.
\<close>

inductive halt_step :: "machine \<times> int option list \<Rightarrow> machine \<times> int option list \<Rightarrow> bool" where
  main: "main_step s s' \<Longrightarrow> halt_step (s, sg) (s', sg)"
| signal: "halt_step (s, sg) (s\<lparr>m_gate := request tick utc signum (m_gate s)\<rparr>, signum # sg)"

definition start :: "string \<Rightarrow> machine" where
  "start process = \<lparr>m_pc = Idle, m_gate = new_gate process, m_effects = []\<rparr>"

abbreviation reached :: "string \<Rightarrow> machine \<Rightarrow> int option list \<Rightarrow> bool" where
  "reached process s sg \<equiv> halt_step\<^sup>*\<^sup>* (start process, []) (s, sg)"

section \<open>Facts\<close>

lemma refuse_simps [simp]:
  "hg_requested (refuse k st n g) = hg_requested g" "hg_last (refuse k st n g) = hg_last g" "hg_depth (refuse k st n g) = hg_depth g"
  "hg_deferred (refuse k st n g) = hg_deferred g" "hg_admissions (refuse k st n g) = hg_admissions g" "hg_seq (refuse k st n g) = hg_seq g"
  "hg_recorded (refuse k st n g) = hg_recorded g"
  by (simp_all add: refuse_def)

lemma clock_store_simps [simp]:
  "hg_requested (clock_store n g) = hg_requested g" "hg_last (clock_store n g) = n" "hg_depth (clock_store n g) = hg_depth g"
  "hg_deferred (clock_store n g) = hg_deferred g" "hg_admissions (clock_store n g) = hg_admissions g" "hg_seq (clock_store n g) = hg_seq g"
  "hg_recorded (clock_store n g) = hg_recorded g"
  by (simp_all add: clock_store_def)

lemma grant_simps [simp]:
  "hg_requested (admit_grant k n u g) = hg_requested g" "hg_last (admit_grant k n u g) = hg_last g" "hg_depth (admit_grant k n u g) = hg_depth g"
  "hg_deferred (admit_grant k n u g) = hg_deferred g" "hg_recorded (admit_grant k n u g) = hg_recorded g"
  "hg_requested (read2_grant j n u g) = hg_requested g" "hg_last (read2_grant j n u g) = hg_last g" "hg_depth (read2_grant j n u g) = hg_depth g"
  "hg_deferred (read2_grant j n u g) = hg_deferred g" "hg_recorded (read2_grant j n u g) = hg_recorded g"
  "hg_seq (read2_grant j n u g) = hg_seq g"
  "hg_requested (saved j n g) = hg_requested g" "hg_last (saved j n g) = hg_last g" "hg_depth (saved j n g) = hg_depth g"
  "hg_deferred (saved j n g) = hg_deferred g" "hg_recorded (saved j n g) = hg_recorded g" "hg_seq (saved j n g) = hg_seq g"
  by (simp_all add: admit_grant_def read2_grant_def saved_def on_admission_def Let_def)

lemma request_frame [simp]:
  "hg_last (request t u x g) = hg_last g" "hg_depth (request t u x g) = hg_depth g" "hg_admissions (request t u x g) = hg_admissions g"
  "hg_seq (request t u x g) = hg_seq g" "hg_recorded (request t u x g) = hg_recorded g"
  by (simp_all add: request_def split: option.splits)

text \<open>What the handler does to the request: nothing, or the first one above the clock, or another signal number.\<close>

lemma request_cases:
  obtains (kept) "hg_requested (request t u x g) = hg_requested g"
  | (set) "hg_requested g = None" "hg_depth g = 0" "hg_deferred (request t u x g) = hg_deferred g"
      "hg_requested (request t u x g) = Some \<lparr>hr_ns = max t (hg_last g + 1), hr_utc = u, hr_signum = x\<rparr>"
  | (escalated) r where "hg_requested g = Some r" "hg_requested (request t u x g) = Some (r\<lparr>hr_signum := x\<rparr>)"
      "hg_deferred (request t u x g) = hg_deferred g"
proof (cases "hg_requested g")
  case None
  then show thesis using kept set by (cases "hg_depth g = 0") (simp_all add: request_def)
next
  case (Some r)
  then show thesis
    using kept escalated by (cases "hg_recorded g = None \<and> hr_signum r = Some SIGTERM \<and> x \<noteq> Some SIGTERM") (simp_all add: request_def)
qed

text \<open>The first instant a halt could have, and the one it has.\<close>

definition bound :: "halt_gate \<Rightarrow> int" where
  "bound g = (case hg_requested g of None \<Rightarrow> hg_last g + 1 | Some r \<Rightarrow> hr_ns r)"

lemma bound_request: "bound g \<le> bound (request t u x g)"
  by (rule request_cases [of t u x g]) (auto simp: bound_def split: option.splits)

text \<open>The clock and the sections.\<close>

fun clock_ok :: "pc \<Rightarrow> halt_gate \<Rightarrow> bool" where
  "clock_ok (Clock_Store p n) g = (hg_last g < n)"
| "clock_ok (Clock_Test p n) g = (n = hg_last g)"
| "clock_ok (Clock_Settle p n) g = (hg_last g < n \<and> (\<exists>r. hg_requested g = Some r \<and> n = hr_ns r + 1))"
| "clock_ok (Clock_Done p n) g = (n = hg_last g \<and> (\<forall>r. hg_requested g = Some r \<longrightarrow> n \<noteq> hr_ns r))"
| "clock_ok (Admitting k n) g = (n < bound g)"
| "clock_ok (Reading2 k n) g = (n < bound g)"
| "clock_ok _ g = True"

fun section_ok :: "pc \<Rightarrow> halt_gate \<Rightarrow> bool" where
  "section_ok (Entering site) g = (hg_depth g = 1)"
| "section_ok (Writing site) g = (hg_depth g = 1 \<and> \<not> halted g)"
| "section_ok Leaving g = (hg_depth g = 1)"
| "section_ok Left g = (hg_depth g = 0)"
| "section_ok _ g = (hg_depth g = 0 \<and> hg_deferred g = None)"

lemma clock_request: "clock_ok p g \<Longrightarrow> clock_ok p (request t u x g)"
  by (rule request_cases [of t u x g]; cases p) (auto simp: bound_def split: option.splits)

lemma section_request: "section_ok p g \<Longrightarrow> section_ok p (request t u x g)"
  by (cases p) (auto simp: request_def halted_def split: option.splits)

lemma clock_step: "main_step s s' \<Longrightarrow> clock_ok (m_pc s) (m_gate s) \<Longrightarrow> clock_ok (m_pc s') (m_gate s')"
  by (induction rule: main_step.induct) (auto simp: clock_read_def clock_settled_def bound_def halted_def split: option.splits if_splits)

lemma section_step: "main_step s s' \<Longrightarrow> section_ok (m_pc s) (m_gate s) \<Longrightarrow> section_ok (m_pc s') (m_gate s')"
  by (induction rule: main_step.induct) (auto simp: halted_def request_def split: option.splits)

text \<open>Every instant of an admission precedes the halt; a save that returned before it too.\<close>

definition admissions_ok :: "halt_gate \<Rightarrow> bool" where
  "admissions_ok g \<longleftrightarrow> distinct (map ad_seq (hg_admissions g))
     \<and> (\<forall>a \<in> set (hg_admissions g). ad_seq a \<le> hg_seq g \<and> ad_lw a < bound g \<and> (\<forall>n. ad_read2 a = Some n \<longrightarrow> n < bound g)
          \<and> (hg_requested g = None \<longrightarrow> (\<forall>n. ad_stop a = Some n \<longrightarrow> n \<le> hg_last g)))"

definition late :: "int \<Rightarrow> admission \<Rightarrow> bool" where
  "late t a \<longleftrightarrow> (\<exists>n. ad_stop a = Some n \<and> t < n)"

definition late_count :: "int \<Rightarrow> halt_gate \<Rightarrow> nat" where
  "late_count t g = length (filter (late t) (hg_admissions g))"

definition hot :: "effect \<Rightarrow> bool" where
  "hot e = (case e of Save_Called k h \<Rightarrow> h | Startup_Write site h \<Rightarrow> h)"

fun may_call :: "pc \<Rightarrow> bool" where
  "may_call (Reading2 k n) = True"
| "may_call (Ready k) = True"
| "may_call _ = False"

fun may_stop :: "pc \<Rightarrow> bool" where
  "may_stop (Reading2 k n) = True"
| "may_stop (Ready k) = True"
| "may_stop (Saving k) = True"
| "may_stop (Clock_Read p) = (case p of For_Stop k \<Rightarrow> True | _ \<Rightarrow> False)"
| "may_stop (Clock_Store p n) = (case p of For_Stop k \<Rightarrow> True | _ \<Rightarrow> False)"
| "may_stop (Clock_Test p n) = (case p of For_Stop k \<Rightarrow> True | _ \<Rightarrow> False)"
| "may_stop (Clock_Settle p n) = (case p of For_Stop k \<Rightarrow> True | _ \<Rightarrow> False)"
| "may_stop (Clock_Done p n) = (case p of For_Stop k \<Rightarrow> True | _ \<Rightarrow> False)"
| "may_stop _ = False"

definition calls_ok :: "pc \<Rightarrow> halt_gate \<Rightarrow> effect list \<Rightarrow> bool" where
  "calls_ok p g l = (case hg_requested g of None \<Rightarrow> filter hot l = []
     | Some r \<Rightarrow> length (filter hot l) + of_bool (may_call p) \<le> 1 \<and> (\<forall>site. Startup_Write site True \<notin> set l)
         \<and> late_count (hr_ns r) g + of_bool (may_stop p) \<le> 1)"

lemma admissions_request:
  assumes "admissions_ok g" shows "admissions_ok (request t u x g)"
  using bound_request [of g t u x] assms
  by (rule_tac request_cases [of t u x g]) (auto simp: admissions_ok_def)

lemma calls_request:
  assumes "admissions_ok g" and "calls_ok p g l" shows "calls_ok p (request t u x g) l"
proof (cases rule: request_cases [of t u x g])
  case set
  have "late_count (max t (hg_last g + 1)) (request t u x g) = 0"
    using assms(1) set(1) by (force simp: admissions_ok_def late_def late_count_def filter_empty_conv)
  moreover have "Startup_Write site True \<notin> set l" for site
    using assms(2) set(1) by (force simp: calls_ok_def hot_def filter_empty_conv)
  ultimately show ?thesis using assms(2) set by (simp add: calls_ok_def)
qed (use assms in \<open>auto simp: calls_ok_def late_count_def split: option.splits\<close>)

lemma clock_grows:
  assumes "admissions_ok g" and "hg_last g \<le> n" shows "admissions_ok (clock_store n g)"
  using assms by (force simp: admissions_ok_def bound_def split: option.splits)

lemma admissions_refuse [simp]: "admissions_ok (refuse k st n g) = admissions_ok g"
  by (simp add: admissions_ok_def bound_def cong: option.case_cong)

lemma admissions_step:
  assumes "main_step s s'" and "clock_ok (m_pc s) (m_gate s)" and "admissions_ok (m_gate s)"
  shows "admissions_ok (m_gate s')"
  using assms
proof (induction rule: main_step.induct)
  case (admitted kind n g l utc)
  then show ?case by (force simp: admissions_ok_def bound_def admit_grant_def Let_def split: option.splits)
next
  case (read2_done k n g l utc)
  then show ?case by (force simp: admissions_ok_def bound_def read2_grant_def on_admission_def comp_def if_distrib cong: if_cong split: option.splits)
next
  case (write_done k n g l)
  then show ?case by (force simp: admissions_ok_def bound_def saved_def on_admission_def comp_def if_distrib cong: if_cong split: option.splits)
next
  case (clock_2 p n g l)
  then show ?case using clock_grows by simp
next
  case (clock_5 p n g l)
  then show ?case using clock_grows by simp
next
  case (deferred_done d g l tick utc)
  then show ?case using admissions_request by simp
qed (auto intro: clock_grows simp: admissions_ok_def bound_def cong: option.case_cong)

lemma late_simps [simp]:
  "late_count t (admit_grant k n u g) = late_count t g" "late_count t (refuse kind st m g) = late_count t g"
  "late_count t (clock_store n g) = late_count t g" "late_count t (g\<lparr>hg_depth := d\<rparr>) = late_count t g"
  "late_count t (g\<lparr>hg_deferred := q\<rparr>) = late_count t g" "late_count t (g\<lparr>hg_recorded := j\<rparr>) = late_count t g"
  by (simp_all add: late_count_def admit_grant_def late_def Let_def)

lemma late_read2 [simp]: "late_count t (read2_grant k n u g) = late_count t g"
proof -
  have "length (filter (late t) (map (\<lambda>a. if ad_seq a = k then a\<lparr>ad_read2 := Some n, ad_read2_utc := Some u\<rparr> else a) as))
      = length (filter (late t) as)" for as
    by (induction as) (auto simp: late_def)
  then show ?thesis unfolding late_count_def read2_grant_def on_admission_def by (simp del: filter_map)
qed

lemma late_saved:
  assumes "admissions_ok g" shows "late_count t (saved k n g) \<le> late_count t g + 1"
proof -
  have "length (filter (late t) (map (\<lambda>a. if ad_seq a = k then a\<lparr>ad_stop := Some n\<rparr> else a) as)) \<le> length (filter (late t) as) + 1"
    if "distinct (map ad_seq as)" for as
    using that
  proof (induction as)
    case (Cons a as)
    show ?case
    proof (cases "ad_seq a = k")
      case True
      have "ad_seq x \<noteq> k" if "x \<in> set as" for x using Cons.prems True that by (auto simp: image_iff)
      then have "map (\<lambda>a. if ad_seq a = k then a\<lparr>ad_stop := Some n\<rparr> else a) as = as" by (intro map_idI) simp
      then show ?thesis using True by (simp del: filter_map)
    next
      case False
      then show ?thesis using Cons by simp
    qed
  qed simp
  then show ?thesis using assms unfolding late_count_def saved_def on_admission_def admissions_ok_def by (simp del: filter_map)
qed

lemma calls_step:
  assumes "main_step s s'" and "section_ok (m_pc s) (m_gate s)" and "admissions_ok (m_gate s)"
    and "calls_ok (m_pc s) (m_gate s) (m_effects s)"
  shows "calls_ok (m_pc s') (m_gate s') (m_effects s')"
  using assms
proof (induction rule: main_step.induct)
  case (write_done k n g l)
  then show ?case using late_saved [of g _ k n] by (auto simp: calls_ok_def split: option.splits) (metis le_zero_eq add_0)
next
  case (deferred_done d g l tick utc)
  then have "calls_ok Idle g l" by (simp add: calls_ok_def split: option.splits)
  then show ?case using deferred_done calls_request by simp
qed (auto simp: calls_ok_def hot_def halted_def split: option.splits)

text \<open>Which signals the request or the deferred one stands for.\<close>

definition pending_signal :: "pc \<Rightarrow> halt_gate \<Rightarrow> int option" where
  "pending_signal p g = (case hg_deferred g of Some d \<Rightarrow> Some d | None \<Rightarrow> (case p of Deferred d \<Rightarrow> Some d | _ \<Rightarrow> None))"

definition safety_signal :: "int option list \<Rightarrow> bool" where
  "safety_signal sg \<longleftrightarrow> (\<exists>x \<in> set sg. x \<noteq> Some SIGTERM)"

definition signals_ok :: "pc \<Rightarrow> halt_gate \<Rightarrow> int option list \<Rightarrow> bool" where
  "signals_ok p g sg \<longleftrightarrow> (\<forall>d. pending_signal p g = Some d \<longrightarrow> d \<noteq> SIGTERM \<longrightarrow> safety_signal sg)
     \<and> (case hg_requested g of
          None \<Rightarrow> safety_signal sg \<longrightarrow> (\<exists>d. pending_signal p g = Some d \<and> d \<noteq> SIGTERM)
        | Some r \<Rightarrow> hg_recorded g = None \<longrightarrow> (hr_signum r \<noteq> Some SIGTERM \<longrightarrow> safety_signal sg)
            \<and> (hr_signum r = Some SIGTERM \<longrightarrow> safety_signal sg \<longrightarrow> (\<exists>d. pending_signal p g = Some d \<and> d \<noteq> SIGTERM)))"

lemma safety_cons: "safety_signal (x # sg) \<longleftrightarrow> x \<noteq> Some SIGTERM \<or> safety_signal sg"
  by (auto simp: safety_signal_def)

lemma pending_request:
  assumes "hg_deferred (request t u x g) = hg_deferred g" shows "pending_signal p (request t u x g) = pending_signal p g"
  using assms by (simp add: pending_signal_def)

lemma signals_request:
  assumes "section_ok p g" and "signals_ok p g sg"
  shows "signals_ok p (request t u x g) (x # sg)"
proof (cases "hg_requested g = None \<and> hg_depth g \<noteq> 0")
  case False
  then have "hg_deferred (request t u x g) = hg_deferred g" by (auto simp: request_def split: option.splits)
  note pend = pending_request [OF this]
  show ?thesis using assms(2) False unfolding signals_ok_def pend safety_cons by (auto simp: request_def split: option.splits)
next
  case True
  have pend: "pending_signal p h = hg_deferred h" if "hg_depth h \<noteq> 0" "section_ok p h" for h
    using that by (cases p) (auto simp: pending_signal_def split: option.splits)
  have "pending_signal p (request t u x g) = hg_deferred (request t u x g)"
    by (rule pend) (use True section_request [OF assms(1)] in simp_all)
  then show ?thesis using assms pend [of g] True unfolding signals_ok_def safety_cons by (auto simp: request_def split: option.splits)
qed

lemma signals_step:
  assumes "main_step s s'" and "section_ok (m_pc s) (m_gate s)" and "signals_ok (m_pc s) (m_gate s) sg"
  shows "signals_ok (m_pc s') (m_gate s') sg"
  using assms
proof (induction rule: main_step.induct)
  case (deferred_done d g l tick utc)
  then show ?case by (auto simp: signals_ok_def pending_signal_def request_def split: option.splits)
qed (auto simp: signals_ok_def pending_signal_def split: option.splits)

text \<open>Every reachable state.\<close>

definition machine_ok :: "machine \<times> int option list \<Rightarrow> bool" where
  "machine_ok x = (case x of (s, sg) \<Rightarrow> clock_ok (m_pc s) (m_gate s) \<and> section_ok (m_pc s) (m_gate s) \<and> admissions_ok (m_gate s)
     \<and> calls_ok (m_pc s) (m_gate s) (m_effects s) \<and> signals_ok (m_pc s) (m_gate s) sg)"

lemma machine_step: "halt_step x y \<Longrightarrow> machine_ok x \<Longrightarrow> machine_ok y"
proof (induction rule: halt_step.induct)
  case (main s s' sg)
  then show ?case using clock_step section_step admissions_step calls_step signals_step by (simp add: machine_ok_def)
next
  case (signal s sg tick utc signum)
  then show ?case using clock_request section_request admissions_request calls_request signals_request by (simp add: machine_ok_def)
qed

lemma machine_start: "machine_ok (start process, [])"
  by (simp add: machine_ok_def start_def new_gate_def admissions_ok_def calls_ok_def signals_ok_def pending_signal_def safety_signal_def)

lemma reached_ok: "reached process s sg \<Longrightarrow> machine_ok (s, sg)"
  by (induction "(s, sg)" arbitrary: s sg rule: rtranclp_induct) (use machine_start machine_step in \<open>auto\<close>)

section \<open>Properties\<close>


text \<open>How many steps the main thread still takes before it is idle.\<close>

fun steps_left :: "pc \<Rightarrow> nat" where
  "steps_left Idle = 0"
| "steps_left (Clock_Read p) = 5"
| "steps_left (Clock_Store p n) = 4"
| "steps_left (Clock_Test p n) = 3"
| "steps_left (Clock_Settle p n) = 2"
| "steps_left (Clock_Done p n) = 1"
| "steps_left (Admitting kind n) = 7"
| "steps_left (Computing k) = 6"
| "steps_left (Reading2 k n) = 8"
| "steps_left (Ready k) = 7"
| "steps_left (Saving k) = 6"
| "steps_left (Entering site) = 5"
| "steps_left (Writing site) = 4"
| "steps_left Leaving = 3"
| "steps_left Left = 2"
| "steps_left (Deferred d) = 1"

lemma main_progress:
  assumes "p \<noteq> Idle" shows "\<exists>s'. main_step \<lparr>m_pc = p, m_gate = g, m_effects = l\<rparr> s'"
proof (cases p)
  case (Clock_Test q n)
  show ?thesis unfolding Clock_Test using clock_3 clock_4 by (cases "clock_settled n g") blast+
next
  case (Clock_Done q n)
  show ?thesis
  proof (cases q)
    case (For_Admit kind)
    show ?thesis unfolding Clock_Done For_Admit using admit_refused admit_seen by (cases "halted g") blast+
  next
    case (For_Read2 k)
    show ?thesis unfolding Clock_Done For_Read2 using read2_refused read2_seen by (cases "halted g") blast+
  next
    case (For_Stop k)
    show ?thesis unfolding Clock_Done For_Stop using write_done by blast
  next
    case For_Ack
    show ?thesis unfolding Clock_Done For_Ack using ack_done by blast
  qed
next
  case (Entering site)
  show ?thesis unfolding Entering using startup_refused startup_seen by blast
next
  case Left
  show ?thesis unfolding Left using left_quiet left_deferred by (cases "hg_deferred g"; cases "hg_depth g = 0") blast+
qed (use assms in \<open>auto intro: main_step.intros\<close>)

lemma halted_steps:
  assumes "main_step s s'" and "halted (m_gate s)" and "m_pc s \<noteq> Idle"
  shows "halted (m_gate s')" and "steps_left (m_pc s') < steps_left (m_pc s)" and "may_call (m_pc s') \<Longrightarrow> may_call (m_pc s)"
  using assms by (induction rule: main_step.induct) (auto simp: halted_def request_def split: option.splits)

text \<open>
  C30. A halt settles. Once it is requested, the main thread is never stuck before it is idle, every step it takes brings
  it closer to being idle, whatever signals come in between, so it is idle after at most eight of its own steps; and
  only a write whose second read was already made can still call \<open>save_paper\<close>.
\<close>

theorem a_halted_thread_settles:
  assumes "reached process s sg" and "halted (m_gate s)" and "m_pc s \<noteq> Idle"
  shows "steps_left (m_pc s) \<le> 8 \<and> (\<exists>s'. main_step s s')
    \<and> (\<forall>s'. main_step s s' \<longrightarrow> halted (m_gate s') \<and> steps_left (m_pc s') < steps_left (m_pc s) \<and> (may_call (m_pc s') \<longrightarrow> may_call (m_pc s)))
    \<and> (\<forall>tick utc signum. halted (request tick utc signum (m_gate s)))"
proof -
  have "section_ok (m_pc s) (m_gate s)" using reached_ok [OF assms(1)] by (simp add: machine_ok_def)
  then have "steps_left (m_pc s) \<le> 8" by (cases "m_pc s") auto
  moreover have "\<exists>s'. main_step s s'" using main_progress [OF assms(3)] by (cases s) simp
  moreover have "halted (request tick utc signum (m_gate s))" for tick utc signum
    using assms(2) by (auto simp: halted_def request_def split: option.splits)
  ultimately show ?thesis using halted_steps assms(2,3) by blast
qed

section \<open>A run with a residual\<close>

lemma reached_main: "reached process s sg \<Longrightarrow> main_step s s' \<Longrightarrow> reached process s' sg"
  by (blast intro: rtranclp.rtrancl_into_rtrancl halt_step.main)

lemma reached_signal: "reached process \<lparr>m_pc = p, m_gate = g, m_effects = l\<rparr> sg \<Longrightarrow>
    reached process \<lparr>m_pc = p, m_gate = request tick utc signum g, m_effects = l\<rparr> (signum # sg)"
  using halt_step.signal [of "\<lparr>m_pc = p, m_gate = g, m_effects = l\<rparr>"] by (auto intro: rtranclp.rtrancl_into_rtrancl)

text \<open>The five accesses of the clock, with no halt in sight.\<close>

lemma reached_clock:
  assumes "reached process \<lparr>m_pc = Clock_Read p, m_gate = g, m_effects = l\<rparr> sg" and "clock_settled n (clock_store n g) = None"
    and "n = clock_read tick g"
  shows "reached process \<lparr>m_pc = Clock_Done p n, m_gate = clock_store n g, m_effects = l\<rparr> sg"
proof -
  have "reached process \<lparr>m_pc = Clock_Store p n, m_gate = g, m_effects = l\<rparr> sg"
    unfolding assms(3) using assms(1) by (rule reached_main) (rule clock_1)
  then have "reached process \<lparr>m_pc = Clock_Test p n, m_gate = clock_store n g, m_effects = l\<rparr> sg"
    by (rule reached_main) (rule clock_2)
  then show ?thesis by (rule reached_main) (rule clock_3 [OF assms(2)])
qed

lemma demo_crossing:
  obtains s r where "reached ''p'' s [Some SIGTERM]" "hg_requested (m_gate s) = Some r" "m_pc s = Saving 1" "hr_ns r = 3"
    "m_effects s = [Save_Called 1 True]"
proof -
  let ?g0 = "new_gate ''p''"
  let ?g1 = "admit_grant ''fill'' 1 0 (clock_store 1 ?g0)"
  let ?g2 = "read2_grant 1 2 0 (clock_store 2 ?g1)"
  note defs = new_gate_def clock_store_def admit_grant_def read2_grant_def on_admission_def clock_settled_def clock_read_def halted_def request_def Let_def
  have "reached ''p'' \<lparr>m_pc = Clock_Read (For_Admit ''fill''), m_gate = ?g0, m_effects = []\<rparr> []"
    by (rule reached_main [OF rtranclp.rtrancl_refl]) (simp add: start_def begin_write)
  then have "reached ''p'' \<lparr>m_pc = Clock_Done (For_Admit ''fill'') 1, m_gate = clock_store 1 ?g0, m_effects = []\<rparr> []"
    by (rule reached_clock [where tick = 1]) (simp_all add: defs)
  then have "reached ''p'' \<lparr>m_pc = Admitting ''fill'' 1, m_gate = clock_store 1 ?g0, m_effects = []\<rparr> []"
    by (rule reached_main) (rule admit_seen, simp add: defs)
  then have "reached ''p'' \<lparr>m_pc = Computing (hg_seq (clock_store 1 ?g0) + 1), m_gate = ?g1, m_effects = []\<rparr> []"
    by (rule reached_main) (rule admitted)
  then have "reached ''p'' \<lparr>m_pc = Computing 1, m_gate = ?g1, m_effects = []\<rparr> []" by (simp add: new_gate_def)
  then have "reached ''p'' \<lparr>m_pc = Clock_Read (For_Read2 1), m_gate = ?g1, m_effects = []\<rparr> []" by (rule reached_main) (rule begin_save)
  then have "reached ''p'' \<lparr>m_pc = Clock_Done (For_Read2 1) 2, m_gate = clock_store 2 ?g1, m_effects = []\<rparr> []"
    by (rule reached_clock [where tick = 2]) (simp_all add: defs)
  then have "reached ''p'' \<lparr>m_pc = Reading2 1 2, m_gate = clock_store 2 ?g1, m_effects = []\<rparr> []"
    by (rule reached_main) (rule read2_seen, simp add: defs)
  then have "reached ''p'' \<lparr>m_pc = Ready 1, m_gate = ?g2, m_effects = []\<rparr> []" by (rule reached_main) (rule read2_done)
  then have "reached ''p'' \<lparr>m_pc = Ready 1, m_gate = request 0 0 (Some SIGTERM) ?g2, m_effects = []\<rparr> [Some SIGTERM]"
    by (rule reached_signal)
  then have s: "reached ''p'' \<lparr>m_pc = Saving 1, m_gate = request 0 0 (Some SIGTERM) ?g2,
      m_effects = [Save_Called 1 (halted (request 0 0 (Some SIGTERM) ?g2))]\<rparr> [Some SIGTERM]"
    by (rule reached_main) (rule call_save)
  show thesis by (rule that [OF s, of "\<lparr>hr_ns = 3, hr_utc = 0, hr_signum = Some SIGTERM\<rparr>"]) (simp_all add: defs)
qed


theorem a_halted_thread_settles_witness:
  "\<exists>s. reached ''p'' s [Some SIGTERM] \<and> m_pc s = Saving 1 \<and> (\<exists>s'. main_step s s')"
proof -
  obtain s r where s: "reached ''p'' s [Some SIGTERM]" "hg_requested (m_gate s) = Some r" "m_pc s = Saving 1" by (rule demo_crossing)
  have "\<exists>s'. main_step s s'" using a_halted_thread_settles [OF s(1)] s(2,3) by (simp add: halted_def)
  then show ?thesis using s by blast
qed

end
