(* ===== verification/HaltBook.thy ===== *)
theory HaltBook
  imports HaltGate
begin

text \<open>
  What a halt leaves behind (\<open>runtime/halt.py\<close>): the bookkeeping transaction, the latest halt of a database and
  the check that a start makes before it writes anything; and the guard of \<open>runtime/service.py\<close> on every
  other persistence site. The two readings of the UTC clock and the one of the monotonic clock are arguments.
\<close>

section \<open>The payload\<close>

definition HALT_VERSION :: string where "HALT_VERSION = ''V2_P4A_RHALT/1''"

definition jint_opt :: "int option \<Rightarrow> json" where
  "jint_opt = (\<lambda>None \<Rightarrow> JNull | Some n \<Rightarrow> JInt n)"

definition admission_evidence :: "admission \<Rightarrow> json" where
  "admission_evidence a = JObj [(''process_id'', JStr (ad_process a)), (''seq'', JInt (int (ad_seq a))), (''kind'', JStr (ad_kind a)),
     (''l_w_ns'', JInt (ad_lw a)), (''l_w_utc'', JTime (ad_lw_utc a)), (''read2_ns'', jint_opt (ad_read2 a)),
     (''read2_utc'', jtime_opt (ad_read2_utc a)), (''t_stop_ns'', jint_opt (ad_stop a))]"

definition residual_record :: "nat \<times> string \<times> int \<times> int \<Rightarrow> json" where
  "residual_record x = (case x of (n, kind, before, after) \<Rightarrow>
     JObj [(''seq'', JInt (int n)), (''kind'', JStr kind), (''read2_to_t_h_ns'', JInt before), (''t_h_to_t_stop_ns'', JInt after)])"

text \<open>A refusal at the admission or of a startup site has no sequence number.\<close>

definition refusal_record :: "refusal \<Rightarrow> json" where
  "refusal_record x = JObj ([(''kind'', JStr (rf_kind x)), (''stage'', JStr (rf_stage x))]
     @ (case rf_seq x of None \<Rightarrow> [] | Some n \<Rightarrow> [(''seq'', JInt (int n))]))"

record halt_place =
  hp_kind :: "string option"
  hp_stage :: "string option"
  hp_run_id :: "string option"
  hp_slot_key :: "string option"
  hp_symbol :: "string option"

definition halt_payload :: "halt_place \<Rightarrow> halt_request \<Rightarrow> halt_gate \<Rightarrow> (string \<times> json) list" where
  "halt_payload w r g =
    [(''halt_version'', JStr HALT_VERSION), (''process_id'', JStr (hg_process g)), (''t_h_monotonic_ns'', JInt (hr_ns r)),
     (''t_h_utc'', JTime (hr_utc r)), (''signal'', jint_opt (hr_signum r)), (''refused_kind'', jstr_opt (hp_kind w)),
     (''refused_stage'', jstr_opt (hp_stage w)), (''run_id'', jstr_opt (hp_run_id w)), (''slot_key'', jstr_opt (hp_slot_key w)),
     (''symbol'', jstr_opt (hp_symbol w)), (''admissions_total'', JInt (int (length (hg_admissions g)))),
     (''last_admitted'', if hg_admissions g = [] then JNull else admission_evidence (last (hg_admissions g))),
     (''residual'', JList (map residual_record (residual g))), (''refused'', JList (map refusal_record (hg_refused g)))]"

section \<open>The transaction\<close>

definition end_halted_run :: "instant \<Rightarrow> string \<Rightarrow> run_row \<Rightarrow> store \<Rightarrow> store" where
  "end_halted_run t key row s = s\<lparr>
     s_runs := dput key (row\<lparr>r_status := ''COMPLETED'', r_final_status := Some ''HALTED'', r_completed_at := Some t\<rparr>) (s_runs s),
     s_locks := filter (\<lambda>(symbol, k). \<not> (k = key \<and> symbol = r_symbol row)) (s_locks s)\<rparr>"

definition record_halt ::
  "instant \<Rightarrow> halt_place \<Rightarrow> halt_request \<Rightarrow> json \<Rightarrow> int \<times> halt_gate \<Rightarrow> json \<Rightarrow> store \<Rightarrow> nat \<times> store \<times> halt_gate" where
  "record_halt t' w r payload clock released s =
    (let s' = add_event t' (hp_run_id w) (hp_symbol w) HALT_SOURCE (halt_event r) ''WARNING''
                (jput ''symbol_lock_released'' released (jput ''t_ack_ns'' (JInt (fst clock)) payload)) s;
         jid = length (s_journal s')
     in (jid, s', (snd clock)\<lparr>hg_recorded := Some jid\<rparr>))"

definition halt_bookkeeping ::
  "instant \<Rightarrow> instant \<Rightarrow> int \<Rightarrow> halt_place \<Rightarrow> store \<Rightarrow> halt_gate \<Rightarrow> py_error + nat \<times> store \<times> halt_gate" where
  "halt_bookkeeping t t' tick w s g = (case hg_requested g of
     None \<Rightarrow> Inl (TypeError ''cannot unpack'')
   | Some r \<Rightarrow>
     let payload = JObj (halt_payload w r g)
     in (case hp_slot_key w of
          None \<Rightarrow> Inr (record_halt t' w r payload (now_ns tick g) JNull s)
        | Some key \<Rightarrow>
          (case dget (s_runs s) key of
             None \<Rightarrow> Inl (RuntimeError ''halt bookkeeping: the halted run is not RUNNING'')
           | Some row \<Rightarrow>
             if Some (r_run_id row) \<noteq> hp_run_id w \<or> Some (r_symbol row) \<noteq> hp_symbol w \<or> r_status row \<noteq> ''RUNNING''
             then Inl (RuntimeError ''halt bookkeeping: the halted run is not RUNNING'')
             else let s1 = end_halted_run t key row s
               in Inr (record_halt t' w r payload (now_ns tick g) (JBool (length (s_locks s) = length (s_locks s1) + 1)) s1))))"

text \<open>\<open>_halt_run\<close>: a transaction that fails leaves the halt unconfirmed and writes nothing.\<close>

definition halt_run :: "instant \<Rightarrow> instant \<Rightarrow> int \<Rightarrow> halt_place \<Rightarrow> store \<Rightarrow> halt_gate \<Rightarrow> string \<times> store \<times> halt_gate" where
  "halt_run t t' tick w s g = (case halt_bookkeeping t t' tick w s g of
     Inl _ \<Rightarrow> (''HALT_UNCONFIRMED'', s, g) | Inr (_, s', g') \<Rightarrow> (''HALTED'', s', g'))"

section \<open>The next start\<close>

definition latest_halt :: "store \<Rightarrow> nat option" where
  "latest_halt s = (case filter (\<lambda>(i, row). j_source row = HALT_SOURCE \<and> j_type row = HALT_EVENT) (enumerate 1 (s_journal s)) of
     [] \<Rightarrow> None | rows \<Rightarrow> Some (fst (last rows)))"

text \<open>\<open>str\<close> of a journal id.\<close>

fun nat_str :: "nat \<Rightarrow> string" where
  "nat_str n = (if n < 10 then [char_of (48 + n)] else nat_str (n div 10) @ [char_of (48 + n mod 10)])"

datatype start_check = Clear | Resumed nat | Pending string

text \<open>A database that does not exist, one that cannot be read, or one with its tables.\<close>

datatype database = Absent | Unreadable | Opened store

definition startup_halt_check :: "bool \<Rightarrow> database \<Rightarrow> string option \<Rightarrow> start_check" where
  "startup_halt_check enabled db token =
    (if \<not> enabled then Clear
     else (case db of
         Absent \<Rightarrow> Clear
       | Unreadable \<Rightarrow> Pending ''startup halt check failed''
       | Opened s \<Rightarrow> (case latest_halt s of
           None \<Rightarrow> Clear
         | Some jid \<Rightarrow> if token \<noteq> Some (nat_str jid) then Pending ''unresolved HALT_OBSERVED'' else Resumed jid)))"

section \<open>The other persistence sites\<close>

text \<open>\<open>_persist\<close>: an action that is not allowed is skipped, a step of the run lifecycle is refused instead.\<close>

definition persist :: "halt_gate option \<Rightarrow> string \<Rightarrow> ('s \<Rightarrow> py_error + 'v option \<times> 's) \<Rightarrow> 's \<Rightarrow> py_error + 'v option \<times> 's" where
  "persist gate category act s = (case gate of
     None \<Rightarrow> act s
   | Some g \<Rightarrow> ebind (allow category g) (\<lambda>ok.
       if ok then act s else if category = ''L'' then Inl (HaltRefused ''run_lifecycle'' ''persistence'') else Inr (None, s)))"

section \<open>Facts\<close>

fun read_dec :: "string \<Rightarrow> nat" where
  "read_dec cs = foldl (\<lambda>n c. n * 10 + (of_char c - 48)) 0 cs"

lemma read_dec_str: "read_dec (nat_str n) = n"
proof (induction n rule: nat_str.induct)
  case (1 n)
  show ?case
  proof (cases "n < 10")
    case False
    then have "read_dec (nat_str n) = read_dec (nat_str (n div 10)) * 10 + n mod 10" by simp
    then show ?thesis using 1 False by simp
  qed simp
qed

declare nat_str.simps [simp del]

lemma dec_str_inj: "nat_str m = nat_str n \<longleftrightarrow> m = n"
  using read_dec_str by metis

lemma record_halt_result:
  assumes "record_halt t' w r payload clock released s = (jid, s', g')"
  shows "jid = length (s_journal s')"
    and "\<exists>p. s' = add_event t' (hp_run_id w) (hp_symbol w) HALT_SOURCE (halt_event r) ''WARNING'' p s"
proof -
  have "jid = fst (record_halt t' w r payload clock released s)" "s' = fst (snd (record_halt t' w r payload clock released s))"
    by (simp_all add: assms)
  then show "jid = length (s_journal s')"
    "\<exists>p. s' = add_event t' (hp_run_id w) (hp_symbol w) HALT_SOURCE (halt_event r) ''WARNING'' p s"
    unfolding record_halt_def Let_def fst_conv snd_conv by blast+
qed

lemma bookkeeping_cases:
  assumes "halt_bookkeeping t t' tick w s g = Inr (jid, s', g')"
  obtains r p s1 where "hg_requested g = Some r" "jid = length (s_journal s')"
    "s' = add_event t' (hp_run_id w) (hp_symbol w) HALT_SOURCE (halt_event r) ''WARNING'' p s1"
    "s1 = s \<or> (\<exists>key row. hp_slot_key w = Some key \<and> running key row s \<and> s1 = end_halted_run t key row s)"
proof -
  obtain r where r: "hg_requested g = Some r" using assms by (cases "hg_requested g") (auto simp: halt_bookkeeping_def)
  note body = assms [unfolded halt_bookkeeping_def r option.case Let_def]
  show thesis
  proof (cases "hp_slot_key w")
    case None
    then have run: "record_halt t' w r (JObj (halt_payload w r g)) (now_ns tick g) JNull s = (jid, s', g')" using body by simp
    obtain p where "s' = add_event t' (hp_run_id w) (hp_symbol w) HALT_SOURCE (halt_event r) ''WARNING'' p s"
      using record_halt_result(2) [OF run] by blast
    then show thesis by (rule that [OF r record_halt_result(1) [OF run]]) simp
  next
    case (Some key)
    note body = body [unfolded Some option.case]
    obtain row where row: "dget (s_runs s) key = Some row" using body by (cases "dget (s_runs s) key") auto
    note body = body [unfolded row option.case]
    have run: "r_status row = ''RUNNING''"
      "record_halt t' w r (JObj (halt_payload w r g)) (now_ns tick g)
         (JBool (length (s_locks s) = length (s_locks (end_halted_run t key row s)) + 1)) (end_halted_run t key row s) = (jid, s', g')"
      using body by (simp_all split: if_splits)
    then have live: "running key row s" using row by (simp add: running_def)
    obtain p where "s' = add_event t' (hp_run_id w) (hp_symbol w) HALT_SOURCE (halt_event r) ''WARNING'' p (end_halted_run t key row s)"
      using record_halt_result(2) [OF run(2)] by blast
    then show thesis by (rule that [OF r record_halt_result(1) [OF run(2)]]) (use live Some in blast)
  qed
qed

lemma end_halted_ok:
  assumes "slots_ok s" and "running key row s"
  shows "slots_ok (end_halted_run t key row s)" and "history_kept s (end_halted_run t key row s)"
proof -
  have own: "symbol = r_symbol row" if "(symbol, key) \<in> set (s_locks s)" for symbol
  proof -
    have "dget (s_locks s) symbol = Some key" using assms(1) that by (simp add: slots_ok_def dkeys_ok_def)
    then obtain x where "running key x s" "r_symbol x = symbol" using assms(1) unfolding slots_ok_def by blast
    then show ?thesis using assms(2) by (simp add: running_def)
  qed
  have locks: "filter (\<lambda>(symbol, k). \<not> (k = key \<and> symbol = r_symbol row)) (s_locks s) = release_locks key (s_locks s)"
    unfolding release_locks_def
  proof (rule filter_cong [OF refl])
    fix x assume x: "x \<in> set (s_locks s)"
    have "snd x = key \<longrightarrow> fst x = r_symbol row" using x own [of "fst x"] by (cases x) auto
    then show "(case x of (symbol, k) \<Rightarrow> \<not> (k = key \<and> symbol = r_symbol row)) = (snd x \<noteq> key)" by (cases x) auto
  qed
  show "slots_ok (end_halted_run t key row s)"
    by (rule end_run_ok [OF assms, of "row\<lparr>r_status := ''COMPLETED'', r_final_status := Some ''HALTED'', r_completed_at := Some t\<rparr>"])
      (use locks in \<open>simp_all add: end_halted_run_def\<close>)
  show "history_kept s (end_halted_run t key row s)"
    by (rule end_run_history [OF assms(2), of _ _ "[]"]) (simp_all add: end_halted_run_def)
qed

text \<open>The latest halt row of a journal that only grows.\<close>

definition halt_ids :: "store \<Rightarrow> nat list" where
  "halt_ids s = map fst (filter (\<lambda>(i, row). j_source row = HALT_SOURCE \<and> j_type row = HALT_EVENT) (enumerate 1 (s_journal s)))"

lemma latest_halt_ids: "latest_halt s = (if halt_ids s = [] then None else Some (last (halt_ids s)))"
  by (auto simp: latest_halt_def halt_ids_def last_map split: list.splits)

lemma halt_ids_grow:
  assumes "s_journal s' = s_journal s @ rows"
  shows "\<exists>more. halt_ids s' = halt_ids s @ more \<and> (\<forall>i \<in> set more. length (s_journal s) < i)"
proof -
  let ?P = "\<lambda>(i :: nat, row). j_source row = HALT_SOURCE \<and> j_type row = HALT_EVENT"
  have "halt_ids s' = halt_ids s @ map fst (filter ?P (enumerate (1 + length (s_journal s)) rows))"
    using assms by (simp add: halt_ids_def enumerate_append_eq)
  moreover have "\<forall>i \<in> set (map fst (filter ?P (enumerate (1 + length (s_journal s)) rows))). length (s_journal s) < i"
    by (auto simp: in_set_enumerate_eq)
  ultimately show ?thesis by blast
qed

section \<open>Property\<close>


section \<open>A halted run\<close>

definition demo_place :: halt_place where
  "demo_place = \<lparr>hp_kind = Some ''fill'', hp_stage = Some ''read2'', hp_run_id = Some ''EURUSD:0:5m'', hp_slot_key = Some ''EURUSD:0:5m'', hp_symbol = Some ''EURUSD''\<rparr>"

lemma demo_halted:
  obtains g where "reached ''p'' \<lparr>m_pc = Idle, m_gate = g, m_effects = []\<rparr> [Some 2]" "hg_recorded g = None" "halted g"
proof -
  let ?g = "request 1 0 (Some 2) (new_gate ''p'')"
  have "reached ''p'' \<lparr>m_pc = Idle, m_gate = new_gate ''p'', m_effects = []\<rparr> []" by (simp add: start_def)
  then have "reached ''p'' \<lparr>m_pc = Idle, m_gate = ?g, m_effects = []\<rparr> [Some 2]" by (rule reached_signal)
  then show thesis by (rule that) (simp_all add: request_def new_gate_def halted_def)
qed

lemma demo_booked:
  assumes "halted g"
  shows "\<exists>jid s' g'. halt_bookkeeping 3 3 4 demo_place demo_claimed g = Inr (jid, s', g')"
proof -
  have "dget (s_runs demo_claimed) ''EURUSD:0:5m'' = Some \<lparr>r_run_id = ''EURUSD:0:5m'', r_symbol = ''EURUSD'', r_as_of = 0, r_started_at = 1, r_completed_at = None,
      r_status = ''RUNNING'', r_final_status = None, r_error = None\<rparr>"
    by (simp add: demo_claimed_def claim_slot_def empty_store_def Let_def)
  then show ?thesis using assms
    by (auto simp: halt_bookkeeping_def halted_def demo_place_def Let_def record_halt_def simp del: jput.simps)
qed


end
