(* ===== verification/FloatRepr.thy ===== *)
theory FloatRepr
  imports PyNum
begin

text \<open>
  The code carries prices as \<open>Decimal\<close> while it plans and as \<open>float\<close> afterwards, and reads the float
  back with \<open>Decimal(repr(x))\<close>. A decimal of at most 15 significant digits survives that trip: it is
  the shortest decimal that reads back as its own float.
\<close>

lemma fl_close:
  assumes "0 < d" shows "\<bar>fl d - d\<bar> \<le> d / 2 ^ 53"
proof -
  define u :: rat where "u = 2 powi (mag 2 d - int 53 + 1)"
  have u: "u = 2 powi mag 2 d / 2 ^ 52"
    unfolding u_def by (simp add: power_int_add power_int_diff)
  have pos: "0 < u" by (simp add: u_def)
  have "fl d = of_int (half_even (d / u)) * u" using round_sig_scaled [of 2 d 53] assms by (simp add: u_def)
  moreover have "\<bar>of_int (half_even (d / u)) - d / u\<bar> \<le> 1 / 2" using half_even_bounds [of "d / u"] by linarith
  ultimately have "\<bar>fl d - d\<bar> \<le> u / 2"
    using pos abs_mult [of "of_int (half_even (d / u)) - d / u" u] mult_right_mono [of "\<bar>of_int (half_even (d / u)) - d / u\<bar>" "1 / 2" u]
    by (simp add: algebra_simps)
  also have "\<dots> \<le> d / 2 ^ 53" using mag_bounds(1) [of 2 d] assms by (simp add: u)
  finally show ?thesis .
qed

definition multiple_of :: "rat \<Rightarrow> rat \<Rightarrow> bool" where
  "multiple_of w x \<longleftrightarrow> (\<exists>i. x = of_int i * w)"

lemma multiple_eq:
  assumes "multiple_of w x" "multiple_of w y" "\<bar>x - y\<bar> < w" shows "x = y"
proof -
  obtain i j where ij: "x = of_int i * w" "y = of_int j * w" using assms by (auto simp: multiple_of_def)
  have w: "0 < w" using assms(3) by linarith
  have "\<bar>of_int (i - j)\<bar> * w < 1 * w" using assms(3) w by (simp add: ij abs_mult left_diff_distrib [symmetric])
  then have "\<bar>of_int (i - j) :: rat\<bar> < 1" using w mult_less_cancel_right_pos by blast
  then have "i = j" by linarith
  then show ?thesis by (simp add: ij)
qed

lemma multiple_gap: "multiple_of w x \<Longrightarrow> multiple_of w y \<Longrightarrow> x < y \<Longrightarrow> x + w \<le> y"
proof -
  assume m: "multiple_of w x" "multiple_of w y" "x < y"
  show ?thesis
  proof (rule ccontr)
    assume "\<not> x + w \<le> y"
    then have "\<bar>x - y\<bar> < w" using m(3) by linarith
    then show False using multiple_eq [OF m(1,2)] m(3) by simp
  qed
qed

lemma multiple_power: "a \<le> b \<Longrightarrow> multiple_of (10 powi b) x \<Longrightarrow> multiple_of (10 powi a) x"
proof -
  assume ab: "a \<le> b" and "multiple_of (10 powi b) x"
  then obtain i where i: "x = of_int i * 10 powi b" by (auto simp: multiple_of_def)
  have "(10::rat) powi b = 10 powi a * 10 powi (b - a)" by (simp add: power_int_diff)
  also have "10 powi (b - a) = (10::rat) ^ nat (b - a)" using ab by (simp add: power_int_def)
  finally have "x = of_int (i * 10 ^ nat (b - a)) * 10 powi a" by (simp add: i)
  then show ?thesis unfolding multiple_of_def by blast
qed

definition digits15 :: "rat \<Rightarrow> bool" where
  "digits15 d \<longleftrightarrow> (\<exists>m e. d = of_int m * 10 powi e \<and> \<bar>m\<bar> < 10 ^ 15)"

lemma digits15_multiple:
  assumes "digits15 d" and "0 < d" shows "multiple_of (10 powi (mag 10 d - 14)) d"
proof -
  obtain m e where d: "d = of_int m * 10 powi e" "\<bar>m\<bar> < 10 ^ 15" using assms(1) by (auto simp: digits15_def)
  have "of_int m < (of_int (10 ^ 15) :: rat)" using d(2) by (simp only: of_int_less_iff)
  then have "d < 10 ^ 15 * 10 powi e" using d(1) by simp
  also have "\<dots> = 10 powi (e + 15)" by (simp add: power_int_add)
  finally have "d < 10 powi (e + 15)" .
  moreover have "10 powi mag 10 d \<le> d" using mag_bounds(1) [of 10 d] assms(2) by simp
  ultimately have "(10::rat) powi mag 10 d < 10 powi (e + 15)" by linarith
  then have "mag 10 d < e + 15" using powi_less_cancel [of 10 "mag 10 d" "e + 15"] by simp
  then show ?thesis using multiple_power [of "mag 10 d - 14" e d] d(1) by (auto simp: multiple_of_def)
qed

lemma digits15_fits: "fits 14 k d \<Longrightarrow> digits15 d"
proof -
  assume "fits 14 k d"
  then obtain m where m: "d = of_int m / 10 ^ k" "\<bar>m\<bar> \<le> 10 ^ 14" by (auto simp: fits_def)
  have "d = of_int m * 10 powi (- int k)" by (simp add: m(1) power_int_minus divide_inverse)
  moreover have "\<bar>m\<bar> < 10 ^ 15" using m(2) by simp
  ultimately show ?thesis unfolding digits15_def by blast
qed

lemma near_float:
  fixes t :: rat
  assumes "t \<le> d / 2 ^ 53" and "a < 10 ^ 15 * v" and "d \<le> a + t" and "0 < v" shows "t < v / 4"
proof -
  have "t * 2 ^ 53 \<le> d" using assms(1) by (simp add: field_simps)
  then have "t * (2 ^ 53 - 1) < 10 ^ 15 * v" using assms(2,3) by simp
  then show ?thesis using assms(4) by simp
qed

section \<open>The shortest decimal of the float of a short decimal\<close>

lemma float_pos: "0 < d \<Longrightarrow> 0 < fl d"
  by (simp add: fl53.pos)

lemma mag_float:
  assumes pos: "0 < d" and short: "digits15 d"
  shows "mag 10 (fl d) \<le> mag 10 d"
proof (rule ccontr)
  let ?D = "mag 10 d"
  let ?w = "10 powi (?D - 14) :: rat"
  assume "\<not> mag 10 (fl d) \<le> ?D"
  then have "(10::rat) powi (?D + 1) \<le> 10 powi mag 10 (fl d)" by (intro power_int_increasing) auto
  also have "\<dots> \<le> fl d" using mag_bounds(1) [of 10 "fl d"] float_pos [OF pos] by simp
  finally have big: "10 powi (?D + 1) \<le> fl d" .
  have top: "(10::rat) powi (?D + 1) = 10 ^ 15 * ?w" by (simp add: power_int_add power_int_diff)
  have lt: "d < 10 powi (?D + 1)" using mag_bounds(2) [of 10 d] pos by simp
  have "multiple_of ?w (10 powi (?D + 1))" unfolding top multiple_of_def by (intro exI [of _ "10 ^ 15"]) simp
  then have "d + ?w \<le> 10 powi (?D + 1)" using multiple_gap digits15_multiple [OF short pos] lt by blast
  then have "?w \<le> fl d - d" using big by linarith
  also have "\<dots> \<le> d / 2 ^ 53" using fl_close [OF pos] by linarith
  also have "\<dots> < 10 ^ 15 * ?w / 2 ^ 53" using lt top by (simp add: divide_strict_right_mono)
  also have "\<dots> < ?w" by (simp add: field_simps)
  finally have "?w < ?w" .
  then show False by simp
qed

lemma on_float_grid:
  assumes pos: "0 < d" and short: "digits15 d"
  shows "multiple_of (10 powi (mag 10 (fl d) - 14)) d"
  using multiple_power [OF _ digits15_multiple [OF short pos]] mag_float [OF pos short] by simp

lemma float_bounds:
  assumes pos: "0 < d"
  shows "\<bar>fl d - d\<bar> < 10 powi (mag 10 (fl d) - 14) / 4"
proof -
  let ?v = "10 powi (mag 10 (fl d) - 14) :: rat"
  have "fl d < 10 powi (mag 10 (fl d) + 1)" using mag_bounds(2) [of 10 "fl d"] float_pos [OF pos] by simp
  also have "\<dots> = 10 ^ 15 * ?v" by (simp add: power_int_add power_int_diff)
  finally have "fl d < 10 ^ 15 * ?v" .
  then show ?thesis using near_float [of "\<bar>fl d - d\<bar>" d "fl d" ?v] fl_close [OF pos] by simp
qed

lemma repr_candidate_unique:
  assumes pos: "0 < d" and short: "digits15 d"
    and c: "multiple_of (10 powi (mag 10 (fl d) - 14)) c" and c0: "0 < c" and cf: "fl c = fl d"
  shows "c = d"
proof (rule multiple_eq [OF c on_float_grid [OF pos short]])
  let ?v = "10 powi (mag 10 (fl d) - 14) :: rat"
  have "fl d < 10 powi (mag 10 (fl d) + 1)" using mag_bounds(2) [of 10 "fl d"] float_pos [OF pos] by simp
  also have "\<dots> = 10 ^ 15 * ?v" by (simp add: power_int_add power_int_diff)
  finally have a: "fl d < 10 ^ 15 * ?v" .
  have "\<bar>fl d - c\<bar> \<le> c / 2 ^ 53" using fl_close [OF c0] cf by simp
  then have "\<bar>fl d - c\<bar> < ?v / 4" using a near_float [of "\<bar>fl d - c\<bar>" c "fl d" ?v] by simp
  then show "\<bar>c - d\<bar> < ?v" using float_bounds [OF pos] by linarith
qed

lemma repr_try_short:
  assumes pos: "0 < d" and short: "digits15 d"
    and n: "1 \<le> n" "n \<le> 15" and tr: "repr_try (fl d) n = Some c" shows "c = d"
proof (rule repr_candidate_unique [OF pos short])
  define u :: rat where "u = 10 powi (mag 10 (fl d) - int n + 1)"
  have u: "0 < u" by (simp add: u_def)
  have c: "(c = of_int \<lfloor>fl d / u\<rfloor> * u \<or> c = of_int (\<lfloor>fl d / u\<rfloor> + 1) * u) \<and> fl c = fl d"
    using tr unfolding repr_try_def Let_def u_def [symmetric] by (auto simp: distrib_right split: if_splits)
  then show "fl c = fl d" by simp
  have "u \<le> 10 powi mag 10 (fl d)" unfolding u_def by (rule power_int_increasing) (use n in auto)
  also have "\<dots> \<le> fl d" using mag_bounds(1) [of 10 "fl d"] float_pos [OF pos] by simp
  finally have "1 \<le> fl d / u" using u by (simp add: field_simps)
  then have "0 < \<lfloor>fl d / u\<rfloor>" by simp
  then have "0 < of_int \<lfloor>fl d / u\<rfloor> * u \<and> 0 < of_int (\<lfloor>fl d / u\<rfloor> + 1) * u"
    using u by (intro conjI mult_pos_pos) (simp_all only: of_int_0_less_iff)
  then show "0 < c" using c by metis
  have "multiple_of u c" using c unfolding multiple_of_def by blast
  then show "multiple_of (10 powi (mag 10 (fl d) - 14)) c"
    unfolding u_def by (rule multiple_power [rotated]) (use n in auto)
qed

lemma repr_try_15:
  assumes pos: "0 < d" and short: "digits15 d"
  shows "repr_try (fl d) 15 \<noteq> None"
proof -
  define u :: rat where "u = 10 powi (mag 10 (fl d) - int 15 + 1)"
  define lo where "lo = of_int \<lfloor>fl d / u\<rfloor> * u"
  have u: "0 < u" and uv: "u = 10 powi (mag 10 (fl d) - 14)" by (simp_all add: u_def)
  have lo: "lo \<le> fl d" "fl d < lo + u"
  proof -
    have e: "of_int \<lfloor>fl d / u\<rfloor> \<le> fl d / u" by simp
    have f: "fl d / u < of_int \<lfloor>fl d / u\<rfloor> + 1" by linarith
    show "lo \<le> fl d" using u e unfolding lo_def by (simp only: pos_le_divide_eq)
    show "fl d < lo + u" using f u by (simp add: lo_def pos_divide_less_eq distrib_right del: floor_less_iff)
  qed
  have m: "multiple_of u lo" "multiple_of u (lo + u)" "multiple_of u d"
    using on_float_grid [OF pos short] unfolding uv [symmetric] multiple_of_def lo_def
    by (auto intro: exI [of _ "\<lfloor>fl d / u\<rfloor> + 1"] simp: algebra_simps)
  have "d = lo \<or> d = lo + u"
  proof (rule ccontr)
    assume "\<not> (d = lo \<or> d = lo + u)"
    then consider "d < lo" | "lo < d" "d < lo + u" | "lo + u < d" by linarith
    then show False
      using multiple_gap [OF m(3) m(1)] multiple_gap [OF m(1) m(3)] multiple_gap [OF m(2) m(3)] lo float_bounds [OF pos] u
      unfolding uv [symmetric] by cases (auto simp: abs_less_iff)
  qed
  then show ?thesis unfolding repr_try_def Let_def u_def [symmetric] lo_def [symmetric] by auto
qed

lemma repr_search_short:
  assumes pos: "0 < d" and short: "digits15 d"
  shows "1 \<le> n \<Longrightarrow> n \<le> 15 \<Longrightarrow> 15 < n + k \<Longrightarrow> repr_search (fl d) n k = d"
proof (induction k arbitrary: n)
  case (Suc k)
  show ?case
  proof (cases "repr_try (fl d) n")
    case None
    then have "n \<noteq> 15" using repr_try_15 [OF pos short] by blast
    then show ?thesis using None Suc.IH [of "Suc n"] Suc.prems by simp
  next
    case (Some c)
    then show ?thesis using repr_try_short [OF pos short] Suc.prems by simp
  qed
qed simp

lemma repr_dec_short: "0 < d \<Longrightarrow> digits15 d \<Longrightarrow> repr_dec (fl d) = d"
  using repr_search_short [of d 1 17] float_pos [of d] by (simp add: repr_dec_def)

end
