(* ===== verification/TradePlanner.thy ===== *)
theory TradePlanner
  imports SetupValidator RiskEngine FloatRepr "HOL-Library.Product_Lexorder"
begin

text \<open>
  \<open>agents/trade_planner.py\<close> (the V1 plan) and \<open>agents/target_planner.py\<close>: Policy D (the first
  structural target), and the fixed-R:R planners (3R; the FX policy with its clamped stop). Planning is
  \<open>Decimal\<close> arithmetic on the instrument grid; the plan then carries floats. The decision dictionary is
  a record; a \<open>Decimal\<close> it renders with \<open>str\<close> is carried by value. The hash of a decision's identity is
  an argument: of a JSON tree, and for Policy D also of the multiset of its candidates' keys (the code
  sorts them, which raises when a missing price meets a price of the same source).
\<close>

section \<open>Data\<close>

record candidate =
  cn_source :: string
  cn_timeframe :: string
  cn_deterministic :: bool
  cn_price :: "rat option"
  cn_target :: "rat option"
  cn_confirmed :: "instant option"
  cn_pivot :: "instant option"
  cn_eligible :: bool
  cn_reason :: string
  cn_distance :: "rat option"

record target_decision =
  td_policy :: rr_policy
  td_status :: string
  td_reason :: string
  td_run_id :: string
  td_setup_id :: "string option"
  td_symbol :: string
  td_side :: "side option"
  td_entry :: "rat option"
  td_stop :: "rat option"
  td_entry_raw :: "rat option"
  td_stop_raw :: "rat option"
  td_increment :: "rat option"
  td_risk :: "rat option"
  td_reward :: "rat option"
  td_target :: "rat option"
  td_rr :: "rat option"
  td_declared :: "rat option"
  td_band :: "string option"
  td_selected :: "(candidate \<times> string list) option"
  td_candidates :: "candidate list"
  td_context :: "(candidate \<times> rat \<times> bool) list"
  td_structural :: "(rat \<times> rat \<times> clamp_action) option"
  td_id :: string

section \<open>The entry\<close>

text \<open>The last closed 5-minute close at or before the cut-off. A frame without a \<open>Close\<close> column has no close in any row.\<close>

definition closed_rows :: "instant option \<Rightarrow> raw_frame \<Rightarrow> raw_row list" where
  "closed_rows as_of f = (case mask_hasta_as_of (rf_aware f) as_of of None \<Rightarrow> []
     | Some m \<Rightarrow> filter (\<lambda>r. m (rw_time r) \<and> rw_closed r) (sort_key rw_time (rf_rows f)))"

definition entry_of :: "raw_frame option \<Rightarrow> instant option \<Rightarrow> rat option" where
  "entry_of datos as_of = (case datos of None \<Rightarrow> None | Some f \<Rightarrow>
     (let rows = closed_rows as_of f in
      if rows = [] then None
      else (case rw_close (last rows) of None \<Rightarrow> None | Some v \<Rightarrow> if 0 < v then Some v else None)))"

section \<open>\<open>crear_trade_plan\<close>\<close>

definition plan_of ::
  "string \<Rightarrow> side \<Rightarrow> rat \<Rightarrow> rat \<Rightarrow> rat \<Rightarrow> rat \<Rightarrow> string \<Rightarrow> instant option \<Rightarrow> rr_policy \<Rightarrow> trade_plan" where
  "plan_of symbol sd entry stop target rr run as_of policy =
    \<lparr>tp_symbol = symbol, tp_side = sd, tp_timeframe = ''5m'', tp_entry = PFloat entry, tp_stop = PFloat stop,
     tp_target = PFloat target, tp_risk_reward = PFloat rr, tp_run_id = Some run, tp_as_of = as_of,
     tp_policy_version = policy, tp_target_decision = JObj []\<rparr>"

definition crear_trade_plan ::
  "setup_assessment option \<Rightarrow> raw_frame option \<Rightarrow> string \<Rightarrow> string \<Rightarrow> instant option \<Rightarrow> trade_plan option" where
  "crear_trade_plan setup datos symbol run as_of = (case setup of None \<Rightarrow> None | Some a \<Rightarrow>
    (if sa_status a \<noteq> VALID_SETUP then None
     else (case (entry_of datos as_of, sa_invalidation a) of
         (Some entry, Some stop) \<Rightarrow>
           (if sa_side a = Some LONG then
              (if stop < entry then Some (plan_of symbol LONG entry stop (fl (entry + fl (3 * fl (entry - stop)))) 3 run as_of POLICY_V1)
               else None)
            else if sa_side a = Some SHORT then
              (if entry < stop then Some (plan_of symbol SHORT entry stop (fl (entry - fl (3 * fl (stop - entry)))) 3 run as_of POLICY_V1)
               else None)
            else None)
       | _ \<Rightarrow> None)))"

section \<open>Structural candidates\<close>

definition CANDIDATE_TIMEFRAMES :: "string list" where
  "CANDIDATE_TIMEFRAMES = [''15m'', ''1h'']"

definition ref_valid :: "setup_assessment \<Rightarrow> string \<Rightarrow> bool" where
  "ref_valid a tf = (case sa_explanation a of None \<Rightarrow> False
     | Some e \<Rightarrow> list_ex (\<lambda>r. er_source r = ''structure'' \<and> er_timeframe r = Some tf \<and> er_state r = ''VALID'') (ex_refs e))"

definition beyond :: "side \<Rightarrow> rat \<Rightarrow> rat \<Rightarrow> bool" where
  "beyond sd entry price \<longleftrightarrow> (if sd = LONG then entry < price else price < entry)"

definition swing_candidate ::
  "setup_assessment \<Rightarrow> side \<Rightarrow> rat \<Rightarrow> pynum \<Rightarrow> instant \<Rightarrow> string \<Rightarrow> bool \<Rightarrow> bool \<Rightarrow> swing \<Rightarrow> candidate" where
  "swing_candidate a sd entry increment cutoff tf lineage ref s =
    (let price = to_decimal (PFloat (sw_price s));
         target = (case price of None \<Rightarrow> None
           | Some p \<Rightarrow> normalize_price (PDec p) increment (if sd = LONG then ROUND_FLOOR else ROUND_CEILING));
         rec = (\<lambda>ok why dist. \<lparr>cn_source = (if sd = LONG then ''swing_high_'' else ''swing_low_'') @ tf, cn_timeframe = tf,
           cn_deterministic = True, cn_price = price, cn_target = target, cn_confirmed = Some (sw_confirmed s),
           cn_pivot = Some (sw_pivot s), cn_eligible = ok, cn_reason = why, cn_distance = dist\<rparr>)
     in if \<not> lineage then rec False ''lineage_mismatch'' None
        else if \<not> ref then rec False ''evidence_ref_not_valid'' None
        else (case target of None \<Rightarrow> rec False ''invalid_price'' None
          | Some t \<Rightarrow>
            if cutoff < sw_confirmed s then rec False ''future_evidence'' None
            else if \<not> beyond sd entry t then rec False ''not_beyond_entry'' None
            else rec True ''eligible'' (Some (dec28 \<bar>dec28 (t - entry)\<bar>))))"

definition swing_candidates ::
  "setup_assessment \<Rightarrow> side \<Rightarrow> rat \<Rightarrow> pynum \<Rightarrow> instant \<Rightarrow> string \<Rightarrow> structure_report option \<Rightarrow> candidate list \<times> bool" where
  "swing_candidates a sd entry increment cutoff tf report = (case report of None \<Rightarrow> ([], False)
   | Some r \<Rightarrow>
     let lineage = (sr_symbol r = sa_symbol a \<and> sr_timeframe r = tf); ref = ref_valid a tf
     in (map (swing_candidate a sd entry increment cutoff tf lineage ref) (if sd = LONG then sr_highs r else sr_lows r), lineage \<and> ref))"

definition level_candidates :: "side \<Rightarrow> rat \<Rightarrow> string \<Rightarrow> liquidity_report option \<Rightarrow> candidate list" where
  "level_candidates sd entry tf report = (case report of None \<Rightarrow> []
   | Some r \<Rightarrow> List.map_filter (\<lambda>v. case to_decimal (PFloat v) of None \<Rightarrow> None
       | Some p \<Rightarrow> if beyond sd entry p
           then Some \<lparr>cn_source = ''equal_level_'' @ tf, cn_timeframe = tf, cn_deterministic = False, cn_price = Some p, cn_target = None,
             cn_confirmed = None, cn_pivot = None, cn_eligible = False, cn_reason = ''heuristic_not_target_authority'', cn_distance = None\<rparr>
           else None) (if sd = LONG then lr_above r else lr_below r))"

text \<open>Every level considered, and whether any trustworthy evidence existed.\<close>

definition candidates_of :: "setup_assessment \<Rightarrow> side \<Rightarrow> rat \<Rightarrow> pynum \<Rightarrow> instant \<Rightarrow> candidate list \<times> bool" where
  "candidates_of a sd entry increment cutoff =
    (let structure = (case sa_evidence a of None \<Rightarrow> [] | Some (s, _) \<Rightarrow> s);
         liquidity = (case sa_evidence a of None \<Rightarrow> [] | Some (_, l) \<Rightarrow> l);
         swings = map (\<lambda>tf. swing_candidates a sd entry increment cutoff tf (dget structure tf)) CANDIDATE_TIMEFRAMES;
         levels = map (\<lambda>tf. level_candidates sd entry tf (dget liquidity tf)) CANDIDATE_TIMEFRAMES
     in (concat (map fst swings) @ concat levels, list_ex snd swings))"

section \<open>What the planners share\<close>

definition blank_decision :: "rr_policy \<Rightarrow> setup_assessment option \<Rightarrow> string \<Rightarrow> string \<Rightarrow> target_decision" where
  "blank_decision policy setup symbol run =
    \<lparr>td_policy = policy, td_status = [], td_reason = [], td_run_id = run,
     td_setup_id = Option.bind (Option.bind setup sa_explanation) ex_setup_id, td_symbol = symbol, td_side = Option.bind setup sa_side,
     td_entry = None, td_stop = None, td_entry_raw = None, td_stop_raw = None, td_increment = None, td_risk = None, td_reward = None,
     td_target = None, td_rr = None, td_declared = None, td_band = None, td_selected = None, td_candidates = [], td_context = [],
     td_structural = None, td_id = []\<rparr>"

definition ended :: "string \<Rightarrow> string \<Rightarrow> target_decision \<Rightarrow> target_decision" where
  "ended status reason d = d\<lparr>td_status := status, td_reason := reason\<rparr>"

definition protective :: "side \<Rightarrow> rat \<Rightarrow> rat \<Rightarrow> bool" where
  "protective sd entry stop \<longleftrightarrow> (sd = LONG \<longrightarrow> stop < entry) \<and> (sd = SHORT \<longrightarrow> entry < stop)"

definition entry_dir :: "side \<Rightarrow> rounding_dir" where "entry_dir sd = (if sd = LONG then ROUND_CEILING else ROUND_FLOOR)"
definition stop_dir :: "side \<Rightarrow> rounding_dir" where "stop_dir sd = (if sd = LONG then ROUND_FLOOR else ROUND_CEILING)"

text \<open>Up to the grid entry and stop: a final decision, or the decision so far with the side, entry and stop.\<close>

definition plan_head ::
  "rr_policy \<Rightarrow> setup_assessment option \<Rightarrow> raw_frame option \<Rightarrow> string \<Rightarrow> string \<Rightarrow> instant option \<Rightarrow> instrument_spec option \<Rightarrow>
   target_decision + target_decision \<times> setup_assessment \<times> pynum \<times> side \<times> rat \<times> rat" where
  "plan_head policy setup datos symbol run as_of instrument =
    (let d = blank_decision policy setup symbol run;
         refused = Inl (ended ''NOT_A_VALID_SETUP'' ''setup_not_valid_for_symbol'' d)
     in case setup of None \<Rightarrow> refused | Some a \<Rightarrow>
       if sa_status a \<noteq> VALID_SETUP \<or> sa_symbol a \<noteq> symbol then refused
       else let unsupported = Inl (ended ''UNSUPPORTED_PRECISION'' ''instrument_precision_unavailable'' d) in
       case instrument of None \<Rightarrow> unsupported | Some i \<Rightarrow>
       if i_symbol i \<noteq> symbol \<or> to_decimal (i_price_increment i) = None then unsupported
       else let entry_raw = entry_of datos as_of; stop_raw = Option.bind (sa_invalidation a) (\<lambda>v. to_decimal (PFloat v));
                d1 = d\<lparr>td_increment := to_decimal (i_price_increment i), td_entry_raw := entry_raw, td_stop_raw := stop_raw\<rparr>
       in case (entry_raw, stop_raw, sa_side a) of
         (Some er, Some sr, Some sd) \<Rightarrow>
           if sd \<noteq> LONG \<and> sd \<noteq> SHORT then Inl (ended ''INVALID_GEOMETRY'' ''entry_or_invalidation_unavailable'' d1)
           else let entry = normalize_price (PFloat er) (i_price_increment i) (entry_dir sd);
                    stop = normalize_price (PDec sr) (i_price_increment i) (stop_dir sd);
                    d2 = d1\<lparr>td_entry := entry, td_stop := stop\<rparr>
           in (case (entry, stop) of
               (Some e, Some s) \<Rightarrow> if protective sd e s then Inr (d2, a, i_price_increment i, sd, e, s)
                 else Inl (ended ''INVALID_GEOMETRY'' ''invalid_entry_stop_geometry'' d2)
             | _ \<Rightarrow> Inl (ended ''INVALID_GEOMETRY'' ''invalid_entry_stop_geometry'' d2))
       | _ \<Rightarrow> Inl (ended ''INVALID_GEOMETRY'' ''entry_or_invalidation_unavailable'' d1))"

definition decision_fields :: "target_decision \<Rightarrow> (string \<times> json) list" where
  "decision_fields d = [(''policy_version'', JStr (policy_name (td_policy d))), (''setup_id'', jstr_opt (td_setup_id d)),
     (''symbol'', JStr (td_symbol d)), (''side'', (case td_side d of None \<Rightarrow> JNull | Some s \<Rightarrow> JStr (side_name s))),
     (''entry'', jdec_opt (td_entry d)), (''stop'', jdec_opt (td_stop d)), (''price_increment'', jdec_opt (td_increment d))]"

section \<open>The fixed-R:R planners\<close>

type_synonym planned = "trade_plan option \<times> target_decision"
type_synonym stop_clamp = "string \<Rightarrow> side \<Rightarrow> rat \<Rightarrow> rat \<Rightarrow> py_error + rat \<times> clamp_action \<times> rat"

definition finish_fixed :: "(json \<Rightarrow> string) \<Rightarrow> trade_plan option \<Rightarrow> target_decision \<Rightarrow> planned" where
  "finish_fixed ident plan d =
    (plan, d\<lparr>td_id := ident (JObj (decision_fields d @ [(''target'', jdec_opt (td_target d))]))\<rparr>)"

text \<open>The stop after the clamp, on the grid; \<open>Inl\<close> is a decision that ends there.\<close>

definition clamped_stop ::
  "stop_clamp option \<Rightarrow> string \<Rightarrow> pynum \<Rightarrow> side \<Rightarrow> rat \<Rightarrow> rat \<Rightarrow> target_decision \<Rightarrow> py_error + (target_decision + target_decision \<times> rat)" where
  "clamped_stop clamp symbol increment sd entry stop d = (case clamp of None \<Rightarrow> Inr (Inr (d, stop))
   | Some f \<Rightarrow> ebind (f symbol sd entry stop) (\<lambda>(moved, action, pips).
       let grid = normalize_price (PDec moved) increment (stop_dir sd);
           d1 = d\<lparr>td_structural := Some (stop, pips, action), td_stop := grid\<rparr>;
           invalid = Inl (ended ''INVALID_GEOMETRY'' ''invalid_clamped_stop_geometry'' d1)
       in Inr (case grid of None \<Rightarrow> invalid | Some s \<Rightarrow> if protective sd entry s then Inr (d1, s) else invalid)))"

definition context_of :: "candidate list \<Rightarrow> side \<Rightarrow> rat \<Rightarrow> rat \<Rightarrow> rat \<Rightarrow> (candidate \<times> rat \<times> bool) list" where
  "context_of cs sd entry risk target = List.map_filter (\<lambda>c. case cn_target c of
     Some t \<Rightarrow> if cn_eligible c then Some (c, dec28 (dec28 \<bar>dec28 (t - entry)\<bar> / risk), beyond sd t target) else None
   | None \<Rightarrow> None) cs"

definition fixed_target ::
  "(json \<Rightarrow> string) \<Rightarrow> rr_policy \<Rightarrow> rat \<Rightarrow> string \<Rightarrow> string \<Rightarrow> setup_assessment \<Rightarrow> pynum \<Rightarrow> string \<Rightarrow> string \<Rightarrow> instant option \<Rightarrow>
   side \<Rightarrow> rat \<Rightarrow> rat \<Rightarrow> target_decision \<Rightarrow> py_error + planned" where
  "fixed_target ident policy multiple not_exact ready a increment symbol run as_of sd entry stop d =
    (let done = (\<lambda>reason. Inr (finish_fixed ident None (ended ''INVALID_GEOMETRY'' reason d)));
         risk = dec28 \<bar>dec28 (entry - stop)\<bar>;
         target = (if sd = LONG then dec28 (entry + dec28 (multiple * risk)) else dec28 (entry - dec28 (multiple * risk)))
     in if normalize_price (PDec target) increment ROUND_FLOOR \<noteq> Some target then done ''target_not_on_price_grid''
        else (case geometry sd (PDec entry) (PDec stop) (PDec target) of
            Inl why \<Rightarrow> done why
          | Inr g \<Rightarrow> ebind (classify (g_rr g) policy) (\<lambda>outcome.
              if outcome \<noteq> WITHIN_POLICY then done not_exact
              else let cs = fst (candidates_of a sd entry increment (the as_of));
                       d1 = d\<lparr>td_context := context_of cs sd entry risk target, td_risk := Some (g_risk g), td_reward := Some (g_reward g),
                              td_target := Some target, td_rr := Some (g_rr g), td_declared := Some (fl (g_rr g))\<rparr>;
                       plan = plan_of symbol sd (fl entry) (fl stop) (fl target) (fl (g_rr g)) run as_of policy
                   in Inr (finish_fixed ident (Some plan) (ended ''PLAN_READY'' ready d1)))))"

definition plan_fixed_rr ::
  "(json \<Rightarrow> string) \<Rightarrow> setup_assessment option \<Rightarrow> raw_frame option \<Rightarrow> string \<Rightarrow> string \<Rightarrow> instant option \<Rightarrow> instrument_spec option \<Rightarrow>
   rr_policy \<Rightarrow> rat \<Rightarrow> string \<Rightarrow> string \<Rightarrow> stop_clamp option \<Rightarrow> py_error + planned" where
  "plan_fixed_rr ident setup datos symbol run as_of instrument policy multiple not_exact ready clamp =
    (case plan_head policy setup datos symbol run as_of instrument of
       Inl d \<Rightarrow> Inr (finish_fixed ident None d)
     | Inr (d, a, increment, sd, entry, stop) \<Rightarrow>
         ebind (clamped_stop clamp symbol increment sd entry stop d) (\<lambda>r. case r of
           Inl d1 \<Rightarrow> Inr (finish_fixed ident None d1)
         | Inr (d1, s) \<Rightarrow> fixed_target ident policy multiple not_exact ready a increment symbol run as_of sd entry s d1))"

definition plan_fixed_3r ::
  "(json \<Rightarrow> string) \<Rightarrow> setup_assessment option \<Rightarrow> raw_frame option \<Rightarrow> string \<Rightarrow> string \<Rightarrow> instant option \<Rightarrow> instrument_spec option \<Rightarrow>
   py_error + planned" where
  "plan_fixed_3r ident setup datos symbol run as_of instrument =
    plan_fixed_rr ident setup datos symbol run as_of instrument POLICY_V2_F3 3 ''planned_rr_not_exactly_3''
      ''fixed_3r_from_structural_invalidation'' None"

definition plan_fx_fixed_rr ::
  "(json \<Rightarrow> string) \<Rightarrow> setup_assessment option \<Rightarrow> raw_frame option \<Rightarrow> string \<Rightarrow> string \<Rightarrow> instant option \<Rightarrow> instrument_spec option \<Rightarrow>
   py_error + planned" where
  "plan_fx_fixed_rr ident setup datos symbol run as_of instrument =
    (if \<not> is_fx symbol then Inl (ValueError ''not an FX symbol'')
     else plan_fixed_rr ident setup datos symbol run as_of instrument POLICY_FX FX_TP_RR ''planned_rr_not_exactly_fx_tp_rr''
       ''fx_fixed_rr_from_clamped_structural_invalidation'' (Some clamp_stop))"

section \<open>Policy D\<close>

definition sortable :: "candidate list \<Rightarrow> bool" where
  "sortable cs \<longleftrightarrow> list_all (\<lambda>c. list_all (\<lambda>c'. cn_source c = cn_source c' \<longrightarrow> (cn_price c = None) = (cn_price c' = None)) cs) cs"

definition candidate_key :: "candidate \<Rightarrow> string \<times> rat option \<times> instant option \<times> bool" where
  "candidate_key c = (cn_source c, cn_price c, cn_confirmed c, cn_eligible c)"

type_synonym policy_d_hash = "json \<Rightarrow> (string \<times> rat option \<times> instant option \<times> bool) multiset \<Rightarrow> string"

definition finish_d :: "policy_d_hash \<Rightarrow> trade_plan option \<Rightarrow> target_decision \<Rightarrow> py_error + planned" where
  "finish_d ident plan d =
    (if \<not> sortable (td_candidates d) then Inl (TypeError ''sorted'')
     else Inr (plan, d\<lparr>td_id := ident (JObj (decision_fields d)) (mset (map candidate_key (td_candidates d)))\<rparr>))"

text \<open>The first obstacle: the nearest eligible target, ties by source.\<close>

definition first_obstacle :: "rat \<Rightarrow> candidate list \<Rightarrow> (candidate \<times> rat) option" where
  "first_obstacle entry cs = (case sort_key (\<lambda>(c, t). (dec28 \<bar>dec28 (t - entry)\<bar>, cn_source c))
      (List.map_filter (\<lambda>c. if cn_eligible c then map_option (Pair c) (cn_target c) else None) cs) of
     [] \<Rightarrow> None | x # _ \<Rightarrow> Some x)"

definition plan_policy_d ::
  "policy_d_hash \<Rightarrow> setup_assessment option \<Rightarrow> raw_frame option \<Rightarrow> string \<Rightarrow> string \<Rightarrow> instant option \<Rightarrow> instrument_spec option \<Rightarrow>
   py_error + planned" where
  "plan_policy_d ident setup datos symbol run as_of instrument =
    (case plan_head POLICY_V2_D setup datos symbol run as_of instrument of
       Inl d \<Rightarrow> finish_d ident None d
     | Inr (d, a, increment, sd, entry, stop) \<Rightarrow>
       (let (cs, trustworthy) = candidates_of a sd entry increment (the as_of); d1 = d\<lparr>td_candidates := cs\<rparr> in
        if \<not> trustworthy then finish_d ident None (ended ''INSUFFICIENT_TARGET_EVIDENCE'' ''no_trustworthy_structural_evidence'' d1)
        else (case first_obstacle entry cs of
            None \<Rightarrow> finish_d ident None (ended ''NO_VALID_TARGET'' ''no_structural_target_beyond_entry'' d1)
          | Some (c, target) \<Rightarrow>
            let sources = sort (map cn_source (filter (\<lambda>c'. cn_eligible c' \<and> cn_target c' = Some target) cs)) in
            (case geometry sd (PDec entry) (PDec stop) (PDec target) of
              Inl why \<Rightarrow> finish_d ident None (ended ''INVALID_GEOMETRY'' why d1)
            | Inr g \<Rightarrow> ebind (classify (g_rr g) POLICY_V2_D) (\<lambda>outcome.
                let d2 = d1\<lparr>td_selected := Some (c, sources), td_rr := Some (g_rr g), td_band := Some (band (g_rr g)),
                            td_risk := Some (g_risk g), td_reward := Some (g_reward g)\<rparr>
                in case outcome of
                  RR_BELOW_FLOOR \<Rightarrow> finish_d ident None (ended ''RR_BELOW_FLOOR'' ''first_structural_target_below_2r'' d2)
                | OUT_OF_POLICY_EXTENDED_TARGET \<Rightarrow> finish_d ident None
                    (ended ''OUT_OF_POLICY_EXTENDED_TARGET'' ''first_structural_target_above_5r_observational_only'' d2)
                | WITHIN_POLICY \<Rightarrow> finish_d ident
                    (Some (plan_of symbol sd (fl entry) (fl stop) (fl target) (fl (g_rr g)) run as_of POLICY_V2_D))
                    (ended ''PLAN_READY'' ''first_structural_target_within_2r_5r'' d2))))))"

section \<open>Facts\<close>

lemma normalize_pos: "normalize_price v inc dir = Some x \<Longrightarrow> 0 < x"
  by (auto simp: normalize_price_def Let_def split: option.splits if_splits)

lemma plan_head_Inr:
  assumes "plan_head policy setup datos symbol run as_of instrument = Inr (d, a, increment, sd, entry, stop)"
  shows "td_entry d = Some entry" "td_stop d = Some stop" "sd = LONG \<or> sd = SHORT" "protective sd entry stop" "0 < entry" "0 < stop"
    "setup = Some a" "sa_status a = VALID_SETUP" "sa_symbol a = symbol" "sa_side a = Some sd" "td_policy d = policy"
    "\<exists>er. entry_of datos as_of = Some er \<and> normalize_price (PFloat er) increment (entry_dir sd) = Some entry"
    "\<exists>v sr. sa_invalidation a = Some v \<and> to_decimal (PFloat v) = Some sr \<and> normalize_price (PDec sr) increment (stop_dir sd) = Some stop"
    "as_of \<noteq> None" "\<exists>i. instrument = Some i \<and> increment = i_price_increment i" "td_structural d = None"
    "td_side d = Some sd"
  using assms unfolding plan_head_def Let_def
  by (auto simp: blank_decision_def bind_eq_Some_conv entry_of_def closed_rows_def mask_hasta_as_of_def normalize_pos
      split: option.splits if_splits)

lemma fixed_target_Inr:
  assumes "fixed_target ident policy multiple ne rdy a increment symbol run as_of sd entry stop d = Inr (Some p, d')"
    and "td_entry d = Some entry" "td_stop d = Some stop"
  obtains g where "geometry sd (PDec entry) (PDec stop) (PDec (g_target g)) = Inr g" "classify (g_rr g) policy = Inr WITHIN_POLICY"
    "p = plan_of symbol sd (fl entry) (fl stop) (fl (g_target g)) (fl (g_rr g)) run as_of policy"
    "td_entry d' = Some entry" "td_stop d' = Some stop" "td_target d' = Some (g_target g)" "td_rr d' = Some (g_rr g)"
    "td_structural d' = td_structural d" "td_status d' = ''PLAN_READY''" "td_side d' = td_side d"
    "g_target g = (if sd = LONG then dec28 (entry + dec28 (multiple * dec28 \<bar>dec28 (entry - stop)\<bar>))
       else dec28 (entry - dec28 (multiple * dec28 \<bar>dec28 (entry - stop)\<bar>)))"
proof -
  define target where "target = (if sd = LONG then dec28 (entry + dec28 (multiple * dec28 \<bar>dec28 (entry - stop)\<bar>))
       else dec28 (entry - dec28 (multiple * dec28 \<bar>dec28 (entry - stop)\<bar>)))"
  obtain g where g: "geometry sd (PDec entry) (PDec stop) (PDec target) = Inr g" "classify (g_rr g) policy = Inr WITHIN_POLICY"
    "p = plan_of symbol sd (fl entry) (fl stop) (fl target) (fl (g_rr g)) run as_of policy"
    "td_entry d' = Some entry" "td_stop d' = Some stop" "td_target d' = Some target" "td_rr d' = Some (g_rr g)"
    "td_structural d' = td_structural d" "td_status d' = ''PLAN_READY''" "td_side d' = td_side d"
    using assms unfolding fixed_target_def Let_def target_def [symmetric]
    by (auto simp: finish_fixed_def ended_def ebind_eq_Inr split: if_splits sum.splits)
  then have "g_target g = target" using geometry_Inr(4) [OF g(1)] by (auto split: if_splits)
  then show ?thesis using that g target_def by metis
qed

lemma clamped_stop_cases:
  assumes "clamped_stop clamp symbol increment sd entry stop d = Inr (Inr (d1, s))" and "td_entry d = Some entry" "td_stop d = Some stop"
  shows "td_entry d1 = Some entry" "td_stop d1 = Some s" "td_side d1 = td_side d"
    "clamp = None \<Longrightarrow> s = stop \<and> d1 = d"
    "clamp = Some f \<Longrightarrow> (\<exists>moved action pips. f symbol sd entry stop = Inr (moved, action, pips)
       \<and> normalize_price (PDec moved) increment (stop_dir sd) = Some s \<and> td_structural d1 = Some (stop, pips, action) \<and> protective sd entry s)"
proof -
  have "td_entry d1 = Some entry \<and> td_stop d1 = Some s \<and> td_side d1 = td_side d \<and> (clamp = None \<longrightarrow> s = stop \<and> d1 = d)
    \<and> (\<forall>f. clamp = Some f \<longrightarrow> (\<exists>moved action pips. f symbol sd entry stop = Inr (moved, action, pips)
       \<and> normalize_price (PDec moved) increment (stop_dir sd) = Some s \<and> td_structural d1 = Some (stop, pips, action) \<and> protective sd entry s))"
  proof (cases clamp)
    case None
    then show ?thesis using assms by (simp add: clamped_stop_def)
  next
    case (Some f)
    then obtain moved action pips where f: "f symbol sd entry stop = Inr (moved, action, pips)"
      using assms(1) by (auto simp: clamped_stop_def ebind_eq_Inr)
    show ?thesis using assms unfolding clamped_stop_def Some f
      by (auto simp: f Let_def split: option.splits if_splits)
  qed
  then show "td_entry d1 = Some entry" "td_stop d1 = Some s" "td_side d1 = td_side d" "clamp = None \<Longrightarrow> s = stop \<and> d1 = d"
    "clamp = Some f \<Longrightarrow> (\<exists>moved action pips. f symbol sd entry stop = Inr (moved, action, pips)
       \<and> normalize_price (PDec moved) increment (stop_dir sd) = Some s \<and> td_structural d1 = Some (stop, pips, action) \<and> protective sd entry s)"
    by blast+
qed

text \<open>A plan of a fixed planner: its head, the stop it uses and its geometry.\<close>

lemma plan_fixed_rr_Inr:
  assumes "plan_fixed_rr ident setup datos symbol run as_of instrument policy multiple ne rdy clamp = Inr (Some p, d)"
  obtains d0 a increment sd entry stop d1 s g where
    "plan_head policy setup datos symbol run as_of instrument = Inr (d0, a, increment, sd, entry, stop)"
    "clamped_stop clamp symbol increment sd entry stop d0 = Inr (Inr (d1, s))"
    "geometry sd (PDec entry) (PDec s) (PDec (g_target g)) = Inr g" "classify (g_rr g) policy = Inr WITHIN_POLICY"
    "p = plan_of symbol sd (fl entry) (fl s) (fl (g_target g)) (fl (g_rr g)) run as_of policy"
    "td_entry d = Some entry" "td_stop d = Some s" "td_target d = Some (g_target g)" "td_rr d = Some (g_rr g)"
    "td_structural d = td_structural d1" "td_status d = ''PLAN_READY''" "td_side d = Some sd"
    "g_target g = (if sd = LONG then dec28 (entry + dec28 (multiple * dec28 \<bar>dec28 (entry - s)\<bar>))
       else dec28 (entry - dec28 (multiple * dec28 \<bar>dec28 (entry - s)\<bar>)))"
proof -
  obtain d0 a increment sd entry stop where h: "plan_head policy setup datos symbol run as_of instrument = Inr (d0, a, increment, sd, entry, stop)"
    using assms unfolding plan_fixed_rr_def
    by (cases "plan_head policy setup datos symbol run as_of instrument") (auto simp: finish_fixed_def)
  obtain r where r: "clamped_stop clamp symbol increment sd entry stop d0 = Inr r"
    and k: "(case r of Inl d1 \<Rightarrow> Inr (finish_fixed ident None d1)
      | Inr (d1, s) \<Rightarrow> fixed_target ident policy multiple ne rdy a increment symbol run as_of sd entry s d1) = Inr (Some p, d)"
    using assms unfolding plan_fixed_rr_def h by (auto simp: ebind_eq_Inr)
  then obtain d1 s where rs: "r = Inr (d1, s)" by (cases r) (auto simp: finish_fixed_def)
  have c: "clamped_stop clamp symbol increment sd entry stop d0 = Inr (Inr (d1, s))"
    and t: "fixed_target ident policy multiple ne rdy a increment symbol run as_of sd entry s d1 = Inr (Some p, d)"
    using r k by (simp_all add: rs)
  note e = clamped_stop_cases(1-3) [OF c plan_head_Inr(1,2) [OF h]]
  show ?thesis by (rule fixed_target_Inr [OF t e(1,2)]) (rule that [OF h c]; (assumption | simp only: e(3) plan_head_Inr(17) [OF h]))
qed

lemma geometry_float:
  assumes "geometry sd (PDec e) (PDec s) (PDec t) = Inr g" and "digits15 e" "digits15 s" "digits15 t"
  shows "geometry sd (PFloat (fl e)) (PFloat (fl s)) (PFloat (fl t)) = Inr g"
proof -
  have "0 < e" "0 < s" "0 < t" using geometry_Inr [OF assms(1)] by (auto simp: geom_ok_def split: if_splits)
  then have eq: "to_decimal (PFloat (fl e)) = to_decimal (PDec e)" "to_decimal (PFloat (fl s)) = to_decimal (PDec s)"
    "to_decimal (PFloat (fl t)) = to_decimal (PDec t)" using assms by (simp_all add: repr_dec_short)
  show ?thesis using assms(1) unfolding geometry_def eq .
qed

lemma digits15_small: "\<bar>n\<bar> < 10 ^ 15 \<Longrightarrow> digits15 (of_int n)"
  unfolding digits15_def by (intro exI [of _ n] exI [of _ 0]) simp

lemma fixed_rr_value:
  assumes "policy = POLICY_V2_F3 \<and> multiple = 3 \<or> policy = POLICY_FX \<and> multiple = 2" and "classify rr policy = Inr WITHIN_POLICY"
  shows "rr = multiple"
  using assms by (auto simp: classify_def classify_within FX_TP_RR_def)

lemma declared_fixed: "rr = 3 \<or> rr = 2 \<Longrightarrow> declared_matches (PFloat (fl rr)) rr"
  using repr_dec_short [of 2] repr_dec_short [of 3] digits15_small [of 2] digits15_small [of 3] d28.zero
  by (auto simp: declared_matches_def DECLARED_TOLERANCE_def d28.nonneg)

section \<open>Properties\<close>

text \<open>
  C21. Every plan a fixed planner makes passes the shape gate of the risk engine under the registered policy of
  its planner, with exactly the entry, stop, target and ratio the decision records, as long as those prices
  have at most 15 significant digits: the trip of the plan through floats loses nothing and the ratio is
  exactly 3 (exactly 2 under the FX policy).
\<close>

theorem fixed_plan_passes_the_risk_gate:
  assumes "plan_fixed_3r ident setup datos symbol run as_of instrument = Inr (Some p, d) \<and> pol = RISK_POLICY_V2_P5
      \<or> plan_fx_fixed_rr ident setup datos symbol run as_of instrument = Inr (Some p, d) \<and> pol = RISK_POLICY_V2_FX"
    and "\<forall>v. td_entry d = Some v \<or> td_stop d = Some v \<or> td_target d = Some v \<longrightarrow> digits15 v"
  shows "\<exists>g. plan_shape pol p = Inr g \<and> td_entry d = Some (g_entry g) \<and> td_stop d = Some (g_stop g) \<and> td_target d = Some (g_target g)
    \<and> g_rr g = planned_rr pol \<and> td_rr d = Some (planned_rr pol) \<and> td_status d = ''PLAN_READY'' \<and> tp_symbol p = symbol
    \<and> (g_side g = LONG \<and> g_stop g < g_entry g \<and> g_entry g < g_target g \<or> g_side g = SHORT \<and> g_target g < g_entry g \<and> g_entry g < g_stop g)"
proof -
  define policy where "policy = rp_rr_policy pol"
  define multiple :: rat where "multiple = planned_rr pol"
  have pm: "policy = POLICY_V2_F3 \<and> multiple = 3 \<or> policy = POLICY_FX \<and> multiple = 2"
    using assms(1) by (auto simp: policy_def multiple_def policy_defs FX_TP_RR_def)
  obtain ne rdy clamp where plan: "plan_fixed_rr ident setup datos symbol run as_of instrument policy multiple ne rdy clamp = Inr (Some p, d)"
    using assms(1) unfolding policy_def multiple_def plan_fixed_3r_def plan_fx_fixed_rr_def
    by (auto simp: policy_defs FX_TP_RR_def split: if_splits)
  show ?thesis
  proof (rule plan_fixed_rr_Inr [OF plan])
    fix d0 a increment sd entry stop d1 s g
    assume h: "plan_head policy setup datos symbol run as_of instrument = Inr (d0, a, increment, sd, entry, stop)"
      and g: "geometry sd (PDec entry) (PDec s) (PDec (g_target g)) = Inr g" "classify (g_rr g) policy = Inr WITHIN_POLICY"
      and p: "p = plan_of symbol sd (fl entry) (fl s) (fl (g_target g)) (fl (g_rr g)) run as_of policy"
      and d: "td_entry d = Some entry" "td_stop d = Some s" "td_target d = Some (g_target g)" "td_rr d = Some (g_rr g)" "td_status d = ''PLAN_READY''"
    have g': "geometry sd (PFloat (fl entry)) (PFloat (fl s)) (PFloat (fl (g_target g))) = Inr g"
      using geometry_float [OF g(1)] assms(2) d by blast
    have rr: "g_rr g = multiple" by (rule fixed_rr_value [OF pm g(2)])
    have "declared_matches (PFloat (fl (g_rr g))) (g_rr g)" using declared_fixed rr pm by auto
    then have shape: "plan_shape pol p = Inr g"
      using g' g(2) pm by (auto simp: plan_shape_def p plan_of_def policy_def FIXED_RR_POLICIES_def)
    have es: "g_entry g = entry" "g_stop g = s" and sides: "g_side g = LONG \<and> g_stop g < g_entry g \<and> g_entry g < g_target g
        \<or> g_side g = SHORT \<and> g_target g < g_entry g \<and> g_entry g < g_stop g"
      using geometry_Inr [OF g(1)] geom_ok_sides by (auto simp: geom_ok_def split: if_splits)
    show ?thesis using shape es sides d rr by (intro exI [of _ g]) (simp add: p plan_of_def multiple_def)
  qed
qed

section \<open>A plan\<close>

lemma whole_number:
  assumes "\<bar>n\<bar> < 10 ^ 15" and "0 < n"
  shows "dec28 (of_int n) = of_int n" "dec34 (of_int n) = of_int n" "fl (of_int n) = of_int n" "repr_dec (of_int n) = of_int n"
proof -
  show "dec28 (of_int n) = of_int n" "dec34 (of_int n) = of_int n" using assms by (simp_all add: round_sig_of_int)
  show f: "fl (of_int n) = of_int n" using assms by (intro round_sig_of_int) auto
  show "repr_dec (of_int n) = of_int n" using repr_dec_short [of "of_int n"] digits15_small [OF assms(1)] assms(2) f by simp
qed

lemmas small_numbers =
  whole_number [of 1, simplified] whole_number [of 2, simplified] whole_number [of 3, simplified] whole_number [of 5, simplified]

definition demo_plan_frame :: raw_frame where
  "demo_plan_frame = \<lparr>rf_aware = True, rf_complete = True,
     rf_rows = [\<lparr>rw_time = 0, rw_open = Some 2, rw_high = Some 2, rw_low = Some 1, rw_close = Some 2, rw_closed = True\<rparr>]\<rparr>"

definition demo_grid :: instrument_spec where
  "demo_grid = \<lparr>i_symbol = ''EURUSD'', i_asset_class = ''forex'', i_provider_symbol = None, i_timezone = ''UTC'', i_price_increment = PInt 1,
     i_quantity_increment = PInt 1, i_contract_multiplier = PInt 1, i_allowed_timeframes = AUTHORIZED_TIMEFRAMES\<rparr>"

definition demo_setup :: setup_assessment where
  "demo_setup = \<lparr>sa_run_id = ''run'', sa_timestamp = Some DAY, sa_symbol = ''EURUSD'', sa_status = VALID_SETUP, sa_side = Some LONG,
     sa_timeframes = AUTHORIZED_TIMEFRAMES, sa_evidence = Some ([(''15m'', demo_structure ''15m'')], []), sa_invalidation = Some 1,
     sa_warnings = [], sa_explanation = None\<rparr>"

lemma demo_head:
  "\<exists>d. plan_head policy (Some demo_setup) (Some demo_plan_frame) ''EURUSD'' ''run'' (Some DAY) (Some demo_grid)
    = Inr (d, demo_setup, PInt 1, LONG, 2, 1)"
  by (simp add: plan_head_def demo_setup_def demo_grid_def demo_plan_frame_def entry_of_def closed_rows_def mask_hasta_as_of_def unit_defs
      Let_def small_numbers positive_def normalize_price_def entry_dir_def stop_dir_def protective_def)

lemma demo_geometry: "geometry LONG (PDec 2) (PDec 1) (PDec 5) = Inr \<lparr>g_side = LONG, g_entry = 2, g_stop = 1, g_target = 5, g_risk = 1, g_reward = 3, g_rr = 3\<rparr>"
  by (simp add: geometry_def small_numbers positive_def Let_def)

lemma demo_plan:
  "\<exists>p d. plan_fixed_3r ident (Some demo_setup) (Some demo_plan_frame) ''EURUSD'' ''run'' (Some DAY) (Some demo_grid) = Inr (Some p, d)
     \<and> td_entry d = Some 2 \<and> td_stop d = Some 1 \<and> td_target d = Some 5"
proof -
  obtain d where h: "plan_head POLICY_V2_F3 (Some demo_setup) (Some demo_plan_frame) ''EURUSD'' ''run'' (Some DAY) (Some demo_grid)
    = Inr (d, demo_setup, PInt 1, LONG, 2, 1)" using demo_head by blast
  show ?thesis
    unfolding plan_fixed_3r_def plan_fixed_rr_def h using plan_head_Inr(1,2) [OF h]
    by (simp add: clamped_stop_def fixed_target_def small_numbers Let_def normalize_price_def positive_def demo_geometry
        classify_def classify_in_def finish_fixed_def ended_def)
qed

theorem fixed_plan_passes_the_risk_gate_witness:
  "\<exists>p g. plan_shape RISK_POLICY_V2_P5 p = Inr g \<and> g_entry g = 2 \<and> g_stop g = 1 \<and> g_target g = 5 \<and> g_rr g = 3"
proof -
  obtain p d where d: "plan_fixed_3r (\<lambda>_. []) (Some demo_setup) (Some demo_plan_frame) ''EURUSD'' ''run'' (Some DAY) (Some demo_grid) = Inr (Some p, d)"
    "td_entry d = Some 2" "td_stop d = Some 1" "td_target d = Some 5" using demo_plan by blast
  have "\<forall>v. td_entry d = Some v \<or> td_stop d = Some v \<or> td_target d = Some v \<longrightarrow> digits15 v"
    using d(2-) digits15_small [of 1] digits15_small [of 2] digits15_small [of 5] by auto
  from fixed_plan_passes_the_risk_gate [OF disjI1 [OF conjI [OF d(1) refl]] this] d(2-) show ?thesis
    by (auto simp: policy_defs)
qed

section \<open>FX plans\<close>

lemma normalize_on_grid:
  assumes "to_decimal inc = Some (1 / 10 ^ j)" and "fits 28 j x" and "0 < x"
  shows "normalize_price (PDec x) inc dir = Some x"
proof -
  obtain m where m: "x = of_int m / 10 ^ j" "\<bar>m\<bar> \<le> 10 ^ 28" using assms(2) by (auto simp: fits_def)
  have "dec28 (of_int m) = of_int m" using m(2) by (intro round_sig_of_int) auto
  then have q: "dec28 (x * 10 ^ j) = of_int m" by (simp add: m(1))
  have r: "dec28 (of_int m / 10 ^ j) = x" using dec28_small_frac [OF m(2), of j] by (simp add: m(1))
  have x: "to_decimal (PDec x) = Some x" using assms(3) by simp
  show ?thesis unfolding normalize_price_def assms(1) x using assms(3) by (simp add: q r Let_def)
qed

lemma fits_refine: "fits d j x \<Longrightarrow> fits (d + i) (j + i) x"
proof -
  assume "fits d j x"
  then obtain m where m: "x = of_int m / 10 ^ j" "\<bar>m\<bar> \<le> 10 ^ d" by (auto simp: fits_def)
  have "x = of_int (m * 10 ^ i) / 10 ^ (j + i)" by (simp add: m(1) power_add)
  moreover have "\<bar>m * 10 ^ i\<bar> \<le> 10 ^ (d + i)" using m(2) by (simp add: abs_mult power_add)
  ultimately show ?thesis unfolding fits_def by blast
qed

text \<open>
  C22. A plan of the FX planner risks exactly 25 pips for exactly 50, whatever the structural stop was, and never
  on the wrong side: for an increment \<open>10\<^sup>-\<^sup>j\<close> that divides the pip and prices of at most 20 digits on that
  grid. The recorded structural stop and action are those of the clamp.
\<close>

theorem fx_plan_risks_25_pips_for_50:
  assumes "plan_fx_fixed_rr ident setup datos symbol run as_of instrument = Inr (Some p, d)"
    and "pip_size symbol = Inr pip" and "instrument = Some i" and "to_decimal (i_price_increment i) = Some (1 / 10 ^ j)" and "j \<le> 16"
    and "fits 10 j pip" and "td_entry d = Some e" and "fits 20 j e" and "td_structural d = Some (s0, pips, act)" and "fits 20 j s0"
  shows "\<exists>s t. td_stop d = Some s \<and> td_target d = Some t
    \<and> (td_side d = Some LONG \<and> e - s = 25 * pip \<and> t - e = 50 * pip \<or> td_side d = Some SHORT \<and> s - e = 25 * pip \<and> e - t = 50 * pip)
    \<and> act = (if \<bar>e - s0\<bar> < 25 * pip then WIDENED else if 25 * pip < \<bar>e - s0\<bar> then NARROWED else UNCHANGED)"
proof -
  have plan: "plan_fixed_rr ident setup datos symbol run as_of instrument POLICY_FX FX_TP_RR ''planned_rr_not_exactly_fx_tp_rr''
       ''fx_fixed_rr_from_clamped_structural_invalidation'' (Some clamp_stop) = Inr (Some p, d)"
    using assms(1) by (simp add: plan_fx_fixed_rr_def split: if_splits)
  show ?thesis
  proof (rule plan_fixed_rr_Inr [OF plan])
    fix d0 a increment sd entry stop d1 s g
    assume h: "plan_head POLICY_FX setup datos symbol run as_of instrument = Inr (d0, a, increment, sd, entry, stop)"
      and c: "clamped_stop (Some clamp_stop) symbol increment sd entry stop d0 = Inr (Inr (d1, s))"
      and d: "td_entry d = Some entry" "td_stop d = Some s" "td_target d = Some (g_target g)" "td_structural d = td_structural d1"
        "td_side d = Some sd"
      and t: "g_target g = (if sd = LONG then dec28 (entry + dec28 (FX_TP_RR * dec28 \<bar>dec28 (entry - s)\<bar>))
        else dec28 (entry - dec28 (FX_TP_RR * dec28 \<bar>dec28 (entry - s)\<bar>)))"
    note H = plan_head_Inr [OF h]
    obtain moved action pips' where m: "clamp_stop symbol sd entry stop = Inr (moved, action, pips')"
        "normalize_price (PDec moved) increment (stop_dir sd) = Some s" "td_structural d1 = Some (stop, pips', action)"
      using clamped_stop_cases(5) [OF c H(1,2)] by blast
    have eq: "entry = e" "stop = s0" "act = action" "increment = i_price_increment i"
      using assms(3,7,9) d m(3) H(15) by auto
    have pip: "0 < pip" using pip_size_pos [OF assms(2)] .
    have big: "fits 27 (j + 4) v" if "fits 20 j v" for v using fits_mono [OF fits_refine [OF that, of 4]] by simp
    have side: "sd = LONG \<and> s0 < e \<or> sd = SHORT \<and> e < s0" using H(3,4) eq by (auto simp: protective_def)
    have cl: "moved = (if sd = LONG then e - 25 * pip else e + 25 * pip)"
      "act = (if \<bar>e - s0\<bar> < 25 * pip then WIDENED else if 25 * pip < \<bar>e - s0\<bar> then NARROWED else UNCHANGED)"
      using clamp_stop_25 [OF assms(2) _ _ big [OF assms(8)] big [OF assms(10)] side] m(1) assms(5) eq by auto
    have f25: "fits 12 j (25 * pip)" and f50: "fits 12 j (50 * pip)"
      using fits_of_int_mult [OF assms(6), of 25 2] fits_of_int_mult [OF assms(6), of 50 2] by simp_all
    have fe: "fits 27 j e" "fits 27 j (25 * pip)" "fits 27 j (50 * pip)"
      using fits_mono [OF assms(8)] fits_mono [OF f25] fits_mono [OF f50] by simp_all
    have fm: "fits 21 j moved"
      using fits_diff [OF assms(8) fits_mono [OF f25]] fits_add [OF assms(8) fits_mono [OF f25]] by (simp add: cl(1))
    have pm: "0 < moved" using m(2) by (auto simp: normalize_price_def positive_def split: option.splits if_splits)
    have s: "s = moved"
      using m(2) normalize_on_grid [OF assms(4) fits_mono [OF fm] pm, of "stop_dir sd"] eq by simp
    have r: "dec28 \<bar>dec28 (e - s)\<bar> = 25 * pip"
    proof -
      have "dec28 (e - s) = e - s" by (rule dec28_diff_exact [OF fe(1)]) (use fits_mono [OF fm] s in simp)
      moreover have "\<bar>e - s\<bar> = 25 * pip" using pip by (auto simp: s cl(1))
      moreover have "dec28 (25 * pip) = 25 * pip" by (rule round_sig_fits [OF f25]) simp_all
      ultimately show ?thesis by simp
    qed
    have "dec28 (50 * pip) = 50 * pip" by (rule round_sig_fits [OF f50]) simp_all
    then have tt: "g_target g = (if sd = LONG then e + 50 * pip else e - 50 * pip)"
      unfolding t eq(1) r using dec28_add_exact [OF fe(1,3)] dec28_diff_exact [OF fe(1,3)] by (simp add: FX_TP_RR_def)
    show ?thesis using d side tt cl eq s by (auto simp: s cl(1))
  qed
qed

text \<open>A short plan whose target would be at or below zero is refused before its geometry is looked at.\<close>

lemma nonpositive_target_reason:
  assumes "dec28 (entry - dec28 (multiple * dec28 \<bar>dec28 (entry - stop)\<bar>)) \<le> 0"
  shows "fixed_target ident policy multiple ne rdy a increment symbol run as_of SHORT entry stop d
    = Inr (finish_fixed ident None (ended ''INVALID_GEOMETRY'' ''target_not_on_price_grid'' d))"
proof -
  let ?t = "dec28 (entry - dec28 (multiple * dec28 \<bar>dec28 (entry - stop)\<bar>))"
  have "to_decimal (PDec ?t) = None" using assms by (simp add: positive_def)
  then have "normalize_price (PDec ?t) increment ROUND_FLOOR = None" by (simp add: normalize_price_def split: option.split)
  then show ?thesis by (simp add: fixed_target_def Let_def)
qed

section \<open>Policy D\<close>

lemma first_obstacle_Some:
  assumes "first_obstacle entry cs = Some (c, t)"
  shows "c \<in> set cs" "cn_eligible c" "cn_target c = Some t"
    and "c' \<in> set cs \<Longrightarrow> cn_eligible c' \<Longrightarrow> cn_target c' = Some t' \<Longrightarrow> dec28 \<bar>dec28 (t - entry)\<bar> \<le> dec28 \<bar>dec28 (t' - entry)\<bar>"
proof -
  let ?k = "\<lambda>(c, t). (dec28 \<bar>dec28 (t - entry)\<bar>, cn_source c)"
  let ?xs = "List.map_filter (\<lambda>c. if cn_eligible c then map_option (Pair c) (cn_target c) else None) cs"
  obtain ys where ys: "sort_key ?k ?xs = (c, t) # ys"
    using assms by (auto simp: first_obstacle_def split: list.splits)
  have set: "set ?xs = {(c, t). c \<in> set cs \<and> cn_eligible c \<and> cn_target c = Some t}"
    by (force simp: List.map_filter_def split: if_splits)
  have "(c, t) \<in> set ?xs" using arg_cong [OF ys, of set] by auto
  then show "c \<in> set cs" "cn_eligible c" "cn_target c = Some t" unfolding set by auto
  show "dec28 \<bar>dec28 (t - entry)\<bar> \<le> dec28 \<bar>dec28 (t' - entry)\<bar>" if "c' \<in> set cs" "cn_eligible c'" "cn_target c' = Some t'"
  proof -
    have "(c', t') \<in> set (sort_key ?k ?xs)" using that unfolding set_sort set by simp
    moreover have "sorted (map ?k (sort_key ?k ?xs))" by simp
    ultimately have "?k (c, t) \<le> ?k (c', t')" unfolding ys by auto
    then show ?thesis by (auto simp: less_eq_prod_def)
  qed
qed

lemma swing_eligible:
  assumes "cn_eligible (swing_candidate a sd entry increment cutoff tf lineage ref s)"
  shows "\<exists>t. cn_target (swing_candidate a sd entry increment cutoff tf lineage ref s) = Some t \<and> beyond sd entry t"
    and "sw_confirmed s \<le> cutoff" and "lineage" and "ref"
    and "cn_confirmed (swing_candidate a sd entry increment cutoff tf lineage ref s) = Some (sw_confirmed s)"
  using assms unfolding swing_candidate_def Let_def by (auto split: if_splits option.splits)

lemma in_swing_candidates:
  "c \<in> set (fst (swing_candidates a sd entry increment cutoff tf r)) \<Longrightarrow>
   \<exists>lineage s. c = swing_candidate a sd entry increment cutoff tf lineage (ref_valid a tf) s"
  by (auto simp: swing_candidates_def Let_def split: option.splits if_splits)

lemma eligible_candidate:
  assumes "c \<in> set (fst (candidates_of a sd entry increment cutoff))" and "cn_eligible c"
  shows "\<exists>t. cn_target c = Some t \<and> beyond sd entry t" and "\<exists>u. cn_confirmed c = Some u \<and> u \<le> cutoff"
    and "ref_valid a (cn_timeframe c)"
proof -
  have level: "\<not> cn_eligible c'" if "c' \<in> set (level_candidates sd entry tf r)" for c' tf r
    using that by (auto simp: level_candidates_def set_map_filter split: option.splits if_splits)
  obtain tf r where "c \<in> set (fst (swing_candidates a sd entry increment cutoff tf r))"
    using assms level by (auto simp: candidates_of_def Let_def)
  then obtain lineage s where c: "c = swing_candidate a sd entry increment cutoff tf lineage (ref_valid a tf) s"
    using in_swing_candidates by blast
  have "cn_timeframe c = tf" unfolding c swing_candidate_def Let_def by (auto split: option.splits)
  then show "\<exists>t. cn_target c = Some t \<and> beyond sd entry t" "\<exists>u. cn_confirmed c = Some u \<and> u \<le> cutoff" "ref_valid a (cn_timeframe c)"
    using swing_eligible [OF assms(2) [unfolded c]] unfolding c by auto
qed

lemma finish_d_Inr: "finish_d ident plan d = Inr (q, d') \<Longrightarrow>
   q = plan \<and> td_selected d' = td_selected d \<and> td_candidates d' = td_candidates d \<and> td_entry d' = td_entry d \<and> td_rr d' = td_rr d
   \<and> td_status d' = td_status d \<and> td_side d' = td_side d \<and> td_stop d' = td_stop d"
  by (auto simp: finish_d_def split: if_splits)

lemma plan_head_status: "plan_head policy setup datos symbol run as_of instrument = Inl d \<Longrightarrow> td_status d \<noteq> ''PLAN_READY''"
  unfolding plan_head_def Let_def by (auto simp: ended_def split: option.splits if_splits)

text \<open>
  C25. Policy D makes a plan exactly when it reports \<open>PLAN_READY\<close>, and then the target is the first obstacle:
  an eligible candidate confirmed by the cut-off, from a timeframe whose evidence reference is valid, beyond
  the entry on the trade's side, no eligible candidate is nearer, and the exact ratio lies between 2 and 5.
\<close>

theorem policy_d_takes_the_first_obstacle:
  assumes "plan_policy_d ident setup datos symbol run as_of instrument = Inr (q, d)"
  shows "(q \<noteq> None \<longleftrightarrow> td_status d = ''PLAN_READY'')
    \<and> (\<forall>p. q = Some p \<longrightarrow> (\<exists>a sd e c sources t rr cutoff. setup = Some a \<and> td_side d = Some sd \<and> td_entry d = Some e
         \<and> td_selected d = Some (c, sources) \<and> as_of = Some cutoff \<and> c \<in> set (td_candidates d) \<and> cn_eligible c \<and> cn_target c = Some t
         \<and> beyond sd e t \<and> (\<exists>u. cn_confirmed c = Some u \<and> u \<le> cutoff) \<and> ref_valid a (cn_timeframe c)
         \<and> (\<forall>c' t'. c' \<in> set (td_candidates d) \<and> cn_eligible c' \<and> cn_target c' = Some t' \<longrightarrow> dec28 \<bar>dec28 (t - e)\<bar> \<le> dec28 \<bar>dec28 (t' - e)\<bar>)
         \<and> td_rr d = Some rr \<and> 2 \<le> rr \<and> rr \<le> 5 \<and> tp_target p = PFloat (fl t)))"
proof (cases "plan_head POLICY_V2_D setup datos symbol run as_of instrument")
  case (Inl d0)
  then have "finish_d ident None d0 = Inr (q, d)" using assms by (simp add: plan_policy_d_def)
  then show ?thesis using plan_head_status [OF Inl] finish_d_Inr [of ident None d0 q d] by simp
next
  case (Inr r)
  obtain d0 a increment sd entry stop where r: "r = (d0, a, increment, sd, entry, stop)" by (cases r) auto
  note h = Inr [unfolded r] and H = plan_head_Inr [OF Inr [unfolded r]]
  obtain cutoff where as_of: "as_of = Some cutoff" using H(14) by auto
  obtain cs trust where cs: "candidates_of a sd entry increment cutoff = (cs, trust)" by (cases "candidates_of a sd entry increment cutoff")
  have stopped: ?thesis if "finish_d ident None (ended st why d1) = Inr (q, d)" "st \<noteq> ''PLAN_READY''" for st why d1
    using finish_d_Inr [OF that(1)] that(2) by (simp add: ended_def)
  show ?thesis
  proof (cases "trust \<and> first_obstacle entry cs \<noteq> None")
    case False
    show ?thesis
    proof (cases trust)
      case True
      then have none: "first_obstacle entry cs = None" using False by (cases "first_obstacle entry cs") simp_all
      have "finish_d ident None (ended ''NO_VALID_TARGET'' ''no_structural_target_beyond_entry'' (d0\<lparr>td_candidates := cs\<rparr>)) = Inr (q, d)"
        using True assms unfolding plan_policy_d_def h by (simp add: as_of cs none)
      then show ?thesis by (rule stopped) simp
    next
      case False
      then have "finish_d ident None (ended ''INSUFFICIENT_TARGET_EVIDENCE'' ''no_trustworthy_structural_evidence'' (d0\<lparr>td_candidates := cs\<rparr>)) = Inr (q, d)"
        using assms unfolding plan_policy_d_def h by (simp add: as_of cs)
      then show ?thesis by (rule stopped) simp
    qed
  next
    case True
    then obtain c t where o: "first_obstacle entry cs = Some (c, t)" by auto
    show ?thesis
    proof (cases "geometry sd (PDec entry) (PDec stop) (PDec t)")
      case (Inl why)
      then have "finish_d ident None (ended ''INVALID_GEOMETRY'' why (d0\<lparr>td_candidates := cs\<rparr>)) = Inr (q, d)"
        using assms True unfolding plan_policy_d_def h by (simp add: as_of cs o)
      then show ?thesis by (rule stopped) simp
    next
      case (Inr g)
      obtain outcome where out: "classify (g_rr g) POLICY_V2_D = Inr outcome"
        using assms True unfolding plan_policy_d_def h by (auto simp: as_of cs o Inr ebind_eq_Inr)
      show ?thesis
      proof (cases outcome)
        case WITHIN_POLICY
        then have f: "finish_d ident (Some (plan_of symbol sd (fl entry) (fl stop) (fl t) (fl (g_rr g)) run as_of POLICY_V2_D))
            (ended ''PLAN_READY'' ''first_structural_target_within_2r_5r'' (d0\<lparr>td_candidates := cs, td_selected := Some (c, sort (map cn_source
               (filter (\<lambda>c'. cn_eligible c' \<and> cn_target c' = Some t) cs))), td_rr := Some (g_rr g), td_band := Some (band (g_rr g)),
               td_risk := Some (g_risk g), td_reward := Some (g_reward g)\<rparr>)) = Inr (q, d)"
          using assms True unfolding plan_policy_d_def h by (simp add: as_of cs o Inr out Let_def)
        have rr: "2 \<le> g_rr g \<and> g_rr g \<le> 5" using out WITHIN_POLICY by (auto simp: classify_def classify_within)
        have el: "c \<in> set (fst (candidates_of a sd entry increment cutoff))" "cn_eligible c"
          using first_obstacle_Some(1,2) [OF o] cs by auto
        have E: "beyond sd entry t" "\<exists>u. cn_confirmed c = Some u \<and> u \<le> cutoff" "ref_valid a (cn_timeframe c)"
          using eligible_candidate [OF el] first_obstacle_Some(3) [OF o] by auto
        show ?thesis using finish_d_Inr [OF f] rr H E as_of first_obstacle_Some [OF o] by (auto simp: ended_def plan_of_def)
      next
        case RR_BELOW_FLOOR
        then obtain d1 where "finish_d ident None (ended ''RR_BELOW_FLOOR'' ''first_structural_target_below_2r'' d1) = Inr (q, d)"
          using assms True unfolding plan_policy_d_def h by (auto simp: as_of cs o Inr out Let_def)
        then show ?thesis by (rule stopped) simp
      next
        case OUT_OF_POLICY_EXTENDED_TARGET
        then obtain d1 where "finish_d ident None (ended ''OUT_OF_POLICY_EXTENDED_TARGET'' ''first_structural_target_above_5r_observational_only'' d1) = Inr (q, d)"
          using assms True unfolding plan_policy_d_def h by (auto simp: as_of cs o Inr out Let_def)
        then show ?thesis by (rule stopped) simp
      qed
    qed
  qed
qed

section \<open>An FX plan and a Policy D plan\<close>

definition demo_fx_frame :: raw_frame where
  "demo_fx_frame = \<lparr>rf_aware = True, rf_complete = True,
     rf_rows = [\<lparr>rw_time = 0, rw_open = None, rw_high = None, rw_low = None, rw_close = Some (fl (11 / 10)), rw_closed = True\<rparr>]\<rparr>"

definition demo_fx_grid :: instrument_spec where
  "demo_fx_grid = demo_grid\<lparr>i_price_increment := PDec (1 / 10 ^ 5)\<rparr>"

definition demo_fx_setup :: setup_assessment where
  "demo_fx_setup = demo_setup\<lparr>sa_invalidation := Some (fl (109 / 100))\<rparr>"

lemma repr_demo:
  "0 < fl (11 / 10)" "0 < fl (109 / 100)" "repr_dec (fl (11 / 10)) = 11 / 10" "repr_dec (fl (109 / 100)) = 109 / 100"
proof -
  show "0 < fl (11 / 10)" "0 < fl (109 / 100)" by (intro fl53.pos; simp)+
  have "digits15 (11 / 10)" "digits15 (109 / 100)"
    unfolding digits15_def by (intro exI [of _ 11] exI [of _ "-1"], simp) (intro exI [of _ 109] exI [of _ "-2"], simp)
  then show "repr_dec (fl (11 / 10)) = 11 / 10" "repr_dec (fl (109 / 100)) = 109 / 100" using repr_dec_short by simp_all
qed

lemma grid5: "fits 20 5 (11 / 10)" "fits 20 5 (109 / 100)" "fits 20 5 (10975 / 10000)" "fits 20 5 (1105 / 1000)" "fits 10 5 (1 / 10000)"
  unfolding fits_def
  by (rule exI [of _ 110000], simp, rule exI [of _ 109000], simp, rule exI [of _ 109750], simp, rule exI [of _ 110500], simp,
      rule exI [of _ 10], simp)

lemma demo_fx_pip: "pip_size ''EURUSD'' = Inr (1 / 10000)" by (simp add: pip_size_def is_fx_def FIAT_def)

lemma demo_fx_clamp: "clamp_stop ''EURUSD'' LONG (11 / 10) (109 / 100) = Inr (10975 / 10000, NARROWED, 100)"
  using clamp_stop_25 [OF demo_fx_pip, of 5 "11 / 10" "109 / 100" LONG] fits_mono [OF grid5(1), of 27] fits_mono [OF grid5(2), of 27] by simp

lemma demo_fx_head:
  "\<exists>d. plan_head POLICY_FX (Some demo_fx_setup) (Some demo_fx_frame) ''EURUSD'' ''run'' (Some DAY) (Some demo_fx_grid)
    = Inr (d, demo_fx_setup, PDec (1 / 10 ^ 5), LONG, 11 / 10, 109 / 100)"
proof -
  have n: "normalize_price (PFloat (fl (11 / 10))) (PDec (1 / 10 ^ 5)) ROUND_CEILING = Some (11 / 10)"
    "normalize_price (PDec (109 / 100)) (PDec (1 / 10 ^ 5)) ROUND_FLOOR = Some (109 / 100)"
    using normalize_on_grid [of "PDec (1 / 10 ^ 5)" 5 "11 / 10" ROUND_CEILING] normalize_on_grid [of "PDec (1 / 10 ^ 5)" 5 "109 / 100" ROUND_FLOOR]
      fits_mono [OF grid5(1), of 28] fits_mono [OF grid5(2), of 28] repr_demo
    unfolding normalize_price_def to_decimal.simps repr_demo by simp_all
  have td: "to_decimal (PFloat (fl (109 / 100))) = Some (109 / 100)" unfolding to_decimal.simps repr_demo by simp
  show ?thesis
    using n td repr_demo(1) by (simp del: to_decimal.simps add: plan_head_def demo_fx_setup_def demo_setup_def demo_fx_grid_def demo_grid_def demo_fx_frame_def
      entry_of_def closed_rows_def mask_hasta_as_of_def unit_defs Let_def entry_dir_def stop_dir_def protective_def positive_def)
qed

lemma demo_fx_plan:
  "\<exists>p d. plan_fx_fixed_rr ident (Some demo_fx_setup) (Some demo_fx_frame) ''EURUSD'' ''run'' (Some DAY) (Some demo_fx_grid) = Inr (Some p, d)
     \<and> td_entry d = Some (11 / 10) \<and> td_structural d = Some (109 / 100, 100, NARROWED) \<and> td_side d = Some LONG"
proof -
  obtain d where h: "plan_head POLICY_FX (Some demo_fx_setup) (Some demo_fx_frame) ''EURUSD'' ''run'' (Some DAY) (Some demo_fx_grid)
    = Inr (d, demo_fx_setup, PDec (1 / 10 ^ 5), LONG, 11 / 10, 109 / 100)" using demo_fx_head by blast
  have fx: "is_fx ''EURUSD''" by (simp add: is_fx_def FIAT_def)
  have n: "normalize_price (PDec (10975 / 10000)) (PDec (1 / 10 ^ 5)) dir = Some (10975 / 10000)"
    "normalize_price (PDec (1105 / 1000)) (PDec (1 / 10 ^ 5)) dir = Some (1105 / 1000)" for dir
    using normalize_on_grid [of "PDec (1 / 10 ^ 5)" 5 "10975 / 10000" dir] normalize_on_grid [of "PDec (1 / 10 ^ 5)" 5 "1105 / 1000" dir]
      fits_mono [OF grid5(3), of 28] fits_mono [OF grid5(4), of 28] by simp_all
  have dd: "dec28 (25 / 10000) = 25 / 10000" "dec28 (50 / 10000) = 50 / 10000"
    "dec28 (1105 / 1000) = 1105 / 1000"
    using dec28_small_frac [of 25 4] dec28_small_frac [of 50 4] dec28_small_frac [of 11050 4] by simp_all
  have diffs: "11 / 10 - 10975 / 10000 = (25 / 10000 :: rat)" "11 / 10 + 50 / 10000 = (1105 / 1000 :: rat)" "2 * (25 / 10000) = (50 / 10000 :: rat)"
    "\<bar>25 / 10000\<bar> = (25 / 10000 :: rat)" by simp_all
  let ?d1 = "d\<lparr>td_structural := Some (109 / 100, 100, NARROWED), td_stop := Some (10975 / 10000)\<rparr>"
  have c: "clamped_stop (Some clamp_stop) ''EURUSD'' (PDec (1 / 10 ^ 5)) LONG (11 / 10) (109 / 100) d = Inr (Inr (?d1, 10975 / 10000))"
    unfolding clamped_stop_def using demo_fx_clamp n(1) by (simp add: stop_dir_def protective_def Let_def)
  have t: "\<exists>p d'. fixed_target ident POLICY_FX FX_TP_RR ne rdy demo_fx_setup (PDec (1 / 10 ^ 5)) ''EURUSD'' ''run'' (Some DAY) LONG (11 / 10)
      (10975 / 10000) ?d1 = Inr (Some p, d') \<and> td_entry d' = td_entry d \<and> td_structural d' = Some (109 / 100, 100, NARROWED) \<and> td_side d' = td_side d" for ne rdy
  proof -
    have tgt: "dec28 (11 / 10 + dec28 (FX_TP_RR * dec28 \<bar>dec28 (11 / 10 - 10975 / 10000)\<bar>)) = 1105 / 1000"
      by (simp only: FX_TP_RR_def diffs dd)
    show ?thesis unfolding fixed_target_def Let_def
      by (simp only: tgt n eurusd_geometry sum.case simp_thms if_True if_False) (simp add: classify_def classify_in_def FX_TP_RR_def finish_fixed_def ended_def)
  qed
  show ?thesis unfolding plan_fx_fixed_rr_def plan_fixed_rr_def h using fx c t plan_head_Inr(1,17) [OF h] by simp
qed

theorem fx_plan_risks_25_pips_for_50_witness:
  "\<exists>p d s t. plan_fx_fixed_rr (\<lambda>_. []) (Some demo_fx_setup) (Some demo_fx_frame) ''EURUSD'' ''run'' (Some DAY) (Some demo_fx_grid) = Inr (Some p, d)
     \<and> td_stop d = Some s \<and> td_target d = Some t \<and> 11 / 10 - s = 25 * (1 / 10000) \<and> t - 11 / 10 = 50 * (1 / 10000)"
proof -
  obtain p d where d: "plan_fx_fixed_rr (\<lambda>_. []) (Some demo_fx_setup) (Some demo_fx_frame) ''EURUSD'' ''run'' (Some DAY) (Some demo_fx_grid) = Inr (Some p, d)"
    "td_entry d = Some (11 / 10)" "td_structural d = Some (109 / 100, 100, NARROWED)" "td_side d = Some LONG"
    using demo_fx_plan by blast
  have inc: "to_decimal (i_price_increment demo_fx_grid) = Some (1 / 10 ^ 5)" by (simp add: demo_fx_grid_def)
  show ?thesis
    using fx_plan_risks_25_pips_for_50 [OF d(1) demo_fx_pip refl inc _ grid5(5) d(2) grid5(1) d(3) grid5(2)] d(1,4) by auto
qed

definition demo_d_setup :: setup_assessment where
  "demo_d_setup = demo_setup\<lparr>
     sa_evidence := Some ([(''15m'', demo_structure ''15m''\<lparr>sr_highs := [\<lparr>sw_confirmed = 2, sw_pivot = 1, sw_price = 5\<rparr>,
       \<lparr>sw_confirmed = 9, sw_pivot = 8, sw_price = 1\<rparr>]\<rparr>)], []),
     sa_explanation := Some \<lparr>ex_status = VALID_SETUP, ex_side = Some LONG, ex_reason = ''all_checks_passed'', ex_groups = (\<lambda>_. []),
       ex_details = \<lparr>dt_active_window = None, dt_alignment = None, dt_structure = None, dt_liquidity = None, dt_invalidation = None\<rparr>,
       ex_refs = [\<lparr>er_source = ''structure'', er_symbol = ''EURUSD'', er_timeframe = Some ''15m'', er_status = Some ''OK'', er_state = ''VALID'',
         er_reason = None, er_bar_start = Some 0, er_event_ids = []\<rparr>], ex_setup_id = Some ''id'', ex_identity = None\<rparr>\<rparr>"

lemma demo_d_head:
  "\<exists>d. plan_head POLICY_V2_D (Some demo_d_setup) (Some demo_plan_frame) ''EURUSD'' ''run'' (Some DAY) (Some demo_grid)
    = Inr (d, demo_d_setup, PInt 1, LONG, 2, 1)"
  by (simp add: plan_head_def demo_d_setup_def demo_setup_def demo_grid_def demo_plan_frame_def entry_of_def closed_rows_def
      mask_hasta_as_of_def unit_defs Let_def small_numbers positive_def normalize_price_def entry_dir_def stop_dir_def protective_def)

lemma demo_d_candidates:
  "\<exists>c c'. candidates_of demo_d_setup LONG 2 (PInt 1) DAY = ([c, c'], True) \<and> cn_eligible c \<and> \<not> cn_eligible c' \<and> cn_target c = Some 5
     \<and> cn_price c = Some 5 \<and> cn_price c' = Some 1"
  by (simp add: candidates_of_def swing_candidates_def swing_candidate_def demo_d_setup_def demo_setup_def demo_structure_def
      CANDIDATE_TIMEFRAMES_def ref_valid_def beyond_def small_numbers positive_def normalize_price_def unit_defs Let_def level_candidates_def)

lemma demo_d_plan:
  "\<exists>p d. plan_policy_d ident (Some demo_d_setup) (Some demo_plan_frame) ''EURUSD'' ''run'' (Some DAY) (Some demo_grid) = Inr (Some p, d)"
proof -
  obtain d where h: "plan_head POLICY_V2_D (Some demo_d_setup) (Some demo_plan_frame) ''EURUSD'' ''run'' (Some DAY) (Some demo_grid)
    = Inr (d, demo_d_setup, PInt 1, LONG, 2, 1)" using demo_d_head by blast
  obtain c c' where c: "candidates_of demo_d_setup LONG 2 (PInt 1) DAY = ([c, c'], True)" "cn_eligible c" "\<not> cn_eligible c'"
    "cn_target c = Some 5" "cn_price c = Some 5" "cn_price c' = Some 1" using demo_d_candidates by blast
  have o: "first_obstacle 2 [c, c'] = Some (c, 5)" using c by (simp add: first_obstacle_def List.map_filter_simps)
  show ?thesis unfolding plan_policy_d_def h
    using c by (simp add: o demo_geometry classify_def classify_in_def Let_def finish_d_def sortable_def ended_def)
qed

theorem policy_d_takes_the_first_obstacle_witness:
  "\<exists>p d rr. plan_policy_d (\<lambda>_ _. []) (Some demo_d_setup) (Some demo_plan_frame) ''EURUSD'' ''run'' (Some DAY) (Some demo_grid) = Inr (Some p, d)
     \<and> td_rr d = Some rr \<and> 2 \<le> rr \<and> rr \<le> 5"
proof -
  obtain p d where d: "plan_policy_d (\<lambda>_ _. []) (Some demo_d_setup) (Some demo_plan_frame) ''EURUSD'' ''run'' (Some DAY) (Some demo_grid) = Inr (Some p, d)"
    using demo_d_plan by blast
  show ?thesis using policy_d_takes_the_first_obstacle [OF d] d by blast
qed

end
