(* ===== verification/BrokerPort.thy ===== *)
theory BrokerPort
  imports PaperBroker
begin

text \<open>
  \<open>execution/broker_port.py\<close>, the contract every broker adapter implements, as the locale
  \<open>broker_port\<close>, and \<open>execution/paper_broker_adapter.py\<close>, its instance over the paper broker. The
  floor-report provider, the clock and the price source of the adapter are arguments, as they are
  constructor parameters in the code.
\<close>

section \<open>Plans and approvals\<close>

datatype result_status = RES_ACCEPTED | RES_REJECTED | RES_UNKNOWN

record order_plan =
  op_symbol :: string
  op_side :: side
  op_quantity :: rat
  op_entry :: rat
  op_stop :: rat
  op_target :: rat
  op_client_id :: string
  op_run_id :: string
  op_policy :: "string option"

record risk_approval =
  ra_status :: decision_status
  ra_run_id :: string
  ra_symbol :: string
  ra_side :: side
  ra_quantity :: rat
  ra_entry :: rat
  ra_stop :: rat
  ra_target :: rat

text \<open>\<open>_decimal\<close>: a finite positive \<open>Decimal\<close>, or \<open>ValueError\<close>.\<close>

fun decimal_field :: "pynum \<Rightarrow> rat option" where
  "decimal_field (PDec d) = (if 0 < d then Some d else None)"
| "decimal_field _ = None"

definition make_order_plan ::
  "string \<Rightarrow> side \<Rightarrow> pynum \<Rightarrow> pynum \<Rightarrow> pynum \<Rightarrow> pynum \<Rightarrow> string \<Rightarrow> string \<Rightarrow> string option \<Rightarrow> py_error + order_plan" where
  "make_order_plan symbol sd q e s t client run pol =
    (if symbol = [] then Inl (ValueError ''symbol is required'')
     else if \<not> valid_side sd then Inl (ValueError ''side must be LONG or SHORT'')
     else (case (decimal_field q, decimal_field e, decimal_field s, decimal_field t) of
         (Some q', Some e', Some s', Some t') \<Rightarrow>
           if client = [] then Inl (ValueError ''client_id is required'')
           else if run = [] then Inl (ValueError ''source_run_id is required'')
           else Inr \<lparr>op_symbol = symbol, op_side = sd, op_quantity = q', op_entry = e', op_stop = s', op_target = t',
                  op_client_id = client, op_run_id = run, op_policy = pol\<rparr>
       | _ \<Rightarrow> Inl (ValueError ''must be a finite positive Decimal'')))"

definition geometry_ok :: "order_plan \<Rightarrow> bool" where
  "geometry_ok p \<longleftrightarrow> (if op_side p = LONG then op_stop p < op_entry p \<and> op_entry p < op_target p
     else op_target p < op_entry p \<and> op_entry p < op_stop p)"

definition make_risk_approval ::
  "decision_status \<Rightarrow> string \<Rightarrow> string \<Rightarrow> side \<Rightarrow> pynum \<Rightarrow> pynum \<Rightarrow> pynum \<Rightarrow> pynum \<Rightarrow> py_error + risk_approval" where
  "make_risk_approval st run symbol sd q e s t =
    (if \<not> valid_side sd then Inl (ValueError ''side must be LONG or SHORT'')
     else (case (decimal_field q, decimal_field e, decimal_field s, decimal_field t) of
         (Some q', Some e', Some s', Some t') \<Rightarrow>
           Inr \<lparr>ra_status = st, ra_run_id = run, ra_symbol = symbol, ra_side = sd, ra_quantity = q', ra_entry = e',
                ra_stop = s', ra_target = t'\<rparr>
       | _ \<Rightarrow> Inl (ValueError ''must be a finite positive Decimal'')))"

text \<open>\<open>Decimal(str(raw))\<close> of a number; what is not a number stays what the check refuses.\<close>

fun dec_str :: "pynum \<Rightarrow> pynum" where
  "dec_str (PInt n) = PDec (of_int n)"
| "dec_str (PFloat x) = PDec (repr_dec x)"
| "dec_str PInf = PDecSpecial"
| "dec_str PNaN = PDecSpecial"
| "dec_str v = v"

definition approval_from_decision :: "risk_decision \<Rightarrow> string \<Rightarrow> py_error + risk_approval" where
  "approval_from_decision d run = make_risk_approval (rd_status d) run (rd_symbol d) (rd_side d)
     (dec_str (rd_quantity d)) (dec_str (rd_entry d)) (dec_str (rd_stop d)) (dec_str (rd_target d))"

text \<open>\<open>None\<close> models an approval that is not a \<open>RiskApproval\<close>.\<close>

definition approval_problem :: "order_plan \<Rightarrow> risk_approval option \<Rightarrow> string option" where
  "approval_problem p a = (case a of None \<Rightarrow> Some ''risk_approval_missing''
   | Some r \<Rightarrow> if ra_status r \<noteq> APPROVED then Some ''risk_not_approved''
       else if (ra_run_id r, ra_symbol r, ra_side r, ra_quantity r, ra_entry r, ra_stop r, ra_target r)
             = (op_run_id p, op_symbol p, op_side p, op_quantity p, op_entry p, op_stop p, op_target p)
       then None else Some ''risk_approval_mismatch'')"

record port_result =
  pr_status :: result_status
  pr_client_id :: string
  pr_ref :: "string option"
  pr_reason :: "string option"

definition refused :: "string \<Rightarrow> string \<Rightarrow> port_result" where
  "refused client why = \<lparr>pr_status = RES_REJECTED, pr_client_id = client, pr_ref = None, pr_reason = Some why\<rparr>"

definition accepted :: "string \<Rightarrow> string \<Rightarrow> port_result" where
  "accepted client ref = \<lparr>pr_status = RES_ACCEPTED, pr_client_id = client, pr_ref = Some ref, pr_reason = None\<rparr>"

section \<open>The interface\<close>

text \<open>
  What the rest of the system may assume of an adapter, whatever broker stands behind it. The first
  argument of \<open>submit\<close> is the fresh id the adapter may use. \<open>unauthorised\<close> is the contract of the
  module's docstring; \<open>retry\<close> says that repeating an accepted submission finds the same order.
\<close>

locale broker_port =
  fixes submit :: "string \<Rightarrow> order_plan \<Rightarrow> risk_approval option \<Rightarrow> 's \<Rightarrow> port_result \<times> 's"
  assumes unauthorised: "approval_problem p a = Some why \<Longrightarrow> submit i p a s = (refused (op_client_id p) why, s)"
    and client: "submit i p a s = (r, s') \<Longrightarrow> pr_client_id r = op_client_id p"
    and retry: "submit i p a s = (r, s') \<Longrightarrow> pr_status r = RES_ACCEPTED \<Longrightarrow> submit j p a s' = (r, s')"
begin

lemma accepted_is_authorised:
  assumes "submit i p a s = (r, s')" and "pr_status r = RES_ACCEPTED"
  shows "\<exists>ap. a = Some ap \<and> ra_status ap = APPROVED \<and> ra_run_id ap = op_run_id p \<and> ra_symbol ap = op_symbol p
    \<and> ra_side ap = op_side p \<and> ra_quantity ap = op_quantity p \<and> ra_entry ap = op_entry p \<and> ra_stop ap = op_stop p
    \<and> ra_target ap = op_target p"
proof -
  have "approval_problem p a = None"
  proof (rule ccontr)
    assume "approval_problem p a \<noteq> None"
    then obtain why where "approval_problem p a = Some why" by auto
    then show False using unauthorised [of p a why i s] assms by (simp add: refused_def)
  qed
  then show ?thesis by (auto simp: approval_problem_def split: option.splits if_splits)
qed

fun submit_all :: "(string \<times> order_plan \<times> risk_approval option) list \<Rightarrow> 's \<Rightarrow> 's" where
  "submit_all [] s = s"
| "submit_all ((i, p, a) # rest) s = submit_all rest (snd (submit i p a s))"

lemma submit_all_unauthorised:
  "\<forall>(i, p, a) \<in> set xs. approval_problem p a \<noteq> None \<Longrightarrow> submit_all xs s = s"
  by (induction xs arbitrary: s) (auto simp: unauthorised)

lemma submit_all_repeat:
  assumes "submit i p a s = (r, s')" and "pr_status r = RES_ACCEPTED"
  shows "submit_all (map (\<lambda>j. (j, p, a)) js) s' = s'"
  by (induction js) (simp_all add: retry [OF assms])

end

section \<open>The paper adapter\<close>

text \<open>\<open>_dec\<close>: a decimal for a number, \<open>None\<close> for what cannot be one or is not finite (it equals no plan
  value).\<close>

definition adapter_dec :: "pynum \<Rightarrow> rat option" where
  "adapter_dec v = (case dec_str v of PDec d \<Rightarrow> Some d | _ \<Rightarrow> None)"

definition plan_matches :: "order_plan \<Rightarrow> floor_report \<Rightarrow> bool" where
  "plan_matches p r \<longleftrightarrow> (case fr_risk_decision r of None \<Rightarrow> False
   | Some d \<Rightarrow> op_run_id p = fr_run_id r \<and> op_symbol p = fr_symbol r \<and> fr_symbol r = rd_symbol d \<and> op_side p = rd_side d
       \<and> Some (op_quantity p) = adapter_dec (rd_quantity d) \<and> Some (op_entry p) = adapter_dec (rd_entry d)
       \<and> Some (op_stop p) = adapter_dec (rd_stop d) \<and> Some (op_target p) = adapter_dec (rd_target d))"

definition order_matches :: "order_plan \<Rightarrow> paper_order \<Rightarrow> bool" where
  "order_matches p od \<longleftrightarrow> op_run_id p = o_run_id od \<and> op_symbol p = o_symbol od \<and> op_side p = o_side od
     \<and> op_quantity p = repr_dec (o_quantity od) \<and> op_entry p = repr_dec (o_planned_entry od)
     \<and> op_stop p = repr_dec (o_stop od) \<and> op_target p = repr_dec (o_target od)"

definition adapter_submit ::
  "(order_plan \<Rightarrow> floor_report option) \<Rightarrow> instant option \<Rightarrow> string \<Rightarrow> order_plan \<Rightarrow> risk_approval option \<Rightarrow> broker
   \<Rightarrow> port_result \<times> broker" where
  "adapter_submit report_for clock oid p a br = (case approval_problem p a of
     Some why \<Rightarrow> (refused (op_client_id p) why, br)
   | None \<Rightarrow> (case report_for p of
       None \<Rightarrow> (refused (op_client_id p) ''paper_floor_report_unavailable'', br)
     | Some r \<Rightarrow> if \<not> plan_matches p r then (refused (op_client_id p) ''plan_does_not_match_risk_decision'', br)
         else (case submit_plan oid (Some r) clock br of
             (None, br') \<Rightarrow> (refused (op_client_id p) ''paper_broker_refused'', br')
           | (Some od, br') \<Rightarrow> if order_matches p od then (accepted (op_client_id p) (o_id od), br')
               else (refused (op_client_id p) ''paper_order_conflicts_with_plan'', br'))))"

definition adapter_close ::
  "(string \<Rightarrow> pynum) \<Rightarrow> instant option \<Rightarrow> string \<Rightarrow> string \<Rightarrow> string \<Rightarrow> string \<Rightarrow> broker \<Rightarrow> py_error + port_result \<times> broker" where
  "adapter_close price_for clock tid ref reason client br =
    (case dget (a_open_positions (br_account br)) ref of
       None \<Rightarrow> Inr (refused client ''no_open_position'', br)
     | Some p \<Rightarrow> (case adapter_dec (price_for (p_symbol p)) of
         None \<Rightarrow> Inr (refused client ''paper_price_unavailable'', br)
       | Some price \<Rightarrow> if price \<le> 0 then Inr (refused client ''paper_price_unavailable'', br)
           else (case close_market tid ref (PFloat (fl price)) clock reason client br of
               Inl (ValueError _) \<Rightarrow> Inr (refused client ''invalid_paper_exit'', br)
             | Inl e \<Rightarrow> Inl e
             | Inr (tr, br') \<Rightarrow> Inr (accepted client (p_id p), br'))))"

definition adapter_modify_stop :: "string \<Rightarrow> rat \<Rightarrow> string \<Rightarrow> broker \<Rightarrow> port_result \<times> broker" where
  "adapter_modify_stop ref new_stop client br = (refused client ''not_supported_by_paper_broker'', br)"

record broker_position =
  bp_ref :: string
  bp_symbol :: string
  bp_side :: side
  bp_quantity :: rat
  bp_entry :: "rat option"
  bp_stop :: "rat option"
  bp_target :: "rat option"

definition check_broker_position :: "broker_position \<Rightarrow> py_error + broker_position" where
  "check_broker_position b = (if \<not> valid_side (bp_side b) then Inl (ValueError ''side must be LONG or SHORT'')
     else if bp_quantity b \<le> 0 \<or> list_ex (\<lambda>v. case v of None \<Rightarrow> False | Some x \<Rightarrow> x \<le> 0) [bp_entry b, bp_stop b, bp_target b]
     then Inl (ValueError ''must be a finite positive Decimal'') else Inr b)"

fun collect_positions :: "(string, paper_position) dict \<Rightarrow> py_error + broker_position list" where
  "collect_positions [] = Inr []"
| "collect_positions ((k, p) # rest) =
    (if p_status p \<noteq> OPEN then collect_positions rest
     else (case check_broker_position \<lparr>bp_ref = k, bp_symbol = p_symbol p, bp_side = p_side p, bp_quantity = repr_dec (p_quantity p),
               bp_entry = Some (repr_dec (p_entry_price p)), bp_stop = Some (repr_dec (p_stop p)),
               bp_target = Some (repr_dec (p_target p))\<rparr> of
         Inl e \<Rightarrow> Inl e
       | Inr b \<Rightarrow> (case collect_positions rest of Inl e \<Rightarrow> Inl e | Inr bs \<Rightarrow> Inr (b # bs))))"

definition adapter_positions :: "broker \<Rightarrow> py_error + broker_position list" where
  "adapter_positions br = collect_positions (a_open_positions (br_account br))"

definition adapter_balance :: "broker \<Rightarrow> rat \<times> rat" where
  "adapter_balance br = (repr_dec (a_cash (br_account br)), repr_dec (a_equity (br_account br)))"

section \<open>The paper adapter is a broker port\<close>

lemma find_dput:
  "find q (dvals d) = None \<Longrightarrow> q v \<Longrightarrow> find q (dvals (dput k v d)) = Some v"
  by (induction k v d rule: dput.induct) (auto simp: dvals_def split: if_splits)

lemma submit_plan_finds:
  assumes "submit_plan oid r t br = (Some od, br')"
  shows "order_of_run (o_run_id od) br' = Some od" and "submit_plan oid' r t br' = (Some od, br')"
proof -
  obtain rr tt plan d where c: "r = Some rr" "t = Some tt" "fr_trade_plan rr = Some plan" "fr_risk_decision rr = Some d"
      "submittable rr plan d"
    using assms by (auto simp: submit_plan_def split: option.splits if_splits)
  have f: "order_of_run (fr_run_id rr) br' = Some od"
  proof (cases "order_of_run (fr_run_id rr) br")
    case (Some od0)
    then show ?thesis using assms c by (simp add: submit_plan_def)
  next
    case None
    then have "od = order_of_decision oid br rr plan d" "br_orders br' = dput oid od (br_orders br)"
      using assms c by (auto simp: submit_plan_def Let_def split: if_splits)
    then show ?thesis using None find_dput [of "\<lambda>x. o_run_id x = fr_run_id rr" "br_orders br" od oid]
      by (simp add: order_of_run_def order_of_decision_simps)
  qed
  have "o_run_id od = fr_run_id rr" using f by (auto simp: order_of_run_def dest: find_Some_iff_first)
  then show "order_of_run (o_run_id od) br' = Some od" using f by simp
  show "submit_plan oid' r t br' = (Some od, br')" using c f by (simp add: submit_plan_def)
qed

interpretation paper_port: broker_port "adapter_submit report_for clock"
proof
  fix p a why i br
  assume "approval_problem p a = Some why"
  then show "adapter_submit report_for clock i p a br = (refused (op_client_id p) why, br)" by (simp add: adapter_submit_def)
next
  fix i p a br r br'
  assume "adapter_submit report_for clock i p a br = (r, br')"
  then show "pr_client_id r = op_client_id p"
    by (auto simp: adapter_submit_def refused_def accepted_def split: option.splits if_splits prod.splits)
next
  fix i p a br r br' j
  assume s: "adapter_submit report_for clock i p a br = (r, br')" and acc: "pr_status r = RES_ACCEPTED"
  then obtain rep od where o: "approval_problem p a = None" "report_for p = Some rep" "plan_matches p rep"
      "submit_plan i (Some rep) clock br = (Some od, br')" "order_matches p od" "r = accepted (op_client_id p) (o_id od)"
    by (auto simp: adapter_submit_def refused_def split: option.splits if_splits prod.splits)
  then show "adapter_submit report_for clock j p a br' = (r, br')"
    using submit_plan_finds(2) [OF o(4)] by (simp add: adapter_submit_def)
qed

section \<open>Properties\<close>


definition demo_instrument :: instrument_spec where
  "demo_instrument = \<lparr>i_symbol = ''EURUSD'', i_asset_class = ''forex'', i_provider_symbol = None, i_timezone = ''UTC'',
     i_price_increment = PNone, i_quantity_increment = PNone, i_contract_multiplier = PFloat 1,
     i_allowed_timeframes = AUTHORIZED_TIMEFRAMES\<rparr>"

definition demo_plan :: trade_plan where
  "demo_plan = \<lparr>tp_symbol = ''EURUSD'', tp_side = LONG, tp_timeframe = ''5m'', tp_entry = PFloat 1, tp_stop = PFloat (1/2),
     tp_target = PFloat 2, tp_risk_reward = PFloat 2, tp_run_id = Some ''run'', tp_as_of = Some 0,
     tp_policy_version = POLICY_FX, tp_target_decision = JNull\<rparr>"

definition demo_decision :: risk_decision where
  "demo_decision = \<lparr>rd_status = APPROVED, rd_symbol = ''EURUSD'', rd_side = LONG, rd_quantity = PFloat 10,
     rd_capital_at_risk = PFloat 5, rd_entry = PFloat 1, rd_stop = PFloat (1/2), rd_target = PFloat 2, rd_reason = [],
     rd_equity = PFloat 10000, rd_risk_fraction = PFloat (1/100), rd_multiplier = PFloat 1\<rparr>"

definition demo_report :: floor_report where
  "demo_report = \<lparr>fr_run_id = ''run'', fr_as_of = Some 0, fr_symbol = ''EURUSD'', fr_trade_plan = Some demo_plan,
     fr_risk_decision = Some demo_decision, fr_final_status = ''PLAN_READY''\<rparr>"

definition demo_order_plan :: order_plan where
  "demo_order_plan = \<lparr>op_symbol = ''EURUSD'', op_side = LONG, op_quantity = 10, op_entry = 1, op_stop = 1/2, op_target = 2,
     op_client_id = ''c'', op_run_id = ''run'', op_policy = None\<rparr>"

definition demo_approval :: risk_approval where
  "demo_approval = projr (approval_from_decision demo_decision ''run'')"

definition demo_submit :: "port_result \<times> broker" where
  "demo_submit = adapter_submit (\<lambda>_. Some demo_report) (Some 1) ''o1'' demo_order_plan (Some demo_approval)
     (new_broker (demo_account\<lparr>a_open_positions := []\<rparr>) (Some demo_instrument) None)"


end
