(* ===== verification/TradeDuration.thy ===== *)
theory TradeDuration
  imports MarketEvidence
begin

text \<open>
  \<open>execution/trade_duration.py\<close> and \<open>execution/friday_close.py\<close>: the week rule. Configuration
  values read from the environment at import are fields of \<open>hold_config\<close>. The two \<open>while True\<close>
  searches over calendar days are the partial function \<open>first_day\<close>, proved to return.
\<close>

section \<open>Configuration\<close>

record hold_config =
  max_hold :: nat
  flatten_tod :: int
  day1_rule :: bool

definition NY_CLOSE :: int where "NY_CLOSE = 17 * HOUR"
definition DEFAULT_MAX_HOLD :: nat where "DEFAULT_MAX_HOLD = 5"
definition DEFAULT_FLATTEN :: int where "DEFAULT_FLATTEN = 16 * HOUR + 45 * MINUTE"

definition is_space :: "char \<Rightarrow> bool" where
  "is_space c \<longleftrightarrow> (let n = of_char c :: nat in n = 32 \<or> (9 \<le> n \<and> n \<le> 13) \<or> (28 \<le> n \<and> n \<le> 31))"

definition str_strip :: "string \<Rightarrow> string" where
  "str_strip s = rev (dropWhile is_space (rev (dropWhile is_space s)))"

definition is_digit :: "char \<Rightarrow> bool" where
  "is_digit c \<longleftrightarrow> (let n = of_char c :: nat in 48 \<le> n \<and> n \<le> 57)"

definition str_isdigit :: "string \<Rightarrow> bool" where
  "str_isdigit s \<longleftrightarrow> s \<noteq> [] \<and> list_all is_digit s"

definition parse_nat :: "string \<Rightarrow> nat" where
  "parse_nat s = foldl (\<lambda>n c. 10 * n + (of_char c - 48)) 0 s"

text \<open>The value and whether \<open>_warn\<close> logged it as invalid; \<open>None\<close> is an unset variable.\<close>

definition max_hold_from_env :: "string option \<Rightarrow> nat \<times> bool" where
  "max_hold_from_env v = (let raw = str_strip (case v of None \<Rightarrow> [] | Some s \<Rightarrow> s) in
     if raw = [] then (DEFAULT_MAX_HOLD, False)
     else if str_isdigit raw \<and> 1 \<le> parse_nat raw \<and> parse_nat raw \<le> 20 then (parse_nat raw, False)
     else (DEFAULT_MAX_HOLD, True))"

fun parse_hhmm :: "string \<Rightarrow> int option" where
  "parse_hhmm [a, b, c, d, e] = (if list_all is_digit [a, b, d, e] \<and> c = CHR '':''
      \<and> parse_nat [a, b] < 24 \<and> parse_nat [d, e] < 60
     then Some (int (parse_nat [a, b]) * HOUR + int (parse_nat [d, e]) * MINUTE) else None)"
| "parse_hhmm _ = None"

definition friday_flatten_from_env :: "string option \<Rightarrow> int \<times> bool" where
  "friday_flatten_from_env v = (let raw = str_strip (case v of None \<Rightarrow> [] | Some s \<Rightarrow> s) in
     case parse_hhmm (if raw = [] then ''16:45'' else raw) of
       None \<Rightarrow> (DEFAULT_FLATTEN, True)
     | Some t \<Rightarrow> if 13 * HOUR \<le> t \<and> t \<le> 16 * HOUR + 55 * MINUTE then (t, False) else (DEFAULT_FLATTEN, True))"

definition hold_config_from_env :: "string option \<Rightarrow> string option \<Rightarrow> string option \<Rightarrow> hold_config" where
  "hold_config_from_env m f d =
    \<lparr>max_hold = fst (max_hold_from_env m), flatten_tod = fst (friday_flatten_from_env f), day1_rule = (d = Some ''1'')\<rparr>"

definition config_ok :: "hold_config \<Rightarrow> bool" where
  "config_ok c \<longleftrightarrow> 1 \<le> max_hold c \<and> max_hold c \<le> 20 \<and> 13 * HOUR \<le> flatten_tod c \<and> flatten_tod c \<le> 16 * HOUR + 55 * MINUTE
     \<and> flatten_tod c mod MINUTE = 0"

definition FRIDAY_FLATTEN_LEAD_MINUTES :: "hold_config \<Rightarrow> int" where
  "FRIDAY_FLATTEN_LEAD_MINUTES c = 17 * 60 - flatten_tod c div MINUTE"

section \<open>Calendar searches\<close>

text \<open>The first day from \<open>d\<close> on with \<open>p\<close>; \<open>None\<close> is a loop that does not end.\<close>

partial_function (option) first_day :: "(int \<Rightarrow> bool) \<Rightarrow> int \<Rightarrow> int option" where
  [code]: "first_day p d = (if p d then Some d else first_day p (d + 1))"

definition ny_close_after :: "instant \<Rightarrow> instant option" where
  "ny_close_after t = map_option (\<lambda>d. to_utc (combine d NY_CLOSE))
     (first_day (\<lambda>d. weekday d < 5 \<and> t < to_utc (combine d NY_CLOSE)) (day_of (local t)))"

definition entries_blocked :: "hold_config \<Rightarrow> instant \<Rightarrow> bool" where
  "entries_blocked c t = (let w = local t; wd = weekday (day_of w) in
     if wd = FRIDAY then combine (day_of w) (flatten_tod c) \<le> w
     else wd = FRIDAY + 1 \<or> (wd = SUNDAY \<and> tod w < NY_CLOSE))"

definition friday_flatten_after :: "hold_config \<Rightarrow> instant \<Rightarrow> instant option" where
  "friday_flatten_after c t = map_option (\<lambda>d. to_utc (combine d (flatten_tod c)))
     (first_day (\<lambda>d. weekday d = FRIDAY \<and> t < to_utc (combine d (flatten_tod c))) (day_of (local t)))"

definition weekend_ahead :: "int \<Rightarrow> nat" where
  "weekend_ahead d = (if weekday d = FRIDAY then 2 else if weekday d = SATURDAY then 1 else 0)"

lemma weekend_ahead_step: "\<not> weekday (d + 1) < 5 \<Longrightarrow> weekend_ahead (d + 1) < weekend_ahead d"
  unfolding weekend_ahead_def weekday_def by (auto split: if_splits) presburger+

lemma weekend_ahead_le: "weekend_ahead d \<le> 2"
  by (simp add: weekend_ahead_def)

text \<open>The loop of \<open>add_trading_days\<close>: \<open>left\<close> is \<open>days - counted\<close>. A weekend has two days, so the
  days still to count and the weekend days directly ahead bound the iterations.\<close>

function trading_day_from :: "int \<Rightarrow> nat \<Rightarrow> int" where
  "trading_day_from day 0 = day"
| "trading_day_from day (Suc left) =
     (if weekday (day + 1) < 5 then trading_day_from (day + 1) left else trading_day_from (day + 1) (Suc left))"
  by pat_completeness auto

termination
  by (relation "measure (\<lambda>(d, n). 3 * n + weekend_ahead d)")
    (auto simp: weekend_ahead_step intro!: le_less_trans [OF weekend_ahead_le])

declare trading_day_from.simps(2) [simp del]

lemma trading_day_hit: "weekday (d + 1) < 5 \<Longrightarrow> trading_day_from d (Suc n) = trading_day_from (d + 1) n"
  by (subst trading_day_from.simps) simp

lemma trading_day_miss: "\<not> weekday (d + 1) < 5 \<Longrightarrow> trading_day_from d (Suc n) = trading_day_from (d + 1) (Suc n)"
  by (subst trading_day_from.simps) simp

definition add_trading_days :: "instant \<Rightarrow> nat \<Rightarrow> instant" where
  "add_trading_days t days = to_utc (combine (trading_day_from (day_of (local t)) days) (tod (local t)))"

section \<open>The week rule\<close>

datatype close_reason = CLOSE_DAY1_BELOW_HALF_R | CLOSE_FRIDAY | CLOSE_MAX_HOLD | CLOSE_DAY2_STRUCTURE | CLOSE_DAY2_NY_CLOSE
datatype cancel_reason = CANCEL_FRIDAY | CANCEL_MAX_HOLD | CANCEL_DAY2_NY_CLOSE

definition hold_boundary :: "hold_config \<Rightarrow> instant \<Rightarrow> (instant \<times> close_reason) option" where
  "hold_boundary c opened = (if entries_blocked c opened then Some (opened, CLOSE_FRIDAY)
     else (case friday_flatten_after c opened of None \<Rightarrow> None
       | Some friday \<Rightarrow> let days = add_trading_days opened (max_hold c) in
           Some (if friday \<le> days then (friday, CLOSE_FRIDAY) else (days, CLOSE_MAX_HOLD))))"

definition next_boundary :: "hold_config \<Rightarrow> instant \<Rightarrow> string option \<Rightarrow> instant option" where
  "next_boundary c opened stage = (case hold_boundary c opened of None \<Rightarrow> None
     | Some (hold, _) \<Rightarrow> if day1_rule c \<and> stage = None
         then map_option (\<lambda>d. min d hold) (ny_close_after opened) else Some hold)"

definition is_friday_close :: "instant \<Rightarrow> bool" where
  "is_friday_close b \<longleftrightarrow> weekday (day_of (local b)) = FRIDAY"

fun cancel_for :: "close_reason \<Rightarrow> cancel_reason option" where
  "cancel_for CLOSE_FRIDAY = Some CANCEL_FRIDAY"
| "cancel_for CLOSE_MAX_HOLD = Some CANCEL_MAX_HOLD"
| "cancel_for _ = None"

definition order_cancel_boundary :: "hold_config \<Rightarrow> instant \<Rightarrow> (instant \<times> cancel_reason) option" where
  "order_cancel_boundary c as_of = (case hold_boundary c as_of of None \<Rightarrow> None
     | Some (b, r) \<Rightarrow> map_option (\<lambda>cr. (b, cr)) (cancel_for r))"

definition unrealized_r :: "paper_position \<Rightarrow> rat \<Rightarrow> rat option" where
  "unrealized_r p price =
    (let entry = repr_dec (p_entry_price p);
         stop = repr_dec (case p_initial_stop p of Some s \<Rightarrow> s | None \<Rightarrow> p_stop p);
         risk = (if p_side p = LONG then dec28 (entry - stop) else dec28 (stop - entry));
         pr = repr_dec price
     in if risk \<le> 0 then None
        else Some (dec28 ((if p_side p = LONG then dec28 (pr - entry) else dec28 (entry - pr)) / risk)))"

datatype boundary_action = CLOSE_POSITION close_reason | BREAKEVEN

definition MIN_KEEP_R :: rat where "MIN_KEEP_R = 1 / 2"

definition boundary_decision ::
  "hold_config \<Rightarrow> instant \<Rightarrow> paper_position \<Rightarrow> instant \<Rightarrow> rat \<Rightarrow> boundary_action option" where
  "boundary_decision c opened p boundary price = (case hold_boundary c opened of None \<Rightarrow> None
     | Some (hold, reason) \<Rightarrow> Some
       (if hold \<le> boundary \<or> \<not> day1_rule c \<or> p_duration_stage p \<noteq> None then CLOSE_POSITION reason
        else (case unrealized_r p price of
            None \<Rightarrow> CLOSE_POSITION CLOSE_DAY1_BELOW_HALF_R
          | Some r \<Rightarrow> if r < MIN_KEEP_R then CLOSE_POSITION CLOSE_DAY1_BELOW_HALF_R else BREAKEVEN)))"

definition STAGE_DAY2 :: string where "STAGE_DAY2 = ''DAY2_BREAKEVEN''"

definition move_stop_to_entry :: "paper_position \<Rightarrow> paper_position" where
  "move_stop_to_entry p = p\<lparr>p_initial_stop := Some (p_stop p), p_stop := p_entry_price p,
     p_duration_stage := Some STAGE_DAY2\<rparr>"

definition price_bar :: "market_bar list \<Rightarrow> instant \<Rightarrow> instant \<Rightarrow> market_bar option" where
  "price_bar bars opened boundary =
    (let closed = sort_key m_start (filter (\<lambda>b. m_is_closed b \<and> opened < bar_end b) bars);
         before = filter (\<lambda>b. bar_end b \<le> boundary) closed
     in if before \<noteq> [] then Some (last before) else (case closed of [] \<Rightarrow> None | b # _ \<Rightarrow> Some b))"

section \<open>\<open>execution/friday_close.py\<close>\<close>

datatype friday_phase = PHASE_OPEN | PHASE_PREFLATTEN | PHASE_CLOSED

definition preflatten_minutes :: "hold_config \<Rightarrow> string option \<Rightarrow> int" where
  "preflatten_minutes c v = (let raw = str_strip (case v of None \<Rightarrow> [] | Some s \<Rightarrow> s) in
     if str_isdigit raw \<and> 5 \<le> parse_nat raw \<and> parse_nat raw \<le> 240 then int (parse_nat raw)
     else FRIDAY_FLATTEN_LEAD_MINUTES c)"

definition minutes_from_env :: "hold_config \<Rightarrow> string option \<Rightarrow> string option \<Rightarrow> int option" where
  "minutes_from_env c flag v = (if flag = Some ''1'' then Some (preflatten_minutes c v) else None)"

definition friday_window :: "instant \<Rightarrow> int \<Rightarrow> py_error + friday_phase" where
  "friday_window now minutes = (if \<not> (5 \<le> minutes \<and> minutes \<le> 240) then Inl (ValueError ''minutes must be an int in [5, 240]'')
     else let w = local now; wd = weekday (day_of w) in
       if wd = FRIDAY then
         (let close = combine (day_of w) NY_CLOSE in
          if close \<le> w then Inr PHASE_CLOSED
          else if close - minutes * MINUTE \<le> w then Inr PHASE_PREFLATTEN else Inr PHASE_OPEN)
       else if wd = FRIDAY + 1 \<or> wd = SUNDAY \<and> tod w < NY_CLOSE then Inr PHASE_CLOSED
       else Inr PHASE_OPEN)"

definition alert_due :: "hold_config \<Rightarrow> instant \<Rightarrow> bool" where
  "alert_due c now = (let w = local now in
     if weekday (day_of w) = FRIDAY then combine (day_of w) NY_CLOSE - 5 * MINUTE \<le> w
     else friday_window now (FRIDAY_FLATTEN_LEAD_MINUTES c) = Inr PHASE_CLOSED)"

section \<open>The New York trading day\<close>

text \<open>\<open>day_key\<close> of \<open>execution/daily_loss_limit.py\<close> and \<open>execution/broker_demo_state.py\<close>: the most
  recent 17:00 New York wall time.\<close>

definition day_key :: "instant \<Rightarrow> wall" where
  "day_key now = (let w = local now; b = combine (day_of w) NY_CLOSE in
     if w < b then combine (day_of w - 1) NY_CLOSE else b)"

section \<open>Facts: the configuration\<close>

lemma max_hold_from_env_bounds: "1 \<le> fst (max_hold_from_env v)" "fst (max_hold_from_env v) \<le> 20"
  by (auto simp: max_hold_from_env_def Let_def DEFAULT_MAX_HOLD_def)

lemma hour_mod_minute [simp]: "a * HOUR mod MINUTE = 0"
proof -
  have "a * HOUR = (a * 60) * MINUTE" by (simp add: HOUR_def)
  then show ?thesis by (simp only: mod_mult_self2_is_0)
qed

lemma parse_hhmm_minutes: "parse_hhmm s = Some t \<Longrightarrow> t mod MINUTE = 0"
  by (induction s rule: parse_hhmm.induct) (auto split: if_splits)

lemma friday_flatten_from_env_bounds:
  "13 * HOUR \<le> fst (friday_flatten_from_env v) \<and> fst (friday_flatten_from_env v) \<le> 16 * HOUR + 55 * MINUTE
    \<and> fst (friday_flatten_from_env v) mod MINUTE = 0"
proof -
  have d: "13 * HOUR \<le> DEFAULT_FLATTEN \<and> DEFAULT_FLATTEN \<le> 16 * HOUR + 55 * MINUTE \<and> DEFAULT_FLATTEN mod MINUTE = 0"
    by (simp add: DEFAULT_FLATTEN_def unit_defs)
  define raw where "raw = str_strip (case v of None \<Rightarrow> [] | Some s \<Rightarrow> s)"
  show ?thesis
  proof (cases "parse_hhmm (if raw = [] then ''16:45'' else raw)")
    case None
    show ?thesis unfolding friday_flatten_from_env_def Let_def raw_def [symmetric] None using d by simp
  next
    case (Some t)
    show ?thesis unfolding friday_flatten_from_env_def Let_def raw_def [symmetric] Some
      using d parse_hhmm_minutes [OF Some] by simp
  qed
qed

lemma config_from_env_ok: "config_ok (hold_config_from_env m f d)"
  using max_hold_from_env_bounds [of m] friday_flatten_from_env_bounds [of f]
  by (simp add: config_ok_def hold_config_from_env_def)

lemma config_tod: "config_ok c \<Longrightarrow> 0 \<le> flatten_tod c" "config_ok c \<Longrightarrow> flatten_tod c < NY_CLOSE"
  "config_ok c \<Longrightarrow> flatten_tod c < DAY" "config_ok c \<Longrightarrow> 3 * HOUR \<le> flatten_tod c"
  by (simp_all add: config_ok_def unit_defs NY_CLOSE_def)

lemma NY_CLOSE_tod: "0 \<le> NY_CLOSE" "NY_CLOSE < DAY" "3 * HOUR \<le> NY_CLOSE"
  by (simp_all add: NY_CLOSE_def unit_defs)

lemma settled_flatten: "config_ok c \<Longrightarrow> settled (combine d (flatten_tod c))"
  using config_tod [of c] by (simp add: settled_def)

lemma settled_NY_CLOSE: "settled (combine d NY_CLOSE)"
  using NY_CLOSE_tod by (simp add: settled_def)

section \<open>Facts: the searches return\<close>

lemma first_day_found:
  "p (d + int k) \<Longrightarrow> \<exists>e. first_day p d = Some e \<and> d \<le> e \<and> e \<le> d + int k \<and> p e \<and> (\<forall>x. d \<le> x \<and> x < e \<longrightarrow> \<not> p x)"
proof (induction k arbitrary: d)
  case 0
  then show ?case by (subst first_day.simps) auto
next
  case (Suc k)
  show ?case
  proof (cases "p d")
    case True
    then show ?thesis by (subst first_day.simps) auto
  next
    case False
    have "p (d + 1 + int k)" using Suc.prems by (simp add: algebra_simps)
    from Suc.IH [OF this] obtain e where e: "first_day p (d + 1) = Some e" "d + 1 \<le> e" "e \<le> d + 1 + int k" "p e"
      "\<forall>x. d + 1 \<le> x \<and> x < e \<longrightarrow> \<not> p x" by auto
    have "\<not> p x" if "d \<le> x" "x < e" for x
      using that e(5) False by (cases "x = d") auto
    then show ?thesis using e False by (subst first_day.simps) auto
  qed
qed

text \<open>A wall time on a later day, at 13:00 or later, is a later instant.\<close>

lemma later_day:
  assumes "day_of (local t) < d" and "13 * HOUR \<le> h"
  shows "t < to_utc (combine d h)"
  using ny.loc_lower [of t] ny.utc_lower [of "combine d h"] assms wall_split [of "local t"] tod_bounds [of "local t"]
  unfolding combine_def unit_defs by linarith

lemma next_weekday: "\<exists>k. 1 \<le> k \<and> k \<le> 7 \<and> weekday (d + int k) = FRIDAY" "\<exists>k. 1 \<le> k \<and> k \<le> 7 \<and> weekday (d + int k) < 5"
proof -
  define m where "m = nat ((4 - weekday d) mod 7)"
  define k where "k = (if m = 0 then 7 else m)"
  have "int m = (4 - weekday d) mod 7" by (simp add: m_def)
  then have "(d + 3 + int k) mod 7 = 4 \<and> 1 \<le> k \<and> k \<le> 7"
    unfolding k_def weekday_def by (auto simp: mod_simps) presburger+
  then have "weekday (d + int k) = FRIDAY \<and> 1 \<le> k \<and> k \<le> 7" by (simp add: weekday_def algebra_simps)
  then show "\<exists>k. 1 \<le> k \<and> k \<le> 7 \<and> weekday (d + int k) = FRIDAY" "\<exists>k. 1 \<le> k \<and> k \<le> 7 \<and> weekday (d + int k) < 5"
    by auto
qed

lemma friday_flatten_after_found:
  assumes c: "config_ok c"
  obtains f where "friday_flatten_after c t = Some (to_utc (combine f (flatten_tod c)))" "weekday f = FRIDAY"
    "day_of (local t) \<le> f" "f \<le> day_of (local t) + 7" "t < to_utc (combine f (flatten_tod c))"
    "\<And>g. weekday g = FRIDAY \<Longrightarrow> day_of (local t) \<le> g \<Longrightarrow> g < f \<Longrightarrow> to_utc (combine g (flatten_tod c)) \<le> t"
proof -
  obtain k where k: "1 \<le> k" "k \<le> 7" "weekday (day_of (local t) + int k) = FRIDAY" using next_weekday(1) by blast
  have "t < to_utc (combine (day_of (local t) + int k) (flatten_tod c))"
    using c k(1) by (intro later_day) (simp_all add: config_ok_def)
  then obtain f where f: "first_day (\<lambda>d. weekday d = FRIDAY \<and> t < to_utc (combine d (flatten_tod c))) (day_of (local t)) = Some f"
    "day_of (local t) \<le> f" "f \<le> day_of (local t) + int k" "weekday f = FRIDAY" "t < to_utc (combine f (flatten_tod c))"
    "\<forall>x. day_of (local t) \<le> x \<and> x < f \<longrightarrow> \<not> (weekday x = FRIDAY \<and> t < to_utc (combine x (flatten_tod c)))"
    using first_day_found [of "\<lambda>d. weekday d = FRIDAY \<and> t < to_utc (combine d (flatten_tod c))" "day_of (local t)" k] k(3)
    by blast
  show ?thesis
    by (rule that [of f]) (use f k(2) in \<open>auto simp: friday_flatten_after_def not_less\<close>)
qed

lemma ny_close_after_found:
  "\<exists>d. ny_close_after t = Some (to_utc (combine d NY_CLOSE)) \<and> weekday d < 5 \<and> t < to_utc (combine d NY_CLOSE)
     \<and> day_of (local t) \<le> d \<and> d \<le> day_of (local t) + 7
     \<and> (\<forall>g. weekday g < 5 \<and> day_of (local t) \<le> g \<and> g < d \<longrightarrow> to_utc (combine g NY_CLOSE) \<le> t)"
proof -
  obtain k where k: "1 \<le> k" "k \<le> 7" "weekday (day_of (local t) + int k) < 5" using next_weekday(2) by blast
  have "t < to_utc (combine (day_of (local t) + int k) NY_CLOSE)"
    using k(1) by (intro later_day) (simp_all add: NY_CLOSE_def unit_defs)
  then show ?thesis
    using first_day_found [of "\<lambda>d. weekday d < 5 \<and> t < to_utc (combine d NY_CLOSE)" "day_of (local t)" k] k(2,3)
    by (fastforce simp: ny_close_after_def not_less)
qed

section \<open>Facts: the weekend\<close>

text \<open>The blocked instants are the weekends, from the Friday flatten to the Sunday reopening.\<close>

lemma not_blocked_settled: "\<not> entries_blocked c t \<Longrightarrow> settled (local t)"
  by (auto simp: entries_blocked_def settled_def Let_def NY_CLOSE_def unit_defs)

lemma blocked_iff_settled:
  assumes c: "config_ok c" and w: "settled (local t)" and g: "weekday g = FRIDAY"
  shows "to_utc (combine g (flatten_tod c)) \<le> t \<longleftrightarrow> combine g (flatten_tod c) \<le> local t"
    and "t < to_utc (combine (g + 2) NY_CLOSE) \<longleftrightarrow> local t < combine (g + 2) NY_CLOSE"
  using ny.instant_less_utc [OF settled_flatten [OF c] w, of g] ny.instant_less_utc [OF settled_NY_CLOSE w, of "g + 2"]
  by linarith+

lemma weekend_days: "weekday g = FRIDAY \<Longrightarrow> weekday (g + 1) = SATURDAY \<and> weekday (g + 2) = SUNDAY"
  unfolding weekday_def by presburger

lemma weekday_back: "weekday d = SATURDAY \<Longrightarrow> weekday (d - 1) = FRIDAY" "weekday d = SUNDAY \<Longrightarrow> weekday (d - 2) = FRIDAY"
  unfolding weekday_def by presburger+

lemma blocked_iff:
  assumes c: "config_ok c"
  shows "entries_blocked c t \<longleftrightarrow>
    (\<exists>g. weekday g = FRIDAY \<and> to_utc (combine g (flatten_tod c)) \<le> t \<and> t < to_utc (combine (g + 2) NY_CLOSE))"
    (is "?b \<longleftrightarrow> ?r")
proof
  define D where "D = day_of (local t)"
  note cc = config_tod [OF c]
  note walls = combine_le_iff [of "flatten_tod c" _ "local t", OF cc(1,3), folded D_def]
    less_combine_iff [of NY_CLOSE "local t", OF NY_CLOSE_tod(1,2), folded D_def]
  { assume b: ?b
    show ?r
    proof (cases "settled (local t)")
      case True
      note iff = blocked_iff_settled [OF c True, unfolded walls]
      consider "weekday D = FRIDAY" "flatten_tod c \<le> tod (local t)" | "weekday D = SATURDAY"
        | "weekday D = SUNDAY" "tod (local t) < NY_CLOSE"
        using b walls by (auto simp: entries_blocked_def Let_def D_def split: if_splits)
      then show ?thesis
      proof cases
        case 1
        then show ?thesis using iff [of D] by auto
      next
        case 2
        then show ?thesis using iff [of "D - 1"] weekday_back(1) [OF 2] by auto
      next
        case 3
        then show ?thesis using iff [of "D - 2"] weekday_back(2) [OF 3(1)] by auto
      qed
    next
      case False
      then have D: "weekday D = SUNDAY" "tod (local t) < 3 * HOUR" by (auto simp: settled_def D_def)
      have "combine (D - 2) (flatten_tod c) + 5 * HOUR \<le> t"
        using ny.loc_upper [of t] cc(3) wall_split [of "local t"] tod_bounds [of "local t"]
        unfolding combine_def D_def unit_defs left_diff_distrib by linarith
      then have "to_utc (combine (D - 2) (flatten_tod c)) \<le> t"
        using ny.utc_upper [of "combine (D - 2) (flatten_tod c)"] by linarith
      moreover have "t < to_utc (combine (D - 2 + 2) NY_CLOSE)"
        using ny.utc_lower [of "combine (D - 2 + 2) NY_CLOSE"] ny.loc_lower [of t] D(2)
          wall_split [of "local t"] tod_bounds [of "local t"]
        unfolding combine_def D_def unit_defs NY_CLOSE_def by simp
      ultimately show ?thesis using weekday_back(2) [OF D(1)] by blast
    qed }
  { assume ?r
    then obtain g where g: "weekday g = FRIDAY" "to_utc (combine g (flatten_tod c)) \<le> t" "t < to_utc (combine (g + 2) NY_CLOSE)"
      by blast
    show ?b
    proof (rule ccontr)
      assume nb: "\<not> ?b"
      note iff = blocked_iff_settled [OF c not_blocked_settled [OF nb] g(1), unfolded walls]
      have "D = g \<and> flatten_tod c \<le> tod (local t) \<or> D = g + 1 \<or> D = g + 2 \<and> tod (local t) < NY_CLOSE"
        using iff g by auto
      then have ?b
        using g(1) weekend_days [OF g(1)]
        by (elim disjE conjE) (simp_all add: entries_blocked_def Let_def D_def [symmetric] walls)
      then show False using nb by simp
    qed }
qed

section \<open>Facts: the boundary\<close>

lemma trading_day_from_ge: "d + int n \<le> trading_day_from d n"
proof (induction d n rule: trading_day_from.induct)
  case (2 d n)
  then show ?case
    by (cases "weekday (d + 1) < 5") (auto simp: trading_day_hit trading_day_miss)
qed simp

lemma trading_day_from_weekday: "0 < n \<Longrightarrow> weekday (trading_day_from d n) < 5"
proof (induction d n rule: trading_day_from.induct)
  case (2 d n)
  then show ?case
    by (cases "weekday (d + 1) < 5"; cases n) (auto simp: trading_day_hit trading_day_miss)
qed simp

text \<open>The number of weekdays passed is the number asked for.\<close>

lemma trading_day_from_count:
  "card {x. d < x \<and> x \<le> trading_day_from d n \<and> weekday x < 5} = n"
proof (induction d n rule: trading_day_from.induct)
  case (1 d)
  have "{x. d < x \<and> x \<le> d \<and> weekday x < 5} = {}" by auto
  then show ?case by (simp only: trading_day_from.simps card.empty)
next
  case (2 d n)
  show ?case
  proof (cases "weekday (d + 1) < 5")
    case True
    let ?T = "{x. d + 1 < x \<and> x \<le> trading_day_from (d + 1) n \<and> weekday x < 5}"
    have "{x. d < x \<and> x \<le> trading_day_from d (Suc n) \<and> weekday x < 5} = insert (d + 1) ?T"
      using True trading_day_from_ge [of "d + 1" n] by (auto simp: trading_day_hit)
    moreover have "finite ?T" by (rule finite_subset [of _ "{d + 1<..trading_day_from (d + 1) n}"]) auto
    ultimately show ?thesis using 2(1) [OF True] by simp
  next
    case False
    have "{x. d < x \<and> x \<le> trading_day_from d (Suc n) \<and> weekday x < 5}
        = {x. d + 1 < x \<and> x \<le> trading_day_from (d + 1) (Suc n) \<and> weekday x < 5}"
    proof (rule Collect_cong)
      fix x
      have "d < x \<and> weekday x < 5 \<longleftrightarrow> d + 1 < x \<and> weekday x < 5" using False by (cases "x = d + 1") auto
      then show "(d < x \<and> x \<le> trading_day_from d (Suc n) \<and> weekday x < 5)
          = (d + 1 < x \<and> x \<le> trading_day_from (d + 1) (Suc n) \<and> weekday x < 5)"
        using False by (auto simp: trading_day_miss)
    qed
    then show ?thesis using 2(2) [OF False] by simp
  qed
qed

lemma hold_boundary_returns: "config_ok c \<Longrightarrow> \<exists>b r. hold_boundary c s = Some (b, r)"
  by (rule friday_flatten_after_found [of c s]) (auto simp: hold_boundary_def Let_def)

text \<open>A position opened outside the weekend is closed before the next one begins.\<close>

lemma hold_boundary_before_weekend:
  assumes c: "config_ok c" and open_market: "\<not> entries_blocked c s" and b: "hold_boundary c s = Some (b, r)"
    and t: "s \<le> t" "t < b"
  shows "\<not> entries_blocked c t"
proof
  assume "entries_blocked c t"
  then obtain g where g: "weekday g = FRIDAY" "to_utc (combine g (flatten_tod c)) \<le> t" "t < to_utc (combine (g + 2) NY_CLOSE)"
    using blocked_iff [OF c] by blast
  obtain f where f: "friday_flatten_after c s = Some (to_utc (combine f (flatten_tod c)))"
    "\<And>g. weekday g = FRIDAY \<Longrightarrow> day_of (local s) \<le> g \<Longrightarrow> g < f \<Longrightarrow> to_utc (combine g (flatten_tod c)) \<le> s"
    using friday_flatten_after_found [OF c, of s] by metis
  have "b \<le> to_utc (combine f (flatten_tod c))"
    using b open_market f(1) by (auto simp: hold_boundary_def Let_def split: if_splits)
  then have "to_utc (combine g (flatten_tod c)) < to_utc (combine f (flatten_tod c))" using t(2) g(2) by linarith
  then have "g < f"
    using ny.utc_less_iff [OF settled_flatten [OF c] settled_flatten [OF c], of g f]
    by (simp add: combine_def unit_defs)
  have "to_utc (combine g (flatten_tod c)) \<le> s"
  proof (rule ccontr)
    assume "\<not> ?thesis"
    then have lt: "s < to_utc (combine g (flatten_tod c))" by simp
    then have "local s < combine g (flatten_tod c)"
      using ny.instant_less_utc [OF settled_flatten [OF c] not_blocked_settled [OF open_market]] by simp
    then have "day_of (local s) \<le> g"
      using less_combine_iff [of "flatten_tod c" "local s" g] config_tod [OF c] by auto
    then show False using f(2) [OF g(1) _ \<open>g < f\<close>] lt by simp
  qed
  then show False using open_market blocked_iff [OF c, of s] g t by auto
qed

text \<open>The Friday the search finds is the Friday of the running week, or the next one.\<close>

lemma friday_found_bound:
  assumes c: "config_ok c" and nb: "\<not> entries_blocked c s"
    and f: "friday_flatten_after c s = Some b"
  shows "\<exists>f. b = to_utc (combine f (flatten_tod c)) \<and> weekday f = FRIDAY \<and> s < b
    \<and> day_of (local s) \<le> f \<and> f \<le> day_of (local s) + 5
    \<and> (f = day_of (local s) + 5 \<longrightarrow> weekday (day_of (local s)) = SUNDAY \<and> NY_CLOSE \<le> tod (local s))"
proof -
  define D where "D = day_of (local s)"
  obtain f where f: "b = to_utc (combine f (flatten_tod c))" "weekday f = FRIDAY" "D \<le> f" "f \<le> D + 7" "s < b"
    "\<And>g. weekday g = FRIDAY \<Longrightarrow> D \<le> g \<Longrightarrow> g < f \<Longrightarrow> to_utc (combine g (flatten_tod c)) \<le> s"
    using friday_flatten_after_found [OF c, of s] assms(3) unfolding D_def by (metis option.inject)
  have wd: "weekday D \<noteq> SATURDAY" "weekday D = SUNDAY \<longrightarrow> NY_CLOSE \<le> tod (local s)"
    using nb by (auto simp: entries_blocked_def Let_def D_def)
  have nog: "\<not> (weekday g = FRIDAY \<and> D \<le> g \<and> g < f)" for g
  proof
    assume g: "weekday g = FRIDAY \<and> D \<le> g \<and> g < f"
    then have "combine g (flatten_tod c) \<le> local s"
      using f(6) [of g] blocked_iff_settled(1) [OF c not_blocked_settled [OF nb], of g] by simp
    then have "D = g" "flatten_tod c \<le> tod (local s)"
      using g combine_le_iff [of "flatten_tod c" g "local s"] config_tod [OF c] by (auto simp: D_def)
    then show False using nb g combine_le_iff [of "flatten_tod c" g "local s"] config_tod [OF c]
      by (auto simp: entries_blocked_def Let_def D_def)
  qed
  have "f \<le> D + 5 \<and> (f = D + 5 \<longrightarrow> weekday D = SUNDAY)"
  proof -
    have "f < D + 7" using nog [of "f - 7"] f(2,4) unfolding weekday_def by (cases "f = D + 7") (auto, presburger)
    then have "\<not> (f = D + 6)" using f(2) wd(1) unfolding weekday_def by presburger
    then show ?thesis using \<open>f < D + 7\<close> f(2) unfolding weekday_def by presburger
  qed
  then show ?thesis using f wd unfolding D_def by blast
qed

text \<open>With at least five trading days the Friday flatten always comes first.\<close>

lemma friday_before_max_hold:
  assumes c: "config_ok c" and five: "5 \<le> max_hold c" and b: "hold_boundary c s = Some (b, r)"
  shows "r = CLOSE_FRIDAY"
proof (cases "entries_blocked c s")
  case True
  then show ?thesis using b by (auto simp: hold_boundary_def)
next
  case False
  define E where "E = trading_day_from (day_of (local s)) (max_hold c)"
  obtain fr where fr: "friday_flatten_after c s = Some fr" using friday_flatten_after_found [OF c, of s] by metis
  obtain f where f: "fr = to_utc (combine f (flatten_tod c))" "f \<le> day_of (local s) + 5"
    "f = day_of (local s) + 5 \<longrightarrow> NY_CLOSE \<le> tod (local s)"
    using friday_found_bound [OF c False fr] by blast
  have E: "day_of (local s) + 5 \<le> E" using trading_day_from_ge [of "day_of (local s)" "max_hold c"] five
    unfolding E_def by linarith
  have "weekday E < 5" unfolding E_def using five by (intro trading_day_from_weekday) simp
  then have sE: "settled (combine E (tod (local s)))" using tod_bounds [of "local s"] by (simp add: settled_def)
  have "combine f (flatten_tod c) \<le> combine E (tod (local s))"
  proof (cases "f < E")
    case True
    then show ?thesis using config_tod [OF c] tod_bounds [of "local s"]
      unfolding combine_def DAY_def HOUR_def MINUTE_def SECOND_def by linarith
  next
    case False
    then have "f = E" "f = day_of (local s) + 5" using f(2) E by auto
    then show ?thesis using f(3) config_tod(2) [OF c] by (simp add: combine_def)
  qed
  then have "fr \<le> add_trading_days s (max_hold c)"
    unfolding f(1) add_trading_days_def E_def [symmetric] using ny.utc_le_iff [OF settled_flatten [OF c] sE] by simp
  then show ?thesis using b False fr by (auto simp: hold_boundary_def Let_def)
qed

text \<open>The boundary is never before the opening, strictly after it outside the weekend, and at most
  six days later.\<close>

lemma hold_boundary_bounds:
  assumes c: "config_ok c" and b: "hold_boundary c s = Some (b, r)"
  shows "s \<le> b" "b \<le> s + 6 * DAY" "\<not> entries_blocked c s \<Longrightarrow> s < b"
proof -
  have "s \<le> b \<and> b \<le> s + 6 * DAY \<and> (\<not> entries_blocked c s \<longrightarrow> s < b)"
  proof (cases "entries_blocked c s")
    case True
    then show ?thesis using b by (auto simp: hold_boundary_def unit_defs)
  next
    case False
    define D where "D = day_of (local s)"
    define E where "E = trading_day_from D (max_hold c)"
    have n: "1 \<le> max_hold c" using c by (simp add: config_ok_def)
    obtain fr where fr: "friday_flatten_after c s = Some fr" using friday_flatten_after_found [OF c, of s] by metis
    obtain f where f: "fr = to_utc (combine f (flatten_tod c))" "f \<le> D + 5" "s < fr"
      using friday_found_bound [OF c False fr] unfolding D_def by blast
    have "combine f (flatten_tod c) \<le> local s + 6 * DAY"
      using f(2) config_tod(3) [OF c] wall_split [of "local s"] tod_bounds [of "local s"]
      unfolding combine_def D_def DAY_def HOUR_def MINUTE_def SECOND_def by linarith
    moreover have "combine f (flatten_tod c) \<le> combine (D + 5) (flatten_tod c)"
      using f(2) unfolding combine_def DAY_def HOUR_def MINUTE_def SECOND_def by simp
    moreover have "combine (D + 5) (flatten_tod c) \<le> local s + 5 * DAY + 17 * HOUR"
      using config_tod(2) [OF c] wall_split [of "local s"] tod_bounds [of "local s"]
      unfolding combine_def D_def NY_CLOSE_def DAY_def HOUR_def MINUTE_def SECOND_def by (simp add: algebra_simps)
    ultimately have up: "fr \<le> s + 6 * DAY"
      using ny.utc_upper [of "combine f (flatten_tod c)"] ny.loc_upper [of s]
      unfolding f(1) DAY_def HOUR_def MINUTE_def SECOND_def by linarith
    have "weekday E < 5" unfolding E_def using n by (intro trading_day_from_weekday) simp
    then have sE: "settled (combine E (tod (local s)))" using tod_bounds [of "local s"] by (simp add: settled_def)
    have "D + 1 \<le> E" using trading_day_from_ge [of D "max_hold c"] n unfolding E_def by linarith
    then have "local s < combine E (tod (local s))"
      using wall_split [of "local s"] unfolding combine_def D_def DAY_def HOUR_def MINUTE_def SECOND_def by simp
    then have "s < add_trading_days s (max_hold c)"
      unfolding add_trading_days_def E_def [unfolded D_def, symmetric]
      using ny.instant_less_utc [OF sE not_blocked_settled [OF False]] by (simp add: E_def D_def)
    then show ?thesis using b False fr f(3) up by (auto simp: hold_boundary_def Let_def split: if_splits)
  qed
  then show "s \<le> b" "b \<le> s + 6 * DAY" "\<not> entries_blocked c s \<Longrightarrow> s < b" by auto
qed

text \<open>With the default window the broker pre-flatten and the entry block are the same set of instants.\<close>

lemma lead_minutes:
  assumes "config_ok c"
  shows "5 \<le> FRIDAY_FLATTEN_LEAD_MINUTES c" "FRIDAY_FLATTEN_LEAD_MINUTES c \<le> 240"
    "NY_CLOSE - FRIDAY_FLATTEN_LEAD_MINUTES c * MINUTE = flatten_tod c"
proof -
  have f: "flatten_tod c = flatten_tod c div MINUTE * MINUTE"
    using assms div_mult_mod_eq [of "flatten_tod c" MINUTE] by (simp add: config_ok_def)
  have b: "13 * HOUR \<le> flatten_tod c" "flatten_tod c \<le> 16 * HOUR + 55 * MINUTE" using assms by (simp_all add: config_ok_def)
  show "5 \<le> FRIDAY_FLATTEN_LEAD_MINUTES c" "FRIDAY_FLATTEN_LEAD_MINUTES c \<le> 240"
    using b f unfolding FRIDAY_FLATTEN_LEAD_MINUTES_def unit_defs by linarith+
  show "NY_CLOSE - FRIDAY_FLATTEN_LEAD_MINUTES c * MINUTE = flatten_tod c"
    using f unfolding FRIDAY_FLATTEN_LEAD_MINUTES_def NY_CLOSE_def HOUR_def by (simp add: algebra_simps)
qed

lemma friday_window_blocked:
  assumes "config_ok c"
  shows "friday_window t (FRIDAY_FLATTEN_LEAD_MINUTES c) = Inr PHASE_OPEN \<longleftrightarrow> \<not> entries_blocked c t"
proof -
  have "combine d NY_CLOSE - FRIDAY_FLATTEN_LEAD_MINUTES c * MINUTE = combine d (flatten_tod c)" for d
    using lead_minutes(3) [OF assms] by (simp add: combine_def algebra_simps)
  moreover have "combine d (flatten_tod c) \<le> combine d NY_CLOSE" for d
    using config_tod(2) [OF assms] by (simp add: combine_def)
  ultimately show ?thesis using lead_minutes(1,2) [OF assms]
    by (auto simp: friday_window_def entries_blocked_def Let_def dest: order_trans)
qed

text \<open>The trading day: \<open>now\<close> lies between its key and the next 17:00.\<close>

lemma day_key_bounds: "to_utc (day_key now) \<le> now" "now < to_utc (day_key now + DAY)"
proof -
  define D where "D = day_of (local now)"
  define d where "d = (if local now < combine D NY_CLOSE then D - 1 else D)"
  have d: "day_key now = combine d NY_CLOSE" by (simp add: day_key_def Let_def d_def D_def)
  have w: "combine d NY_CLOSE \<le> local now" "local now < combine (d + 1) NY_CLOSE"
    by (auto simp: d_def D_def less_combine_iff combine_le_iff NY_CLOSE_tod)
  have n: "combine d NY_CLOSE + DAY = combine (d + 1) NY_CLOSE" by (simp add: combine_def algebra_simps)
  have "to_utc (combine d NY_CLOSE) \<le> now \<and> now < to_utc (combine (d + 1) NY_CLOSE)"
  proof (cases "settled (local now)")
    case True
    then show ?thesis using w ny.instant_less_utc [OF settled_NY_CLOSE True] by (auto simp: not_less [symmetric])
  next
    case False
    then have "weekday (day_of (local now)) = SUNDAY" "tod (local now) < 3 * HOUR" by (auto simp: settled_def)
    moreover from this have "D = d + 1"
      using w combine_le_iff [of NY_CLOSE d "local now"] less_combine_iff [of NY_CLOSE "local now" "d + 1"]
      unfolding D_def by (auto simp: NY_CLOSE_def unit_defs)
    ultimately have "combine d NY_CLOSE + 4 * HOUR \<le> local now" "local now + 4 * HOUR < combine (d + 1) NY_CLOSE"
      using wall_split [of "local now"] tod_bounds [of "local now"]
      unfolding D_def combine_def NY_CLOSE_def unit_defs by (auto simp: algebra_simps)
    then show ?thesis
      using ny.utc_upper [of "combine d NY_CLOSE"] ny.utc_lower [of "combine (d + 1) NY_CLOSE"]
        ny.loc_upper [of now] ny.loc_lower [of now] unfolding unit_defs by linarith
  qed
  then show "to_utc (day_key now) \<le> now" "now < to_utc (day_key now + DAY)" by (simp_all add: d n)
qed

section \<open>Facts: the pricing bar\<close>

definition due_bar :: "instant \<Rightarrow> market_bar list \<Rightarrow> market_bar \<Rightarrow> bool" where
  "due_bar opened bars b \<longleftrightarrow> b \<in> set bars \<and> m_is_closed b \<and> opened < bar_end b"

lemma sorted_last_max: "sorted (map f xs) \<Longrightarrow> x \<in> set xs \<Longrightarrow> f x \<le> f (last xs)"
  by (induction xs rule: rev_induct) (auto simp: sorted_append)

lemma sorted_hd_min: "sorted (map f xs) \<Longrightarrow> x \<in> set xs \<Longrightarrow> f (hd xs) \<le> f x"
  by (cases xs) auto

lemma price_bar_cases:
  assumes "price_bar bars opened boundary = Some b"
  shows "due_bar opened bars b"
    and "due_bar opened bars x \<Longrightarrow> bar_end x \<le> boundary \<Longrightarrow> bar_end b \<le> boundary \<and> m_start x \<le> m_start b"
    and "boundary < bar_end b \<Longrightarrow> due_bar opened bars x \<Longrightarrow> m_start b \<le> m_start x"
proof -
  define closed where "closed = sort_key m_start (filter (\<lambda>b. m_is_closed b \<and> opened < bar_end b) bars)"
  define before where "before = filter (\<lambda>b. bar_end b \<le> boundary) closed"
  have r: "Some b = (if before \<noteq> [] then Some (last before) else (case closed of [] \<Rightarrow> None | b # _ \<Rightarrow> Some b))"
    using assms unfolding price_bar_def Let_def closed_def [symmetric] before_def [symmetric] by (rule sym)
  have in_closed: "x \<in> set closed \<longleftrightarrow> due_bar opened bars x" for x
    by (auto simp: closed_def due_bar_def)
  have srt: "sorted (map m_start closed)" "sorted (map m_start before)"
    by (simp_all add: closed_def before_def sorted_filter)
  have b: "if before \<noteq> [] then b = last before \<and> b \<in> set before else b = hd closed \<and> b \<in> set closed"
    using r by (auto split: list.splits if_splits)
  show "due_bar opened bars b" using b in_closed by (auto simp: before_def split: if_splits)
  show "bar_end b \<le> boundary \<and> m_start x \<le> m_start b" if "due_bar opened bars x" "bar_end x \<le> boundary"
  proof -
    have x: "x \<in> set before" using that in_closed by (simp add: before_def)
    then have "before \<noteq> []" by auto
    then show ?thesis using b x sorted_last_max [OF srt(2) x] by (auto simp: before_def split: if_splits)
  qed
  show "m_start b \<le> m_start x" if "boundary < bar_end b" "due_bar opened bars x"
  proof -
    have "before = []" using b that(1) by (auto simp: before_def split: if_splits)
    then show ?thesis using b sorted_hd_min [OF srt(1)] that(2) in_closed by auto
  qed
qed

lemma price_bar_None: "price_bar bars opened boundary = None \<longleftrightarrow> (\<forall>x. \<not> due_bar opened bars x)"
proof -
  define closed where "closed = sort_key m_start (filter (\<lambda>b. m_is_closed b \<and> opened < bar_end b) bars)"
  have "price_bar bars opened boundary = None \<longleftrightarrow> closed = []"
    by (auto simp: price_bar_def Let_def closed_def [symmetric] split: list.splits)
  also have "\<dots> \<longleftrightarrow> set closed = {}" by simp
  also have "set closed = {x. due_bar opened bars x}" by (auto simp: closed_def due_bar_def)
  finally show ?thesis by auto
qed

section \<open>Properties\<close>

text \<open>
  C1. No position lives through a weekend, whatever the environment configures. For every fill time the
  week rule returns a boundary (the day searches end) no earlier than the fill and at most six days
  later. A fill while the market is open is due strictly later, and at no instant from the fill up to
  the boundary are entries blocked; a fill inside the weekend window is due at once. With five or
  more trading days configured the Friday flatten is always the reason.
\<close>

theorem no_position_lives_through_weekend:
  "\<exists>b r. hold_boundary (hold_config_from_env m f d) s = Some (b, r) \<and> s \<le> b \<and> b \<le> s + 6 * DAY
    \<and> (if entries_blocked (hold_config_from_env m f d) s then b = s \<and> r = CLOSE_FRIDAY
       else s < b \<and> (\<forall>t. s \<le> t \<and> t < b \<longrightarrow> \<not> entries_blocked (hold_config_from_env m f d) t))
    \<and> (5 \<le> max_hold (hold_config_from_env m f d) \<longrightarrow> r = CLOSE_FRIDAY)"
proof -
  define c where "c = hold_config_from_env m f d"
  have c: "config_ok c" by (simp add: c_def config_from_env_ok)
  obtain b r where br: "hold_boundary c s = Some (b, r)" using hold_boundary_returns [OF c] by blast
  have "entries_blocked c s \<Longrightarrow> b = s \<and> r = CLOSE_FRIDAY" using br by (simp add: hold_boundary_def)
  then show ?thesis unfolding c_def [symmetric]
    using br hold_boundary_bounds [OF c br] hold_boundary_before_weekend [OF c _ br] friday_before_max_hold [OF c _ br]
    by (intro exI [of _ b] exI [of _ r]) auto
qed

theorem no_position_lives_through_weekend_witness:
  "\<exists>b r. hold_boundary (hold_config_from_env None None None) 0 = Some (b, r) \<and> 0 < b \<and> r = CLOSE_FRIDAY"
proof -
  have "\<not> entries_blocked (hold_config_from_env None None None) 0" "5 \<le> max_hold (hold_config_from_env None None None)"
    by code_simp+
  then show ?thesis using no_position_lives_through_weekend [of None None None 0] by auto
qed

text \<open>
  The broker's Friday window and the entry block agree: with the default number of minutes, the
  router's window is \<open>open\<close> exactly when the runtime accepts entries, for every instant and every
  configured flatten time.
\<close>

lemma friday_window_is_entry_block:
  "friday_window t (preflatten_minutes (hold_config_from_env m f d) None) = Inr PHASE_OPEN
    \<longleftrightarrow> \<not> entries_blocked (hold_config_from_env m f d) t"
proof -
  have "preflatten_minutes c None = FRIDAY_FLATTEN_LEAD_MINUTES c" for c
    by (simp add: preflatten_minutes_def str_strip_def str_isdigit_def)
  then show ?thesis using friday_window_blocked [OF config_from_env_ok] by simp
qed

text \<open>
  The daily-loss trading day contains the present: for every instant, also across a clock change, the
  17:00 New York boundary that names the day is not in the future and the next one is.
\<close>

lemma day_key_contains_now: "to_utc (day_key now) \<le> now \<and> now < to_utc (day_key now + DAY)"
  using day_key_bounds by blast

text \<open>
  \<open>price_bar\<close> never looks past the boundary when it need not: it returns a bar exactly when a closed
  bar ends after the fill; when such a bar ends by the boundary the result is the latest of those,
  and otherwise it is the first that follows.
\<close>

lemma price_bar_latest_before_boundary:
  "case price_bar bars opened boundary of
     None \<Rightarrow> \<forall>x \<in> set bars. m_is_closed x \<longrightarrow> bar_end x \<le> opened
   | Some b \<Rightarrow> b \<in> set bars \<and> m_is_closed b \<and> opened < bar_end b
       \<and> (\<forall>x \<in> set bars. m_is_closed x \<and> opened < bar_end x \<longrightarrow>
            (if bar_end b \<le> boundary then bar_end x \<le> boundary \<longrightarrow> m_start x \<le> m_start b
             else boundary < bar_end x \<and> m_start b \<le> m_start x))"
proof (cases "price_bar bars opened boundary")
  case None
  then have "\<forall>x. \<not> due_bar opened bars x" using price_bar_None [of bars opened boundary] by blast
  then show ?thesis unfolding None by (auto simp: due_bar_def not_less)
next
  case (Some b)
  have "if bar_end b \<le> boundary then bar_end x \<le> boundary \<longrightarrow> m_start x \<le> m_start b
      else boundary < bar_end x \<and> m_start b \<le> m_start x" if "due_bar opened bars x" for x
    using price_bar_cases(2) [OF Some that] price_bar_cases(3) [OF Some _ that]
    by (cases "bar_end x \<le> boundary") (auto simp: not_le)
  then show ?thesis using price_bar_cases(1) [OF Some] by (simp add: Some due_bar_def)
qed

lemma price_bar_latest_before_boundary_witness:
  "case price_bar [demo_bar 0, demo_bar HOUR] (0 :: int) HOUR of None \<Rightarrow> False | Some b \<Rightarrow> m_start b = 0"
proof -
  have "price_bar [demo_bar 0, demo_bar HOUR] 0 HOUR = Some (demo_bar 0)" by code_simp
  then show ?thesis using price_bar_latest_before_boundary [of "[demo_bar 0, demo_bar HOUR]" 0 HOUR]
    by (simp add: demo_bar_def)
qed

end
