(* ===== verification/DecimalText.thy ===== *)
theory DecimalText
  imports TradeDuration RRContract
begin

text \<open>
  \<open>Decimal(str(value))\<close> for a value of any type, as \<open>execution/eurusd_pullback.py\<close>,
  \<open>execution/daily_loss_limit.py\<close> and \<open>execution/broker_demo_router.py\<close> read the numbers they are given:
  a finite number or nothing. Text goes through the \<open>decimal\<close> module's own grammar (blanks around it and
  underscores are dropped; sign, digits with at most one point, exponent); a spelling of an infinity or of a NaN is
  not finite, so it is nothing too.
\<close>

definition split_sign :: "string \<Rightarrow> bool \<times> string" where
  "split_sign s = (case s of [] \<Rightarrow> (False, []) | c # cs \<Rightarrow>
     if c = CHR ''-'' then (True, cs) else if c = CHR ''+'' then (False, cs) else (False, s))"

definition exponent_of :: "string \<Rightarrow> int option" where
  "exponent_of s = (case s of [] \<Rightarrow> Some 0 | c # cs \<Rightarrow>
     if c = CHR ''e'' \<or> c = CHR ''E'' then
       (case split_sign cs of (neg, ds) \<Rightarrow>
          if str_isdigit ds then Some (if neg then - int (parse_nat ds) else int (parse_nat ds)) else None)
     else None)"

definition decimal_of_text :: "string \<Rightarrow> rat option" where
  "decimal_of_text text =
    (case split_sign (filter (\<lambda>c. c \<noteq> CHR ''_'') (str_strip text)) of (neg, body) \<Rightarrow>
      let whole = takeWhile is_digit body; rest = dropWhile is_digit body;
          pointed = rest \<noteq> [] \<and> hd rest = CHR ''.'';
          fraction = (if pointed then takeWhile is_digit (tl rest) else []);
          tail = (if pointed then dropWhile is_digit (tl rest) else rest)
      in if whole = [] \<and> fraction = [] then None
         else map_option (\<lambda>e. (if neg then - 1 else 1) * of_nat (parse_nat (whole @ fraction)) * 10 powi (e - int (length fraction)))
                (exponent_of tail))"

fun as_decimal :: "pynum \<Rightarrow> rat option" where
  "as_decimal (PDec d) = Some d"
| "as_decimal (PInt n) = Some (of_int n)"
| "as_decimal (PFloat x) = Some (repr_dec x)"
| "as_decimal (PText s) = decimal_of_text s"
| "as_decimal _ = None"

text \<open>A price on the five-decimal grid of \<open>execution/oanda_client.py\<close>, half up; a value that is not positive, or whose
  result has more than 28 digits, raises.\<close>

definition half_up :: "rat \<Rightarrow> int" where
  "half_up x = \<lfloor>x + 1 / 2\<rfloor>"

definition round_price :: "rat \<Rightarrow> py_error + rat" where
  "round_price d = (if d \<le> 0 then Inl (ValueError ''price must be a finite positive Decimal'')
     else let m = half_up (d * 10 ^ 5) in if m < 10 ^ 28 then Inr (of_int m / 10 ^ 5) else Inl InvalidOperation)"

lemma half_up_int [simp]: "half_up (of_int m) = m"
  unfolding half_up_def by linarith

lemma half_up_mono: "x \<le> y \<Longrightarrow> half_up x \<le> half_up y"
  unfolding half_up_def by (intro floor_mono) simp

lemma half_up_near: "of_int (half_up x) \<le> x + 1 / 2" "x - 1 / 2 < of_int (half_up x)"
  unfolding half_up_def by linarith+

lemma round_price_Inr:
  assumes "round_price d = Inr r" shows "0 < d" and "on_grid 5 r" and "0 \<le> r" and "r \<le> d + 1 / 2 / 10 ^ 5" and "d - 1 / 2 / 10 ^ 5 < r"
    and "r < 10 ^ 23"
proof -
  let ?m = "half_up (d * 10 ^ 5)"
  have m: "0 < d" "r = of_int ?m / 10 ^ 5" "?m < 10 ^ 28" using assms by (auto simp: round_price_def Let_def split: if_splits)
  note near = half_up_near [of "d * 10 ^ 5"]
  show "0 < d" by (rule m(1))
  show "on_grid 5 r" using m(2) by (auto simp: on_grid_def)
  have "0 \<le> ?m" using half_up_mono [of 0 "d * 10 ^ 5"] half_up_int [of 0] m(1) by simp
  then show "0 \<le> r" using m(2) by simp
  show "r \<le> d + 1 / 2 / 10 ^ 5" "d - 1 / 2 / 10 ^ 5 < r" using near by (simp_all add: m(2) field_simps)
  have "of_int ?m < (10::rat) ^ 28" using m(3) by (metis of_int_less_iff of_int_numeral of_int_power)
  then show "r < 10 ^ 23" by (simp add: m(2))
qed

lemma round_price_grid:
  assumes "0 < d" and "on_grid 5 d" and "d < 10 ^ 23" shows "round_price d = Inr d"
proof -
  obtain m where m: "d = of_int m / 10 ^ 5" using assms(2) by (auto simp: on_grid_def)
  have "(of_int m :: rat) < of_int (10 ^ 28)" using assms(3) by (simp add: m)
  then have "m < 10 ^ 28" by (simp only: of_int_less_iff)
  moreover have "d * 10 ^ 5 = of_int m" by (simp add: m)
  ultimately show ?thesis using assms(1) by (simp add: round_price_def Let_def m)
qed

lemma round_price_mono: "round_price x = Inr a \<Longrightarrow> round_price y = Inr b \<Longrightarrow> x \<le> y \<Longrightarrow> a \<le> b"
  using half_up_mono [of "x * 10 ^ 5" "y * 10 ^ 5"]
  by (auto simp: round_price_def Let_def divide_right_mono split: if_splits)

lemma on_grid_fits: "on_grid 5 x \<Longrightarrow> \<bar>x\<bar> \<le> 10 ^ n \<Longrightarrow> fits (n + 5) 5 x"
proof -
  assume "on_grid 5 x" and b: "\<bar>x\<bar> \<le> 10 ^ n"
  then obtain m where m: "x = of_int m / 10 ^ 5" by (auto simp: on_grid_def)
  have "of_int \<bar>m\<bar> \<le> (of_int (10 ^ (n + 5)) :: rat)" using b by (simp add: m power_add field_simps abs_mult)
  then show ?thesis using m unfolding fits_def by (intro exI [of _ m]) (simp only: of_int_le_iff)
qed

lemma on_grid_diff: "on_grid k x \<Longrightarrow> on_grid k y \<Longrightarrow> on_grid k (x - y)"
  and on_grid_add: "on_grid k x \<Longrightarrow> on_grid k y \<Longrightarrow> on_grid k (x + y)"
  unfolding on_grid_def by (metis diff_divide_distrib of_int_diff) (metis add_divide_distrib of_int_add)

end
