(* ===== verification/Pullback.thy ===== *)
theory Pullback
  imports DecimalText
begin

text \<open>
  \<open>execution/eurusd_pullback.py\<close>: the limit entry of the demo account (price, stop, target and expiry), the H1
  EMA(200) filter, and the scale-out steps of a filled position. Decimals are exact results rounded to 28
  digits. The rounder is an argument, as in the code, with \<open>round_price\<close> (\<open>round_fx\<close>) as its value at
  every call site. A row of bars that cannot be indexed is the empty row; what pandas returns for a frame (the
  triples of its High, Low and Close columns in index order, or an exception) is part of the input.
\<close>

definition STRATEGY :: string where "STRATEGY = ''EURUSD_H1_PULLBACK''"
definition PULLBACK_SYMBOL :: string where "PULLBACK_SYMBOL = ''EURUSD''"
definition EMA_PERIOD :: nat where "EMA_PERIOD = 200"
definition LIMIT_OFFSET :: rat where "LIMIT_OFFSET = dec28 (25 / 2 * (1 / 10000))"
definition LIMIT_TTL :: int where "LIMIT_TTL = 24 * HOUR"
definition HALF_R :: rat where "HALF_R = 1 / 2"
definition ONE_R :: rat where "ONE_R = 1"
definition FILL_SLACK_PIPS :: rat where "FILL_SLACK_PIPS = 1 / 5"

definition pullback_flag :: "string option \<Rightarrow> bool" where
  "pullback_flag v \<longleftrightarrow> v \<noteq> Some ''0''"

section \<open>Bars and the EMA filter\<close>

type_synonym hlc = "rat \<times> rat \<times> rat"

fun hlc_row :: "pynum list \<Rightarrow> hlc option" where
  "hlc_row (h # l # c # _) = (case (as_decimal h, as_decimal l, as_decimal c) of
     (Some high, Some low, Some close) \<Rightarrow>
       if min high (min low close) \<le> 0 then None
       else if high < low \<or> high < max low close \<or> min high close < low then None
       else Some (high, low, close)
   | _ \<Rightarrow> None)"
| "hlc_row _ = None"

fun triples :: "pynum list list \<Rightarrow> hlc list option" where
  "triples [] = Some []"
| "triples (r # rs) = (case hlc_row r of None \<Rightarrow> None | Some b \<Rightarrow> map_option (Cons b) (triples rs))"

datatype bars_input = No_Bars | Rows "pynum list list" | Frame "pynum list list option"

fun bars_from_frame :: "bars_input \<Rightarrow> hlc list option" where
  "bars_from_frame No_Bars = None"
| "bars_from_frame (Rows rows) = triples rows"
| "bars_from_frame (Frame rows) = Option.bind rows triples"

definition ema :: "nat \<Rightarrow> rat list \<Rightarrow> rat option" where
  "ema period closes = (if length closes < period \<or> period < 1 then None
     else let seed = dec28 (foldl (\<lambda>a x. dec28 (a + x)) 0 (take period closes) / of_nat period);
              weight = dec28 (2 / of_nat (period + 1))
          in Some (foldl (\<lambda>value price. dec28 (dec28 (price * weight) + dec28 (value * dec28 (1 - weight)))) seed (drop period closes)))"

definition trend_side :: "rat \<Rightarrow> rat \<Rightarrow> side option" where
  "trend_side price ema_value = (if ema_value < price then Some LONG else if price < ema_value then Some SHORT else None)"

section \<open>The limit and its levels\<close>

definition limit_price :: "side \<Rightarrow> rat \<Rightarrow> rat \<Rightarrow> py_error + rat" where
  "limit_price sd signal offset = (if sd = LONG then Inr (dec28 (signal - offset)) else if sd = SHORT then Inr (dec28 (signal + offset))
     else Inl (ValueError ''side must be LONG or SHORT''))"

definition limit_order_ok :: "side \<Rightarrow> rat \<Rightarrow> rat \<Rightarrow> rat \<Rightarrow> bool" where
  "limit_order_ok sd limit stop target = (if sd = LONG then stop < limit \<and> limit < target
     else if sd = SHORT then target < limit \<and> limit < stop else False)"

definition limit_expiry :: "hold_config \<Rightarrow> instant option \<Rightarrow> (py_error + instant) option" where
  "limit_expiry c submitted = (case submitted of
     None \<Rightarrow> Some (Inl (ValueError ''timezone-aware datetime required''))
   | Some t \<Rightarrow> if entries_blocked c t then Some (Inr t)
       else map_option (\<lambda>cap. Inr (if t + LIMIT_TTL \<le> cap then t + LIMIT_TTL else cap)) (friday_flatten_after c t))"

type_synonym rounder = "rat \<Rightarrow> py_error + rat"
type_synonym levels = "rat \<times> rat \<times> clamp_action \<times> rat"

definition limit_levels :: "string \<Rightarrow> rounder \<Rightarrow> side \<Rightarrow> rat \<Rightarrow> rat \<Rightarrow> py_error + (string + levels)" where
  "limit_levels symbol rounder sd limit structural =
    (if (sd = LONG \<and> \<not> structural < limit) \<or> (sd = SHORT \<and> \<not> limit < structural) then Inr (Inl ''limit_through_stop'')
     else ebind (clamp_stop symbol sd limit structural) (\<lambda>(raw_stop, action, pips).
       ebind (rounder raw_stop) (\<lambda>stop.
       let risk = \<bar>dec28 (limit - stop)\<bar> in
       if risk \<le> 0 \<or> (sd = LONG \<and> \<not> stop < limit) \<or> (sd = SHORT \<and> \<not> limit < stop) then Inr (Inl ''limit_through_stop'')
       else let raw = (if sd = LONG then dec28 (limit + dec28 (FX_TP_RR * risk)) else dec28 (limit - dec28 (FX_TP_RR * risk))) in
       if raw \<le> 0 then Inr (Inl ''target_invalid'')
       else ebind (rounder raw) (\<lambda>target.
         if target \<noteq> raw then Inr (Inl ''target_not_on_price_grid'')
         else case geometry sd (PDec limit) (PDec stop) (PDec target) of
           Inl _ \<Rightarrow> Inr (Inl ''limit_rr_invalid'')
         | Inr shape \<Rightarrow> ebind (classify (g_rr shape) POLICY_FX) (\<lambda>c.
             if c \<noteq> WITHIN_POLICY then Inr (Inl ''limit_rr_invalid'') else Inr (Inr (stop, target, action, pips)))))))"

record pullback_plan =
  pb_limit :: rat
  pb_ema :: rat
  pb_price :: rat
  pb_risk :: rat
  pb_stop :: rat
  pb_target :: rat
  pb_clamp :: clamp_action
  pb_structural_pips :: rat

text \<open>\<open>except (ValueError, ArithmeticError, TypeError)\<close>.\<close>

fun caught :: "py_error \<Rightarrow> bool" where
  "caught (ValueError _) = True"
| "caught (TypeError _) = True"
| "caught ZeroDivision = True"
| "caught InvalidOperation = True"
| "caught _ = False"

definition guarded :: "string \<Rightarrow> py_error + (string + 'a) \<Rightarrow> py_error + (string + 'a)" where
  "guarded reason m = (case m of Inl e \<Rightarrow> if caught e then Inr (Inl reason) else Inl e | Inr r \<Rightarrow> Inr r)"

text \<open>Statements that may end the function early, with a reason.\<close>

definition or_reason :: "py_error + (string + 'a) \<Rightarrow> ('a \<Rightarrow> py_error + (string + 'b)) \<Rightarrow> py_error + (string + 'b)" where
  "or_reason m f = ebind m (\<lambda>r. case r of Inl reason \<Rightarrow> Inr (Inl reason) | Inr x \<Rightarrow> f x)"

fun named_price :: "string \<Rightarrow> pynum \<Rightarrow> py_error + (string + rat)" where
  "named_price name (PDec d) = (if 0 < d then Inr (Inr d) else Inr (Inl (name @ ''_invalid'')))"
| "named_price name _ = Inr (Inl (name @ ''_invalid''))"

text \<open>The order for a signal that passed the filter: the limit, its levels, the last check.\<close>

definition pullback_order :: "rounder \<Rightarrow> side \<Rightarrow> rat \<Rightarrow> rat \<Rightarrow> rat \<Rightarrow> rat \<Rightarrow> py_error + (string + pullback_plan)" where
  "pullback_order rounder sd sig edge ema_value price =
    ebind (limit_price sd sig LIMIT_OFFSET) (\<lambda>raw.
      or_reason (guarded ''limit_invalid'' (ebind (rounder raw) (\<lambda>r. Inr (Inr r)))) (\<lambda>limit.
      or_reason (guarded ''limit_invalid'' (limit_levels PULLBACK_SYMBOL rounder sd limit edge)) (\<lambda>(new_stop, new_target, action, pips).
        if \<not> limit_order_ok sd limit new_stop new_target then Inr (Inl ''limit_through_stop'')
        else Inr (Inr \<lparr>pb_limit = limit, pb_ema = ema_value, pb_price = price, pb_risk = \<bar>dec28 (limit - new_stop)\<bar>,
               pb_stop = new_stop, pb_target = new_target, pb_clamp = action, pb_structural_pips = pips\<rparr>))))"

text \<open>The filter: the bars, the average of their closes, the side they allow.\<close>

definition pullback_from_bars :: "rounder \<Rightarrow> side \<Rightarrow> rat \<Rightarrow> rat \<Rightarrow> bars_input \<Rightarrow> py_error + (string + pullback_plan)" where
  "pullback_from_bars rounder sd sig edge bars =
    (case bars_from_frame bars of None \<Rightarrow> Inr (Inl ''h1_no_data'') | Some parsed \<Rightarrow>
       if parsed = [] \<or> length parsed < EMA_PERIOD then Inr (Inl ''h1_no_data'')
       else let closes = map (\<lambda>(_, _, c). c) parsed in
       case ema EMA_PERIOD closes of None \<Rightarrow> Inr (Inl ''h1_no_data'') | Some ema_value \<Rightarrow>
       let price = last closes in
       case trend_side price ema_value of None \<Rightarrow> Inr (Inl ''trend_flat'') | Some allowed \<Rightarrow>
       if allowed \<noteq> sd then Inr (Inl ''trend_filter'')
       else pullback_order rounder sd sig edge ema_value price)"

definition plan_pullback ::
  "rounder \<Rightarrow> side \<Rightarrow> pynum \<Rightarrow> pynum \<Rightarrow> pynum \<Rightarrow> bars_input \<Rightarrow> pynum \<Rightarrow> py_error + (string + pullback_plan)" where
  "plan_pullback rounder sd signal stop target bars structural =
    (if sd \<noteq> LONG \<and> sd \<noteq> SHORT then Inr (Inl ''side_invalid'')
     else or_reason (named_price ''signal'' signal) (\<lambda>sig. or_reason (named_price ''stop'' stop) (\<lambda>_.
       or_reason (named_price ''target'' target) (\<lambda>_.
       or_reason (named_price ''structural'' (if structural = PNone then stop else structural)) (\<lambda>edge.
       pullback_from_bars rounder sd sig edge bars)))))"

section \<open>Management steps\<close>

datatype scale_stage = NONE | HALF | ONE | TRAIL | OtherStage string

datatype step_kind = PARTIAL | STOP | MARK

record manage_step =
  ms_kind :: step_kind
  ms_stage :: scale_stage
  ms_label :: string
  ms_journals :: "string list"
  ms_units :: "int option"
  ms_remaining :: "int option"
  ms_stop :: "rat option"

definition level_at :: "side \<Rightarrow> rat \<Rightarrow> rat \<Rightarrow> rat \<Rightarrow> rat" where
  "level_at sd anchor risk multiple = (let delta = dec28 (risk * multiple) in if sd = LONG then dec28 (anchor + delta) else dec28 (anchor - delta))"

definition level_reached :: "side \<Rightarrow> rat \<Rightarrow> rat \<Rightarrow> bool" where
  "level_reached sd price level \<longleftrightarrow> (if sd = LONG then level \<le> price else price \<le> level)"

definition trail_stop :: "side \<Rightarrow> rat \<Rightarrow> rat \<Rightarrow> rat \<Rightarrow> py_error + rat" where
  "trail_stop sd anchor risk price = (if sd = LONG then Inr (max (dec28 (price - risk)) anchor)
     else if sd = SHORT then Inr (min (dec28 (price + risk)) anchor) else Inl (ValueError ''side must be LONG or SHORT''))"

definition tighter :: "side \<Rightarrow> rat \<Rightarrow> rat option \<Rightarrow> bool" where
  "tighter sd new current \<longleftrightarrow> (case current of None \<Rightarrow> True | Some c \<Rightarrow> if sd = LONG then c < new else new < c)"

definition can_partial :: "int \<Rightarrow> int \<Rightarrow> bool \<times> int" where
  "can_partial units remaining = (let qty = units div 3 in (1 \<le> qty \<and> 1 \<le> remaining - qty, qty))"

text \<open>One scale-out: the step it adds, and the stage and units it leaves.\<close>

definition partial_if ::
  "bool \<Rightarrow> int \<Rightarrow> scale_stage \<Rightarrow> string \<Rightarrow> scale_stage \<times> int \<times> manage_step list \<Rightarrow> scale_stage \<times> int \<times> manage_step list" where
  "partial_if due units next_stage label st = (case st of (stage, left, steps) \<Rightarrow>
     case can_partial units left of (ok, qty) \<Rightarrow>
       if due \<and> ok then (next_stage, left - qty, steps @ [\<lparr>ms_kind = PARTIAL, ms_stage = next_stage, ms_label = label,
         ms_journals = [''PARTIAL_CLOSE''], ms_units = Some qty, ms_remaining = Some (left - qty), ms_stop = None\<rparr>])
       else st)"

text \<open>The arguments that are not finite \<open>Decimal\<close>s, and units that are not an \<open>int\<close>, are \<open>None\<close>.\<close>

definition management_steps ::
  "side \<Rightarrow> rat option \<Rightarrow> rat option \<Rightarrow> int option \<Rightarrow> scale_stage option \<Rightarrow> int option \<Rightarrow> rat option \<Rightarrow> rat option \<Rightarrow> py_error + manage_step list" where
  "management_steps sd anchor risk units stage remaining price stop =
    (case (anchor, risk, price, units) of
       (Some a, Some r, Some p, Some u) \<Rightarrow>
         if (sd \<noteq> LONG \<and> sd \<noteq> SHORT) \<or> r \<le> 0 \<or> u < 1 then Inr []
         else let st = (if stage = None \<or> stage = Some (OtherStage []) then NONE else the stage) in
         if st = TRAIL then ebind (trail_stop sd a r p) (\<lambda>new.
           Inr (if tighter sd new stop then [\<lparr>ms_kind = STOP, ms_stage = TRAIL, ms_label = ''TRAIL'', ms_journals = [''TRAIL''],
             ms_units = None, ms_remaining = remaining, ms_stop = Some new\<rparr>] else []))
         else let left = (case remaining of None \<Rightarrow> u | Some n \<Rightarrow> n); half = level_at sd a r HALF_R; one = level_at sd a r ONE_R;
                  first = partial_if (st = NONE \<and> level_reached sd p half) u HALF ''0.5R'' (st, left, []) in
              case partial_if (fst first = HALF \<and> level_reached sd p one) u ONE ''1R'' first of (st, left, steps) \<Rightarrow>
              if \<not> (level_reached sd p one \<and> (st = ONE \<or> (st = NONE \<and> u div 3 < 1) \<or> (st = HALF \<and> \<not> fst (can_partial u left))))
              then Inr steps
              else ebind (trail_stop sd a r p) (\<lambda>new.
                let beyond = (new \<noteq> a \<and> ((sd = LONG \<and> a < new) \<or> (sd = SHORT \<and> new < a)));
                    better = tighter sd new stop
                in Inr (steps @ [\<lparr>ms_kind = (if better then STOP else MARK), ms_stage = TRAIL, ms_label = ''BE'',
                     ms_journals = (if beyond then [''BREAKEVEN'', ''TRAIL''] else [''BREAKEVEN'']), ms_units = None,
                     ms_remaining = Some left, ms_stop = (if better then Some new else None)\<rparr>]))
     | _ \<Rightarrow> Inr [])"

section \<open>Fills\<close>

datatype verdict = Pending_Fill | Accepted_Fill | Worse_Fill

definition limit_fill_verdict :: "rat option \<Rightarrow> rat \<Rightarrow> side \<Rightarrow> rat \<Rightarrow> rat option \<Rightarrow> py_error + verdict" where
  "limit_fill_verdict pip slack_pips sd limit fill = (case fill of None \<Rightarrow> Inr Pending_Fill | Some f \<Rightarrow>
     (case pip of None \<Rightarrow> Inl (ValueError ''side and pip are required'') | Some p \<Rightarrow>
       if (sd \<noteq> LONG \<and> sd \<noteq> SHORT) \<or> p \<le> 0 then Inl (ValueError ''side and pip are required'')
       else let slack = dec28 (slack_pips * p) in
         Inr (if (if sd = LONG then f \<le> dec28 (limit + slack) else dec28 (limit - slack) \<le> f) then Accepted_Fill else Worse_Fill)))"

definition market_anchor ::
  "rounder \<Rightarrow> rat \<Rightarrow> rat \<Rightarrow> rat \<Rightarrow> rat \<Rightarrow> rat \<Rightarrow> rat \<Rightarrow> py_error + (rat \<times> rat \<times> rat) option" where
  "market_anchor rounder pip max_pips entry stop target quote_fill = ebind (rounder quote_fill) (\<lambda>fill.
     let delta = dec28 (fill - entry) in
     if pip = 0 then Inl (if delta = 0 then InvalidOperation else ZeroDivision)
     else if max_pips < \<bar>dec28 (delta / pip)\<bar> then Inr None
     else ebind (rounder (dec28 (stop + delta))) (\<lambda>s. ebind (rounder (dec28 (target + delta))) (\<lambda>t. Inr (Some (fill, s, t)))))"

datatype anchor_result =
    Pending_Order "rat \<times> rat \<times> rat" | Fill_Verdict verdict "rat \<times> rat \<times> rat" | Skipped_Anchor "rat \<times> rat \<times> rat"
  | Refused_Anchor | Anchored "rat \<times> rat \<times> rat"

definition anchor_outcome ::
  "rounder \<Rightarrow> rat option \<Rightarrow> rat \<Rightarrow> string \<Rightarrow> bool \<Rightarrow> side \<Rightarrow> rat \<times> rat \<times> rat \<Rightarrow> rat \<Rightarrow> rat \<Rightarrow> rat option \<Rightarrow> py_error + anchor_result" where
  "anchor_outcome rounder pip max_pips kind pending sd levels quote_fill limit fill =
    (if kind = ''LIMIT'' then
       if pending \<or> fill = None then Inr (Pending_Order levels)
       else ebind (limit_fill_verdict pip FILL_SLACK_PIPS sd limit fill) (\<lambda>v. Inr (Fill_Verdict v levels))
     else if kind \<noteq> ''MARKET'' then Inl (ValueError ''kind must be MARKET or LIMIT'')
     else case levels of (entry, stop, target) \<Rightarrow>
       (case (case pip of None \<Rightarrow> Inl (TypeError ''operand'') | Some p \<Rightarrow> market_anchor rounder p max_pips entry stop target quote_fill) of
          Inl e \<Rightarrow> if caught e then Inr (Skipped_Anchor levels) else Inl e
        | Inr None \<Rightarrow> Inr Refused_Anchor
        | Inr (Some l) \<Rightarrow> Inr (Anchored l)))"

section \<open>Facts\<close>

lemma round_price_caught: "round_price d = Inl e \<Longrightarrow> caught e"
  by (auto simp: round_price_def Let_def split: if_splits)

lemma clamp_stop_caught: "clamp_stop PULLBACK_SYMBOL sd limit edge = Inl e \<Longrightarrow> caught e"
  by (auto simp: clamp_stop_def clamp_stop_in_def Let_def PULLBACK_SYMBOL_def pip_size_def is_fx_def FIAT_def split: if_splits)

lemma classify_fx: "\<exists>c. classify rr POLICY_FX = Inr c"
  by (simp add: classify_def classify_in_def)

lemma ebind_Inl_iff: "ebind m f = Inl e \<longleftrightarrow> m = Inl e \<or> (\<exists>x. m = Inr x \<and> f x = Inl e)"
  by (cases m) auto

lemma limit_levels_caught:
  assumes "limit_levels PULLBACK_SYMBOL round_price sd limit edge = Inl e" shows "caught e"
proof -
  have "\<not> (\<exists>rr e. classify rr POLICY_FX = Inl e)" using classify_fx by (metis sum.distinct(1))
  then show ?thesis
    using assms clamp_stop_caught round_price_caught
    by (auto simp: limit_levels_def Let_def ebind_Inl_iff split: if_splits sum.splits)
qed

text \<open>The levels of an order that is sent.\<close>

definition levels_ok :: "side \<Rightarrow> rat \<Rightarrow> rat \<Rightarrow> rat \<Rightarrow> rat \<Rightarrow> bool" where
  "levels_ok sd limit edge stop target \<longleftrightarrow> limit_order_ok sd limit stop target
     \<and> (if sd = LONG then edge < limit else limit < edge) \<and> on_grid 5 stop \<and> on_grid 5 target
     \<and> (\<exists>shape. geometry sd (PDec limit) (PDec stop) (PDec target) = Inr shape \<and> classify (g_rr shape) POLICY_FX = Inr WITHIN_POLICY)"

lemma limit_levels_sent:
  assumes "limit_levels symbol round_price sd limit edge = Inr (Inr (stop, target, action, pips))" and "sd = LONG \<or> sd = SHORT"
  shows "levels_ok sd limit edge stop target" and "0 < \<bar>dec28 (limit - stop)\<bar>"
    and "\<exists>raw. clamp_stop symbol sd limit edge = Inr (raw, action, pips) \<and> round_price raw = Inr stop"
    and "target = (if sd = LONG then dec28 (limit + dec28 (FX_TP_RR * \<bar>dec28 (limit - stop)\<bar>))
           else dec28 (limit - dec28 (FX_TP_RR * \<bar>dec28 (limit - stop)\<bar>)))"
proof -
  have *: "levels_ok sd limit edge stop target \<and> 0 < \<bar>dec28 (limit - stop)\<bar>
     \<and> (\<exists>raw. clamp_stop symbol sd limit edge = Inr (raw, action, pips) \<and> round_price raw = Inr stop)
     \<and> target = (if sd = LONG then dec28 (limit + dec28 (FX_TP_RR * \<bar>dec28 (limit - stop)\<bar>))
           else dec28 (limit - dec28 (FX_TP_RR * \<bar>dec28 (limit - stop)\<bar>)))"
    using assms round_price_Inr(2)
    by (auto simp: limit_levels_def levels_ok_def limit_order_ok_def Let_def ebind_eq_Inr geometry_def
        split: if_splits sum.splits prod.splits option.splits)
  then show "levels_ok sd limit edge stop target" "0 < \<bar>dec28 (limit - stop)\<bar>"
    "\<exists>raw. clamp_stop symbol sd limit edge = Inr (raw, action, pips) \<and> round_price raw = Inr stop"
    "target = (if sd = LONG then dec28 (limit + dec28 (FX_TP_RR * \<bar>dec28 (limit - stop)\<bar>))
           else dec28 (limit - dec28 (FX_TP_RR * \<bar>dec28 (limit - stop)\<bar>)))" by blast+
qed

text \<open>On prices of at most 27 digits the stop is exactly 25 pips from the limit and the target 50.\<close>

lemma fits_50_pips: "4 \<le> k \<Longrightarrow> k \<le> 20 \<Longrightarrow> fits 27 k (50 / 10000)"
proof -
  assume k: "4 \<le> k" "k \<le> 20"
  have pk: "(10::rat) ^ k = 10 ^ 4 * 10 ^ (k - 4)" using power_add [of "10::rat" 4 "k - 4"] k(1) by simp
  have "(10::int) ^ (k - 4) \<le> 10 ^ 16" using k(2) by (intro power_increasing) auto
  then have b: "50 * (10::int) ^ (k - 4) \<le> 10 ^ 27" by simp
  have "50 / 10000 = of_int (50 * 10 ^ (k - 4)) / (10::rat) ^ k" by (simp add: pk)
  then show ?thesis unfolding fits_def using b by (intro exI [of _ "50 * 10 ^ (k - 4)"]) auto
qed

lemma limit_levels_exact:
  assumes lv: "limit_levels PULLBACK_SYMBOL round_price sd limit edge = Inr (Inr (stop, target, action, pips))"
    and sd: "sd = LONG \<or> sd = SHORT" and k: "5 \<le> k" "k \<le> 20" and grid: "on_grid 5 limit" and fits: "fits 27 k limit" "fits 27 k edge"
  shows "stop = (if sd = LONG then limit - 25 / 10000 else limit + 25 / 10000)"
    and "target = (if sd = LONG then limit + 50 / 10000 else limit - 50 / 10000)"
proof -
  have pip: "pip_size PULLBACK_SYMBOL = Inr (1 / 10000)" by (simp add: pip_size_def is_fx_def FIAT_def PULLBACK_SYMBOL_def)
  note sent = limit_levels_sent [OF lv sd]
  have side: "sd = LONG \<and> edge < limit \<or> sd = SHORT \<and> limit < edge" using sent(1) sd by (auto simp: levels_ok_def)
  have k4: "4 \<le> k" using k by simp
  obtain raw where raw: "clamp_stop PULLBACK_SYMBOL sd limit edge = Inr (raw, action, pips)" "round_price raw = Inr stop" using sent(3) by blast
  have raw_eq: "raw = (if sd = LONG then limit - 25 / 10000 else limit + 25 / 10000)"
    using raw(1) clamp_stop_25 [OF pip k4 k(2) fits side] by (auto split: if_splits)
  have "on_grid 5 (25 / 10000)" unfolding on_grid_def by (rule exI [of _ 250]) simp
  then have rg: "on_grid 5 raw" unfolding raw_eq using on_grid_diff [OF grid] on_grid_add [OF grid] by simp
  have "\<bar>limit\<bar> \<le> 10 ^ 22"
  proof -
    obtain m where m: "limit = of_int m / 10 ^ k" "\<bar>m\<bar> \<le> 10 ^ 27" using fits(1) by (auto simp: fits_def)
    have "(10::int) ^ 27 \<le> 10 ^ 22 * 10 ^ k" using power_increasing [of 27 "22 + k" "10::int"] k(1) by (simp only: power_add)
    then have "\<bar>m\<bar> \<le> 10 ^ 22 * 10 ^ k" using m(2) by linarith
    then have "of_int \<bar>m\<bar> \<le> (of_int (10 ^ 22 * 10 ^ k) :: rat)" by (simp only: of_int_le_iff)
    then show ?thesis by (simp add: m(1) field_simps)
  qed
  then have "raw < 10 ^ 23" unfolding raw_eq by (auto simp: abs_le_iff)
  then have stop: "stop = raw" using round_price_grid [OF round_price_Inr(1) [OF raw(2)] rg] raw(2) by simp
  then show "stop = (if sd = LONG then limit - 25 / 10000 else limit + 25 / 10000)" by (simp only: raw_eq)
  have d: "dec28 (25 / 10000) = 25 / 10000" "dec28 (- (25 / 10000)) = - (25 / 10000)" "dec28 (50 / 10000) = 50 / 10000"
    using dec28_small_frac [of 25 4] dec28_small_frac [of "- 25" 4] dec28_small_frac [of 50 4] by simp_all
  have "limit - stop = 25 / 10000 \<or> limit - stop = - (25 / 10000)" using stop raw_eq by auto
  then have risk: "\<bar>dec28 (limit - stop)\<bar> = 25 / 10000" using d by (elim disjE) (simp_all only: d)
  have e: "FX_TP_RR * (25 / 10000) = 50 / 10000" by (simp add: FX_TP_RR_def)
  have t: "dec28 (FX_TP_RR * (25 / 10000)) = 50 / 10000" unfolding e by (rule d(3))
  show "target = (if sd = LONG then limit + 50 / 10000 else limit - 50 / 10000)"
    using sent(4) unfolding risk t
    by (simp only: dec28_add_exact [OF fits(1) fits_50_pips [OF k4 k(2)]] dec28_diff_exact [OF fits(1) fits_50_pips [OF k4 k(2)]])
qed

definition PULLBACK_REASONS :: "string list" where
  "PULLBACK_REASONS = [''side_invalid'', ''signal_invalid'', ''stop_invalid'', ''target_invalid'', ''structural_invalid'', ''h1_no_data'',
     ''trend_flat'', ''trend_filter'', ''limit_invalid'', ''limit_through_stop'', ''target_not_on_price_grid'', ''limit_rr_invalid'']"

text \<open>What a plan says about the request it answers.\<close>

definition plan_answers :: "side \<Rightarrow> pynum \<Rightarrow> pynum \<Rightarrow> bars_input \<Rightarrow> pynum \<Rightarrow> pullback_plan \<Rightarrow> bool" where
  "plan_answers sd signal stop bars structural p \<longleftrightarrow>
    (\<exists>sig edge parsed. signal = PDec sig \<and> 0 < sig \<and> (if structural = PNone then stop else structural) = PDec edge
      \<and> bars_from_frame bars = Some parsed \<and> EMA_PERIOD \<le> length parsed
      \<and> ema EMA_PERIOD (map (\<lambda>(_, _, c). c) parsed) = Some (pb_ema p) \<and> pb_price p = (case last parsed of (_, _, c) \<Rightarrow> c)
      \<and> trend_side (pb_price p) (pb_ema p) = Some sd \<and> on_grid 5 (pb_limit p)
      \<and> round_price (if sd = LONG then dec28 (sig - LIMIT_OFFSET) else dec28 (sig + LIMIT_OFFSET)) = Inr (pb_limit p)
      \<and> levels_ok sd (pb_limit p) edge (pb_stop p) (pb_target p)
      \<and> (\<forall>k. 5 \<le> k \<and> k \<le> 20 \<and> fits 27 k (pb_limit p) \<and> fits 27 k edge \<longrightarrow>
          \<bar>pb_limit p - pb_stop p\<bar> = 25 / 10000 \<and> \<bar>pb_target p - pb_limit p\<bar> = 50 / 10000))"

lemma or_reason_outcome:
  assumes "\<exists>r. m = Inr r \<and> (\<forall>w. r = Inl w \<longrightarrow> good w)"
    and "\<And>x. m = Inr (Inr x) \<Longrightarrow> \<exists>r. f x = Inr r \<and> (\<forall>w. r = Inl w \<longrightarrow> good w) \<and> (\<forall>y. r = Inr y \<longrightarrow> ok y)"
  shows "\<exists>r. or_reason m f = Inr r \<and> (\<forall>w. r = Inl w \<longrightarrow> good w) \<and> (\<forall>y. r = Inr y \<longrightarrow> ok y)"
proof -
  obtain r where "m = Inr r" "\<forall>w. r = Inl w \<longrightarrow> good w" using assms(1) by blast
  then show ?thesis using assms(2) by (cases r) (simp_all add: or_reason_def)
qed

lemma named_price_outcome: "\<exists>r. named_price name v = Inr r \<and> (\<forall>w. r = Inl w \<longrightarrow> w = name @ ''_invalid'')"
  by (cases v) auto

lemma named_price_PDec: "named_price name v = Inr (Inr d) \<Longrightarrow> v = PDec d \<and> 0 < d"
  by (cases v) (auto split: if_splits)

lemma guarded_outcome:
  "(\<And>e. m = Inl e \<Longrightarrow> caught e) \<Longrightarrow> (\<And>w. m = Inr (Inl w) \<Longrightarrow> good w) \<Longrightarrow> good reason \<Longrightarrow> \<exists>r. guarded reason m = Inr r \<and> (\<forall>w. r = Inl w \<longrightarrow> good w)"
  by (cases m) (auto simp: guarded_def)

lemma limit_levels_reason:
  "limit_levels symbol rounder sd limit edge = Inr (Inl w) \<Longrightarrow>
   w \<in> {''limit_through_stop'', ''target_invalid'', ''target_not_on_price_grid'', ''limit_rr_invalid''}"
  by (auto simp: limit_levels_def Let_def ebind_eq_Inr split: if_splits sum.split_asm prod.splits) (metis sum.exhaust)+

lemma ema_some: "period \<le> length closes \<Longrightarrow> 1 \<le> period \<Longrightarrow> \<exists>v. ema period closes = Some v"
  by (simp add: ema_def Let_def)

section \<open>Properties\<close>

lemma levels_answer:
  assumes lv: "limit_levels PULLBACK_SYMBOL round_price sd limit edge = Inr (Inr (stop, target, action, pips))" and sd: "sd = LONG \<or> sd = SHORT"
    and grid: "on_grid 5 limit"
  shows "levels_ok sd limit edge stop target" and "limit_order_ok sd limit stop target"
    and "\<forall>k. 5 \<le> k \<and> k \<le> 20 \<and> fits 27 k limit \<and> fits 27 k edge \<longrightarrow> \<bar>limit - stop\<bar> = 25 / 10000 \<and> \<bar>target - limit\<bar> = 50 / 10000"
proof -
  show ok: "levels_ok sd limit edge stop target" by (rule limit_levels_sent(1) [OF lv sd])
  then show "limit_order_ok sd limit stop target" by (simp add: levels_ok_def)
  show "\<forall>k. 5 \<le> k \<and> k \<le> 20 \<and> fits 27 k limit \<and> fits 27 k edge \<longrightarrow> \<bar>limit - stop\<bar> = 25 / 10000 \<and> \<bar>target - limit\<bar> = 50 / 10000"
    using limit_levels_exact [OF lv sd _ _ grid] by auto
qed

lemma pullback_order_outcome:
  assumes "sd = LONG \<or> sd = SHORT"
  shows "\<exists>r. pullback_order round_price sd sig edge ema_value price = Inr r \<and> (\<forall>w. r = Inl w \<longrightarrow> w \<in> set PULLBACK_REASONS)
     \<and> (\<forall>p. r = Inr p \<longrightarrow> pb_ema p = ema_value \<and> pb_price p = price \<and> on_grid 5 (pb_limit p)
          \<and> round_price (if sd = LONG then dec28 (sig - LIMIT_OFFSET) else dec28 (sig + LIMIT_OFFSET)) = Inr (pb_limit p)
          \<and> levels_ok sd (pb_limit p) edge (pb_stop p) (pb_target p)
          \<and> (\<forall>k. 5 \<le> k \<and> k \<le> 20 \<and> fits 27 k (pb_limit p) \<and> fits 27 k edge \<longrightarrow>
              \<bar>pb_limit p - pb_stop p\<bar> = 25 / 10000 \<and> \<bar>pb_target p - pb_limit p\<bar> = 50 / 10000))"
proof -
  let ?good = "\<lambda>w. w \<in> set PULLBACK_REASONS"
  define raw where "raw = (if sd = LONG then dec28 (sig - LIMIT_OFFSET) else dec28 (sig + LIMIT_OFFSET))"
  have raw: "limit_price sd sig LIMIT_OFFSET = Inr raw" using assms by (auto simp: limit_price_def raw_def)
  have first: "\<exists>r. guarded ''limit_invalid'' (ebind (round_price raw) (\<lambda>r. Inr (Inr r))) = Inr r \<and> (\<forall>w. r = Inl w \<longrightarrow> ?good w)"
    by (rule guarded_outcome) (auto simp: ebind_Inl_iff ebind_eq_Inr PULLBACK_REASONS_def dest: round_price_caught)
  have second: "\<exists>r. guarded ''limit_invalid'' (limit_levels PULLBACK_SYMBOL round_price sd limit edge) = Inr r \<and> (\<forall>w. r = Inl w \<longrightarrow> ?good w)" for limit
    by (rule guarded_outcome) (auto simp: PULLBACK_REASONS_def dest: limit_levels_caught dest!: limit_levels_reason)
  show ?thesis
    unfolding pullback_order_def raw ebind_Inr raw_def [symmetric]
  proof (rule or_reason_outcome [OF first], rule or_reason_outcome [OF second])
    fix limit x
    assume l: "guarded ''limit_invalid'' (ebind (round_price raw) (\<lambda>r. Inr (Inr r))) = Inr (Inr limit)"
      and x: "guarded ''limit_invalid'' (limit_levels PULLBACK_SYMBOL round_price sd limit edge) = Inr (Inr x)"
    have limit: "round_price raw = Inr limit" using l by (cases "round_price raw") (auto simp: guarded_def split: if_splits)
    obtain stop target action pips where x4: "x = (stop, target, action, pips)" by (metis prod_cases4)
    have lv: "limit_levels PULLBACK_SYMBOL round_price sd limit edge = Inr (Inr (stop, target, action, pips))"
      using x x4 by (cases "limit_levels PULLBACK_SYMBOL round_price sd limit edge") (auto simp: guarded_def split: if_splits)
    note a = levels_answer [OF lv assms round_price_Inr(2) [OF limit]]
    show "\<exists>r. (case x of (new_stop, new_target, action, pips) \<Rightarrow>
        if \<not> limit_order_ok sd limit new_stop new_target then Inr (Inl ''limit_through_stop'')
        else Inr (Inr \<lparr>pb_limit = limit, pb_ema = ema_value, pb_price = price, pb_risk = \<bar>dec28 (limit - new_stop)\<bar>,
               pb_stop = new_stop, pb_target = new_target, pb_clamp = action, pb_structural_pips = pips\<rparr>)) = Inr r
      \<and> (\<forall>w. r = Inl w \<longrightarrow> ?good w) \<and> (\<forall>p. r = Inr p \<longrightarrow> pb_ema p = ema_value \<and> pb_price p = price \<and> on_grid 5 (pb_limit p)
          \<and> round_price raw = Inr (pb_limit p) \<and> levels_ok sd (pb_limit p) edge (pb_stop p) (pb_target p)
          \<and> (\<forall>k. 5 \<le> k \<and> k \<le> 20 \<and> fits 27 k (pb_limit p) \<and> fits 27 k edge \<longrightarrow>
              \<bar>pb_limit p - pb_stop p\<bar> = 25 / 10000 \<and> \<bar>pb_target p - pb_limit p\<bar> = 50 / 10000))"
      using a limit round_price_Inr(2) [OF limit] by (simp add: x4)
  qed
qed

lemma pullback_from_bars_outcome:
  assumes sd: "sd = LONG \<or> sd = SHORT" and pr: "signal = PDec sig \<and> 0 < sig" "(if structural = PNone then stop else structural) = PDec edge \<and> 0 < edge"
  shows "\<exists>r. pullback_from_bars round_price sd sig edge bars = Inr r
     \<and> (\<forall>w. r = Inl w \<longrightarrow> w \<in> set PULLBACK_REASONS) \<and> (\<forall>p. r = Inr p \<longrightarrow> plan_answers sd signal stop bars structural p)"
proof (cases "\<exists>parsed. bars_from_frame bars = Some parsed \<and> EMA_PERIOD \<le> length parsed")
  case False
  have data: "''h1_no_data'' \<in> set PULLBACK_REASONS" by (simp add: PULLBACK_REASONS_def)
  show ?thesis using False data unfolding pullback_from_bars_def by (force split: option.split)
next
  case True
  then obtain parsed where bars: "bars_from_frame bars = Some parsed" "EMA_PERIOD \<le> length parsed" by blast
  have ne: "parsed \<noteq> []" "\<not> (parsed = [] \<or> length parsed < EMA_PERIOD)" using bars(2) by (auto simp: EMA_PERIOD_def)
  have data: "''trend_flat'' \<in> set PULLBACK_REASONS" "''trend_filter'' \<in> set PULLBACK_REASONS" by (simp_all add: PULLBACK_REASONS_def)
  let ?closes = "map (\<lambda>(_, _, c). c) parsed"
  obtain v where ema: "ema EMA_PERIOD ?closes = Some v" using ema_some [of EMA_PERIOD ?closes] bars(2) by (auto simp: EMA_PERIOD_def)
  note order = pullback_order_outcome [OF sd, of sig edge v "last ?closes"]
  show ?thesis
    unfolding pullback_from_bars_def bars(1) option.case if_not_P [OF ne(2)] Let_def ema
  proof (cases "trend_side (last ?closes) v = Some sd")
    case False
    then show "\<exists>r. (case trend_side (last ?closes) v of None \<Rightarrow> Inr (Inl ''trend_flat'') | Some allowed \<Rightarrow>
        if allowed \<noteq> sd then Inr (Inl ''trend_filter'') else pullback_order round_price sd sig edge v (last ?closes)) = Inr r
      \<and> (\<forall>w. r = Inl w \<longrightarrow> w \<in> set PULLBACK_REASONS) \<and> (\<forall>p. r = Inr p \<longrightarrow> plan_answers sd signal stop bars structural p)"
      using data by (auto split: option.split)
  next
    case True
    have "plan_answers sd signal stop bars structural p" if "pb_ema p = v \<and> pb_price p = last ?closes \<and> on_grid 5 (pb_limit p)
      \<and> round_price (if sd = LONG then dec28 (sig - LIMIT_OFFSET) else dec28 (sig + LIMIT_OFFSET)) = Inr (pb_limit p)
      \<and> levels_ok sd (pb_limit p) edge (pb_stop p) (pb_target p)
      \<and> (\<forall>k. 5 \<le> k \<and> k \<le> 20 \<and> fits 27 k (pb_limit p) \<and> fits 27 k edge \<longrightarrow>
          \<bar>pb_limit p - pb_stop p\<bar> = 25 / 10000 \<and> \<bar>pb_target p - pb_limit p\<bar> = 50 / 10000)" for p
      unfolding plan_answers_def
      by (rule exI [of _ sig], rule exI [of _ edge], rule exI [of _ parsed])
        (use that pr bars ema True in \<open>simp add: last_map [OF ne(1)]\<close>)
    then show "\<exists>r. (case trend_side (last ?closes) v of None \<Rightarrow> Inr (Inl ''trend_flat'') | Some allowed \<Rightarrow>
        if allowed \<noteq> sd then Inr (Inl ''trend_filter'') else pullback_order round_price sd sig edge v (last ?closes)) = Inr r
      \<and> (\<forall>w. r = Inl w \<longrightarrow> w \<in> set PULLBACK_REASONS) \<and> (\<forall>p. r = Inr p \<longrightarrow> plan_answers sd signal stop bars structural p)"
      using order True by auto
  qed
qed


definition demo_h1 :: bars_input where
  "demo_h1 = Rows (replicate 199 [PDec (11 / 10), PDec (11 / 10), PDec (11 / 10)] @ [[PDec (12 / 10), PDec (12 / 10), PDec (12 / 10)]])"

definition demo_pullback :: "py_error + (string + pullback_plan)" where
  "demo_pullback = plan_pullback round_price LONG (PDec (12 / 10)) (PDec (1197 / 1000)) (PDec (121 / 100)) demo_h1 PNone"

lemma demo_bars: "bars_from_frame demo_h1 = Some (replicate 199 (11 / 10, 11 / 10, 11 / 10) @ [(12 / 10, 12 / 10, 12 / 10)])"
proof -
  have "triples (replicate n [PDec c, PDec c, PDec c] @ rest) = map_option (append (replicate n (c, c, c))) (triples rest)" if "0 < c" for n c rest
    using that by (induction n) (cases "triples rest"; simp)+
  from this [of "11 / 10" 199] show ?thesis by (simp add: demo_h1_def)
qed

lemma demo_sum: "foldl (\<lambda>a x. dec28 (a + x)) (of_int (11 * j) / 10 ^ 1) (replicate n (11 / 10)) = of_int (11 * (j + int n)) / 10 ^ 1"
  if "0 \<le> j" "j + int n \<le> 1000"
  using that
proof (induction n arbitrary: j)
  case (Suc n)
  have e: "of_int (11 * j) / 10 ^ 1 + 11 / 10 = (of_int (11 * (j + 1)) / 10 ^ 1 :: rat)" by (simp add: field_simps)
  have "dec28 (of_int (11 * (j + 1)) / 10 ^ 1) = of_int (11 * (j + 1)) / 10 ^ 1" using Suc.prems by (intro dec28_small_frac) simp
  then show ?case using Suc.IH [of "j + 1"] Suc.prems by (simp only: replicate_Suc foldl_Cons e) (simp add: add.assoc)
qed simp

lemma demo_ema: "ema EMA_PERIOD (map (\<lambda>(_, _, c). c) (replicate 199 (11 / 10, 11 / 10, 11 / 10) @ [(12 / 10, 12 / 10, 12 / 10)])) = Some (11005 / 10000)"
proof -
  let ?add = "\<lambda>a x. dec28 (a + x)" and ?cl = "replicate 199 (11 / 10 :: rat) @ [12 / 10]"
  have cl: "map (\<lambda>(_, _, c). c) (replicate 199 (11 / 10, 11 / 10, 11 / 10) @ [(12 / 10, 12 / 10, 12 / 10)]) = ?cl"
    by (simp add: map_replicate)
  have len: "length ?cl = 200" "take 200 ?cl = ?cl" "drop 200 ?cl = []" by simp_all
  have s: "foldl ?add 0 (replicate 199 (11 / 10)) = 2189 / 10" using demo_sum [of 0 199] by simp
  have n: "2189 / 10 + 12 / 10 = of_int 2201 / (10::rat) ^ 1" "of_int 2201 / (10::rat) ^ 1 / 200 = of_int 11005 / 10 ^ 4" by simp_all
  have d: "dec28 (of_int 2201 / 10 ^ 1) = of_int 2201 / 10 ^ 1" "dec28 (of_int 11005 / 10 ^ 4) = of_int 11005 / 10 ^ 4"
    by (rule dec28_small_frac; simp)+
  have "foldl ?add 0 ?cl = of_int 2201 / 10 ^ 1" by (simp only: foldl_append s foldl_Cons foldl_Nil n d)
  then have "ema 200 ?cl = Some (of_int 11005 / 10 ^ 4)" unfolding ema_def Let_def len by (simp only: foldl_Nil n d of_nat_numeral) simp
  then show ?thesis unfolding cl EMA_PERIOD_def by simp
qed

lemma demo_order: "case pullback_order round_price LONG (12 / 10) (1197 / 1000) (11005 / 10000) (12 / 10) of
    Inr (Inr p) \<Rightarrow> pb_limit p = 119875 / 100000 \<and> pb_stop p = 119625 / 100000 \<and> pb_target p = 120375 / 100000 | _ \<Rightarrow> False"
  by code_simp


end
