(* ===== verification/DemoTrades.thy ===== *)
theory DemoTrades
  imports Pullback "HOL-Library.List_Lexorder" "HOL-Library.Char_ord" "HOL-Library.Product_Lexorder"
begin

text \<open>
  \<open>execution/broker_demo_state.py\<close>: the tables the demo router keeps of the trades it routed, their append-only
  events, the durable alert outbox and the flags. A row has the columns of \<open>broker_demo_trades\<close>; a number or an
  instant stored as text is the number or the instant. \<open>pending_action\<close> is the action its text spells and
  \<open>action_status\<close>, which is \<open>UNKNOWN\<close> or null, a truth value; \<open>updated_at\<close>, set by every
  update and read only by the dashboard, is left out. Connections, the schema and its migration, file
  permissions and the read-only dashboard views are not modelled; a write does not fail.
\<close>

datatype demo_status =
    SENDING | OPENED | UNRESOLVED | REFUSED | ENDED | ENDED_AT_BROKER | DRY | RESTING | CANCELLED_LIMIT

datatype pending_action = Close_Action string | Breakeven_Action | Trail_Action | Cancel_Action | Partial_Action scale_stage int

record trade_row =
  t_client :: string
  t_run :: string
  t_symbol :: string
  t_side :: side
  t_units :: int
  t_entry :: rat
  t_stop :: rat
  t_target :: rat
  t_initial_stop :: "rat option"
  t_trade_id :: "string option"
  t_fill_price :: "rat option"
  t_opened_at :: "instant option"
  t_stage :: "string option"
  t_status :: demo_status
  t_closed_reason :: "string option"
  t_pending :: "pending_action option"
  t_action_unknown :: bool
  t_created_at :: instant
  t_order_kind :: "string option"
  t_limit_price :: "rat option"
  t_expires_at :: "instant option"
  t_order_id :: "string option"
  t_strategy :: "string option"
  t_scale_stage :: "scale_stage option"
  t_units_remaining :: "int option"
  t_risk_distance :: "rat option"
  t_signal_entry :: "rat option"

definition LIVE_STATUSES :: "demo_status list" where "LIVE_STATUSES = [SENDING, OPENED, UNRESOLVED, RESTING]"
definition UNRESOLVED_STATUSES :: "demo_status list" where "UNRESOLVED_STATUSES = [SENDING, UNRESOLVED]"

type_synonym event_note = "string \<times> string option \<times> json"

record demo_event =
  de_id :: nat
  de_at :: instant
  de_kind :: string
  de_client :: "string option"
  de_detail :: json

datatype delivery = OUT_PENDING | OUT_CLAIMED | OUT_SENT | OUT_FAILED | OUT_UNKNOWN

record outbox_row =
  ob_event :: nat
  ob_kind :: string
  ob_detail :: json
  ob_status :: delivery
  ob_created :: instant
  ob_attempted :: "instant option"

record demo_db =
  db_trades :: "trade_row list"
  db_events :: "demo_event list"
  db_outbox :: "outbox_row list"
  db_flags :: "(string, json) dict"

definition empty_db :: demo_db where
  "empty_db = \<lparr>db_trades = [], db_events = [], db_outbox = [], db_flags = []\<rparr>"

section \<open>Trades\<close>

definition insert_intent :: "instant \<Rightarrow> trade_row \<Rightarrow> demo_db \<Rightarrow> py_error + demo_db" where
  "insert_intent now r s = (if t_client r \<in> t_client ` set (db_trades s) then Inl IntegrityError
     else Inr (s\<lparr>db_trades := db_trades s @ [r\<lparr>t_created_at := now\<rparr>]\<rparr>))"

definition update_trade :: "string \<Rightarrow> (trade_row \<Rightarrow> trade_row) \<Rightarrow> demo_db \<Rightarrow> demo_db" where
  "update_trade c f s = s\<lparr>db_trades := map (\<lambda>r. if t_client r = c then f r else r) (db_trades s)\<rparr>"

definition trade_of :: "string \<Rightarrow> demo_db \<Rightarrow> trade_row option" where
  "trade_of c s = find (\<lambda>r. t_client r = c) (db_trades s)"

definition trades_with :: "demo_status list \<Rightarrow> demo_db \<Rightarrow> trade_row list" where
  "trades_with sts s = sort_key (\<lambda>r. (t_created_at r, t_client r)) (filter (\<lambda>r. t_status r \<in> set sts) (db_trades s))"

section \<open>Events, flags, outbox\<close>

definition journal_note :: "instant \<Rightarrow> event_note \<Rightarrow> demo_db \<Rightarrow> demo_db" where
  "journal_note now note s = (case note of (kind, client, detail) \<Rightarrow>
     s\<lparr>db_events := db_events s @ [\<lparr>de_id = Suc (length (db_events s)), de_at = now, de_kind = kind, de_client = client,
        de_detail = detail\<rparr>]\<rparr>)"

definition flag_of :: "string \<Rightarrow> demo_db \<Rightarrow> json" where
  "flag_of k s = (case dget (db_flags s) k of None \<Rightarrow> JNull | Some v \<Rightarrow> v)"

definition set_flag :: "string \<Rightarrow> json \<Rightarrow> demo_db \<Rightarrow> demo_db" where
  "set_flag k v s = s\<lparr>db_flags := dput k v (db_flags s)\<rparr>"

text \<open>\<open>DELETE \<dots> WHERE key = ? AND (? IS NULL OR value = ?)\<close>: \<open>JNull\<close> as the guard deletes whatever is there, and a
  stored null equals nothing.\<close>

definition flag_matches :: "string \<Rightarrow> json \<Rightarrow> demo_db \<Rightarrow> bool" where
  "flag_matches k v s \<longleftrightarrow> (case dget (db_flags s) k of None \<Rightarrow> False | Some w \<Rightarrow> v = JNull \<or> (w \<noteq> JNull \<and> w = v))"

definition clear_flag :: "string \<Rightarrow> json \<Rightarrow> demo_db \<Rightarrow> demo_db" where
  "clear_flag k v s = (if flag_matches k v s then s\<lparr>db_flags := ddel k (db_flags s)\<rparr> else s)"

definition apply_all :: "instant \<Rightarrow> (string \<times> json) list \<Rightarrow> (string \<times> json) list \<Rightarrow> event_note option \<Rightarrow> demo_db \<Rightarrow> demo_db" where
  "apply_all now set_flags delete_flags note s =
    (let s1 = fold (\<lambda>(k, v). set_flag k v) set_flags s; s2 = fold (\<lambda>(k, v). clear_flag k v) delete_flags s1
     in case note of None \<Rightarrow> s2 | Some n \<Rightarrow> journal_note now n s2)"

definition consume_flag :: "instant \<Rightarrow> string \<Rightarrow> json \<Rightarrow> event_note \<Rightarrow> bool \<Rightarrow> demo_db \<Rightarrow> nat option \<times> demo_db" where
  "consume_flag now k v note notify s = (if \<not> flag_matches k v s then (None, s)
     else let s1 = journal_note now note (clear_flag k v s); n = length (db_events s1) in
       (Some n, if notify then s1\<lparr>db_outbox := db_outbox s1 @ [\<lparr>ob_event = n, ob_kind = fst note, ob_detail = snd (snd note),
            ob_status = OUT_PENDING, ob_created = now, ob_attempted = None\<rparr>]\<rparr> else s1))"

definition set_flag_if_absent :: "instant \<Rightarrow> string \<Rightarrow> json \<Rightarrow> event_note option \<Rightarrow> demo_db \<Rightarrow> bool \<times> demo_db" where
  "set_flag_if_absent now k v note s = (if flag_of k s = JNull \<or> flag_of k s = JStr [] then
       (True, case note of None \<Rightarrow> set_flag k v s | Some n \<Rightarrow> journal_note now n (set_flag k v s))
     else (False, s))"

definition stale_claim :: "instant \<Rightarrow> outbox_row \<Rightarrow> bool" where
  "stale_claim stale_before r \<longleftrightarrow> ob_status r = OUT_CLAIMED \<and> (\<exists>t. ob_attempted r = Some t \<and> t < stale_before)"

definition claim_outbox :: "instant \<Rightarrow> instant \<Rightarrow> demo_db \<Rightarrow> (outbox_row list \<times> outbox_row list) \<times> demo_db" where
  "claim_outbox now stale_before s =
    (let ordered = sort_key ob_event (db_outbox s);
         unknown = filter (stale_claim stale_before) ordered;
         rows1 = map (\<lambda>r. if stale_claim stale_before r then r\<lparr>ob_status := OUT_UNKNOWN\<rparr> else r) (db_outbox s);
         claimed = filter (\<lambda>r. ob_status r = OUT_PENDING) (sort_key ob_event rows1);
         rows2 = map (\<lambda>r. if ob_status r = OUT_PENDING then r\<lparr>ob_status := OUT_CLAIMED, ob_attempted := Some now\<rparr> else r) rows1
     in ((claimed, unknown), s\<lparr>db_outbox := rows2\<rparr>))"

definition finish_outbox :: "nat \<Rightarrow> delivery \<Rightarrow> demo_db \<Rightarrow> demo_db" where
  "finish_outbox n st s = s\<lparr>db_outbox := map (\<lambda>r. if ob_event r = n \<and> ob_status r = OUT_CLAIMED then r\<lparr>ob_status := st\<rparr> else r) (db_outbox s)\<rparr>"

text \<open>One pass of the router over the outbox; the hook's failures are an argument. \<open>None\<close> is a router without a hook.\<close>

definition OUTBOX_CLAIM_GRACE :: int where "OUTBOX_CLAIM_GRACE = 10 * MINUTE"

definition drain_outbox :: "instant \<Rightarrow> (outbox_row \<Rightarrow> bool) option \<Rightarrow> demo_db \<Rightarrow> outbox_row list \<times> demo_db" where
  "drain_outbox now hook s = (case hook of None \<Rightarrow> ([], s) | Some ok \<Rightarrow>
     (case claim_outbox now (now - OUTBOX_CLAIM_GRACE) s of ((claimed, _), s1) \<Rightarrow>
       (claimed, fold (\<lambda>r. finish_outbox (ob_event r) (if ok r then OUT_SENT else OUT_FAILED)) claimed s1)))"

end
