(* ===== verification/DemoManage.thy ===== *)
theory DemoManage
  imports DemoTrades BrokerPort
begin

text \<open>
  The part of \<open>execution/broker_demo_router.py\<close> that manages routed trades: closes, the Day-1 breakeven, the
  scale-out of the pullback strategy, cancelled limits, reconciliation with the broker and the tick that runs them.
  What the broker answers to a call is an input: a result, an exception that proves the call was not processed
  (\<open>Definite\<close>: authentication, rate limit), a guard that blocked it locally (\<open>Guarded\<close>) or any other failure
  (\<open>Failed\<close>). An act is what one call does: the columns it sets, the events it records, the call that was sent, the
  outcome. Alerts and log lines carry nothing back and are left out, as are the post-fill checks, which only journal.
\<close>

section \<open>Acts\<close>

datatype reply = Answer result_status "string option" | Definite string | Guarded string | Failed string

datatype broker_call =
    Close_Units "string option" int string
  | Modify_Stop "string option" rat string
  | Close_Market "string option" string string
  | Cancel_Order string string

record act =
  ac_set :: "(trade_row \<Rightarrow> trade_row) option"
  ac_notes :: "event_note list"
  ac_call :: "broker_call option"
  ac_outcome :: string

text \<open>The row an act leaves; an act without an update leaves it alone.\<close>

definition after_act :: "act \<Rightarrow> trade_row \<Rightarrow> trade_row" where
  "after_act a r = (case ac_set a of None \<Rightarrow> r | Some f \<Rightarrow> f r)"

definition note_of :: "string \<Rightarrow> string option \<Rightarrow> (string \<times> json) list \<Rightarrow> event_note" where
  "note_of kind client kvs = (kind, client, if kvs = [] then JNull else JObj kvs)"

definition settle :: "trade_row \<Rightarrow> trade_row" where
  "settle r = r\<lparr>t_pending := None, t_action_unknown := False\<rparr>"

definition latch :: "pending_action \<Rightarrow> trade_row \<Rightarrow> trade_row" where
  "latch p r = r\<lparr>t_pending := Some p, t_action_unknown := True\<rparr>"

definition end_row :: "demo_status \<Rightarrow> string \<Rightarrow> trade_row \<Rightarrow> trade_row" where
  "end_row st why r = settle (r\<lparr>t_status := st, t_closed_reason := Some why\<rparr>)"

definition SL_TP_OR_EXTERNAL :: string where "SL_TP_OR_EXTERNAL = ''SL_TP_OR_EXTERNAL''"

section \<open>Closing\<close>

definition close_trade :: "string \<Rightarrow> string \<Rightarrow> reply \<Rightarrow> trade_row \<Rightarrow> act" where
  "close_trade why close_id reply r =
    (let c = Some (t_client r); trade = jstr_opt (t_trade_id r);
         out = (\<lambda>set kind kvs outcome. \<lparr>ac_set = set, ac_notes = [note_of kind c kvs], ac_call = Some (Close_Market (t_trade_id r) why close_id),
                  ac_outcome = outcome\<rparr>)
     in case reply of
       Definite e \<Rightarrow> out None ''CLOSE_FAILED'' [(''reason'', JStr e)] ''CLOSE_FAILED''
     | Guarded e \<Rightarrow> out (Some (latch (Close_Action why))) ''CLOSE_UNKNOWN'' [(''reason'', JStr e)] ''UNKNOWN''
     | Failed e \<Rightarrow> out (Some (latch (Close_Action why))) ''CLOSE_UNKNOWN'' [(''reason'', JStr e)] ''UNKNOWN''
     | Answer st reason \<Rightarrow>
         if st = RES_ACCEPTED then out (Some (end_row ENDED why)) ''CLOSED'' [(''trade_id'', trade), (''reason'', JStr why)] ''CLOSED''
         else if st = RES_REJECTED \<and> reason = Some ''no_open_position''
         then out (Some (end_row ENDED_AT_BROKER SL_TP_OR_EXTERNAL)) ''CLOSED_AT_BROKER'' [(''trade_id'', trade), (''reason'', JStr SL_TP_OR_EXTERNAL)] ''CLOSED_AT_BROKER''
         else if st = RES_REJECTED then out None ''CLOSE_REJECTED'' [(''reason'', jstr_opt reason)] ''CLOSE_REJECTED''
         else out (Some (latch (Close_Action why))) ''CLOSE_UNKNOWN'' [(''reason'', jstr_opt reason)] ''UNKNOWN'')"

text \<open>\<open>_dec(a) or _dec(b)\<close>: a null or a zero is not there.\<close>

definition dec_or :: "rat option \<Rightarrow> rat \<Rightarrow> rat" where
  "dec_or a b = (case a of Some x \<Rightarrow> if x \<noteq> 0 then x else b | None \<Rightarrow> b)"

definition breakeven_stop :: "trade_row \<Rightarrow> py_error + rat" where
  "breakeven_stop r = round_price (dec_or (t_fill_price r) (t_entry r))"

definition breakeven_row :: "reply \<Rightarrow> trade_row \<Rightarrow> py_error + act" where
  "breakeven_row reply r = ebind (breakeven_stop r) (\<lambda>entry.
    let c = Some (t_client r);
        out = (\<lambda>set kind kvs outcome. Inr \<lparr>ac_set = set, ac_notes = [note_of kind c kvs],
                 ac_call = Some (Modify_Stop (t_trade_id r) entry (t_client r @ ''-be'')), ac_outcome = outcome\<rparr>)
    in case reply of
       Definite e \<Rightarrow> out None ''BREAKEVEN_BLOCKED'' [(''reason'', JStr e)] ''BREAKEVEN_BLOCKED''
     | Guarded e \<Rightarrow> out None ''BREAKEVEN_BLOCKED'' [(''reason'', JStr e)] ''BREAKEVEN_BLOCKED''
     | Failed e \<Rightarrow> out (Some (latch Breakeven_Action)) ''BREAKEVEN_UNKNOWN'' [(''reason'', JStr e)] ''UNKNOWN''
     | Answer st reason \<Rightarrow>
         if st = RES_ACCEPTED then out (Some (\<lambda>x. x\<lparr>t_stage := Some STAGE_DAY2, t_initial_stop := Some (t_stop r), t_stop := entry\<rparr>))
           ''BREAKEVEN'' [(''trade_id'', jstr_opt (t_trade_id r)), (''stop'', JDec entry)] ''BREAKEVEN''
         else if st = RES_REJECTED then out None ''BREAKEVEN_REJECTED'' [(''reason'', jstr_opt reason)] ''BREAKEVEN_REJECTED''
         else out (Some (latch Breakeven_Action)) ''BREAKEVEN_UNKNOWN'' [(''reason'', jstr_opt reason)] ''UNKNOWN'')"

definition cancel_limit :: "string \<Rightarrow> reply \<Rightarrow> trade_row \<Rightarrow> act" where
  "cancel_limit why reply r =
    (let c = Some (t_client r); info = [(''symbol'', JStr (t_symbol r)), (''side'', JStr (side_name (t_side r))), (''reason'', JStr why)]
     in case (if t_order_id r = Some [] then None else t_order_id r) of
       None \<Rightarrow> \<lparr>ac_set = Some (end_row CANCELLED_LIMIT why), ac_notes = [note_of ''LIMIT_CANCELLED'' c info], ac_call = None, ac_outcome = ''LIMIT_CANCELLED''\<rparr>
     | Some order \<Rightarrow>
       let out = (\<lambda>set notes outcome. \<lparr>ac_set = set, ac_notes = notes, ac_call = Some (Cancel_Order order (t_client r @ ''-cancel'')), ac_outcome = outcome\<rparr>);
           unknown = (\<lambda>w. out (Some (latch Cancel_Action)) [note_of ''LIMIT_CANCEL_UNKNOWN'' c [(''reason'', w)]] ''UNKNOWN'');
           failed = (\<lambda>w. out None [note_of ''LIMIT_CANCEL_FAILED'' c [(''reason'', w)]] ''LIMIT_CANCEL_FAILED'')
       in case reply of
         Definite e \<Rightarrow> failed (JStr e)
       | Guarded e \<Rightarrow> unknown (JStr e)
       | Failed e \<Rightarrow> unknown (JStr e)
       | Answer st reason \<Rightarrow>
           if st = RES_ACCEPTED then
             let kind = (if why = ''LIMIT_EXPIRED'' \<or> why = ''WEEKEND_ENTRY_BLOCK'' then ''LIMIT_EXPIRED'' else ''LIMIT_CANCELLED'')
             in out (Some (end_row CANCELLED_LIMIT why)) [note_of kind c (info @ [(''order_id'', JStr order), (''limit_price'', jdec_opt (t_limit_price r))])] kind
           else if st = RES_REJECTED \<and> reason = Some ''order_not_found'' then out None [] ''LIMIT_CANCEL_UNCONFIRMED''
           else if st = RES_REJECTED then failed (jstr_opt reason)
           else unknown (jstr_opt reason))"

section \<open>The scale-out of the pullback strategy\<close>

definition apply_step :: "reply \<Rightarrow> manage_step \<Rightarrow> trade_row \<Rightarrow> py_error + act" where
  "apply_step reply s r =
    (let c = Some (t_client r) in
     case ms_kind s of
       MARK \<Rightarrow> Inr \<lparr>ac_set = Some (t_scale_stage_update (\<lambda>_. Some (ms_stage s))), ac_notes = [], ac_call = None, ac_outcome = ''MARKED''\<rparr>
     | PARTIAL \<Rightarrow>
       let qty = (case ms_units s of Some n \<Rightarrow> n | None \<Rightarrow> 0); left = ms_remaining s; label = (''label'', JStr (ms_label s));
           out = (\<lambda>set kind kvs outcome. Inr \<lparr>ac_set = set, ac_notes = [note_of kind c kvs],
                    ac_call = Some (Close_Units (t_trade_id r) qty (t_client r @ ''-'' @ ms_label s)), ac_outcome = outcome\<rparr>);
           unknown = (\<lambda>w. out (Some (latch (Partial_Action (ms_stage s) (case left of Some n \<Rightarrow> n | None \<Rightarrow> 0)))) ''PARTIAL_CLOSE_UNKNOWN'' [(''reason'', w), label] ''UNKNOWN'')
       in (case reply of
         Definite e \<Rightarrow> out None ''PARTIAL_CLOSE_FAILED'' [(''reason'', JStr e), label] ''PARTIAL_CLOSE_FAILED''
       | Guarded e \<Rightarrow> unknown (JStr e)
       | Failed e \<Rightarrow> unknown (JStr e)
       | Answer st reason \<Rightarrow>
           if st = RES_ACCEPTED then out (Some (\<lambda>x. settle (x\<lparr>t_units_remaining := left, t_scale_stage := Some (ms_stage s)\<rparr>))) ''PARTIAL_CLOSE''
             [(''trade_id'', jstr_opt (t_trade_id r)), (''symbol'', JStr (t_symbol r)), (''side'', JStr (side_name (t_side r))), (''units'', JInt qty),
              (''remaining'', (case left of Some n \<Rightarrow> JInt n | None \<Rightarrow> JNull)), (''reason'', JStr (ms_label s)), (''price'', jdec_opt (ms_stop s))] ''PARTIAL_CLOSE''
           else if st = RES_REJECTED \<and> reason = Some ''no_open_position''
           then out (Some (end_row ENDED_AT_BROKER SL_TP_OR_EXTERNAL)) ''CLOSED_AT_BROKER'' [(''trade_id'', jstr_opt (t_trade_id r)), (''reason'', JStr SL_TP_OR_EXTERNAL)] ''CLOSED_AT_BROKER''
           else if st = RES_REJECTED then out None ''PARTIAL_CLOSE_FAILED'' [(''reason'', jstr_opt reason), label] ''PARTIAL_CLOSE_FAILED''
           else unknown (jstr_opt reason))
     | STOP \<Rightarrow>
       let stop = (case ms_stop s of Some x \<Rightarrow> x | None \<Rightarrow> 0);
           out = (\<lambda>set notes outcome. Inr \<lparr>ac_set = set, ac_notes = notes, ac_call = Some (Modify_Stop (t_trade_id r) stop (t_client r @ ''-stop'')), ac_outcome = outcome\<rparr>);
           unknown = (\<lambda>w. out (Some (latch Trail_Action)) [note_of ''TRAIL_UNKNOWN'' c [(''reason'', w)]] ''UNKNOWN'')
       in (case reply of
         Definite e \<Rightarrow> out None [note_of ''TRAIL_BLOCKED'' c [(''reason'', JStr e)]] ''TRAIL_BLOCKED''
       | Guarded e \<Rightarrow> out None [note_of ''TRAIL_BLOCKED'' c [(''reason'', JStr e)]] ''TRAIL_BLOCKED''
       | Failed e \<Rightarrow> unknown (JStr e)
       | Answer st reason \<Rightarrow>
           if st = RES_REJECTED then out None [note_of ''TRAIL_REJECTED'' c [(''reason'', jstr_opt reason)]] ''TRAIL_REJECTED''
           else if st \<noteq> RES_ACCEPTED then unknown (jstr_opt reason)
           else ebind (round_price stop) (\<lambda>rounded.
             out (Some (\<lambda>x. settle (x\<lparr>t_scale_stage := Some (ms_stage s), t_stop := rounded,
                    t_initial_stop := (if t_initial_stop r = None then Some (t_stop r) else t_initial_stop x)\<rparr>)))
               (map (\<lambda>k. note_of k c [(''trade_id'', jstr_opt (t_trade_id r)), (''symbol'', JStr (t_symbol r)), (''side'', JStr (side_name (t_side r))),
                  (''stop'', JDec rounded), (''reason'', JStr (ms_label s))]) (ms_journals s))
               (last (''TRAIL'' # ms_journals s)))))"

text \<open>The steps of one tick, each applied to the row the one before left; the first that is not applied ends them.\<close>

definition APPLIED_OUTCOMES :: "string list" where
  "APPLIED_OUTCOMES = [''PARTIAL_CLOSE'', ''BREAKEVEN'', ''TRAIL'', ''MARKED'']"

fun run_steps :: "(nat \<Rightarrow> reply) \<Rightarrow> nat \<Rightarrow> manage_step list \<Rightarrow> trade_row \<Rightarrow> py_error + act list \<times> trade_row" where
  "run_steps replies i [] r = Inr ([], r)"
| "run_steps replies i (s # ss) r = ebind (apply_step (replies i) s r) (\<lambda>a. let r' = after_act a r in
    if ac_outcome a \<notin> set APPLIED_OUTCOMES then Inr ([a], r')
    else ebind (run_steps replies (i + 1) ss r') (\<lambda>(as, r''). Inr (a # as, r'')))"

section \<open>The decision for one row\<close>

definition opened_of :: "trade_row \<Rightarrow> instant" where
  "opened_of r = (case t_opened_at r of Some t \<Rightarrow> t | None \<Rightarrow> t_created_at r)"

definition stage_of :: "trade_row \<Rightarrow> string option" where
  "stage_of r = (if t_stage r = Some [] then None else t_stage r)"

text \<open>\<open>td.unrealized_r\<close> and \<open>td.boundary_decision\<close> on the \<open>PositionView\<close> of a row, whose prices are \<open>Decimal\<close>s.\<close>

definition row_r :: "trade_row \<Rightarrow> rat \<Rightarrow> rat option" where
  "row_r r price =
    (let entry = dec_or (t_fill_price r) (t_entry r); stop = (case t_initial_stop r of Some s \<Rightarrow> s | None \<Rightarrow> t_stop r);
         risk = (if t_side r = LONG then dec28 (entry - stop) else dec28 (stop - entry))
     in if risk \<le> 0 then None else Some (dec28 ((if t_side r = LONG then dec28 (price - entry) else dec28 (entry - price)) / risk)))"

definition duration_action :: "hold_config \<Rightarrow> trade_row \<Rightarrow> instant \<Rightarrow> rat option \<Rightarrow> boundary_action option" where
  "duration_action c r now price =
    (case (next_boundary c (opened_of r) (stage_of r), hold_boundary c (opened_of r)) of
       (Some boundary, Some (hold, reason)) \<Rightarrow>
         if now < boundary then None
         else if hold \<le> now then Some (CLOSE_POSITION reason)
         else (case price of None \<Rightarrow> None | Some p \<Rightarrow> Some
           (if hold \<le> boundary \<or> \<not> day1_rule c \<or> stage_of r \<noteq> None then CLOSE_POSITION reason
            else (case row_r r p of
                None \<Rightarrow> CLOSE_POSITION CLOSE_DAY1_BELOW_HALF_R
              | Some x \<Rightarrow> if x < MIN_KEEP_R then CLOSE_POSITION CLOSE_DAY1_BELOW_HALF_R else BREAKEVEN)))
     | _ \<Rightarrow> None)"

definition due :: "hold_config \<Rightarrow> trade_row \<Rightarrow> instant \<Rightarrow> bool" where
  "due c r now \<longleftrightarrow> (case next_boundary c (opened_of r) (stage_of r) of Some b \<Rightarrow> b \<le> now | None \<Rightarrow> False)"

fun close_name :: "close_reason \<Rightarrow> string" where
  "close_name CLOSE_DAY1_BELOW_HALF_R = ''TIME_EXIT_DAY1_BELOW_0_5R''"
| "close_name CLOSE_FRIDAY = ''TIME_EXIT_FRIDAY_NY_CLOSE''"
| "close_name CLOSE_MAX_HOLD = ''TIME_EXIT_MAX_HOLD''"
| "close_name CLOSE_DAY2_STRUCTURE = ''TIME_EXIT_DAY2_STRUCTURE_CHANGE''"
| "close_name CLOSE_DAY2_NY_CLOSE = ''TIME_EXIT_DAY2_NY_CLOSE''"

datatype raw_quote = Quote_Raised bool | No_Quote | Not_A_Quote | Raw_Quote bool pynum pynum

text \<open>\<open>Quote_Raised\<close> carries whether the exception was a malformed response; \<open>Raw_Quote\<close> whether it is tradeable.\<close>

definition check_quote :: "raw_quote \<Rightarrow> string + (rat \<times> rat)" where
  "check_quote q = (case q of
     Quote_Raised malformed \<Rightarrow> Inl (if malformed then ''pricing_malformed'' else ''pricing_unavailable'')
   | No_Quote \<Rightarrow> Inl ''pricing_unavailable''
   | Not_A_Quote \<Rightarrow> Inl ''pricing_malformed''
   | Raw_Quote tradeable b a \<Rightarrow>
       if \<not> tradeable then Inl ''not_tradeable''
       else (case (as_decimal b, as_decimal a) of
           (Some bid, Some ask) \<Rightarrow> if bid \<le> 0 \<or> ask < bid then Inl ''pricing_malformed'' else Inr (bid, ask)
         | _ \<Rightarrow> Inl ''pricing_malformed''))"

definition no_price_outcome :: "string \<Rightarrow> string" where
  "no_price_outcome problem = (if problem = ''not_tradeable'' then ''MARKET_CLOSED'' else ''NO_PRICE'')"

definition exit_price :: "trade_row \<Rightarrow> rat \<times> rat \<Rightarrow> rat" where
  "exit_price r q = (if t_side r = LONG then fst q else snd q)"

definition row_anchor :: "trade_row \<Rightarrow> rat" where
  "row_anchor r = dec_or (t_limit_price r) (t_entry r)"

definition row_risk :: "trade_row \<Rightarrow> rat" where
  "row_risk r = (case t_risk_distance r of Some d \<Rightarrow> d | None \<Rightarrow> \<bar>dec28 (row_anchor r - dec_or (t_initial_stop r) (t_stop r))\<bar>)"

definition row_steps :: "trade_row \<Rightarrow> rat \<Rightarrow> py_error + manage_step list" where
  "row_steps r price = management_steps (t_side r) (Some (row_anchor r)) (Some (row_risk r)) (Some (t_units r)) (t_scale_stage r)
     (t_units_remaining r) (Some price) (Some (t_stop r))"

text \<open>What a tick does to a row: its acts in order, the row they leave, the outcome it reports. \<open>price\<close> is the checked
  quote of the symbol.\<close>

type_synonym row_result = "act list \<times> trade_row \<times> string"

definition one_act :: "act \<Rightarrow> trade_row \<Rightarrow> row_result" where
  "one_act a r = ([a], after_act a r, ac_outcome a)"

definition manage_pullback ::
  "hold_config \<Rightarrow> instant \<Rightarrow> string + (rat \<times> rat) \<Rightarrow> (nat \<Rightarrow> reply) \<Rightarrow> trade_row \<Rightarrow> py_error + row_result" where
  "manage_pullback c now quote replies r = (case quote of
     Inl problem \<Rightarrow> Inr ([], r, no_price_outcome problem)
   | Inr q \<Rightarrow>
     let price = exit_price r q in
     case (if due c r now then duration_action c r now (Some price) else None) of
       Some (CLOSE_POSITION why) \<Rightarrow> Inr (one_act (close_trade (close_name why) (t_client r @ ''-close'') (replies 0) r) r)
     | _ \<Rightarrow> ebind (row_steps r price) (\<lambda>steps. ebind (run_steps replies 0 steps r) (\<lambda>(acts, r').
         Inr (acts, r', last (''KEEP'' # map ac_outcome acts)))))"

definition manage_row ::
  "hold_config \<Rightarrow> instant \<Rightarrow> string + (rat \<times> rat) \<Rightarrow> (nat \<Rightarrow> reply) \<Rightarrow> trade_row \<Rightarrow> py_error + row_result" where
  "manage_row c now quote replies r =
    (if t_strategy r = Some STRATEGY then manage_pullback c now quote replies r
     else if \<not> due c r now then Inr ([], r, ''KEEP'')
     else (case quote of
       Inl problem \<Rightarrow> Inr ([], r, no_price_outcome problem)
     | Inr q \<Rightarrow> (case duration_action c r now (Some (exit_price r q)) of
           None \<Rightarrow> Inr ([], r, ''KEEP'')
         | Some (CLOSE_POSITION why) \<Rightarrow> Inr (one_act (close_trade (close_name why) (t_client r @ ''-close'') (replies 0) r) r)
         | Some BREAKEVEN \<Rightarrow> ebind (breakeven_row (replies 0) r) (\<lambda>a. Inr (one_act a r)))))"

text \<open>Whether the tick of a row reads a quote: the strategy's always, a legacy row once it is due.\<close>

definition reads_quote :: "hold_config \<Rightarrow> instant \<Rightarrow> trade_row \<Rightarrow> bool" where
  "reads_quote c now r \<longleftrightarrow> t_strategy r = Some STRATEGY \<or> due c r now"

section \<open>Reconciliation\<close>

record open_trade =
  ot_id :: string
  ot_instrument :: string
  ot_price :: rat
  ot_ext :: "string option"
  ot_stop :: "rat option"
  ot_open_time :: "instant option"

record pending_order =
  po_id :: string
  po_ext :: "string option"

text \<open>
  What the broker says during one pass: the open trades, the resting orders and whether it knows a trade for a client
  id; \<open>None\<close> is a read that raised. \<open>bv_ext\<close> is \<open>client_extension_id\<close> (a hash for an unsafe id).
\<close>

record broker_reads =
  bv_trades :: "open_trade list option"
  bv_pending :: "pending_order list option"
  bv_trade_for :: "string \<Rightarrow> string option option"
  bv_ext :: "string \<Rightarrow> string"

definition trade_by_id :: "string option \<Rightarrow> open_trade list \<Rightarrow> open_trade option" where
  "trade_by_id tid ts = find (\<lambda>t. Some (ot_id t) = tid) (rev ts)"

definition trade_by_ext :: "string \<Rightarrow> open_trade list \<Rightarrow> open_trade option" where
  "trade_by_ext e ts = find (\<lambda>t. ot_ext t = Some e \<and> e \<noteq> []) (rev ts)"

definition found_open :: "trade_row \<Rightarrow> open_trade \<Rightarrow> trade_row \<Rightarrow> trade_row" where
  "found_open r t x = x\<lparr>t_status := OPENED, t_trade_id := Some (ot_id t), t_fill_price := Some (ot_price t),
     t_opened_at := Some (case ot_open_time t of Some u \<Rightarrow> u | None \<Rightarrow> t_created_at r), t_closed_reason := None\<rparr>"

definition resolved_note :: "trade_row \<Rightarrow> string \<Rightarrow> string \<Rightarrow> (string \<times> json) list \<Rightarrow> event_note" where
  "resolved_note r tid status kvs = note_of ''RESOLVED'' (Some (t_client r)) ([(''trade_id'', JStr tid), (''status'', JStr status)] @ kvs)"

type_synonym reconciled_row = "act option \<times> string option"

definition quiet_act :: "(trade_row \<Rightarrow> trade_row) option \<Rightarrow> event_note list \<Rightarrow> act" where
  "quiet_act upd notes = \<lparr>ac_set = upd, ac_notes = notes, ac_call = None, ac_outcome = []\<rparr>"

text \<open>A row that was open: gone at the broker, or still there, where only the evidence of a breakeven stop
  resolves an unknown action.\<close>

definition reconcile_open :: "open_trade list \<Rightarrow> trade_row \<Rightarrow> py_error + reconciled_row" where
  "reconcile_open ts r = (case trade_by_id (t_trade_id r) ts of
     None \<Rightarrow>
       let c = Some (t_client r);
           gone = (\<lambda>st status why. Inr (Some (quiet_act (Some (end_row st why)) [note_of status c [(''trade_id'', jstr_opt (t_trade_id r)), (''reason'', JStr why)]]), None))
       in (case t_pending r of Some (Close_Action why) \<Rightarrow> gone ENDED ''CLOSED'' why | _ \<Rightarrow> gone ENDED_AT_BROKER ''CLOSED_AT_BROKER'' SL_TP_OR_EXTERNAL)
   | Some t \<Rightarrow>
       let fill = (if t_fill_price r = None \<or> (ot_open_time t \<noteq> None \<and> t_opened_at r = None)
             then Some (\<lambda>x. x\<lparr>t_fill_price := Some (ot_price t),
               t_opened_at := (if ot_open_time t \<noteq> None then ot_open_time t else t_opened_at x)\<rparr>) else None)
       in if t_action_unknown r \<and> t_pending r = Some Breakeven_Action \<and> ot_stop t \<noteq> None then
            ebind (round_price (the (ot_stop t))) (\<lambda>there. ebind (breakeven_stop r) (\<lambda>wanted.
              if there = wanted then Inr (Some (quiet_act
                  (Some (\<lambda>x. settle ((case fill of None \<Rightarrow> x | Some f \<Rightarrow> f x)\<lparr>t_stage := Some STAGE_DAY2, t_initial_stop := Some (t_stop r), t_stop := wanted\<rparr>)))
                  [note_of ''BREAKEVEN'' (Some (t_client r)) [(''trade_id'', JStr (ot_id t)), (''stop'', jdec_opt (ot_stop t)), (''resolved'', JBool True)]]), Some (ot_id t))
              else Inr (map_option (\<lambda>f. quiet_act (Some f) []) fill, Some (ot_id t))))
          else Inr (map_option (\<lambda>f. quiet_act (Some f) []) fill, Some (ot_id t)))"

definition reconcile_sent :: "broker_reads \<Rightarrow> open_trade list \<Rightarrow> trade_row \<Rightarrow> reconciled_row" where
  "reconcile_sent v ts r = (case trade_by_ext (bv_ext v (t_client r)) ts of
     Some t \<Rightarrow> (Some (quiet_act (Some (found_open r t)) [resolved_note r (ot_id t) ''OPEN'' []]), Some (ot_id t))
   | None \<Rightarrow> (case bv_trade_for v (t_client r) of
       Some (Some tid) \<Rightarrow> (Some (quiet_act (Some (\<lambda>x. x\<lparr>t_status := ENDED_AT_BROKER, t_trade_id := Some tid, t_closed_reason := Some SL_TP_OR_EXTERNAL\<rparr>))
           [resolved_note r tid ''CLOSED_AT_BROKER'' []]), None)
     | _ \<Rightarrow> (None, None)))"

definition book_of :: "broker_reads \<Rightarrow> trade_row \<Rightarrow> pending_order list \<Rightarrow> pending_order option" where
  "book_of v r orders = (case find (\<lambda>p. po_ext p = Some (bv_ext v (t_client r)) \<and> bv_ext v (t_client r) \<noteq> []) (rev orders) of
     Some p \<Rightarrow> Some p | None \<Rightarrow> find (\<lambda>p. Some (po_id p) = t_order_id r) (rev orders))"

definition reconcile_limit :: "broker_reads \<Rightarrow> open_trade list \<Rightarrow> trade_row \<Rightarrow> reconciled_row" where
  "reconcile_limit v ts r =
    (let c = Some (t_client r); info = [(''symbol'', JStr (t_symbol r)), (''side'', JStr (side_name (t_side r)))] in
     case trade_by_ext (bv_ext v (t_client r)) ts of
       Some t \<Rightarrow> (Some (quiet_act (Some (\<lambda>x. settle ((found_open r t x)\<lparr>t_units_remaining :=
             Some (case t_units_remaining r of Some n \<Rightarrow> if n \<noteq> 0 then n else t_units r | None \<Rightarrow> t_units r)\<rparr>)))
           [resolved_note r (ot_id t) ''OPEN'' [(''order_kind'', JStr ''LIMIT'')],
            note_of ''ACCEPTED'' c ([(''trade_id'', JStr (ot_id t))] @ info @ [(''units'', JInt (t_units r)), (''reason'', JStr ''limit_filled'')])]), Some (ot_id t))
     | None \<Rightarrow> (case bv_pending v of
         None \<Rightarrow> (Some (quiet_act None [note_of ''LIMIT_RECONCILE_UNAVAILABLE'' None [(''error'', JStr ''read'')]]), None)
       | Some orders \<Rightarrow> (case book_of v r orders of
           Some p \<Rightarrow> ((if t_status r \<noteq> RESTING then Some (quiet_act (Some (\<lambda>x. x\<lparr>t_status := RESTING, t_order_id := Some (po_id p), t_closed_reason := None\<rparr>))
               [note_of ''LIMIT_PENDING'' c ([(''order_id'', JStr (po_id p))] @ info @ [(''units'', JInt (t_units r)), (''resolved'', JBool True)])]) else None), None)
         | None \<Rightarrow> (case bv_trade_for v (t_client r) of
             None \<Rightarrow> (None, None)
           | Some (Some tid) \<Rightarrow> (Some (quiet_act (Some (\<lambda>x. (end_row ENDED_AT_BROKER SL_TP_OR_EXTERNAL x)\<lparr>t_trade_id := Some tid\<rparr>)) [resolved_note r tid ''CLOSED_AT_BROKER'' []]), None)
           | Some None \<Rightarrow> (Some (quiet_act (Some (end_row CANCELLED_LIMIT ''LIMIT_EXPIRED''))
               [note_of ''LIMIT_EXPIRED'' c (info @ [(''reason'', JStr ''LIMIT_EXPIRED''), (''limit_price'', jdec_opt (t_limit_price r))])]), None)))))"

definition reconcile_row :: "broker_reads \<Rightarrow> open_trade list \<Rightarrow> trade_row \<Rightarrow> py_error + reconciled_row" where
  "reconcile_row v ts r =
    (if t_status r = RESTING \<or> (t_order_kind r = Some ''LIMIT'' \<and> t_status r \<in> {SENDING, UNRESOLVED}) then Inr (reconcile_limit v ts r)
     else if t_status r = OPENED then reconcile_open ts r
     else Inr (reconcile_sent v ts r))"

section \<open>The tables\<close>

record demo_router =
  dr_db :: demo_db
  dr_blocked :: "string option"
  dr_flatten_ticks :: nat
  dr_manual_ticks :: nat
  dr_friday_alerted :: "instant option"

definition apply_act :: "instant \<Rightarrow> string \<Rightarrow> act \<Rightarrow> demo_db \<Rightarrow> demo_db" where
  "apply_act now c a s = fold (journal_note now) (ac_notes a) (case ac_set a of None \<Rightarrow> s | Some f \<Rightarrow> update_trade c f s)"

definition DRIFT :: string where "DRIFT = ''drift''"
definition UNRESOLVED_ACTION :: string where "UNRESOLVED_ACTION = ''unresolved_action''"
definition BLOCKED_FLAG :: string where "BLOCKED_FLAG = ''blocked_reason''"
definition DRIFT_EPISODE_FLAG :: string where "DRIFT_EPISODE_FLAG = ''drift_episode''"
definition DRIFT_CLEAR_REQUEST_FLAG :: string where "DRIFT_CLEAR_REQUEST_FLAG = ''drift_clear_request''"

text \<open>\<open>episode\<close> is the fresh \<open>uuid4().hex\<close> of the call.\<close>

definition set_blocked :: "string \<Rightarrow> instant \<Rightarrow> string option \<Rightarrow> demo_router \<Rightarrow> demo_router" where
  "set_blocked episode now reason g = g\<lparr>dr_blocked := reason,
     dr_db := (if reason = Some DRIFT then apply_all now [(DRIFT_EPISODE_FLAG, JStr episode), (BLOCKED_FLAG, JStr DRIFT)] [] None (dr_db g)
               else set_flag BLOCKED_FLAG (jstr_opt reason) (dr_db g))\<rparr>"

definition unresolved_rows :: "demo_db \<Rightarrow> trade_row list" where
  "unresolved_rows s = filter t_action_unknown (trades_with [OPENED] s)"

definition drift_problems :: "bool \<Rightarrow> demo_db \<Rightarrow> string list" where
  "drift_problems drift s = (if drift then [''drift_present''] else [])
     @ (if trades_with UNRESOLVED_STATUSES s \<noteq> [] then [''unresolved_submission''] else [])
     @ (if unresolved_rows s \<noteq> [] then [''unresolved_action''] else [])"

text \<open>The dashboard's request is JSON text, carried as its tree; \<open>truthy\<close> is Python's truth of a
  stored value. The dashboard writes the actor and the reason as text; \<open>str\<close> of another JSON value is given for
  null and the booleans and taken as unreadable otherwise.\<close>

definition truthy :: "json \<Rightarrow> bool" where
  "truthy j \<longleftrightarrow> j \<noteq> JNull \<and> j \<noteq> JStr [] \<and> j \<noteq> JBool False \<and> j \<noteq> JInt 0 \<and> j \<noteq> JList [] \<and> j \<noteq> JObj []"

fun json_text :: "json \<Rightarrow> string option" where
  "json_text (JStr a) = Some a"
| "json_text JNull = Some ''None''"
| "json_text (JBool b) = Some (if b then ''True'' else ''False'')"
| "json_text _ = None"

definition request_actor :: "json \<Rightarrow> string option" where
  "request_actor raw = (case raw of
     JObj kvs \<Rightarrow> (case map_of kvs ''actor'' of Some j \<Rightarrow> map_option (take 64) (json_text j) | None \<Rightarrow> None)
   | _ \<Rightarrow> None)"

definition request_reason :: "json \<Rightarrow> string" where
  "request_reason raw = (let j = jget raw ''reason'' in if truthy j then (case json_text j of Some t \<Rightarrow> take 120 t | None \<Rightarrow> []) else [])"

definition drift_clear_request :: "string list \<Rightarrow> instant \<Rightarrow> demo_router \<Rightarrow> demo_router" where
  "drift_clear_request problems now g =
    (let raw = flag_of DRIFT_CLEAR_REQUEST_FLAG (dr_db g); actor = request_actor raw; episode = jget raw ''episode'';
         found = (if dr_blocked g \<noteq> Some DRIFT then [''not_blocked_by_drift'']
           else if actor = None \<or> actor = Some [] then [''request_invalid'']
           else if (case episode of JStr e \<Rightarrow> e = [] | _ \<Rightarrow> True) \<or> episode \<noteq> flag_of DRIFT_EPISODE_FLAG (dr_db g) then [''stale_episode'']
           else problems)
     in if \<not> truthy raw then g
        else if found \<noteq> [] then g\<lparr>dr_db := apply_all now [] [(DRIFT_CLEAR_REQUEST_FLAG, raw)]
               (Some (note_of ''DRIFT_CLEAR_REFUSED'' None [(''actor'', jstr_opt actor), (''reasons'', JList (map JStr found)), (''source'', JStr ''dashboard'')])) (dr_db g)\<rparr>
        else g\<lparr>dr_blocked := None, dr_db := apply_all now [(BLOCKED_FLAG, JNull)] [(DRIFT_CLEAR_REQUEST_FLAG, raw), (DRIFT_EPISODE_FLAG, episode)]
               (Some (note_of ''DRIFT_CLEARED'' None [(''actor'', jstr_opt actor), (''reason'', JStr (request_reason raw)), (''source'', JStr ''dashboard''), (''episode'', episode)])) (dr_db g)\<rparr>)"

section \<open>Passes over the table\<close>

text \<open>A pass reads the rows it works on once; each row's acts are worked out from the row it read.\<close>

definition run_acts :: "instant \<Rightarrow> string \<Rightarrow> act list \<Rightarrow> demo_db \<Rightarrow> demo_db" where
  "run_acts now c acts s = fold (apply_act now c) acts s"

definition pass :: "instant \<Rightarrow> (trade_row \<Rightarrow> act list) \<Rightarrow> trade_row list \<Rightarrow> demo_db \<Rightarrow> demo_db" where
  "pass now acts rows s = fold (\<lambda>r. run_acts now (t_client r) (acts r)) rows s"

text \<open>The two blocks a reconciliation may set or lift: an unexpected broker trade, an action whose outcome is unknown.\<close>

definition block_on_drift :: "string \<Rightarrow> instant \<Rightarrow> open_trade list \<Rightarrow> demo_router \<Rightarrow> demo_router" where
  "block_on_drift episode now drift g = (if drift \<noteq> [] \<and> dr_blocked g \<noteq> Some DRIFT
     then (let h = set_blocked episode now (Some DRIFT) g in h\<lparr>dr_db := journal_note now
       (note_of ''DRIFT'' None [(''trades'', JList (map (\<lambda>t. JList [JStr (ot_id t), JStr (ot_instrument t)]) drift))]) (dr_db h)\<rparr>)
     else g)"

definition block_on_unresolved :: "string \<Rightarrow> instant \<Rightarrow> demo_router \<Rightarrow> demo_router" where
  "block_on_unresolved episode now g = (let open_unresolved = unresolved_rows (dr_db g) in
     if dr_blocked g = Some DRIFT then g
     else if open_unresolved \<noteq> [] \<and> dr_blocked g \<noteq> Some UNRESOLVED_ACTION
     then (let h = set_blocked episode now (Some UNRESOLVED_ACTION) g in h\<lparr>dr_db := journal_note now
       (note_of ''UNRESOLVED_ACTION'' None [(''client_ids'', JList (map (JStr \<circ> t_client) open_unresolved))]) (dr_db h)\<rparr>)
     else if open_unresolved = [] \<and> dr_blocked g = Some UNRESOLVED_ACTION
     then (let h = set_blocked episode now None g in h\<lparr>dr_db := journal_note now (note_of ''UNRESOLVED_ACTION_RESOLVED'' None []) (dr_db h)\<rparr>)
     else g)"

definition reconcile :: "broker_reads \<Rightarrow> string \<Rightarrow> instant \<Rightarrow> demo_router \<Rightarrow> py_error + (demo_router \<times> open_trade list option)" where
  "reconcile v episode now g = (case bv_trades v of
     None \<Rightarrow> Inr (drift_clear_request [''broker_read_failed''] now
         (g\<lparr>dr_db := journal_note now (note_of ''RECONCILE_READ_FAILED'' None [(''error'', JStr ''read'')]) (dr_db g)\<rparr>), None)
   | Some ts \<Rightarrow>
       let rows = trades_with LIVE_STATUSES (dr_db g) in
       ebind (traverse (reconcile_row v ts) rows) (\<lambda>results.
       let acts = (\<lambda>r. case map_of (zip (map t_client rows) results) (t_client r) of Some (Some a, _) \<Rightarrow> [a] | _ \<Rightarrow> []);
           matched = List.map_filter snd results;
           drift = filter (\<lambda>t. ot_id t \<notin> set matched) ts;
           g1 = block_on_drift episode now drift (g\<lparr>dr_db := pass now acts rows (dr_db g)\<rparr>);
           g2 = drift_clear_request (drift_problems (drift \<noteq> []) (dr_db g1)) now g1
       in Inr (block_on_unresolved episode now g2, Some ts)))"

definition expire_act :: "hold_config \<Rightarrow> instant \<Rightarrow> (string \<Rightarrow> nat \<Rightarrow> reply) \<Rightarrow> trade_row \<Rightarrow> act list \<times> string option" where
  "expire_act c now replies r =
    (if t_action_unknown r then ([], Some ''ACTION_UNRESOLVED'')
     else let expired = (case t_expires_at r of Some t \<Rightarrow> t \<le> now | None \<Rightarrow> False) in
       if expired \<or> entries_blocked c now then
         let a = cancel_limit (if expired then ''LIMIT_EXPIRED'' else ''WEEKEND_ENTRY_BLOCK'') (replies (t_client r) 0) r in ([a], Some (ac_outcome a))
       else ([], None))"

text \<open>The first row of a pass that reads the quote of its symbol records that it cannot be used.\<close>

definition skipped_note :: "string \<Rightarrow> (string \<Rightarrow> raw_quote) \<Rightarrow> (trade_row \<Rightarrow> bool) \<Rightarrow> trade_row list \<Rightarrow> trade_row \<Rightarrow> act list" where
  "skipped_note kind quotes reads rows r = (case check_quote (quotes (t_symbol r)) of
     Inl problem \<Rightarrow> if reads r \<and> find (\<lambda>x. reads x \<and> t_symbol x = t_symbol r) rows = Some r
       then [quiet_act None [note_of kind None [(''reason'', JStr problem)]]] else []
   | Inr _ \<Rightarrow> [])"

definition manage_outcome ::
  "hold_config \<Rightarrow> instant \<Rightarrow> (string \<Rightarrow> raw_quote) \<Rightarrow> (string \<Rightarrow> nat \<Rightarrow> reply) \<Rightarrow> string list \<Rightarrow> trade_row list \<Rightarrow> trade_row \<Rightarrow> py_error + act list \<times> string option" where
  "manage_outcome c now quotes replies skip rows r =
    (if t_client r \<in> set skip then Inr ([], None)
     else if t_action_unknown r then Inr ([], Some ''ACTION_UNRESOLVED'')
     else ebind (manage_row c now (check_quote (quotes (t_symbol r))) (replies (t_client r)) r) (\<lambda>(acts, _, out).
       Inr (skipped_note ''MANAGE_SKIPPED'' quotes (\<lambda>x. t_client x \<notin> set skip \<and> \<not> t_action_unknown x \<and> reads_quote c now x) rows r @ acts, Some out)))"

definition outcomes_of :: "trade_row list \<Rightarrow> (act list \<times> string option) list \<Rightarrow> (string, string) dict" where
  "outcomes_of rows results = List.map_filter (\<lambda>(r, (_, out)). map_option (\<lambda>w. (t_client r, w)) out) (zip rows results)"

definition acts_of :: "trade_row list \<Rightarrow> (act list \<times> string option) list \<Rightarrow> trade_row \<Rightarrow> act list" where
  "acts_of rows results r = (case map_of (zip (map t_client rows) results) (t_client r) of Some (acts, _) \<Rightarrow> acts | None \<Rightarrow> [])"

text \<open>\<open>_manage_locked\<close> after its reconciliation: expired limits first, then the open rows.\<close>

definition manage_pass ::
  "hold_config \<Rightarrow> instant \<Rightarrow> (string \<Rightarrow> raw_quote) \<Rightarrow> (string \<Rightarrow> nat \<Rightarrow> reply) \<Rightarrow> string list \<Rightarrow> demo_db \<Rightarrow> py_error + (string, string) dict \<times> demo_db" where
  "manage_pass c now quotes replies skip s =
    (let limits = trades_with [RESTING] s; expiries = map (expire_act c now replies) limits;
         s1 = pass now (acts_of limits expiries) limits s; rows = trades_with [OPENED] s1
     in ebind (traverse (manage_outcome c now quotes replies skip rows) rows) (\<lambda>results.
          Inr (outcomes_of limits expiries @ outcomes_of rows results, pass now (acts_of rows results) rows s1)))"

definition manage_locked ::
  "hold_config \<Rightarrow> bool \<Rightarrow> broker_reads \<Rightarrow> string \<Rightarrow> instant \<Rightarrow> (string \<Rightarrow> raw_quote) \<Rightarrow> (string \<Rightarrow> nat \<Rightarrow> reply) \<Rightarrow> string list
   \<Rightarrow> open_trade list option \<Rightarrow> demo_router \<Rightarrow> py_error + (string, string) dict \<times> demo_router \<times> open_trade list option" where
  "manage_locked c dry v episode now quotes replies skip report g =
    ebind (case report of Some ts \<Rightarrow> Inr (g, Some ts) | None \<Rightarrow> reconcile v episode now g) (\<lambda>(g1, seen).
      if seen = None \<or> dry then Inr ([], g1, seen)
      else ebind (manage_pass c now quotes replies skip (dr_db g1)) (\<lambda>(outs, s). Inr (outs, g1\<lparr>dr_db := s\<rparr>, seen)))"

section \<open>Operator actions\<close>

definition clear_drift :: "string \<Rightarrow> string \<Rightarrow> string \<Rightarrow> instant \<Rightarrow> demo_router \<Rightarrow> py_error + demo_router" where
  "clear_drift episode actor reason now g = (if actor = [] then Inl (ValueError ''actor required'')
     else let h = set_blocked episode now None g
       in Inr (h\<lparr>dr_db := journal_note now (note_of ''DRIFT_CLEARED'' None [(''actor'', JStr actor), (''reason'', JStr reason)]) (dr_db h)\<rparr>))"

definition clear_unresolved :: "string \<Rightarrow> string \<Rightarrow> instant \<Rightarrow> demo_router \<Rightarrow> py_error + string list \<times> demo_router" where
  "clear_unresolved actor reason now g = (if actor = [] then Inl (ValueError ''actor required'')
     else let rows = unresolved_rows (dr_db g); released = map t_client rows;
          g1 = g\<lparr>dr_db := pass now (\<lambda>_. [quiet_act (Some settle) []]) rows (dr_db g)\<rparr>;
          g2 = (if dr_blocked g1 = Some UNRESOLVED_ACTION then g1\<lparr>dr_blocked := None, dr_db := set_flag BLOCKED_FLAG JNull (dr_db g1)\<rparr> else g1)
       in Inr (released, g2\<lparr>dr_db := journal_note now (note_of ''UNRESOLVED_CLEARED'' None
            [(''actor'', JStr actor), (''reason'', JStr reason), (''client_ids'', JList (map JStr released))]) (dr_db g2)\<rparr>))"

definition mark_not_sent :: "broker_reads \<Rightarrow> string \<Rightarrow> string \<Rightarrow> string \<Rightarrow> instant \<Rightarrow> demo_db \<Rightarrow> py_error + bool \<times> demo_db" where
  "mark_not_sent v c actor reason now s = (if actor = [] then Inl (ValueError ''actor required'')
     else (case trade_of c s of None \<Rightarrow> Inr (False, s) | Some r \<Rightarrow>
       if t_status r \<notin> set UNRESOLVED_STATUSES then Inr (False, s)
       else (case bv_trades v of None \<Rightarrow> Inl (RuntimeError ''broker read'') | Some ts \<Rightarrow>
         if (\<exists>t \<in> set ts. ot_ext t = Some (bv_ext v c)) then Inr (False, s)
         else (case bv_trade_for v c of None \<Rightarrow> Inl (RuntimeError ''broker read'')
           | Some (Some _) \<Rightarrow> Inr (False, s)
           | Some None \<Rightarrow> Inr (True, apply_act now c (quiet_act
               (Some (\<lambda>x. x\<lparr>t_status := REFUSED, t_closed_reason := Some ''operator_confirmed_not_sent''\<rparr>))
               [note_of ''NOT_SENT_CONFIRMED'' (Some c) [(''actor'', JStr actor), (''reason'', JStr reason)]]) s)))))"

definition emergency_close_all :: "bool \<Rightarrow> string \<Rightarrow> instant \<Rightarrow> (string \<Rightarrow> nat \<Rightarrow> reply) \<Rightarrow> demo_db \<Rightarrow> (string, string) dict \<times> demo_db" where
  "emergency_close_all dry why now replies s =
    (let limits = trades_with [RESTING] s; close_reason = take 64 (''EMERGENCY:'' @ why);
         cancel = (\<lambda>r. if dry then ([], Some ''DRY_RUN'') else let a = cancel_limit ''EMERGENCY_ACTIVE'' (replies (t_client r) 0) r in ([a], Some (ac_outcome a)));
         close = (\<lambda>r. if dry then ([quiet_act None [note_of ''DRY_RUN'' (Some (t_client r)) [(''action'', JStr ''emergency_close''),
               (''trade_id'', jstr_opt (t_trade_id r)), (''reason'', JStr close_reason)]]], Some ''DRY_RUN'')
           else let a = close_trade close_reason (t_client r @ ''-emergency'') (replies (t_client r) 0) r in ([a], Some (ac_outcome a)));
         s1 = pass now (fst \<circ> cancel) limits s; rows = trades_with [OPENED] s1
     in (outcomes_of limits (map cancel limits) @ outcomes_of rows (map close rows), pass now (fst \<circ> close) rows s1))"

section \<open>Sending\<close>

text \<open>What a submission comes back with: an exception that proves nothing was processed, any other exception, a
  resting limit, or a result with its reference.\<close>

datatype submission = Not_Processed string | Lost string | Resting_Order string | Submitted result_status "string option" "string option"

definition mark_open :: "open_trade list option \<Rightarrow> string option \<Rightarrow> instant \<Rightarrow> trade_row \<Rightarrow> trade_row" where
  "mark_open seen tid now r = (let trade = (case seen of None \<Rightarrow> None | Some ts \<Rightarrow> find (\<lambda>t. Some (ot_id t) = tid) ts) in
     r\<lparr>t_status := OPENED, t_trade_id := tid, t_fill_price := map_option ot_price trade, t_closed_reason := None,
       t_opened_at := Some (case Option.bind trade ot_open_time of Some u \<Rightarrow> u | None \<Rightarrow> now)\<rparr>)"

definition submission_act :: "open_trade list option \<Rightarrow> instant \<Rightarrow> submission \<Rightarrow> trade_row \<Rightarrow> act" where
  "submission_act seen now sub r =
    (let c = Some (t_client r);
         out = (\<lambda>f kind kvs outcome. \<lparr>ac_set = Some f, ac_notes = [note_of kind c kvs], ac_call = None, ac_outcome = outcome\<rparr>);
         ended = (\<lambda>st why x. x\<lparr>t_status := st, t_closed_reason := why\<rparr>)
     in case sub of
       Not_Processed e \<Rightarrow> out (ended REFUSED (Some e)) ''REJECTED'' [(''reason'', JStr e)] ''REJECTED''
     | Lost e \<Rightarrow> out (ended UNRESOLVED (Some e)) ''UNKNOWN'' [(''reason'', JStr e)] ''UNKNOWN''
     | Resting_Order ref \<Rightarrow> out (\<lambda>x. x\<lparr>t_status := RESTING, t_order_id := Some ref, t_closed_reason := None\<rparr>) ''LIMIT_PENDING''
         [(''order_id'', JStr ref), (''side'', JStr (side_name (t_side r))), (''units'', JInt (t_units r)), (''symbol'', JStr (t_symbol r)),
          (''limit_price'', jdec_opt (t_limit_price r)), (''stop'', JDec (t_stop r)), (''target'', JDec (t_target r))] ''PENDING_LIMIT''
     | Submitted st ref reason \<Rightarrow>
         if st = RES_ACCEPTED then out (mark_open seen ref now) ''ACCEPTED'' [(''trade_id'', jstr_opt ref), (''reason'', jstr_opt reason)] ''ACCEPTED''
         else if st = RES_REJECTED then out (ended REFUSED reason) ''REJECTED'' [(''reason'', jstr_opt reason)] ''REJECTED''
         else out (ended UNRESOLVED reason) ''UNKNOWN'' [(''reason'', jstr_opt reason)] ''UNKNOWN'')"

definition send :: "open_trade list option \<Rightarrow> instant \<Rightarrow> submission \<Rightarrow> trade_row \<Rightarrow> demo_db \<Rightarrow> py_error + string \<times> demo_db" where
  "send seen now sub r s = ebind (insert_intent now (r\<lparr>t_status := SENDING\<rparr>) s) (\<lambda>s1.
     let a = submission_act seen now sub r;
         s2 = journal_note now (note_of ''INTENT'' (Some (t_client r)) [(''units'', JInt (t_units r)), (''side'', JStr (side_name (t_side r))),
           (''entry'', JDec (t_entry r)), (''stop'', JDec (t_stop r)), (''target'', JDec (t_target r)), (''order_kind'', jstr_opt (t_order_kind r))]) s1
     in Inr (ac_outcome a, apply_act now (t_client r) a s2))"

end
