(* ===== verification/DemoInvariant.thy ===== *)
theory DemoInvariant
  imports DemoManage
begin

text \<open>
  What the router keeps of a trade of the pullback strategy, over every pass, every broker answer and every operator
  action: how much of it the scale-out may have closed, and where its stop may be.
\<close>

section \<open>One row\<close>

definition third :: "trade_row \<Rightarrow> int" where "third r = t_units r div 3"

text \<open>How many thirds the recorded stage says were closed; a row that trails has closed both, or is too small to.\<close>

fun parts_at :: "scale_stage option \<Rightarrow> int" where
  "parts_at (Some HALF) = 1"
| "parts_at (Some ONE) = 2"
| "parts_at (Some TRAIL) = 2"
| "parts_at _ = 0"

definition units_left :: "trade_row \<Rightarrow> int" where
  "units_left r = (case t_units_remaining r of None \<Rightarrow> t_units r | Some n \<Rightarrow> n)"

definition scaled_ok :: "trade_row \<Rightarrow> bool" where
  "scaled_ok r \<longleftrightarrow> (t_strategy r = Some STRATEGY \<longrightarrow>
     (t_side r = LONG \<or> t_side r = SHORT) \<and> 1 \<le> t_units r \<and> on_grid 5 (t_stop r)
     \<and> units_left r = t_units r - parts_at (t_scale_stage r) * third r
     \<and> (\<forall>w. t_scale_stage r = Some (OtherStage w) \<longrightarrow> w = []) \<and> t_pending r \<noteq> Some Breakeven_Action)"

text \<open>A row only moves forward: parts closed, a tighter stop.\<close>

definition tightened :: "side \<Rightarrow> rat \<Rightarrow> rat \<Rightarrow> bool" where
  "tightened sd old new \<longleftrightarrow> (if sd = LONG then old \<le> new else new \<le> old)"

definition advanced :: "trade_row \<Rightarrow> trade_row \<Rightarrow> bool" where
  "advanced r r' \<longleftrightarrow> t_client r' = t_client r \<and> t_strategy r' = t_strategy r \<and> t_side r' = t_side r \<and> t_units r' = t_units r
     \<and> (t_strategy r = Some STRATEGY \<longrightarrow> parts_at (t_scale_stage r) \<le> parts_at (t_scale_stage r') \<and> tightened (t_side r) (t_stop r) (t_stop r'))"

lemma advanced_refl: "advanced r r"
  by (simp add: advanced_def tightened_def)

lemma advanced_trans: "advanced r s \<Longrightarrow> advanced s t \<Longrightarrow> advanced r t"
  by (auto simp: advanced_def tightened_def split: if_splits)

lemma third_bounds: "1 \<le> t_units r \<Longrightarrow> 0 \<le> third r \<and> 3 * third r \<le> t_units r"
  unfolding third_def by presburger

lemma parts_bounds: "0 \<le> parts_at st \<and> parts_at st \<le> 2"
  by (induction st rule: parts_at.induct) auto

lemma left_positive:
  assumes "scaled_ok r" and "t_strategy r = Some STRATEGY" shows "1 \<le> units_left r \<and> t_units r \<le> 3 * units_left r"
proof -
  have "1 \<le> t_units r" "units_left r = t_units r - parts_at (t_scale_stage r) * third r" using assms by (auto simp: scaled_ok_def)
  moreover have "parts_at (t_scale_stage r) = 0 \<or> parts_at (t_scale_stage r) = 1 \<or> parts_at (t_scale_stage r) = 2"
    using parts_bounds [of "t_scale_stage r"] by linarith
  ultimately show ?thesis using third_bounds [of r] by (elim disjE) auto
qed

text \<open>The steps of a tick fit the row they are for.\<close>

fun steps_fit :: "trade_row \<Rightarrow> int \<Rightarrow> manage_step list \<Rightarrow> bool" where
  "steps_fit r k [] \<longleftrightarrow> True"
| "steps_fit r k (s # ss) \<longleftrightarrow> (case ms_kind s of
     PARTIAL \<Rightarrow> k < 2 \<and> ms_units s = Some (third r) \<and> parts_at (Some (ms_stage s)) = k + 1 \<and> (\<forall>w. ms_stage s \<noteq> OtherStage w)
       \<and> ms_remaining s = Some (t_units r - (k + 1) * third r) \<and> steps_fit r (k + 1) ss
   | STOP \<Rightarrow> ss = [] \<and> ms_stage s = TRAIL \<and> (k = 2 \<or> third r = 0) \<and> (\<exists>new. ms_stop s = Some new \<and> tighter (t_side r) new (Some (t_stop r)))
   | MARK \<Rightarrow> ss = [] \<and> ms_stage s = TRAIL \<and> (k = 2 \<or> third r = 0))"

lemma partial_if_eq:
  "partial_if go u n l (stg, left, steps) = (if go \<and> 1 \<le> u div 3 \<and> 1 \<le> left - u div 3
     then (n, left - u div 3, steps @ [\<lparr>ms_kind = PARTIAL, ms_stage = n, ms_label = l, ms_journals = [''PARTIAL_CLOSE''],
        ms_units = Some (u div 3), ms_remaining = Some (left - u div 3), ms_stop = None\<rparr>]) else (stg, left, steps))"
  by (auto simp: partial_if_def can_partial_def Let_def split: prod.splits)

lemma row_steps_fit:
  assumes ok: "scaled_ok r" and st: "t_strategy r = Some STRATEGY" and steps: "row_steps r price = Inr steps"
  shows "steps_fit r (parts_at (t_scale_stage r)) steps"
proof -
  let ?u = "t_units r" and ?q = "t_units r div 3" and ?left = "units_left r"
  have u: "1 \<le> ?u" "0 \<le> ?q" "3 * ?q \<le> ?u" using ok st third_bounds [of r] by (auto simp: scaled_ok_def third_def)
  have left: "?left = ?u - parts_at (t_scale_stage r) * ?q" using ok st by (simp add: scaled_ok_def third_def)
  have q1: "1 \<le> ?q \<Longrightarrow> 1 \<le> ?u - 2 * ?q" "\<not> 1 \<le> ?q \<Longrightarrow> ?q = 0" using u by auto
  have left_u: "(case t_units_remaining r of None \<Rightarrow> t_units r | Some n \<Rightarrow> n) = ?left" by (simp add: units_left_def)
  obtain stg where stg: "t_scale_stage r = stg" by simp
  have st_cases: "stg \<in> {None, Some NONE, Some HALF, Some ONE, Some TRAIL, Some (OtherStage [])}"
  proof (cases stg)
    case (Some x)
    then show ?thesis using ok st stg by (cases x) (auto simp: scaled_ok_def)
  qed simp
  have trail: "\<exists>new. trail_stop (t_side r) (row_anchor r) (row_risk r) price = Inr new" using ok st by (auto simp: scaled_ok_def trail_stop_def)
  then obtain new where new: "trail_stop (t_side r) (row_anchor r) (row_risk r) price = Inr new" by blast
  define half where "half = level_reached (t_side r) price (level_at (t_side r) (row_anchor r) (row_risk r) HALF_R)"
  define one where "one = level_reached (t_side r) price (level_at (t_side r) (row_anchor r) (row_risk r) ONE_R)"
  note run = steps [unfolded row_steps_def management_steps_def prod.case option.case Let_def left_u new ebind_Inr, folded half_def one_def, unfolded stg]
  show ?thesis
  proof (cases "row_risk r \<le> 0")
    case True
    then have "steps = []" using run by simp
    then show ?thesis by simp
  next
    case False
    then have guard: "((t_side r \<noteq> LONG \<and> t_side r \<noteq> SHORT) \<or> row_risk r \<le> 0 \<or> t_units r < 1) = False" using ok st u by (auto simp: scaled_ok_def)
    note run = run [unfolded guard if_False]
    from st_cases consider "stg = None \<or> stg = Some NONE \<or> stg = Some (OtherStage [])" | "stg = Some HALF" | "stg = Some ONE" | "stg = Some TRAIL" by blast
    then show ?thesis
    proof cases
      case 1
      then have p0: "parts_at stg = 0" "?left = ?u" using left stg by auto
      have same: "(if stg = None \<or> stg = Some (OtherStage []) then NONE else the stg) = NONE" using 1 by auto
      show ?thesis
      proof (cases "1 \<le> ?q")
        case True
        have b: "1 \<le> ?u - ?q" "1 \<le> ?u - ?q - ?q" using q1(1) [OF True] u by auto
        obtain q where q: "?q = q" by simp
        note run = run [unfolded p0(2) same q]
        show ?thesis using run p0(1) True [unfolded q] b [unfolded q] unfolding stg
          by (cases half; cases one) (auto simp: partial_if_eq third_def q)
      next
        case False
        note q0 = q1(2) [OF False]
        note run = run [unfolded p0(2) same q0]
        show ?thesis using run p0(1) unfolding stg by (cases half; cases one) (auto simp: partial_if_eq third_def q0)
      qed
    next
      case 2
      obtain q where q: "?q = q" by simp
      have l: "?left = ?u - 1 * q" using left stg 2 q by simp
      note run = run [unfolded l q 2]
      show ?thesis using run q1 [unfolded q] u [unfolded q] unfolding stg 2 by (cases one; cases "1 \<le> q") (auto simp: partial_if_eq third_def q can_partial_def)
    next
      case 3
      obtain q where q: "?q = q" by simp
      have l: "?left = ?u - 2 * q" using left stg 3 q by simp
      note run = run [unfolded l q 3]
      show ?thesis using run q1 [unfolded q] u [unfolded q] unfolding stg 3 by (cases one) (auto simp: partial_if_eq third_def q can_partial_def)
    next
      case 4
      then show ?thesis using run left stg by (auto split: if_splits)
    qed
  qed
qed

lemma rounded_tightens:
  assumes "on_grid 5 old" and "tighter sd new (Some old)" and "round_price new = Inr rounded" shows "tightened sd old rounded"
proof -
  obtain m where m: "old = of_int m / 10 ^ 5" using assms(1) by (auto simp: on_grid_def)
  have r: "rounded = of_int (half_up (new * 10 ^ 5)) / 10 ^ 5" using assms(3) by (auto simp: round_price_def Let_def split: if_splits)
  have h: "half_up (old * 10 ^ 5) = m" by (simp add: m)
  show ?thesis
  proof (cases "sd = LONG")
    case True
    then have "old * 10 ^ 5 \<le> new * 10 ^ 5" using assms(2) by (simp add: tighter_def)
    from half_up_mono [OF this] have "m \<le> half_up (new * 10 ^ 5)" unfolding h .
    then show ?thesis using True by (simp add: tightened_def m r divide_right_mono)
  next
    case False
    then have "new * 10 ^ 5 \<le> old * 10 ^ 5" using assms(2) by (simp add: tighter_def)
    from half_up_mono [OF this] have "half_up (new * 10 ^ 5) \<le> m" unfolding h .
    then show ?thesis using False by (simp add: tightened_def m r divide_right_mono)
  qed
qed

lemma steps_fit_cong:
  "t_units r' = t_units r \<Longrightarrow> t_side r' = t_side r \<Longrightarrow> t_stop r' = t_stop r \<Longrightarrow> steps_fit r' k ss = steps_fit r k ss"
  by (induction ss arbitrary: k) (auto simp: third_def split: step_kind.splits)

text \<open>The kinds of update a row sees from the scale-out.\<close>

definition harmless :: "trade_row \<Rightarrow> trade_row \<Rightarrow> bool" where
  "harmless r r' \<longleftrightarrow> t_client r' = t_client r \<and> t_strategy r' = t_strategy r \<and> t_side r' = t_side r \<and> t_units r' = t_units r
     \<and> t_stop r' = t_stop r \<and> t_scale_stage r' = t_scale_stage r \<and> units_left r' = units_left r
     \<and> (t_pending r \<noteq> Some Breakeven_Action \<longrightarrow> t_pending r' \<noteq> Some Breakeven_Action)"

lemma harmless_ok: "harmless r r' \<Longrightarrow> scaled_ok r \<Longrightarrow> scaled_ok r' \<and> advanced r r'"
  by (simp add: harmless_def scaled_ok_def advanced_def tightened_def third_def)

lemma harmless_updates:
  "harmless r r" "harmless r (settle r)" "harmless r (end_row st why r)" "p \<noteq> Breakeven_Action \<Longrightarrow> harmless r (latch p r)"
  by (simp_all add: harmless_def settle_def end_row_def latch_def units_left_def split: option.split)

lemma apply_step_row:
  assumes ok: "scaled_ok r" and st: "t_strategy r = Some STRATEGY" and fit: "steps_fit r (parts_at (t_scale_stage r)) (s # ss)"
    and act: "apply_step reply s r = Inr a"
  shows "scaled_ok (after_act a r)" and "advanced r (after_act a r)"
    and "ac_outcome a \<in> set APPLIED_OUTCOMES \<Longrightarrow> steps_fit (after_act a r) (parts_at (t_scale_stage (after_act a r))) ss"
proof -
  let ?r = "after_act a r"
  have *: "scaled_ok ?r \<and> advanced r ?r \<and> (ac_outcome a \<in> set APPLIED_OUTCOMES \<longrightarrow> steps_fit ?r (parts_at (t_scale_stage ?r)) ss)"
  proof (cases "harmless r ?r \<and> ac_outcome a \<notin> set APPLIED_OUTCOMES")
    case True
    then show ?thesis using harmless_ok ok by blast
  next
    case moved: False
    show ?thesis
    proof (cases "ms_kind s")
      case PARTIAL
      have acc: "\<exists>reason. reply = Answer RES_ACCEPTED reason"
      proof (rule ccontr)
        assume "\<not> (\<exists>reason. reply = Answer RES_ACCEPTED reason)"
        then have "harmless r ?r \<and> ac_outcome a \<notin> set APPLIED_OUTCOMES"
          using act PARTIAL by (auto simp: apply_step_def after_act_def harmless_updates APPLIED_OUTCOMES_def Let_def split: reply.splits if_splits)
        then show False using moved by blast
      qed
      define r1 where "r1 = settle (r\<lparr>t_units_remaining := ms_remaining s, t_scale_stage := Some (ms_stage s)\<rparr>)"
      have r1: "?r = r1" using act acc PARTIAL by (auto simp: apply_step_def after_act_def r1_def Let_def)
      have same: "t_units r1 = t_units r" "t_side r1 = t_side r" "t_stop r1 = t_stop r" "t_strategy r1 = t_strategy r" "t_client r1 = t_client r"
        "t_scale_stage r1 = Some (ms_stage s)" "t_units_remaining r1 = ms_remaining s" "t_pending r1 = None"
        by (simp_all add: r1_def settle_def)
      show ?thesis using fit ok st unfolding r1 scaled_ok_def advanced_def
        by (simp add: PARTIAL same tightened_def units_left_def third_def steps_fit_cong [OF same(1-3)])
    next
      case STOP
      have acc: "\<exists>reason. reply = Answer RES_ACCEPTED reason"
      proof (rule ccontr)
        assume "\<not> (\<exists>reason. reply = Answer RES_ACCEPTED reason)"
        then have "harmless r ?r \<and> ac_outcome a \<notin> set APPLIED_OUTCOMES"
          using act STOP by (auto simp: apply_step_def after_act_def harmless_updates APPLIED_OUTCOMES_def Let_def split: reply.splits if_splits)
        then show False using moved by blast
      qed
      obtain new where new: "ms_stop s = Some new" "tighter (t_side r) new (Some (t_stop r))" "ss = []" "ms_stage s = TRAIL"
        "parts_at (t_scale_stage r) = 2 \<or> third r = 0" using fit STOP by auto
      obtain rounded where rounded: "round_price new = Inr rounded"
        and r1: "?r = settle (r\<lparr>t_scale_stage := Some TRAIL, t_stop := rounded, t_initial_stop := (if t_initial_stop r = None then Some (t_stop r) else t_initial_stop r)\<rparr>)"
        using act acc STOP new by (auto simp: apply_step_def after_act_def Let_def ebind_eq_Inr)
      have "tightened (t_side r) (t_stop r) rounded" using ok st by (intro rounded_tightens [OF _ new(2) rounded]) (simp add: scaled_ok_def)
      then show ?thesis using ok st new(3,5) round_price_Inr(2) [OF rounded] parts_bounds [of "t_scale_stage r"] unfolding r1
        by (auto simp: scaled_ok_def advanced_def units_left_def third_def settle_def split: option.split)
    next
      case MARK
      then have "?r = r\<lparr>t_scale_stage := Some TRAIL\<rparr>" "ss = []" "parts_at (t_scale_stage r) = 2 \<or> third r = 0"
        using act fit by (auto simp: apply_step_def after_act_def)
      then show ?thesis using ok st parts_bounds [of "t_scale_stage r"] by (auto simp: scaled_ok_def advanced_def tightened_def units_left_def third_def split: option.split)
    qed
  qed
  then show "scaled_ok ?r" "advanced r ?r" "ac_outcome a \<in> set APPLIED_OUTCOMES \<Longrightarrow> steps_fit ?r (parts_at (t_scale_stage ?r)) ss" by blast+
qed

section \<open>Every act of the router\<close>

definition after_acts :: "act list \<Rightarrow> trade_row \<Rightarrow> trade_row" where
  "after_acts acts r = fold after_act acts r"

text \<open>An act leaves the identity of any row alone, and what it does to the row it was worked out from is sound.\<close>

definition local_act :: "act \<Rightarrow> bool" where
  "local_act a \<longleftrightarrow> (\<forall>x. t_client (after_act a x) = t_client x)"

definition sound_acts :: "trade_row \<Rightarrow> act list \<Rightarrow> bool" where
  "sound_acts r acts \<longleftrightarrow> (\<forall>a \<in> set acts. local_act a) \<and> (scaled_ok r \<longrightarrow> scaled_ok (after_acts acts r) \<and> advanced r (after_acts acts r))"

lemma sound_Nil: "sound_acts r []"
  by (simp add: sound_acts_def after_acts_def advanced_refl)

lemma sound_harmless: "local_act a \<Longrightarrow> harmless r (after_act a r) \<Longrightarrow> sound_acts r [a]"
  using harmless_ok by (auto simp: sound_acts_def after_acts_def)

lemma local_acts:
  "t_client (settle r) = t_client r" "t_client (end_row st why r) = t_client r" "t_client (latch p r) = t_client r"
  by (simp_all add: settle_def end_row_def latch_def)

lemma close_sound: "sound_acts r [close_trade why cid reply r]"
proof (rule sound_harmless)
  show "local_act (close_trade why cid reply r)"
    by (auto simp: close_trade_def Let_def local_act_def after_act_def local_acts split: reply.split)
  show "harmless r (after_act (close_trade why cid reply r) r)"
    by (auto simp: close_trade_def Let_def after_act_def harmless_updates split: reply.split)
qed

lemma cancel_sound: "sound_acts r [cancel_limit why reply r]"
proof (rule sound_harmless)
  show "local_act (cancel_limit why reply r)"
    by (auto simp: cancel_limit_def Let_def local_act_def after_act_def local_acts split: reply.split option.split)
  show "harmless r (after_act (cancel_limit why reply r) r)"
    by (auto simp: cancel_limit_def Let_def after_act_def harmless_updates split: reply.split option.split)
qed

lemma apply_step_local: "apply_step reply s r = Inr a \<Longrightarrow> local_act a"
  by (auto simp: apply_step_def Let_def local_act_def after_act_def local_acts ebind_eq_Inr
      split: reply.splits step_kind.splits if_splits)

lemma run_steps_acts:
  assumes "run_steps replies i ss r = Inr (acts, r')" shows "(\<forall>a \<in> set acts. local_act a) \<and> r' = after_acts acts r"
  using assms
proof (induction ss arbitrary: i r acts r')
  case Nil
  then show ?case by (simp add: after_acts_def)
next
  case (Cons s ss)
  obtain a where a: "apply_step (replies i) s r = Inr a" using Cons.prems by (auto simp: ebind_eq_Inr)
  note la = apply_step_local [OF a]
  show ?case
  proof (cases "ac_outcome a \<in> set APPLIED_OUTCOMES")
    case True
    then obtain acts' where "run_steps replies (Suc i) ss (after_act a r) = Inr (acts', r')" "acts = a # acts'"
      using Cons.prems a by (auto simp: ebind_eq_Inr split: prod.splits)
    then show ?thesis using Cons.IH la by (fastforce simp: after_acts_def)
  next
    case False
    then show ?thesis using Cons.prems a la by (auto simp: after_acts_def)
  qed
qed

lemma run_steps_ok:
  assumes "run_steps replies i ss r = Inr (acts, r')" and "scaled_ok r" and "t_strategy r = Some STRATEGY"
    and "steps_fit r (parts_at (t_scale_stage r)) ss"
  shows "scaled_ok r' \<and> advanced r r'"
  using assms
proof (induction ss arbitrary: i r acts r')
  case Nil
  then show ?case by (simp add: advanced_refl)
next
  case (Cons s ss)
  obtain a where a: "apply_step (replies i) s r = Inr a" using Cons.prems by (auto simp: ebind_eq_Inr)
  note row = apply_step_row [OF Cons.prems(2-4) a]
  show ?case
  proof (cases "ac_outcome a \<in> set APPLIED_OUTCOMES")
    case True
    then obtain acts' where more: "run_steps replies (Suc i) ss (after_act a r) = Inr (acts', r')"
      using Cons.prems a by (auto simp: ebind_eq_Inr split: prod.splits)
    have "t_strategy (after_act a r) = Some STRATEGY" using row(2) Cons.prems(3) by (simp add: advanced_def)
    from Cons.IH [OF more row(1) this row(3) [OF True]] row(2) advanced_trans show ?thesis by blast
  next
    case False
    then show ?thesis using Cons.prems a row by (auto simp: after_acts_def)
  qed
qed

text \<open>A trade without the strategy only has to keep its identity.\<close>

definition same_identity :: "trade_row \<Rightarrow> trade_row \<Rightarrow> bool" where
  "same_identity r r' \<longleftrightarrow> t_client r' = t_client r \<and> t_strategy r' = t_strategy r \<and> t_side r' = t_side r \<and> t_units r' = t_units r"

lemma sound_act:
  assumes "local_act a" and "same_identity r (after_act a r)"
    and "t_strategy r = Some STRATEGY \<Longrightarrow> scaled_ok r \<Longrightarrow> harmless r (after_act a r)"
  shows "sound_acts r [a]"
proof (cases "t_strategy r = Some STRATEGY \<and> scaled_ok r")
  case True
  then show ?thesis using assms sound_harmless by blast
next
  case False
  then show ?thesis using assms(1,2) by (auto simp: sound_acts_def after_acts_def scaled_ok_def advanced_def same_identity_def)
qed

lemma same_identity_updates:
  "same_identity r (settle r)" "same_identity r (end_row st why r)" "same_identity r (latch p r)" "same_identity r r"
  by (simp_all add: same_identity_def settle_def end_row_def latch_def)

lemma breakeven_sound:
  assumes "breakeven_row reply r = Inr a" and "t_strategy r \<noteq> Some STRATEGY" shows "sound_acts r [a]"
proof (rule sound_act)
  note act = assms(1) [unfolded breakeven_row_def Let_def ebind_eq_Inr]
  show "local_act a" using act by (cases reply) (auto simp: local_act_def after_act_def local_acts split: if_splits)
  show "same_identity r (after_act a r)"
    using act by (cases reply) (auto simp: after_act_def same_identity_def latch_def split: if_splits)
qed (use assms(2) in simp)

lemma manage_pullback_sound:
  assumes "manage_pullback c now quote replies r = Inr (acts, r', out)" and st: "t_strategy r = Some STRATEGY" shows "sound_acts r acts"
proof (cases quote)
  case (Inl p)
  then show ?thesis using assms(1) by (simp add: manage_pullback_def sound_Nil)
next
  case (Inr q)
  define d where "d = (if due c r now then duration_action c r now (Some (exit_price r q)) else None)"
  note run = assms(1) [unfolded manage_pullback_def Inr sum.case Let_def d_def [symmetric]]
  show ?thesis
  proof (cases "\<exists>why. d = Some (CLOSE_POSITION why)")
    case True
    then show ?thesis using run close_sound by (auto simp: one_act_def)
  next
    case False
    then obtain steps where steps: "row_steps r (exit_price r q) = Inr steps" "run_steps replies 0 steps r = Inr (acts, r')"
      using run by (auto simp: ebind_eq_Inr split: option.splits boundary_action.splits)
    have "scaled_ok (after_acts acts r) \<and> advanced r (after_acts acts r)" if "scaled_ok r"
      using run_steps_ok [OF steps(2) that st row_steps_fit [OF that st steps(1)]] run_steps_acts [OF steps(2)] by simp
    then show ?thesis using run_steps_acts [OF steps(2)] by (simp add: sound_acts_def)
  qed
qed

lemma manage_row_sound:
  assumes "manage_row c now quote replies r = Inr (acts, r', out)" shows "sound_acts r acts"
proof (cases "t_strategy r = Some STRATEGY")
  case True
  then show ?thesis using assms manage_pullback_sound by (simp add: manage_row_def)
next
  case False
  then show ?thesis using assms
    by (auto simp: manage_row_def sound_Nil close_sound one_act_def ebind_eq_Inr dest: breakeven_sound [OF _ False]
        split: if_splits sum.splits option.splits boundary_action.splits)
qed

lemma expire_sound: "sound_acts r (fst (expire_act c now replies r))"
  by (simp add: expire_act_def Let_def sound_Nil cancel_sound)

lemma quiet_sound:
  assumes "\<And>x. t_client (f x) = t_client x" and "same_identity r (f r)" and "t_strategy r = Some STRATEGY \<Longrightarrow> scaled_ok r \<Longrightarrow> harmless r (f r)"
  shows "sound_acts r [quiet_act (Some f) notes]"
  by (rule sound_act) (use assms in \<open>auto simp: quiet_act_def local_act_def after_act_def\<close>)

lemma quiet_none_sound: "sound_acts r [quiet_act None notes]"
  by (rule sound_act) (auto simp: quiet_act_def local_act_def after_act_def same_identity_updates harmless_updates)

lemma reconcile_open_sound: "reconcile_open ts r = Inr (Some a, m) \<Longrightarrow> sound_acts r [a]"
  unfolding reconcile_open_def Let_def
  by (auto simp: ebind_eq_Inr local_acts same_identity_def harmless_def end_row_def settle_def units_left_def scaled_ok_def intro!: quiet_sound
      split: option.splits if_splits pending_action.splits)

lemma reconcile_sent_sound: "reconcile_sent v ts r = (Some a, m) \<Longrightarrow> sound_acts r [a]"
  unfolding reconcile_sent_def Let_def
  by (auto simp: same_identity_def harmless_def found_open_def units_left_def intro!: quiet_sound split: option.splits)

lemma reconcile_limit_sound: "reconcile_limit v ts r = (Some a, m) \<Longrightarrow> sound_acts r [a]"
  unfolding reconcile_limit_def Let_def
  by (auto simp: local_acts same_identity_def found_open_def settle_def quiet_none_sound intro!: quiet_sound split: option.splits if_splits)
    (auto simp: harmless_def end_row_def settle_def units_left_def dest: left_positive cong: option.case_cong)

lemma reconcile_row_sound: "reconcile_row v ts r = Inr (Some a, m) \<Longrightarrow> sound_acts r [a]"
  by (auto simp: reconcile_row_def reconcile_open_sound reconcile_sent_sound reconcile_limit_sound split: if_splits)

lemma submission_sound: "sound_acts r [submission_act seen now sub r]"
  by (rule sound_act; cases sub)
    (auto simp: submission_act_def Let_def local_act_def after_act_def same_identity_def harmless_def mark_open_def units_left_def cong: option.case_cong)

lemma sound_after_note: "sound_acts r acts \<Longrightarrow> sound_acts r (quiet_act None notes # acts)"
  by (simp add: sound_acts_def after_acts_def quiet_act_def local_act_def after_act_def)

lemma skipped_note_sound: "sound_acts r acts \<Longrightarrow> sound_acts r (skipped_note kind quotes reads rows r @ acts)"
  by (simp add: skipped_note_def sound_after_note split: sum.split)

lemma manage_outcome_sound: "manage_outcome c now quotes replies skip rows r = Inr (acts, out) \<Longrightarrow> sound_acts r acts"
  by (auto simp: manage_outcome_def sound_Nil ebind_eq_Inr skipped_note_sound dest!: manage_row_sound split: if_splits prod.splits)

section \<open>The table under a pass\<close>

definition distinct_clients :: "demo_db \<Rightarrow> bool" where
  "distinct_clients s \<longleftrightarrow> distinct (map t_client (db_trades s))"

lemma journal_notes_trades: "db_trades (fold (journal_note now) ns s) = db_trades s"
  by (induction ns arbitrary: s) (auto simp: journal_note_def split: prod.split)

lemma journal_note_trades: "db_trades (journal_note now n s) = db_trades s"
  using journal_notes_trades [of now "[n]"] by simp

lemma apply_act_trades:
  "db_trades (apply_act now c a s) = map (\<lambda>x. if t_client x = c then after_act a x else x) (db_trades s)"
  by (cases "ac_set a") (simp_all add: apply_act_def journal_notes_trades update_trade_def after_act_def cong: if_cong)

lemma run_acts_trades:
  assumes "\<forall>a \<in> set acts. local_act a"
  shows "db_trades (run_acts now c acts s) = map (\<lambda>x. if t_client x = c then after_acts acts x else x) (db_trades s)"
  using assms unfolding run_acts_def
proof (induction acts arbitrary: s)
  case Nil
  then show ?case by (simp add: after_acts_def cong: if_cong)
next
  case (Cons a acts)
  then show ?case by (auto simp: apply_act_trades after_acts_def local_act_def)
qed

lemma after_acts_client: "\<forall>a \<in> set acts. local_act a \<Longrightarrow> t_client (after_acts acts x) = t_client x"
  unfolding after_acts_def by (induction acts arbitrary: x) (auto simp: local_act_def)

lemma pass_trades:
  assumes "\<forall>r \<in> set rows. \<forall>a \<in> set (acts r). local_act a" and "distinct (map t_client rows)"
  shows "db_trades (pass now acts rows s) = map (\<lambda>x. case map_of (map (\<lambda>r. (t_client r, acts r)) rows) (t_client x) of
      None \<Rightarrow> x | Some as \<Rightarrow> after_acts as x) (db_trades s)"
  using assms unfolding pass_def
proof (induction rows arbitrary: s)
  case Nil
  then show ?case by simp
next
  case (Cons r rows)
  have none: "map_of (map (\<lambda>r. (t_client r, acts r)) rows) (t_client r) = None"
    using Cons.prems(2) by (auto simp: map_of_eq_None_iff image_iff)
  have "fold (\<lambda>r. run_acts now (t_client r) (acts r)) (r # rows) s
      = fold (\<lambda>r. run_acts now (t_client r) (acts r)) rows (run_acts now (t_client r) (acts r) s)" by simp
  then show ?case using Cons.prems none
    by (auto simp: Cons.IH run_acts_trades after_acts_client)
qed

text \<open>What a table may become: the rows it had, each where its trade could get to and untouched once it had ended, then
  new ones. At most one of those is live, and then no other row is.\<close>

definition live_rows :: "trade_row list \<Rightarrow> trade_row list" where
  "live_rows rows = filter (\<lambda>r. t_status r \<in> set LIVE_STATUSES) rows"

definition evolves :: "trade_row \<Rightarrow> trade_row \<Rightarrow> bool" where
  "evolves r r' \<longleftrightarrow> advanced r r' \<and> (t_status r \<notin> set LIVE_STATUSES \<longrightarrow> r' = r)"

definition grown :: "demo_db \<Rightarrow> demo_db \<Rightarrow> bool" where
  "grown s s' \<longleftrightarrow> (\<exists>old new. db_trades s' = old @ new \<and> list_all2 evolves (db_trades s) old
     \<and> (live_rows new = [] \<or> (live_rows old = [] \<and> length (live_rows new) \<le> 1)))"

definition table_ok :: "demo_db \<Rightarrow> bool" where
  "table_ok s \<longleftrightarrow> distinct_clients s \<and> (\<forall>r \<in> set (db_trades s). scaled_ok r)"

lemma evolves_refl: "evolves r r"
  by (simp add: evolves_def advanced_refl)

lemma evolves_trans: "evolves r s \<Longrightarrow> evolves s t \<Longrightarrow> evolves r t"
  unfolding evolves_def using advanced_trans by blast

lemma grown_same: "db_trades s' = db_trades s \<Longrightarrow> grown s s'"
  unfolding grown_def by (intro exI [of _ "db_trades s"] exI [of _ "[]"]) (simp add: list.rel_refl evolves_refl live_rows_def)

lemma live_append [simp]: "live_rows (xs @ ys) = live_rows xs @ live_rows ys"
  by (simp add: live_rows_def)

text \<open>An ended trade never lives again.\<close>

lemma live_evolves: "list_all2 evolves xs ys \<Longrightarrow> length (live_rows ys) \<le> length (live_rows xs)"
  by (induction rule: list_all2_induct) (auto simp: evolves_def live_rows_def)

lemma live_none: "list_all2 evolves xs ys \<Longrightarrow> live_rows xs = [] \<Longrightarrow> live_rows ys = []"
  using live_evolves by fastforce

lemma grown_trans:
  assumes "grown s t" and "grown t u" shows "grown s u"
proof -
  obtain old new where t: "db_trades t = old @ new" "list_all2 evolves (db_trades s) old"
    "live_rows new = [] \<or> (live_rows old = [] \<and> length (live_rows new) \<le> 1)" using assms(1) by (auto simp: grown_def)
  obtain old' new' where u: "db_trades u = old' @ new'" "list_all2 evolves (old @ new) old'"
    "live_rows new' = [] \<or> (live_rows old' = [] \<and> length (live_rows new') \<le> 1)" using assms(2) t by (auto simp: grown_def)
  obtain a b where ab: "old' = a @ b" "list_all2 evolves old a" "list_all2 evolves new b" using u(2) by (auto simp: list_all2_append1)
  have "list_all2 evolves (db_trades s) a" by (rule list_all2_trans [OF _ t(2) ab(2)]) (rule evolves_trans)
  moreover have "live_rows (b @ new') = [] \<or> (live_rows a = [] \<and> length (live_rows (b @ new')) \<le> 1)"
    using t(3) u(3) ab live_none [OF ab(2)] live_none [OF ab(3)] live_evolves [OF ab(3)] by fastforce
  ultimately show ?thesis unfolding grown_def using u(1) ab(1) by (intro exI [of _ a] exI [of _ "b @ new'"]) simp
qed

definition kept :: "demo_db \<Rightarrow> demo_db \<Rightarrow> bool" where
  "kept s s' \<longleftrightarrow> table_ok s' \<and> grown s s'"

lemma kept_trans: "kept s t \<Longrightarrow> kept t u \<Longrightarrow> kept s u"
  unfolding kept_def using grown_trans by blast

lemma kept_same: "table_ok s \<Longrightarrow> db_trades s' = db_trades s \<Longrightarrow> kept s s'"
  by (simp add: kept_def grown_same table_ok_def distinct_clients_def)

lemma kept_cong: "db_trades s' = db_trades s'' \<Longrightarrow> kept s s' = kept s s''"
  by (simp add: kept_def grown_def table_ok_def distinct_clients_def)

lemma pass_kept:
  assumes ok: "table_ok s" and rows: "set rows \<subseteq> set (db_trades s)" "distinct (map t_client rows)"
    and acts: "\<And>r. r \<in> set rows \<Longrightarrow> sound_acts r (acts r)" "\<And>r. r \<in> set rows \<Longrightarrow> t_status r \<in> set LIVE_STATUSES"
  shows "kept s (pass now acts rows s)"
proof -
  define F where "F = (\<lambda>x. case map_of (map (\<lambda>r. (t_client r, acts r)) rows) (t_client x) of None \<Rightarrow> x | Some as \<Rightarrow> after_acts as x)"
  have table: "db_trades (pass now acts rows s) = map F (db_trades s)"
    unfolding F_def by (rule pass_trades) (use acts(1) rows(2) in \<open>auto simp: sound_acts_def\<close>)
  have F: "F x = x \<or> (x \<in> set rows \<and> F x = after_acts (acts x) x)" if x: "x \<in> set (db_trades s)" for x
  proof (cases "map_of (map (\<lambda>r. (t_client r, acts r)) rows) (t_client x)")
    case (Some as)
    then obtain r where r: "r \<in> set rows" "t_client r = t_client x" "as = acts r" by (auto dest!: map_of_SomeD)
    then have "r = x" using ok x rows(1) unfolding table_ok_def distinct_clients_def distinct_map inj_on_def by blast
    then show ?thesis using Some r by (simp add: F_def)
  qed (simp add: F_def)
  have step: "scaled_ok (F x) \<and> evolves x (F x) \<and> t_client (F x) = t_client x" if x: "x \<in> set (db_trades s)" for x
  proof -
    have "scaled_ok x" using ok x by (simp add: table_ok_def)
    then show ?thesis using F [OF x] acts by (auto simp: evolves_def advanced_refl sound_acts_def after_acts_client)
  qed
  have clients: "map (t_client \<circ> F) (db_trades s) = map t_client (db_trades s)" using step by simp
  have "table_ok (pass now acts rows s)" using ok step by (auto simp: table_ok_def distinct_clients_def table clients)
  moreover have "list_all2 evolves (db_trades s) (map F (db_trades s))" using step by (simp add: list.rel_map list.rel_refl_strong)
  ultimately show ?thesis unfolding kept_def grown_def table
    by (intro conjI exI [of _ "map F (db_trades s)"] exI [of _ "[]"]) (simp_all add: live_rows_def)
qed

lemma trades_with_distinct: "distinct_clients s \<Longrightarrow> distinct (map t_client (trades_with sts s))"
proof -
  assume "distinct_clients s"
  then have "distinct (map t_client (filter (\<lambda>r. t_status r \<in> set sts) (db_trades s)))" by (simp add: distinct_clients_def distinct_map_filter)
  moreover have "mset (map t_client (trades_with sts s)) = mset (map t_client (filter (\<lambda>r. t_status r \<in> set sts) (db_trades s)))"
    by (simp add: trades_with_def)
  ultimately show ?thesis using mset_eq_imp_distinct_iff by blast
qed

lemma trades_with_set: "set (trades_with sts s) = {r \<in> set (db_trades s). t_status r \<in> set sts}"
  by (auto simp: trades_with_def)

lemma pass_kept_with:
  assumes "table_ok s" and "set sts \<subseteq> set LIVE_STATUSES" and "\<And>r. r \<in> set (trades_with sts s) \<Longrightarrow> sound_acts r (acts r)"
  shows "kept s (pass now acts (trades_with sts s) s)"
  by (rule pass_kept) (use assms trades_with_distinct in \<open>auto simp: trades_with_set table_ok_def\<close>)

section \<open>The operations\<close>

lemma apply_all_trades: "db_trades (apply_all now sf df note s) = db_trades s"
proof -
  have set_flags: "db_trades (fold (\<lambda>(k, v). set_flag k v) sf s) = db_trades s" for s :: demo_db
    by (induction sf arbitrary: s) (auto simp: set_flag_def)
  have del_flags: "db_trades (fold (\<lambda>(k, v). clear_flag k v) df s) = db_trades s" for s :: demo_db
    by (induction df arbitrary: s) (auto simp: clear_flag_def)
  show ?thesis by (simp add: apply_all_def Let_def journal_note_trades set_flags del_flags split: option.split)
qed

lemma set_blocked_trades: "db_trades (dr_db (set_blocked episode now reason g)) = db_trades (dr_db g)"
  by (simp add: set_blocked_def apply_all_trades set_flag_def)

lemma drift_clear_trades: "db_trades (dr_db (drift_clear_request problems now g)) = db_trades (dr_db g)"
  by (simp add: drift_clear_request_def Let_def apply_all_trades)

lemma block_drift_trades: "db_trades (dr_db (block_on_drift episode now drift g)) = db_trades (dr_db g)"
  by (simp add: block_on_drift_def Let_def journal_note_trades set_blocked_trades)

lemma block_unresolved_trades: "db_trades (dr_db (block_on_unresolved episode now g)) = db_trades (dr_db g)"
  by (simp add: block_on_unresolved_def Let_def journal_note_trades set_blocked_trades)

lemmas quiet_trades = block_drift_trades block_unresolved_trades journal_note_trades journal_notes_trades apply_all_trades set_blocked_trades drift_clear_trades set_flag_def

lemma traverse_result:
  assumes "traverse f rows = Inr results" and "map_of (zip (map t_client rows) results) (t_client r) = Some y"
    and "r \<in> set rows" and "distinct (map t_client rows)"
  shows "f r = Inr y"
proof -
  from assms(2) obtain i where i: "i < length rows" "i < length results" "t_client (rows ! i) = t_client r" "results ! i = y"
    by (auto dest!: map_of_SomeD simp: set_zip)
  obtain j where j: "j < length rows" "rows ! j = r" using assms(3) by (auto simp: in_set_conv_nth)
  have "i = j" using assms(4) i(1,3) j by (simp add: distinct_conv_nth) blast
  then show ?thesis using assms(1) i j by (auto simp: traverse_Inr list_all2_conv_all_nth)
qed

lemma reconcile_kept:
  assumes run: "reconcile v episode now g = Inr (g', seen)" and ok: "table_ok (dr_db g)" shows "kept (dr_db g) (dr_db g')"
proof (cases "bv_trades v")
  case None
  then show ?thesis using run by (auto simp: reconcile_def quiet_trades intro!: kept_same ok)
next
  case (Some ts)
  let ?rows = "trades_with LIVE_STATUSES (dr_db g)"
  obtain results where results: "traverse (reconcile_row v ts) ?rows = Inr results"
    using run Some by (auto simp: reconcile_def ebind_eq_Inr Let_def)
  define acts where "acts = (\<lambda>r :: trade_row. case map_of (zip (map t_client ?rows) results) (t_client r) of Some (Some a, _) \<Rightarrow> [a] | _ \<Rightarrow> [])"
  have same: "db_trades (dr_db g') = db_trades (pass now acts ?rows (dr_db g))"
    using run [unfolded reconcile_def Some option.case Let_def results ebind_Inr, folded acts_def] by (auto simp: quiet_trades)
  have d: "distinct (map t_client ?rows)" using ok trades_with_distinct by (simp add: table_ok_def)
  have "sound_acts r (acts r)" if "r \<in> set ?rows" for r
    using traverse_result [OF results _ that d] reconcile_row_sound
    by (auto simp: acts_def sound_Nil split: option.splits prod.splits)
  then have "kept (dr_db g) (pass now acts ?rows (dr_db g))" using ok by (intro pass_kept_with) auto
  then show ?thesis using kept_cong [OF same] by simp
qed

text \<open>A pass whose acts are looked up in the results worked out for its rows.\<close>

lemma acts_of_sound:
  assumes "traverse f rows = Inr results" and "\<And>r acts out. f r = Inr (acts, out) \<Longrightarrow> sound_acts r acts"
    and "distinct (map t_client rows)" and "r \<in> set rows"
  shows "sound_acts r (acts_of rows results r)"
  using traverse_result [OF assms(1) _ assms(4,3)] assms(2) by (auto simp: acts_of_def sound_Nil split: option.splits prod.splits)

lemma traverse_total: "traverse (\<lambda>x. Inr (f x)) xs = Inr (map f xs)"
  by (induction xs) auto

lemma mapped_pass_kept:
  assumes ok: "table_ok s" and sts: "set sts \<subseteq> set LIVE_STATUSES" and sound: "\<And>r. sound_acts r (fst (f r))"
    and rows: "rows = trades_with sts s"
  shows "kept s (pass now (acts_of rows (map f rows)) rows s)"
  unfolding rows
proof (rule pass_kept_with [OF ok sts])
  fix r assume r: "r \<in> set (trades_with sts s)"
  show "sound_acts r (acts_of (trades_with sts s) (map f (trades_with sts s)) r)"
    by (rule acts_of_sound [OF traverse_total _ _ r])
      (use sound ok trades_with_distinct in \<open>auto simp: table_ok_def dest: sym [of _ "(_, _)"]\<close>, metis fst_conv sound)
qed

lemma kept_then: "kept s t \<Longrightarrow> (table_ok t \<Longrightarrow> kept t u) \<Longrightarrow> kept s u"
  using kept_trans by (auto simp: kept_def)

lemma kept_refl: "table_ok s \<Longrightarrow> kept s s"
  by (simp add: kept_same)

lemma manage_pass_kept:
  assumes run: "manage_pass c now quotes replies skip s = Inr (outs, s')" and ok: "table_ok s" shows "kept s s'"
proof -
  define limits where "limits = trades_with [RESTING] s"
  define expiries where "expiries = map (expire_act c now replies) limits"
  define s1 where "s1 = pass now (acts_of limits expiries) limits s"
  obtain results where results: "traverse (manage_outcome c now quotes replies skip (trades_with [OPENED] s1)) (trades_with [OPENED] s1) = Inr results"
    and s': "s' = pass now (acts_of (trades_with [OPENED] s1) results) (trades_with [OPENED] s1) s1"
    using run by (auto simp: manage_pass_def Let_def ebind_eq_Inr limits_def expiries_def s1_def)
  have k1: "kept s s1" unfolding s1_def expiries_def
    by (rule mapped_pass_kept [OF ok _ _ limits_def]) (auto simp: LIVE_STATUSES_def expire_sound)
  have k2: "kept s1 s'" if ok1: "table_ok s1" unfolding s'
  proof (rule pass_kept_with [OF ok1])
    fix r assume r: "r \<in> set (trades_with [OPENED] s1)"
    show "sound_acts r (acts_of (trades_with [OPENED] s1) results r)"
      by (rule acts_of_sound [OF results _ _ r])
        (use manage_outcome_sound ok1 trades_with_distinct in \<open>auto simp: table_ok_def\<close>)
  qed (simp add: LIVE_STATUSES_def)
  show ?thesis using k1 k2 kept_then by blast
qed

lemma manage_locked_kept:
  assumes "manage_locked c dry v episode now quotes replies skip report g = Inr (outs, g', seen)" and "table_ok (dr_db g)"
  shows "kept (dr_db g) (dr_db g')"
proof -
  obtain g1 seen1 where g1: "(case report of Some ts \<Rightarrow> Inr (g, Some ts) | None \<Rightarrow> reconcile v episode now g) = Inr (g1, seen1)"
    using assms(1) by (auto simp: manage_locked_def ebind_eq_Inr)
  then have k1: "kept (dr_db g) (dr_db g1)" using assms(2) reconcile_kept kept_refl by (auto split: option.splits)
  have "kept (dr_db g1) (dr_db g')" if "table_ok (dr_db g1)"
    using assms(1) g1 that manage_pass_kept kept_refl by (auto simp: manage_locked_def ebind_eq_Inr split: if_splits)
  with k1 show ?thesis by (rule kept_then)
qed

lemma clear_drift_kept: "clear_drift episode actor reason now g = Inr g' \<Longrightarrow> table_ok (dr_db g) \<Longrightarrow> kept (dr_db g) (dr_db g')"
  by (rule kept_same) (auto simp: clear_drift_def Let_def quiet_trades split: if_splits)

lemma clear_unresolved_kept:
  assumes "clear_unresolved actor reason now g = Inr (released, g')" and "table_ok (dr_db g)" shows "kept (dr_db g) (dr_db g')"
proof -
  have d: "distinct (map t_client (unresolved_rows (dr_db g)))" "set (unresolved_rows (dr_db g)) \<subseteq> set (db_trades (dr_db g))"
    using assms(2) trades_with_distinct by (auto simp: unresolved_rows_def distinct_map_filter table_ok_def trades_with_set)
  have "kept (dr_db g) (pass now (\<lambda>_. [quiet_act (Some settle) []]) (unresolved_rows (dr_db g)) (dr_db g))"
    by (rule pass_kept [OF assms(2) d(2,1)])
      (auto intro!: quiet_sound simp: local_acts same_identity_updates harmless_updates unresolved_rows_def trades_with_set LIVE_STATUSES_def)
  moreover have "db_trades (dr_db g') = db_trades (pass now (\<lambda>_. [quiet_act (Some settle) []]) (unresolved_rows (dr_db g)) (dr_db g))"
    using assms(1) by (auto simp: clear_unresolved_def Let_def quiet_trades split: if_splits)
  ultimately show ?thesis using kept_cong by blast
qed

lemma apply_act_kept:
  assumes "table_ok s" and "trade_of c s = Some r" and "sound_acts r [a]" and "t_status r \<in> set LIVE_STATUSES"
  shows "kept s (apply_act now c a s)"
proof -
  have r: "r \<in> set (db_trades s)" "t_client r = c" using assms(2) by (auto simp: trade_of_def find_Some_iff)
  have "kept s (pass now (\<lambda>_. [a]) [r] s)" by (rule pass_kept [OF assms(1)]) (use r assms(3,4) in auto)
  then show ?thesis using r(2) by (simp add: pass_def run_acts_def)
qed

lemma mark_not_sent_kept:
  assumes "mark_not_sent v c actor reason now s = Inr (done, s')" and "table_ok s" shows "kept s s'"
proof (cases "s' = s")
  case False
  then obtain r where r: "trade_of c s = Some r" "t_status r \<in> set UNRESOLVED_STATUSES"
    and s': "s' = apply_act now c (quiet_act (Some (\<lambda>x. x\<lparr>t_status := REFUSED, t_closed_reason := Some ''operator_confirmed_not_sent''\<rparr>))
      [note_of ''NOT_SENT_CONFIRMED'' (Some c) [(''actor'', JStr actor), (''reason'', JStr reason)]]) s"
    using assms(1) by (auto simp: mark_not_sent_def split: if_splits option.splits)
  show ?thesis unfolding s'
    by (rule apply_act_kept [OF assms(2) r(1)], rule quiet_sound)
      (use r(2) in \<open>auto simp: same_identity_def harmless_def units_left_def UNRESOLVED_STATUSES_def LIVE_STATUSES_def cong: option.case_cong\<close>)
qed (use assms(2) kept_refl in simp)

lemma emergency_kept:
  assumes "table_ok s" shows "kept s (snd (emergency_close_all dry why now replies s))"
proof -
  define s1 where "s1 = pass now (fst \<circ> (\<lambda>r. if dry then ([], Some ''DRY_RUN'')
    else let a = cancel_limit ''EMERGENCY_ACTIVE'' (replies (t_client r) 0) r in ([a], Some (ac_outcome a)))) (trades_with [RESTING] s) s"
  have k1: "kept s s1" unfolding s1_def
    by (rule pass_kept_with [OF assms]) (auto simp: LIVE_STATUSES_def Let_def sound_Nil cancel_sound)
  have "kept s1 (snd (emergency_close_all dry why now replies s))" if "table_ok s1"
    unfolding emergency_close_all_def Let_def s1_def [unfolded Let_def, symmetric] snd_conv
    by (rule pass_kept_with [OF that]) (auto simp: LIVE_STATUSES_def sound_Nil close_sound quiet_none_sound)
  with k1 show ?thesis by (rule kept_then)
qed

text \<open>A row as it is first stored: nothing closed yet, the stop on the price grid.\<close>

definition fresh_row :: "trade_row \<Rightarrow> bool" where
  "fresh_row r \<longleftrightarrow> (t_strategy r = Some STRATEGY \<longrightarrow> (t_side r = LONG \<or> t_side r = SHORT) \<and> 1 \<le> t_units r \<and> on_grid 5 (t_stop r)
     \<and> t_scale_stage r = Some NONE \<and> t_units_remaining r = Some (t_units r) \<and> t_pending r = None)"

lemma fresh_ok: "fresh_row r \<Longrightarrow> scaled_ok r"
  by (simp add: fresh_row_def scaled_ok_def units_left_def)

lemma insert_kept:
  assumes "insert_intent now r s = Inr s'" and "scaled_ok r" and "table_ok s" and "t_status r \<in> set LIVE_STATUSES \<Longrightarrow> live_rows (db_trades s) = []"
  shows "kept s s'"
proof -
  have s': "db_trades s' = db_trades s @ [r\<lparr>t_created_at := now\<rparr>]" "t_client r \<notin> t_client ` set (db_trades s)"
    using assms(1) by (auto simp: insert_intent_def split: if_splits)
  have "scaled_ok (r\<lparr>t_created_at := now\<rparr>)" using assms(2) by (simp add: scaled_ok_def units_left_def third_def cong: option.case_cong)
  then have "table_ok s'" using assms(3) s' by (auto simp: table_ok_def distinct_clients_def)
  then show ?thesis unfolding kept_def grown_def using s'(1) assms(4)
    by (intro conjI exI [of _ "db_trades s"] exI [of _ "[r\<lparr>t_created_at := now\<rparr>]"])
      (auto simp: evolves_refl live_rows_def intro!: list.rel_refl_strong)
qed

lemma send_kept:
  assumes "send seen now sub r s = Inr (out, s')" and "fresh_row r" and "table_ok s" and "live_rows (db_trades s) = []" shows "kept s s'"
proof -
  obtain s1 where s1: "insert_intent now (r\<lparr>t_status := SENDING\<rparr>) s = Inr s1"
    and s': "s' = apply_act now (t_client r) (submission_act seen now sub r) (journal_note now (note_of ''INTENT'' (Some (t_client r))
        [(''units'', JInt (t_units r)), (''side'', JStr (side_name (t_side r))),
           (''entry'', JDec (t_entry r)), (''stop'', JDec (t_stop r)), (''target'', JDec (t_target r)), (''order_kind'', jstr_opt (t_order_kind r))]) s1)"
    using assms(1) by (auto simp: send_def ebind_eq_Inr Let_def)
  define n where "n = r\<lparr>t_status := SENDING, t_created_at := now\<rparr>"
  have n: "scaled_ok (r\<lparr>t_status := SENDING\<rparr>)" "db_trades s1 = db_trades s @ [n]" "t_client n = t_client r" "t_status n = SENDING"
    "t_client r \<notin> t_client ` set (db_trades s)"
    using fresh_ok [OF assms(2)] s1 by (auto simp: n_def scaled_ok_def units_left_def third_def insert_intent_def split: if_splits option.splits)
  define s2 where "s2 = journal_note now (note_of ''INTENT'' (Some (t_client r))
        [(''units'', JInt (t_units r)), (''side'', JStr (side_name (t_side r))),
           (''entry'', JDec (t_entry r)), (''stop'', JDec (t_stop r)), (''target'', JDec (t_target r)), (''order_kind'', jstr_opt (t_order_kind r))]) s1"
  have k1: "kept s s1" using insert_kept [OF s1 n(1) assms(3)] assms(4) by blast
  have k2: "kept s1 s2" if "table_ok s1" using that by (rule kept_same) (simp add: s2_def quiet_trades)
  have "find (\<lambda>x. t_client x = t_client r) (db_trades s) = None" using n(5) unfolding find_None_iff by (metis imageI)
  then have "trade_of (t_client r) s2 = Some n" by (simp add: trade_of_def s2_def quiet_trades n(2,3) find_append)
  moreover have "submission_act seen now sub r = submission_act seen now sub n"
    by (cases sub) (simp_all add: submission_act_def n_def Let_def)
  ultimately have k3: "kept s2 s'" if "table_ok s2"
    unfolding s' s2_def [symmetric] using apply_act_kept [OF that] submission_sound n(4) by (simp add: LIVE_STATUSES_def)
  show ?thesis using k1 k2 k3 kept_then by blast
qed

end
