(* ===== verification/DemoClosing.thy ===== *)
theory DemoClosing
  imports DemoInvariant
begin

text \<open>
  The passes of \<open>execution/broker_demo_router.py\<close> that close routed trades on request: the emergency button and the
  closing-only mode (\<open>_process_requests\<close>), the close of one trade from the dashboard (\<open>_process_manual_close\<close>), the
  Friday pre-flatten and the flatten of an active loss halt. A request is the JSON value its flag holds; text that is
  not JSON is a \<open>JStr\<close>. A reconciliation that raises ends its pass, as the handlers of the code do; what it had written
  before raising is not followed.
\<close>

section \<open>Configuration\<close>

record router_config =
  rc_dry :: bool
  rc_closing_only :: bool
  rc_friday :: "int option"
  rc_hold :: hold_config
  rc_reversal :: bool
  rc_pullback :: bool
  rc_max_units :: int
  rc_hook :: "(outbox_row \<Rightarrow> bool) option"

type_synonym outcomes = "(string, string) dict"
type_synonym replies = "string \<Rightarrow> nat \<Rightarrow> reply"

definition PENDING_EVENT_CAP :: nat where "PENDING_EVENT_CAP = 50"
definition FLATTEN_REQUEST_FLAG :: string where "FLATTEN_REQUEST_FLAG = ''flatten_request''"
definition MANUAL_CLOSE_REQUEST_FLAG :: string where "MANUAL_CLOSE_REQUEST_FLAG = ''manual_close_request''"
definition MANUAL_CLOSE :: string where "MANUAL_CLOSE = ''MANUAL_CLOSE''"
definition FRIDAY_PREFLATTEN :: string where "FRIDAY_PREFLATTEN = ''FRIDAY_PREFLATTEN''"

definition ALERT_KINDS :: "string list" where
  "ALERT_KINDS = [''ACCEPTED'', ''REJECTED'', ''UNKNOWN'', ''CLOSED'', ''CLOSE_UNKNOWN'', ''CLOSE_FAILED'', ''CLOSED_AT_BROKER'',
     ''BREAKEVEN'', ''DRIFT'', ''UNRESOLVED_ACTION'', ''DAILY_LOSS_HALT'', ''DAILY_LOSS_RESUMED'', ''DRAWDOWN_HALT'',
     ''FLATTEN_DAILY_LOSS'', ''FLATTEN_DRAWDOWN'', ''EMERGENCY_BUTTON'', ''FLATTEN_REQUEST_DONE'', ''DRIFT_CLEARED'',
     ''DRIFT_CLEAR_REFUSED'', MANUAL_CLOSE, ''MANUAL_CLOSE_FAILED'', ''FILL_ANCHOR_REFUSED'', ''FILL_OUT_OF_POLICY'',
     ''LIMIT_PENDING'', ''LIMIT_EXPIRED'', ''LIMIT_CANCELLED'', ''PARTIAL_CLOSE'', ''TRAIL'']"

definition CLOSE_SENT :: "string list" where
  "CLOSE_SENT = [''CLOSED'', ''CLOSED_AT_BROKER'', ''CLOSE_FAILED'', ''CLOSE_REJECTED'', ''UNKNOWN'', ''DRY_RUN'']"

fun status_name :: "demo_status \<Rightarrow> string" where
  "status_name SENDING = ''PENDING_SEND''"
| "status_name OPENED = ''OPEN''"
| "status_name UNRESOLVED = ''UNKNOWN''"
| "status_name REFUSED = ''REJECTED''"
| "status_name ENDED = ''CLOSED''"
| "status_name ENDED_AT_BROKER = ''CLOSED_AT_BROKER''"
| "status_name DRY = ''DRY_RUN''"
| "status_name RESTING = ''PENDING_LIMIT''"
| "status_name CANCELLED_LIMIT = ''CANCELLED''"

definition results_json :: "outcomes \<Rightarrow> json" where
  "results_json d = JObj (map (\<lambda>(c, out). (c, JStr out)) d)"

definition note_event :: "instant \<Rightarrow> event_note \<Rightarrow> demo_router \<Rightarrow> demo_router" where
  "note_event now n g = g\<lparr>dr_db := journal_note now n (dr_db g)\<rparr>"

section \<open>Flattening\<close>

text \<open>A flatten cancels the resting limits, then closes the open trades; an action whose outcome is unknown is never
  stacked, a dry run only previews.\<close>

definition flatten_limit :: "bool \<Rightarrow> string \<Rightarrow> replies \<Rightarrow> trade_row \<Rightarrow> act list \<times> string option" where
  "flatten_limit dry why replies r = (if t_action_unknown r then ([], Some ''ACTION_UNRESOLVED'')
     else if dry then ([], Some ''DRY_RUN'')
     else let a = cancel_limit why (replies (t_client r) 0) r in ([a], Some (ac_outcome a)))"

definition flatten_open :: "bool \<Rightarrow> bool \<Rightarrow> string \<Rightarrow> string \<Rightarrow> string \<Rightarrow> replies \<Rightarrow> trade_row \<Rightarrow> act list \<times> string option" where
  "flatten_open dry quiet action why suffix replies r = (if t_action_unknown r then ([], Some ''ACTION_UNRESOLVED'')
     else if dry then (if quiet then [] else [quiet_act None [note_of ''DRY_RUN'' (Some (t_client r))
       [(''action'', JStr action), (''trade_id'', jstr_opt (t_trade_id r)), (''reason'', JStr why)]]], Some ''DRY_RUN'')
     else let a = close_trade why (t_client r @ suffix) (replies (t_client r) 0) r in ([a], Some (ac_outcome a)))"

definition flatten_rows ::
  "bool \<Rightarrow> bool \<Rightarrow> string \<Rightarrow> string \<Rightarrow> string \<Rightarrow> instant \<Rightarrow> replies \<Rightarrow> demo_db \<Rightarrow> outcomes \<times> demo_db" where
  "flatten_rows dry quiet action why suffix now replies s =
    (let limits = trades_with [RESTING] s; cancelled = map (flatten_limit dry why replies) limits;
         s1 = pass now (acts_of limits cancelled) limits s;
         rows = trades_with [OPENED] s1; closed = map (flatten_open dry quiet action why suffix replies) rows
     in (outcomes_of limits cancelled @ outcomes_of rows closed, pass now (acts_of rows closed) rows s1))"

section \<open>The emergency button\<close>

definition flatten_requested :: "router_config \<Rightarrow> demo_router \<Rightarrow> bool" where
  "flatten_requested c g \<longleftrightarrow> truthy (flag_of FLATTEN_REQUEST_FLAG (dr_db g)) \<or> (rc_closing_only c \<and> trades_with LIVE_STATUSES (dr_db g) \<noteq> [])"

definition process_requests ::
  "router_config \<Rightarrow> broker_reads \<Rightarrow> string \<Rightarrow> instant \<Rightarrow> replies \<Rightarrow> demo_router \<Rightarrow> outcomes \<times> open_trade list option \<times> demo_router" where
  "process_requests c v episode now replies g =
    (let raw = flag_of FLATTEN_REQUEST_FLAG (dr_db g); asked = truthy raw;
         why = (if asked then ''EMERGENCY_BUTTON'' else ''EMERGENCY_ACTIVE''); suffix = (if asked then ''-ebtn'' else ''-emergency'');
         implicit = (if asked then [] else [(''implicit'', JBool True)]);
         g1 = g\<lparr>dr_flatten_ticks := Suc (dr_flatten_ticks g)\<rparr>; quiet = PENDING_EVENT_CAP < dr_flatten_ticks g1;
         tick = (''tick'', JInt (int (dr_flatten_ticks g1)))
     in if \<not> flatten_requested c g then ([], None, g\<lparr>dr_flatten_ticks := 0\<rparr>)
        else (case reconcile v episode now g1 of
          Inl _ \<Rightarrow> ([], None, g1)
        | Inr (g2, None) \<Rightarrow> ([], None, if quiet then g2 else note_event now (note_of ''FLATTEN_REQUEST_PENDING'' None
            ([(''reason'', JStr ''broker_read_failed''), tick] @ implicit)) g2)
        | Inr (g2, Some ts) \<Rightarrow>
            (case flatten_rows (rc_dry c) quiet ''emergency_button_close'' why suffix now replies (dr_db g2) of (results, s) \<Rightarrow>
              let remaining = trades_with LIVE_STATUSES s; g3 = g2\<lparr>dr_db := s\<rparr> in
              (results, Some ts,
               if remaining = [] then note_event now (note_of ''FLATTEN_REQUEST_DONE'' None ((''results'', results_json results) # implicit))
                   (g3\<lparr>dr_db := (if asked then clear_flag FLATTEN_REQUEST_FLAG raw s else s), dr_flatten_ticks := 0\<rparr>)
               else if quiet then g3
               else note_event now (note_of ''FLATTEN_REQUEST_PENDING'' None
                 ([(''results'', results_json results), (''open_trades'', JInt (int (length remaining))), tick] @ implicit)) g3))))"

section \<open>The close of one trade\<close>

definition complete_manual ::
  "router_config \<Rightarrow> instant \<Rightarrow> json \<Rightarrow> string \<Rightarrow> string option \<Rightarrow> (string \<times> json) list \<Rightarrow> demo_router \<Rightarrow> demo_router" where
  "complete_manual c now raw kind client kvs g = g\<lparr>dr_manual_ticks := 0,
     dr_db := snd (drain_outbox now (rc_hook c) (snd (consume_flag now MANUAL_CLOSE_REQUEST_FLAG raw (note_of kind client kvs)
       (rc_hook c \<noteq> None \<and> kind \<in> set ALERT_KINDS) (dr_db g))))\<rparr>"

definition manual_client :: "json \<Rightarrow> string option" where
  "manual_client raw = (case raw of JObj kvs \<Rightarrow> (case map_of kvs ''client_id'' of
       Some (JStr cl) \<Rightarrow> if cl = [] then None else Some cl | _ \<Rightarrow> None) | _ \<Rightarrow> None)"

text \<open>What is done with the named row once the broker has been reconciled.\<close>

definition manual_step ::
  "router_config \<Rightarrow> instant \<Rightarrow> json \<Rightarrow> string \<Rightarrow> (string \<times> json) list \<Rightarrow> bool \<Rightarrow> replies \<Rightarrow> demo_router \<Rightarrow> outcomes \<times> demo_router" where
  "manual_step c now raw cl detail quiet replies g =
    (let finish = (\<lambda>kind kvs g. complete_manual c now raw kind (Some cl) (kvs @ detail) g) in
     case trade_of cl (dr_db g) of
       None \<Rightarrow> ([], finish ''MANUAL_CLOSE_NOT_OPEN'' [(''status'', JNull)] g)
     | Some r \<Rightarrow>
       let st = JStr (status_name (t_status r)); trade = (''trade_id'', jstr_opt (t_trade_id r)); why = (''reason'', JStr MANUAL_CLOSE) in
       if t_status r \<noteq> OPENED then
         if t_closed_reason r = Some MANUAL_CLOSE then ([], finish MANUAL_CLOSE [trade, why, (''outcome'', st)] g)
         else ([], finish ''MANUAL_CLOSE_NOT_OPEN'' [(''status'', st)] g)
       else if jget raw ''trade_id'' \<noteq> JNull \<and> jget raw ''trade_id'' \<noteq> jstr_opt (t_trade_id r)
       then ([], finish ''MANUAL_CLOSE_REFUSED'' [(''reason'', JStr ''trade_mismatch'')] g)
       else if t_action_unknown r then ([(cl, ''ACTION_UNRESOLVED'')], if quiet then g
         else note_event now (note_of ''MANUAL_CLOSE_PENDING'' (Some cl) ((''reason'', JStr ''action_unresolved'') # detail)) g)
       else if rc_dry c then ([(cl, ''DRY_RUN'')], finish ''MANUAL_CLOSE_DRY_RUN'' [trade, why] g)
       else let a = close_trade MANUAL_CLOSE (cl @ ''-manual'') (replies cl 0) r; g' = g\<lparr>dr_db := apply_act now cl a (dr_db g)\<rparr>;
                outcome = (''outcome'', JStr (ac_outcome a))
         in ([(cl, ac_outcome a)],
             if ac_outcome a = ''CLOSED'' \<or> ac_outcome a = ''CLOSED_AT_BROKER'' then finish MANUAL_CLOSE [trade, why, outcome] g'
             else if ac_outcome a = ''CLOSE_REJECTED'' then finish ''MANUAL_CLOSE_FAILED'' [trade, why, outcome] g'
             else g'))"

definition process_manual_close ::
  "router_config \<Rightarrow> broker_reads \<Rightarrow> string \<Rightarrow> instant \<Rightarrow> replies \<Rightarrow> open_trade list option \<Rightarrow> demo_router
   \<Rightarrow> outcomes \<times> open_trade list option \<times> demo_router" where
  "process_manual_close c v episode now replies report g =
    (let g0 = g\<lparr>dr_db := snd (drain_outbox now (rc_hook c) (dr_db g))\<rparr>; raw = flag_of MANUAL_CLOSE_REQUEST_FLAG (dr_db g0) in
     if \<not> truthy raw then ([], report, g0\<lparr>dr_manual_ticks := 0\<rparr>)
     else (case manual_client raw of
       None \<Rightarrow> ([], report, complete_manual c now raw ''MANUAL_CLOSE_REFUSED'' None [(''reason'', JStr ''malformed_request'')] g0)
     | Some cl \<Rightarrow>
       let detail = [(''request_id'', jget raw ''request_id''), (''actor'', jget raw ''actor'')];
           g1 = g0\<lparr>dr_manual_ticks := Suc (dr_manual_ticks g0)\<rparr>; quiet = PENDING_EVENT_CAP < dr_manual_ticks g1
       in (case (case report of Some ts \<Rightarrow> Inr (g1, Some ts) | None \<Rightarrow> reconcile v episode now g1) of
            Inl _ \<Rightarrow> ([], report, g1)
          | Inr (g2, None) \<Rightarrow> ([], None, if quiet then g2
              else note_event now (note_of ''MANUAL_CLOSE_PENDING'' (Some cl) ((''reason'', JStr ''broker_read_failed'') # detail)) g2)
          | Inr (g2, Some ts) \<Rightarrow> (case manual_step c now raw cl detail quiet replies g2 of (outs, g3) \<Rightarrow> (outs, Some ts, g3)))))"

text \<open>The poll between ticks: nothing at all while no request is stored.\<close>

definition process_operator_requests ::
  "router_config \<Rightarrow> broker_reads \<Rightarrow> broker_reads \<Rightarrow> string \<Rightarrow> string \<Rightarrow> instant \<Rightarrow> replies \<Rightarrow> replies \<Rightarrow> demo_router \<Rightarrow> outcomes \<times> demo_router" where
  "process_operator_requests c v1 v2 ep1 ep2 now replies1 replies2 g =
    (if \<not> truthy (flag_of FLATTEN_REQUEST_FLAG (dr_db g)) \<and> \<not> truthy (flag_of MANUAL_CLOSE_REQUEST_FLAG (dr_db g)) then ([], g)
     else (case process_requests c v1 ep1 now replies1 g of (flattened, report, g1) \<Rightarrow>
       (case process_manual_close c v2 ep2 now replies2 report g1 of (manual, _, g2) \<Rightarrow>
         (fold (\<lambda>(k, x). dput k x) manual flattened, g2))))"

section \<open>Before the weekend\<close>

definition friday_row ::
  "bool \<Rightarrow> friday_phase \<Rightarrow> (string \<Rightarrow> raw_quote) \<Rightarrow> replies \<Rightarrow> trade_row list \<Rightarrow> trade_row \<Rightarrow> act list \<times> string option" where
  "friday_row dry window quotes replies rows r =
    (let skipped = (if window = PHASE_PREFLATTEN then skipped_note ''FRIDAY_PREFLATTEN_SKIPPED'' quotes (\<lambda>x. \<not> t_action_unknown x) rows r else []);
         problem = (if window = PHASE_PREFLATTEN then (case check_quote (quotes (t_symbol r)) of Inl p \<Rightarrow> Some p | Inr _ \<Rightarrow> None) else None)
     in if t_action_unknown r then ([], Some ''ACTION_UNRESOLVED'')
        else case problem of
          Some p \<Rightarrow> (skipped, Some (no_price_outcome p))
        | None \<Rightarrow>
          if dry then (skipped @ [quiet_act None [note_of ''DRY_RUN'' (Some (t_client r)) [(''action'', JStr ''friday_preflatten''),
               (''trade_id'', jstr_opt (t_trade_id r)), (''reason'', JStr FRIDAY_PREFLATTEN)]]], Some ''DRY_RUN'')
          else let a = close_trade FRIDAY_PREFLATTEN (t_client r @ ''-fri'') (replies (t_client r) 0) r in (skipped @ [a], Some (ac_outcome a)))"

fun window_name :: "friday_phase \<Rightarrow> string" where
  "window_name PHASE_OPEN = ''open''"
| "window_name PHASE_PREFLATTEN = ''preflatten''"
| "window_name PHASE_CLOSED = ''closed''"

definition friday_closes ::
  "bool \<Rightarrow> friday_phase \<Rightarrow> (string \<Rightarrow> raw_quote) \<Rightarrow> instant \<Rightarrow> replies \<Rightarrow> demo_db \<Rightarrow> outcomes \<times> demo_db" where
  "friday_closes dry window quotes now replies s =
    (let rows = trades_with [OPENED] s; closed = map (friday_row dry window quotes replies rows) rows;
         results = outcomes_of rows closed; s1 = pass now (acts_of rows closed) rows s
     in (results, if results = [] then s1 else journal_note now (note_of FRIDAY_PREFLATTEN None
           [(''window'', JStr (window_name window)), (''results'', results_json results)]) s1))"

definition friday_alert_every :: "friday_phase \<Rightarrow> int" where
  "friday_alert_every w = (if w = PHASE_PREFLATTEN then 5 * MINUTE else 30 * MINUTE)"

definition friday_alert :: "instant \<Rightarrow> friday_phase \<Rightarrow> nat \<Rightarrow> outcomes \<Rightarrow> demo_router \<Rightarrow> demo_router" where
  "friday_alert now window remaining results g =
    (if (case dr_friday_alerted g of Some t \<Rightarrow> now - t < friday_alert_every window | None \<Rightarrow> False) then g
     else note_event now (note_of ''FRIDAY_FLATTEN_FAILED'' None [(''window'', JStr (window_name window)), (''open_trades'', JInt (int remaining)),
       (''results'', JList (map JStr (sort (remdups (map snd results)))))]) (g\<lparr>dr_friday_alerted := Some now\<rparr>))"

definition friday_tick ::
  "router_config \<Rightarrow> int \<Rightarrow> (string \<Rightarrow> raw_quote) \<Rightarrow> instant \<Rightarrow> replies \<Rightarrow> demo_router \<Rightarrow> outcomes \<times> demo_router" where
  "friday_tick c minutes quotes now replies g = (case friday_window now minutes of
     Inl _ \<Rightarrow> ([], g)
   | Inr window \<Rightarrow>
     if window = PHASE_OPEN then ([], g\<lparr>dr_friday_alerted := None\<rparr>)
     else (case friday_closes (rc_dry c) window quotes now replies (dr_db g) of (results, s) \<Rightarrow>
       let remaining = length (trades_with [OPENED] s); g1 = g\<lparr>dr_db := s\<rparr>
       in (filter (\<lambda>(_, out). out \<in> set CLOSE_SENT) results,
           if 0 < remaining \<and> alert_due (rc_hold c) now then friday_alert now window remaining results g1 else g1)))"

section \<open>An active loss halt\<close>

definition loss_flatten :: "bool \<Rightarrow> bool \<Rightarrow> instant \<Rightarrow> replies \<Rightarrow> demo_db \<Rightarrow> outcomes \<times> demo_db" where
  "loss_flatten dry drawdown now replies s =
    (let why = (if drawdown then ''DRAWDOWN'' else ''DAILY_LOSS'') in
     case flatten_rows dry False ''daily_loss_flatten'' why ''-dlimit'' now replies s of (results, s1) \<Rightarrow>
       (results, if results = [] then s1 else journal_note now (note_of (''FLATTEN_'' @ why) None [(''results'', results_json results)]) s1))"

section \<open>Facts\<close>

lemma flatten_rows_kept: "table_ok s \<Longrightarrow> kept s (snd (flatten_rows dry quiet action why suffix now replies s))"
proof -
  assume ok: "table_ok s"
  define s1 where "s1 = pass now (acts_of (trades_with [RESTING] s) (map (flatten_limit dry why replies) (trades_with [RESTING] s))) (trades_with [RESTING] s) s"
  have k1: "kept s s1" unfolding s1_def
    by (rule mapped_pass_kept [OF ok]) (auto simp: LIVE_STATUSES_def flatten_limit_def Let_def sound_Nil cancel_sound)
  have "kept s1 (snd (flatten_rows dry quiet action why suffix now replies s))" if "table_ok s1"
    unfolding flatten_rows_def Let_def s1_def [symmetric] snd_conv
    by (rule mapped_pass_kept [OF that]) (auto simp: LIVE_STATUSES_def flatten_open_def Let_def sound_Nil close_sound quiet_none_sound)
  with k1 show ?thesis by (rule kept_then)
qed

lemma friday_closes_kept:
  assumes "table_ok s" shows "kept s (snd (friday_closes dry window quotes now replies s))"
proof -
  let ?rows = "trades_with [OPENED] s"
  define s1 where "s1 = pass now (acts_of ?rows (map (friday_row dry window quotes replies ?rows) ?rows)) ?rows s"
  have sound: "sound_acts r (skipped_note kind quotes reads rows r)" for kind reads rows r
    using skipped_note_sound [OF sound_Nil] by fastforce
  have k1: "kept s s1" unfolding s1_def
    by (rule mapped_pass_kept [OF assms])
      (auto simp: LIVE_STATUSES_def friday_row_def Let_def sound_Nil close_sound quiet_none_sound sound skipped_note_sound
        split: option.split)
  have "db_trades (snd (friday_closes dry window quotes now replies s)) = db_trades s1"
    by (simp add: friday_closes_def Let_def s1_def quiet_trades)
  then show ?thesis using k1 kept_cong by blast
qed

lemma drain_trades: "db_trades (snd (drain_outbox now hook s)) = db_trades s"
proof -
  have finish: "db_trades (fold (\<lambda>r. finish_outbox (ob_event r) (f r)) rows t) = db_trades t" for f rows t
    by (induction rows arbitrary: t) (auto simp: finish_outbox_def)
  show ?thesis by (auto simp: drain_outbox_def claim_outbox_def Let_def finish split: option.split)
qed

lemma consume_trades: "db_trades (snd (consume_flag now k v note notify s)) = db_trades s"
  by (simp add: consume_flag_def Let_def journal_note_trades clear_flag_def)

lemma complete_manual_trades: "db_trades (dr_db (complete_manual c now raw kind client kvs g)) = db_trades (dr_db g)"
  by (simp add: complete_manual_def drain_trades consume_trades)

lemma note_event_trades: "db_trades (dr_db (note_event now n g)) = db_trades (dr_db g)"
  by (simp add: note_event_def quiet_trades)

lemmas router_trades = quiet_trades drain_trades consume_trades complete_manual_trades note_event_trades clear_flag_def

text \<open>Where only the flags, the events, the outbox or the router's own counters change, the trades are kept.\<close>

lemma kept_router: "kept s (dr_db g) \<Longrightarrow> db_trades (dr_db g') = db_trades (dr_db g) \<Longrightarrow> kept s (dr_db g')"
  using kept_cong by blast

lemma process_requests_kept:
  assumes ok: "table_ok (dr_db g)" shows "kept (dr_db g) (dr_db (snd (snd (process_requests c v episode now replies g))))"
proof (cases "flatten_requested c g")
  case False
  then show ?thesis by (simp add: process_requests_def Let_def kept_refl ok)
next
  case asked: True
  define g1 where "g1 = g\<lparr>dr_flatten_ticks := Suc (dr_flatten_ticks g)\<rparr>"
  note run = process_requests_def [of c v episode now replies g, unfolded Let_def g1_def [symmetric]]
  have ok1: "table_ok (dr_db g1)" "kept (dr_db g) (dr_db g1)" using ok by (auto simp: g1_def kept_refl)
  show ?thesis
  proof (cases "reconcile v episode now g1")
    case (Inl e)
    then show ?thesis using asked ok1 by (simp add: run)
  next
    case (Inr p)
    obtain g2 seen where p: "p = (g2, seen)" by force
    have k2: "kept (dr_db g) (dr_db g2)" using reconcile_kept [OF Inr [unfolded p] ok1(1)] kept_then ok1 by blast
    show ?thesis
    proof (cases seen)
      case None
      then show ?thesis using asked Inr p by (auto simp: run router_trades intro!: kept_router [OF k2])
    next
      case (Some ts)
      let ?asked = "truthy (flag_of FLATTEN_REQUEST_FLAG (dr_db g))"
      obtain results s where fl: "flatten_rows (rc_dry c) (PENDING_EVENT_CAP < dr_flatten_ticks g1) ''emergency_button_close''
          (if ?asked then ''EMERGENCY_BUTTON'' else ''EMERGENCY_ACTIVE'') (if ?asked then ''-ebtn'' else ''-emergency'') now replies (dr_db g2) = (results, s)" by force
      have "kept (dr_db g2) s" if "table_ok (dr_db g2)" using flatten_rows_kept [OF that] fl by (metis snd_conv)
      then have k3: "kept (dr_db g) (dr_db (g2\<lparr>dr_db := s\<rparr>))" using k2 kept_then by simp
      show ?thesis by (rule kept_router [OF k3]) (use asked Inr p Some fl in \<open>simp add: run Let_def router_trades\<close>)
    qed
  qed
qed

lemma manual_step_kept:
  assumes ok: "table_ok (dr_db g)" shows "kept (dr_db g) (dr_db (snd (manual_step c now raw cl detail quiet replies g)))"
proof (cases "trade_of cl (dr_db g)")
  case None
  then show ?thesis by (auto simp: manual_step_def router_trades intro!: kept_router [OF kept_refl [OF ok]])
next
  case (Some r)
  have act: "kept (dr_db g) (apply_act now cl (close_trade MANUAL_CLOSE (cl @ ''-manual'') (replies cl 0) r) (dr_db g))" if "t_status r = OPENED"
    using apply_act_kept [OF ok Some close_sound] that by (simp add: LIVE_STATUSES_def)
  have g': "kept (dr_db g) (dr_db (g\<lparr>dr_db := apply_act now cl (close_trade MANUAL_CLOSE (cl @ ''-manual'') (replies cl 0) r) (dr_db g)\<rparr>))"
    if "t_status r = OPENED" using act [OF that] by simp
  show ?thesis
  proof (cases "t_status r = OPENED \<and> (jget raw ''trade_id'' = JNull \<or> jget raw ''trade_id'' = jstr_opt (t_trade_id r)) \<and> \<not> t_action_unknown r \<and> \<not> rc_dry c")
    case True
    then show ?thesis using Some unfolding manual_step_def Let_def
      by (intro kept_router [OF g']) (auto simp: router_trades)
  next
    case False
    then show ?thesis using Some unfolding manual_step_def Let_def
      by (intro kept_router [OF kept_refl [OF ok]]) (auto simp: router_trades)
  qed
qed

lemma process_manual_close_kept:
  assumes ok: "table_ok (dr_db g)" shows "kept (dr_db g) (dr_db (snd (snd (process_manual_close c v episode now replies report g))))"
proof -
  define g0 where "g0 = g\<lparr>dr_db := snd (drain_outbox now (rc_hook c) (dr_db g))\<rparr>"
  define raw where "raw = flag_of MANUAL_CLOSE_REQUEST_FLAG (dr_db g0)"
  define g1 where "g1 = g0\<lparr>dr_manual_ticks := Suc (dr_manual_ticks g0)\<rparr>"
  note run = process_manual_close_def [of c v episode now replies report g, unfolded Let_def g0_def [symmetric] raw_def [symmetric] g1_def [symmetric]]
  have k1: "kept (dr_db g) (dr_db g0)" "kept (dr_db g) (dr_db g1)"
    using ok by (auto simp: g1_def g0_def router_trades intro!: kept_same)
  show ?thesis
  proof (cases "truthy raw \<and> manual_client raw \<noteq> None")
    case False
    then show ?thesis by (intro kept_router [OF k1(1)]) (auto simp: run router_trades)
  next
    case True
    then obtain cl where cl: "truthy raw" "manual_client raw = Some cl" by auto
    show ?thesis
    proof (cases "case report of Some ts \<Rightarrow> Inr (g1, Some ts) | None \<Rightarrow> reconcile v episode now g1")
      case (Inl e)
      then show ?thesis using cl k1(2) by (simp add: run)
    next
      case (Inr p)
      obtain g2 seen where p: "p = (g2, seen)" by force
      have "kept (dr_db g1) (dr_db g2)" if "table_ok (dr_db g1)"
        using Inr p that reconcile_kept kept_refl by (auto split: option.splits)
      then have k2: "kept (dr_db g) (dr_db g2)" using k1(2) kept_then by blast
      show ?thesis
      proof (cases seen)
        case None
        then show ?thesis using cl Inr p by (intro kept_router [OF k2]) (auto simp: run router_trades)
      next
        case (Some ts)
        define detail where "detail = [(''request_id'', jget raw ''request_id''), (''actor'', jget raw ''actor'')]"
        have "snd (snd (process_manual_close c v episode now replies report g))
            = snd (manual_step c now raw cl detail (PENDING_EVENT_CAP < dr_manual_ticks g1) replies g2)"
          using cl Inr p Some by (simp add: run detail_def split: prod.split)
        then show ?thesis using k2 manual_step_kept kept_then by simp
      qed
    qed
  qed
qed

lemma friday_tick_kept:
  assumes ok: "table_ok (dr_db g)" shows "kept (dr_db g) (dr_db (snd (friday_tick c minutes quotes now replies g)))"
proof (cases "friday_window now minutes")
  case (Inl e)
  then show ?thesis using ok by (simp add: friday_tick_def kept_refl)
next
  case (Inr window)
  obtain results s where fc: "friday_closes (rc_dry c) window quotes now replies (dr_db g) = (results, s)" by force
  have "kept (dr_db g) (dr_db (g\<lparr>dr_db := s\<rparr>))" using friday_closes_kept [OF ok] fc by (metis snd_conv demo_router.select_convs(1) demo_router.surjective demo_router.update_convs(1))
  note k = kept_router [OF this]
  show ?thesis
  proof (cases "window = PHASE_OPEN")
    case True
    then show ?thesis using Inr ok by (simp add: friday_tick_def kept_refl)
  next
    case False
    then show ?thesis by (intro k) (simp add: friday_tick_def Inr fc Let_def friday_alert_def router_trades)
  qed
qed

lemma loss_flatten_kept: "table_ok s \<Longrightarrow> kept s (snd (loss_flatten dry drawdown now replies s))"
proof -
  assume ok: "table_ok s"
  obtain results s1 where f: "flatten_rows dry False ''daily_loss_flatten'' (if drawdown then ''DRAWDOWN'' else ''DAILY_LOSS'') ''-dlimit'' now replies s = (results, s1)" by force
  have "kept s s1" using flatten_rows_kept [OF ok] f by (metis snd_conv)
  moreover have "db_trades (snd (loss_flatten dry drawdown now replies s)) = db_trades s1" by (simp add: loss_flatten_def f router_trades)
  ultimately show ?thesis using kept_cong by blast
qed

end
