(* ===== verification/DailyLoss.thy ===== *)
theory DailyLoss
  imports DemoTrades
begin

text \<open>
  \<open>execution/daily_loss_limit.py\<close>: the daily loss limit and the drawdown halt of the demo account. The tracker keeps
  its state in the flags of the demo database and a latch in memory. A day key, the text of a 17:00 New York boundary,
  is the instant it names; an amount stored as text is the amount. Whether the write of a flag succeeds is an argument:
  \<open>w k v\<close> for a single flag, a truth value for a transaction. Log lines and alert hooks carry nothing back.
\<close>

section \<open>The two limits\<close>

definition LIMIT_FRACTION :: rat where "LIMIT_FRACTION = 2 / 100"
definition DRAWDOWN_FRACTION :: rat where "DRAWDOWN_FRACTION = 5 / 100"

definition DRAWDOWN_HALT :: string where "DRAWDOWN_HALT = ''drawdown_halt''"
definition DAILY_LOSS_HALT :: string where "DAILY_LOSS_HALT = ''daily_loss_halt''"
definition DAILY_LOSS_BUDGET :: string where "DAILY_LOSS_BUDGET = ''daily_loss_budget''"
definition NAV_INVALID :: string where "NAV_INVALID = ''nav_invalid''"
definition STATE_UNREADABLE :: string where "STATE_UNREADABLE = ''state_unreadable''"
definition INVALID_INPUT :: string where "INVALID_INPUT = ''invalid_input''"

definition positive_dec :: "pynum \<Rightarrow> rat option" where
  "positive_dec v = (case as_decimal v of Some d \<Rightarrow> if 0 < d then Some d else None | None \<Rightarrow> None)"

record loss_status =
  ls_pnl :: "rat option"
  ls_limit :: "rat option"
  ls_floor :: "rat option"
  ls_remaining :: "rat option"
  ls_breached :: bool
  ls_entry :: bool
  ls_reason :: "string option"

definition daily_loss_status :: "pynum \<Rightarrow> pynum \<Rightarrow> pynum \<Rightarrow> pynum \<Rightarrow> pynum \<Rightarrow> loss_status" where
  "daily_loss_status e0 nav transfers planned fraction =
    (let invalid = \<lparr>ls_pnl = None, ls_limit = None, ls_floor = None, ls_remaining = None, ls_breached = False, ls_entry = False,
           ls_reason = Some INVALID_INPUT\<rparr>
     in case (positive_dec e0, positive_dec nav, as_decimal transfers, positive_dec fraction) of
       (Some e, Some n, Some t, Some f) \<Rightarrow>
         if 1 \<le> f \<or> (planned \<noteq> PNone \<and> as_decimal planned = None) then invalid
         else let pnl = dec28 (dec28 (n - e) - t); amount = dec28 (f * e); remaining = dec28 (amount + pnl); floor = dec28 (e * dec28 (1 - f));
                  status = (\<lambda>breached entry why. \<lparr>ls_pnl = Some pnl, ls_limit = Some amount, ls_floor = Some floor,
                    ls_remaining = Some remaining, ls_breached = breached, ls_entry = entry, ls_reason = why\<rparr>)
           in if pnl \<le> - amount then status True False (Some DAILY_LOSS_HALT)
              else if (case as_decimal planned of Some risk \<Rightarrow> \<not> (0 < risk \<and> risk \<le> remaining) | None \<Rightarrow> False)
              then status False False (Some DAILY_LOSS_BUDGET)
              else status False True None
     | _ \<Rightarrow> invalid)"

record drawdown_state =
  dd_valid :: bool
  dd_breached :: bool
  dd_amount :: "rat option"
  dd_floor :: "rat option"

definition drawdown_status :: "pynum \<Rightarrow> pynum \<Rightarrow> pynum \<Rightarrow> drawdown_state" where
  "drawdown_status start nav fraction = (case (positive_dec start, positive_dec nav, positive_dec fraction) of
     (Some s, Some n, Some f) \<Rightarrow>
       if 1 \<le> f then \<lparr>dd_valid = False, dd_breached = False, dd_amount = None, dd_floor = None\<rparr>
       else let floor = dec28 (s * dec28 (1 - f))
         in \<lparr>dd_valid = True, dd_breached = n \<le> floor, dd_amount = Some (dec28 (s - n)), dd_floor = Some floor\<rparr>
   | _ \<Rightarrow> \<lparr>dd_valid = False, dd_breached = False, dd_amount = None, dd_floor = None\<rparr>)"

record loss_decision =
  ld_entry :: bool
  ld_flatten :: bool
  ld_reason :: "string option"
  ld_halted :: bool
  ld_dd :: bool
  ld_daily :: "loss_status option"
  ld_new :: bool

definition loss_refused :: "string \<Rightarrow> loss_decision" where
  "loss_refused why = \<lparr>ld_entry = False, ld_flatten = False, ld_reason = Some why, ld_halted = False, ld_dd = False,
     ld_daily = None, ld_new = False\<rparr>"

section \<open>State\<close>

record loss_config =
  lc_fraction :: rat
  lc_flatten :: bool
  lc_start :: "rat option"

record loss_latch =
  ll_daily :: "instant option"
  ll_dd :: bool

definition DAY_FLAG :: string where "DAY_FLAG = ''dl_day''"
definition E0_FLAG :: string where "E0_FLAG = ''dl_e0''"
definition TRANSFERS_FLAG :: string where "TRANSFERS_FLAG = ''dl_transfers''"
definition HALT_FLAG :: string where "HALT_FLAG = ''dl_halt''"
definition DD_START_FLAG :: string where "DD_START_FLAG = ''dd_start''"
definition DD_HALT_FLAG :: string where "DD_HALT_FLAG = ''dd_halt''"
definition DD_TRANSFERS_FLAG :: string where "DD_TRANSFERS_FLAG = ''dd_transfers''"
definition LAST_NAV_FLAG :: string where "LAST_NAV_FLAG = ''dl_last_nav''"
definition LAST_AT_FLAG :: string where "LAST_AT_FLAG = ''dl_last_at''"
definition TX_FLAG :: string where "TX_FLAG = ''dl_tx_id''"

lemmas loss_flags = DAY_FLAG_def E0_FLAG_def TRANSFERS_FLAG_def HALT_FLAG_def DD_START_FLAG_def DD_HALT_FLAG_def
  DD_TRANSFERS_FLAG_def LAST_NAV_FLAG_def LAST_AT_FLAG_def TX_FLAG_def

definition LAST_NAV_MAX_AGE :: int where "LAST_NAV_MAX_AGE = 7 * DAY"

definition loss_key :: "instant \<Rightarrow> instant" where "loss_key now = to_utc (day_key now)"

definition flag_number :: "json \<Rightarrow> pynum" where
  "flag_number j = (case j of JDec d \<Rightarrow> PDec d | JStr s \<Rightarrow> PText s | JNull \<Rightarrow> PNone | _ \<Rightarrow> PText ''?'')"

definition number_at :: "string \<Rightarrow> demo_db \<Rightarrow> pynum" where "number_at k s = flag_number (flag_of k s)"

text \<open>\<open>_state\<close>: \<open>ValueError\<close> on a corrupt or incomplete state; the flags themselves are the state.\<close>

definition loss_state_ok :: "demo_db \<Rightarrow> bool" where
  "loss_state_ok s \<longleftrightarrow> (\<forall>k \<in> set [E0_FLAG, DD_START_FLAG]. flag_of k s \<noteq> JNull \<longrightarrow> positive_dec (number_at k s) \<noteq> None)
     \<and> (\<forall>k \<in> set [TRANSFERS_FLAG, DD_TRANSFERS_FLAG]. flag_of k s \<noteq> JNull \<longrightarrow> as_decimal (number_at k s) \<noteq> None)
     \<and> (flag_of DAY_FLAG s \<noteq> JNull \<longrightarrow> flag_of E0_FLAG s \<noteq> JNull \<and> flag_of TRANSFERS_FLAG s \<noteq> JNull)"

definition baseline :: "instant \<Rightarrow> demo_db \<Rightarrow> rat option" where
  "baseline now s = (case (positive_dec (number_at LAST_NAV_FLAG s), flag_of LAST_AT_FLAG s) of
     (Some seen, JTime t) \<Rightarrow> if 0 \<le> now - t \<and> now - t \<le> LAST_NAV_MAX_AGE then Some seen else None
   | _ \<Rightarrow> None)"

definition dd_start_equity :: "loss_config \<Rightarrow> demo_db \<Rightarrow> rat option" where
  "dd_start_equity c s = map_option (\<lambda>base. dec28 (base + (case as_decimal (number_at DD_TRANSFERS_FLAG s) of Some t \<Rightarrow> t | None \<Rightarrow> 0)))
     (case lc_start c of Some b \<Rightarrow> Some b | None \<Rightarrow> positive_dec (number_at DD_START_FLAG s))"

section \<open>Evaluation\<close>

type_synonym writes = "string \<Rightarrow> json \<Rightarrow> bool"

text \<open>Writes in order up to the first that fails; a failed best-effort write leaves the flag.\<close>

fun write_all :: "writes \<Rightarrow> (string \<times> json) list \<Rightarrow> demo_db \<Rightarrow> bool \<times> demo_db" where
  "write_all w [] s = (True, s)"
| "write_all w ((k, v) # rest) s = (if w k v then write_all w rest (set_flag k v s) else (False, s))"

definition write_flag :: "writes \<Rightarrow> string \<Rightarrow> json \<Rightarrow> demo_db \<Rightarrow> demo_db" where
  "write_flag w k v s = (if w k v then set_flag k v s else s)"

definition roll_day :: "writes \<Rightarrow> instant \<Rightarrow> rat \<Rightarrow> loss_latch \<Rightarrow> demo_db \<Rightarrow> bool \<times> loss_latch \<times> demo_db" where
  "roll_day w now nav l s =
    (let key = loss_key now; e0 = (case baseline now s of Some b \<Rightarrow> b | None \<Rightarrow> nav);
         was_halted = (flag_of HALT_FLAG s \<noteq> JNull \<or> (ll_daily l \<noteq> None \<and> ll_daily l \<noteq> Some key))
     in case write_all w [(E0_FLAG, JDec e0), (TRANSFERS_FLAG, JDec 0), (HALT_FLAG, JNull), (DAY_FLAG, JTime key)] s of
       (done, s1) \<Rightarrow> if \<not> done then (False, l, s1)
         else (True, if ll_daily l \<noteq> Some key then l\<lparr>ll_daily := None\<rparr> else l,
               if was_halted then journal_note now (''DAILY_LOSS_RESUMED'', None,
                 JObj [(''day'', flag_of DAY_FLAG s), (''new_day'', JTime key), (''e0'', JDec e0)]) s1 else s1))"

text \<open>The first NAV ever seen becomes the drawdown baseline; transfers recorded for an older one are dropped first.\<close>

definition start_drawdown :: "writes \<Rightarrow> loss_config \<Rightarrow> rat \<Rightarrow> demo_db \<Rightarrow> bool \<times> demo_db" where
  "start_drawdown w c nav s = (if lc_start c = None \<and> flag_of DD_START_FLAG s = JNull then
       write_all w ((if flag_of DD_TRANSFERS_FLAG s \<noteq> JNull then [(DD_TRANSFERS_FLAG, JNull)] else []) @ [(DD_START_FLAG, JDec nav)]) s
     else (True, s))"

definition halt_state :: "instant \<Rightarrow> loss_latch \<Rightarrow> demo_db \<Rightarrow> bool \<times> bool" where
  "halt_state now l s = (let key = loss_key now in
     (ll_daily l = Some key \<or> flag_of HALT_FLAG s = JTime key, ll_dd l \<or> flag_of DD_HALT_FLAG s \<noteq> JNull))"

text \<open>A new halt is latched before its flag is written, and stays when the write fails.\<close>

definition halt_drawdown :: "writes \<Rightarrow> instant \<Rightarrow> (string \<times> json) list \<Rightarrow> loss_latch \<times> demo_db \<Rightarrow> loss_latch \<times> demo_db" where
  "halt_drawdown w now kvs ls = (case ls of (l, s) \<Rightarrow>
     (l\<lparr>ll_dd := True\<rparr>, journal_note now (''DRAWDOWN_HALT'', None, JObj kvs) (write_flag w DD_HALT_FLAG (JTime now) s)))"

definition halt_daily :: "writes \<Rightarrow> instant \<Rightarrow> (string \<times> json) list \<Rightarrow> loss_latch \<times> demo_db \<Rightarrow> loss_latch \<times> demo_db" where
  "halt_daily w now kvs ls = (case ls of (l, s) \<Rightarrow> let key = loss_key now in
     (l\<lparr>ll_daily := Some key\<rparr>, journal_note now (''DAILY_LOSS_HALT'', None, JObj kvs) (write_flag w HALT_FLAG (JTime key) s)))"

definition non_positive :: "writes \<Rightarrow> instant \<Rightarrow> rat \<Rightarrow> loss_latch \<times> demo_db \<Rightarrow> loss_decision \<times> loss_latch \<times> demo_db" where
  "non_positive w now nav ls = (case ls of (l, s) \<Rightarrow> case halt_state now l s of (daily, dd) \<Rightarrow>
     (\<lparr>ld_entry = False, ld_flatten = True, ld_reason = Some DRAWDOWN_HALT, ld_halted = daily, ld_dd = True, ld_daily = None, ld_new = \<not> dd\<rparr>,
      if dd then (l, s) else halt_drawdown w now [(''nav'', JDec nav), (''day'', JTime (loss_key now))] (l, s)))"

fun opt_dec :: "rat option \<Rightarrow> pynum" where
  "opt_dec (Some d) = PDec d"
| "opt_dec None = PNone"

text \<open>The part after the state was read and the day rolled.\<close>

definition judge ::
  "writes \<Rightarrow> loss_config \<Rightarrow> rat \<Rightarrow> pynum \<Rightarrow> instant \<Rightarrow> loss_latch \<Rightarrow> demo_db \<Rightarrow> loss_decision \<times> loss_latch \<times> demo_db" where
  "judge w c nav planned now l s =
    (let key = loss_key now; start = dd_start_equity c s;
         daily = daily_loss_status (number_at E0_FLAG s) (PDec nav) (number_at TRANSFERS_FLAG s) planned (PDec (lc_fraction c));
         drawdown = drawdown_status (opt_dec start) (PDec nav) (PDec DRAWDOWN_FRACTION);
         (halted, dd) = halt_state now l s;
         s1 = (if ll_dd l \<and> flag_of DD_HALT_FLAG s = JNull then write_flag w DD_HALT_FLAG (JTime now) s else s);
         s2 = (if ll_daily l = Some key \<and> flag_of HALT_FLAG s \<noteq> JTime key then write_flag w HALT_FLAG (JTime key) s1 else s1);
         new_dd = (dd_breached drawdown \<and> \<not> dd); new_daily = (ls_breached daily \<and> \<not> halted);
         (l3, s3) = (if new_dd then halt_drawdown w now [(''nav'', JDec nav), (''start'', jdec_opt start),
             (''floor'', jdec_opt (dd_floor drawdown)), (''drawdown'', jdec_opt (dd_amount drawdown))] (l, s2) else (l, s2));
         (l4, s4) = (if new_daily then halt_daily w now [(''day'', JTime key), (''pnl'', jdec_opt (ls_pnl daily)),
             (''floor'', jdec_opt (ls_floor daily)), (''nav'', JDec nav), (''e0'', jdec_opt (positive_dec (number_at E0_FLAG s)))] (l3, s3) else (l3, s3));
         s5 = snd (write_all w [(LAST_NAV_FLAG, JDec nav), (LAST_AT_FLAG, JTime now)] s4);
         dd' = (dd \<or> new_dd); halted' = (halted \<or> new_daily);
         why = (if dd' then Some DRAWDOWN_HALT else if halted' then Some DAILY_LOSS_HALT
           else if \<not> dd_valid drawdown then Some STATE_UNREADABLE else ls_reason daily)
     in (\<lparr>ld_entry = (why = None), ld_flatten = (dd' \<or> (halted' \<and> lc_flatten c)), ld_reason = why, ld_halted = halted', ld_dd = dd',
          ld_daily = Some daily, ld_new = (new_dd \<or> new_daily)\<rparr>, l4, s5))"

definition evaluate_loss ::
  "writes \<Rightarrow> loss_config \<Rightarrow> pynum \<Rightarrow> pynum \<Rightarrow> instant \<Rightarrow> loss_latch \<Rightarrow> demo_db \<Rightarrow> loss_decision \<times> loss_latch \<times> demo_db" where
  "evaluate_loss w c nav planned now l s = (case as_decimal nav of
     None \<Rightarrow> (loss_refused NAV_INVALID, l, s)
   | Some n \<Rightarrow>
     if n \<le> 0 then non_positive w now n (l, s)
     else if \<not> loss_state_ok s then (loss_refused STATE_UNREADABLE, l, s)
     else (case (if flag_of DAY_FLAG s \<noteq> JTime (loss_key now) then roll_day w now n l s else (True, l, s)) of (done, l1, s1) \<Rightarrow>
       if \<not> done then (loss_refused STATE_UNREADABLE, l1, s1)
       else (case start_drawdown w c n s1 of (started, s2) \<Rightarrow>
         if \<not> started then (loss_refused STATE_UNREADABLE, l1, s2) else judge w c n planned now l1 s2)))"

section \<open>Transfers and releases\<close>

definition digit_id :: "string \<Rightarrow> bool" where "digit_id t \<longleftrightarrow> t \<noteq> [] \<and> list_all is_digit t"

definition transfer_flags ::
  "loss_config \<Rightarrow> rat \<Rightarrow> instant \<Rightarrow> demo_db \<Rightarrow> (string \<times> json) list \<times> rat option \<times> (string \<times> json) list" where
  "transfer_flags c net now s =
    (let dd = (if lc_start c \<noteq> None \<or> flag_of DD_START_FLAG s \<noteq> JNull
           then [(DD_TRANSFERS_FLAG, JDec (dec28 ((case as_decimal (number_at DD_TRANSFERS_FLAG s) of Some t \<Rightarrow> t | None \<Rightarrow> 0) + net)))] else [])
     in if flag_of DAY_FLAG s = JTime (loss_key now)
        then let day_total = dec28 ((case as_decimal (number_at TRANSFERS_FLAG s) of Some t \<Rightarrow> t | None \<Rightarrow> 0) + net)
          in (dd @ [(TRANSFERS_FLAG, JDec day_total)], Some day_total, [(''total'', JDec day_total)])
        else (case baseline now s of
            Some b \<Rightarrow> (dd @ [(LAST_NAV_FLAG, JDec (dec28 (b + net)))], None, [(''total'', JNull), (''applied_to'', JStr ''next_e0'')])
          | None \<Rightarrow> (dd, None, [(''total'', JNull), (''applied_to'', JStr ''none'')])))"

definition apply_transfer ::
  "bool \<Rightarrow> loss_config \<Rightarrow> pynum \<Rightarrow> string option \<Rightarrow> string \<Rightarrow> string \<Rightarrow> instant \<Rightarrow> demo_db \<Rightarrow> py_error + rat option \<times> demo_db" where
  "apply_transfer ok c net tx actor reason now s = (case as_decimal net of
     None \<Rightarrow> Inl (ValueError ''net must be a number'')
   | Some n \<Rightarrow>
     if n = 0 \<and> tx = None then Inl (ValueError ''net must be a number'')
     else if (case tx of Some t \<Rightarrow> \<not> digit_id t | None \<Rightarrow> False) then Inl (ValueError ''tx_id must be a digit string'')
     else if actor = [] then Inl (ValueError ''actor required'')
     else if n \<noteq> 0 \<and> \<not> loss_state_ok s then Inl (ValueError ''corrupt'')
     else if \<not> ok then Inl (RuntimeError ''write'')
     else let cursor = (case tx of Some t \<Rightarrow> [(TX_FLAG, JStr t)] | None \<Rightarrow> []) in
       if n = 0 then Inr (None, apply_all now cursor [] None s)
       else (case transfer_flags c n now s of (flags, day_total, extra) \<Rightarrow>
         Inr (day_total, apply_all now (cursor @ flags) [] (Some (''TRANSFER_RECORDED'', None, JObj
           ([(''day'', JTime (loss_key now)), (''amount'', JDec n), (''actor'', JStr actor), (''reason'', JStr reason)] @ extra
             @ (case tx of Some t \<Rightarrow> [(''tx_id'', JStr t)] | None \<Rightarrow> [])))) s)))"

definition record_transfer ::
  "bool \<Rightarrow> loss_config \<Rightarrow> pynum \<Rightarrow> string \<Rightarrow> string \<Rightarrow> instant \<Rightarrow> demo_db \<Rightarrow> py_error + rat option \<times> demo_db" where
  "record_transfer ok c amount actor reason now s = (case as_decimal amount of
     None \<Rightarrow> Inl (ValueError ''amount must be a non-zero number'')
   | Some n \<Rightarrow> if n = 0 then Inl (ValueError ''amount must be a non-zero number'')
       else apply_transfer ok c (PDec n) None actor reason now s)"

definition transaction_id :: "demo_db \<Rightarrow> py_error + string option" where
  "transaction_id s = (case flag_of TX_FLAG s of JNull \<Rightarrow> Inr None
     | JStr t \<Rightarrow> if digit_id t then Inr (Some t) else Inl (ValueError ''corrupt dl_tx_id'')
     | _ \<Rightarrow> Inl (ValueError ''corrupt dl_tx_id''))"

definition clear_drawdown_halt ::
  "writes \<Rightarrow> string \<Rightarrow> string \<Rightarrow> instant \<Rightarrow> loss_latch \<Rightarrow> demo_db \<Rightarrow> (py_error + unit) \<times> loss_latch \<times> demo_db" where
  "clear_drawdown_halt w actor reason now l s = (if actor = [] then (Inl (ValueError ''actor required''), l, s)
     else (case write_all w [(DD_HALT_FLAG, JNull), (DD_START_FLAG, JNull), (DD_TRANSFERS_FLAG, JNull)] s of (done, s1) \<Rightarrow>
       if \<not> done then (Inl (RuntimeError ''write''), l, s1)
       else (Inr (), l\<lparr>ll_dd := False\<rparr>, journal_note now (''DRAWDOWN_HALT_CLEARED'', None, JObj [(''actor'', JStr actor), (''reason'', JStr reason)]) s1)))"

definition clear_daily_halt ::
  "writes \<Rightarrow> string \<Rightarrow> string \<Rightarrow> instant \<Rightarrow> loss_latch \<Rightarrow> demo_db \<Rightarrow> (py_error + unit) \<times> loss_latch \<times> demo_db" where
  "clear_daily_halt w actor reason now l s = (if actor = [] then (Inl (ValueError ''actor required''), l, s)
     else if \<not> w HALT_FLAG JNull then (Inl (RuntimeError ''write''), l, s)
     else (Inr (), l\<lparr>ll_daily := None\<rparr>, journal_note now (''DAILY_LOSS_HALT_CLEARED'', None,
       JObj [(''day'', flag_of DAY_FLAG s), (''actor'', JStr actor), (''reason'', JStr reason)]) (set_flag HALT_FLAG JNull s)))"

section \<open>Configuration\<close>

definition fraction_setting :: "pynum \<Rightarrow> rat" where
  "fraction_setting v = (case positive_dec v of Some f \<Rightarrow> if f \<le> LIMIT_FRACTION then f else LIMIT_FRACTION | None \<Rightarrow> LIMIT_FRACTION)"

text \<open>The value of each variable, \<open>PNone\<close> when it is not set; the constructor checks the fraction again.\<close>

definition limit_from_env :: "string option \<Rightarrow> string option \<Rightarrow> pynum \<Rightarrow> pynum \<Rightarrow> loss_config option" where
  "limit_from_env enable flatten pct start = (if enable \<noteq> Some ''1'' then None
     else Some \<lparr>lc_fraction = fraction_setting (PDec (fraction_setting pct)), lc_flatten = (flatten \<noteq> Some ''0''), lc_start = positive_dec start\<rparr>)"

end
