(* ===== verification/DemoRoute.thy ===== *)
theory DemoRoute
  imports DemoClosing DailyLoss
begin

text \<open>
  How \<open>execution/broker_demo_router.py\<close> opens trades: the candidate of a cycle, every gate in front of it, the reversal
  of a profitable opposite trade, the sizing on a fresh NAV with the loss gate, the levels of the order, the write-ahead
  intent and the submission. What the broker answers at each point is an argument. An instrument is the one of
  \<open>execution/oanda_broker.py\<close> for the only symbol it allows.
\<close>

section \<open>The candidate\<close>

definition ALLOWED_SYMBOLS :: "string list" where "ALLOWED_SYMBOLS = [''EURUSD'']"
definition EUR_USD :: string where "EUR_USD = ''EUR_USD''"
definition PLAN_READY :: string where "PLAN_READY = ''PLAN_READY''"

record cycle_context =
  cx_symbol :: "string option"
  cx_run :: "string option"
  cx_eligible :: bool
  cx_deterministic :: "floor_report option"
  cx_ai :: "floor_report option"
  cx_target :: json

datatype cycle_candidate = Ignored | Not_Routed string | Candidate trade_plan risk_decision string string

definition final_status :: "floor_report option \<Rightarrow> string option" where
  "final_status f = map_option fr_final_status f"

definition prices_match :: "trade_plan \<Rightarrow> risk_decision \<Rightarrow> (rat \<times> rat \<times> rat) option" where
  "prices_match p d = (case (as_decimal (tp_entry p), as_decimal (tp_stop p), as_decimal (tp_target p),
       as_decimal (rd_entry d), as_decimal (rd_stop d), as_decimal (rd_target d)) of
     (Some pe, Some ps, Some pt, Some de, Some ds, Some dt) \<Rightarrow> if (pe, ps, pt) = (de, ds, dt) then Some (de, ds, dt) else None
   | _ \<Rightarrow> None)"

definition candidate_of :: "string \<Rightarrow> cycle_context option \<Rightarrow> cycle_candidate" where
  "candidate_of status cx = (if status \<noteq> PLAN_READY then Ignored else case cx of None \<Rightarrow> Ignored | Some x \<Rightarrow>
     (case cx_run x of None \<Rightarrow> Not_Routed ''run_id_missing'' | Some run \<Rightarrow>
      if run = [] then Not_Routed ''run_id_missing''
      else (case cx_symbol x of None \<Rightarrow> Not_Routed ''symbol_not_supported'' | Some symbol \<Rightarrow>
        if symbol \<notin> set ALLOWED_SYMBOLS then Not_Routed ''symbol_not_supported''
        else if \<not> cx_eligible x then Not_Routed ''not_eligible''
        else if final_status (cx_deterministic x) \<noteq> Some PLAN_READY \<or> final_status (cx_ai x) \<noteq> Some PLAN_READY then Not_Routed ''not_plan_ready''
        else (case (Option.bind (cx_deterministic x) fr_trade_plan, Option.bind (cx_deterministic x) fr_risk_decision, Option.bind (cx_ai x) fr_risk_decision) of
            (Some plan, Some d, Some ai) \<Rightarrow>
              if rd_status d \<noteq> APPROVED \<or> rd_status ai \<noteq> APPROVED then Not_Routed ''risk_not_approved''
              else (case prices_match plan d of None \<Rightarrow> Not_Routed ''plan_decision_mismatch'' | Some (entry, stop, target) \<Rightarrow>
                if tp_symbol plan \<noteq> symbol \<or> rd_symbol d \<noteq> symbol \<or> tp_side plan \<noteq> rd_side d \<or> \<not> valid_side (rd_side d)
                then Not_Routed ''plan_decision_mismatch''
                else if \<not> (if rd_side d = LONG then stop < entry \<and> entry < target else target < entry \<and> entry < stop)
                then Not_Routed ''invalid_plan_geometry''
                else Candidate plan d symbol run)
          | _ \<Rightarrow> Not_Routed ''risk_not_approved''))))"

fun json_dec :: "json \<Rightarrow> rat option" where
  "json_dec (JDec d) = Some d"
| "json_dec (JNum x) = Some (repr_dec x)"
| "json_dec (JInt n) = Some (of_int n)"
| "json_dec (JStr t) = decimal_of_text t"
| "json_dec _ = None"

definition structural_stop :: "cycle_context option \<Rightarrow> rat \<Rightarrow> rat" where
  "structural_stop cx stop = (case cx of None \<Rightarrow> stop | Some x \<Rightarrow>
     (case cx_deterministic x of None \<Rightarrow> stop | Some _ \<Rightarrow>
      (case cx_target x of JObj kvs \<Rightarrow>
         if json_dec (jget (JObj kvs) ''stop'') \<noteq> Some stop then stop
         else (case json_dec (jget (JObj kvs) ''structural_stop'') of None \<Rightarrow> stop | Some s \<Rightarrow> if s \<le> 0 then stop else s)
       | _ \<Rightarrow> stop)))"

section \<open>Sizing and the loss gate\<close>

definition RISK_FRACTION_CAP :: rat where "RISK_FRACTION_CAP = 1 / 100"

definition order_risk_fraction :: "risk_decision \<Rightarrow> rat" where
  "order_risk_fraction d = (case as_decimal (rd_risk_fraction d) of
     Some v \<Rightarrow> if 0 < v \<and> v \<le> RISK_FRACTION_CAP then v else RISK_FRACTION_CAP | None \<Rightarrow> RISK_FRACTION_CAP)"

definition size_units :: "rat \<Rightarrow> rat \<Rightarrow> rat \<Rightarrow> py_error + int" where
  "size_units amount entry stop =
    (if amount \<le> 0 \<or> entry \<le> 0 \<or> stop \<le> 0 then Inl (ValueError ''must be a finite positive Decimal'')
     else let distance = \<bar>dec28 (entry - stop)\<bar> in
       if distance = 0 then Inl (ValueError ''entry and stop must differ'')
       else let units = \<lfloor>dec28 (amount / distance)\<rfloor> in Inr (if 1 \<le> units then units else 0))"

definition broker_units :: "rat \<Rightarrow> risk_decision \<Rightarrow> rat \<Rightarrow> rat \<Rightarrow> int \<Rightarrow> py_error + int" where
  "broker_units equity d entry stop cap = ebind (size_units (dec28 (equity * order_risk_fraction d)) entry stop) (\<lambda>n. Inr (min n cap))"

record broker_balance =
  bb_equity :: rat
  bb_tx :: "string option"

text \<open>What the broker answers while the loss limit is checked: the balance or the name of what its read raised, the transfers since
  the stored transaction (\<open>None\<close> is a read that raised), the closes of a flatten, and which writes succeed.\<close>

record loss_world =
  lw_balance :: "string + broker_balance"
  lw_transfers :: "(pynum \<times> string) option"
  lw_replies :: replies
  lw_writes :: writes
  lw_commit :: bool

definition loss_transfers :: "loss_config \<Rightarrow> loss_world \<Rightarrow> instant \<Rightarrow> broker_balance \<Rightarrow> demo_db \<Rightarrow> bool \<times> demo_db" where
  "loss_transfers lc w now b s =
    (let failed = (False, journal_note now (note_of ''DAILY_LOSS_TRANSFERS_UNAVAILABLE'' None [(''error'', JStr ''transfers'')]) s) in
     case transaction_id s of Inl _ \<Rightarrow> failed | Inr stored \<Rightarrow>
       if bb_tx b = stored then (True, s)
       else (case bb_tx b of None \<Rightarrow> failed | Some current \<Rightarrow>
         (case (if stored = None then Some (PInt 0, current) else lw_transfers w) of None \<Rightarrow> failed | Some (net, cursor) \<Rightarrow>
           (case apply_transfer (lw_commit w) lc net (Some cursor) ''broker'' ''TRANSFER_FUNDS'' now s of Inl _ \<Rightarrow> failed | Inr (_, s1) \<Rightarrow> (True, s1)))))"

definition loss_flattened :: "bool \<Rightarrow> loss_world \<Rightarrow> instant \<Rightarrow> loss_decision \<Rightarrow> demo_db \<Rightarrow> outcomes \<times> demo_db" where
  "loss_flattened dry w now d s = (if ld_flatten d then loss_flatten dry (ld_dd d) now (lw_replies w) s else ([], s))"

definition loss_halted :: "loss_config \<Rightarrow> instant \<Rightarrow> string \<Rightarrow> loss_latch \<Rightarrow> demo_db \<Rightarrow> loss_decision" where
  "loss_halted lc now why l s = (case halt_state now l s of (daily, dd) \<Rightarrow>
     \<lparr>ld_entry = False, ld_flatten = (dd \<or> (daily \<and> lc_flatten lc)), ld_reason = Some why, ld_halted = daily, ld_dd = dd, ld_daily = None, ld_new = False\<rparr>)"

definition UNAVAILABLE :: string where "UNAVAILABLE = ''daily_loss_unavailable''"

definition loss_check ::
  "loss_config \<Rightarrow> bool \<Rightarrow> loss_world \<Rightarrow> instant \<Rightarrow> pynum \<Rightarrow> loss_latch \<Rightarrow> demo_db \<Rightarrow> (loss_decision \<times> outcomes) \<times> loss_latch \<times> demo_db" where
  "loss_check lc dry w now planned l s =
    (let halted = (\<lambda>why l s. let d = loss_halted lc now why l s in case loss_flattened dry w now d s of (outs, s') \<Rightarrow> ((d, outs), l, s')) in
     case lw_balance w of
       Inl e \<Rightarrow> halted UNAVAILABLE l (journal_note now (note_of ''DAILY_LOSS_UNAVAILABLE'' None [(''error'', JStr e)]) s)
     | Inr b \<Rightarrow> (case loss_transfers lc w now b s of (ok, s1) \<Rightarrow>
         if \<not> ok then halted UNAVAILABLE l s1
         else (case evaluate_loss (lw_writes w) lc (PDec (bb_equity b)) planned now l s1 of (d, l2, s2) \<Rightarrow>
           if ld_reason d = Some NAV_INVALID then halted NAV_INVALID l2 s2
           else if ld_reason d = Some STATE_UNREADABLE then halted STATE_UNREADABLE l2 s2
           else (case loss_flattened dry w now d s2 of (outs, s3) \<Rightarrow> ((d, outs), l2, s3)))))"

text \<open>\<open>_sized\<close>: the units, or the outcome that ends the cycle. Without a loss limit there is no loss gate.\<close>

definition sized ::
  "router_config \<Rightarrow> loss_config option \<Rightarrow> loss_world \<Rightarrow> string \<Rightarrow> string \<Rightarrow> risk_decision \<Rightarrow> rat \<Rightarrow> rat \<Rightarrow> instant \<Rightarrow> loss_latch \<Rightarrow> demo_db
   \<Rightarrow> ((string \<times> string) + int) \<times> loss_latch \<times> demo_db" where
  "sized c lco w client run d entry stop now l s =
    (let refuse = (\<lambda>why l s. (Inl (''NOT_ROUTED'', why), l, journal_note now (note_of ''NOT_ROUTED'' (Some client) [(''reason'', JStr why)]) s)) in
     case lw_balance w of
       Inl e \<Rightarrow> refuse (''balance_unavailable:'' @ e) l s
     | Inr b \<Rightarrow> (case broker_units (bb_equity b) d entry stop (rc_max_units c) of
         Inl _ \<Rightarrow> refuse ''sizing_invalid'' l s
       | Inr units \<Rightarrow>
         if units < 1 then (Inl (''SKIPPED_ZERO_UNITS'', client), l, journal_note now (note_of ''SKIPPED_ZERO_UNITS'' (Some client)
           [(''run_id'', JStr run), (''equity'', JDec (bb_equity b))]) s)
         else (case lco of None \<Rightarrow> (Inr units, l, s) | Some lc \<Rightarrow>
           (case loss_check lc (rc_dry c) w now (PDec (dec28 (of_int units * \<bar>dec28 (entry - stop)\<bar>))) l s of ((ld, _), l1, s1) \<Rightarrow>
             if ld_entry ld then (Inr units, l1, s1)
             else refuse (case ld_reason ld of Some why \<Rightarrow> why | None \<Rightarrow> []) l1 s1))))"

section \<open>The reversal and the anchor\<close>

text \<open>\<open>_reversal_row\<close>: the row to close, or why the entry is refused, with the event it records.\<close>

definition reversal_row ::
  "bool \<Rightarrow> risk_decision \<Rightarrow> string \<Rightarrow> open_trade list \<Rightarrow> (string \<Rightarrow> raw_quote) \<Rightarrow> demo_db \<Rightarrow> (string + trade_row) \<times> event_note list" where
  "reversal_row reversal d symbol report quotes s =
    (case trades_with LIVE_STATUSES s of
       [r] \<Rightarrow>
         if \<not> reversal then (Inl ''position_already_open'', [])
         else let broker = filter (\<lambda>t. ot_instrument t = EUR_USD) report in
           if t_status r \<noteq> OPENED \<or> t_symbol r \<noteq> symbol \<or> t_action_unknown r \<or> t_side r = rd_side d \<or> length broker \<noteq> 1 \<or> length report \<noteq> 1
              \<or> Some (ot_id (hd broker)) \<noteq> t_trade_id r
           then (Inl ''position_already_open'', [])
           else (case check_quote (quotes symbol) of
               Inl problem \<Rightarrow> (Inl (''reversal_'' @ problem), [])
             | Inr (bid, ask) \<Rightarrow>
                 let fill = dec_or (t_fill_price r) (t_entry r) in
                 if (if t_side r = LONG then fill < bid else ask < fill) then (Inr r, [])
                 else (Inl ''position_already_open'', [note_of ''REVERSAL_SKIPPED'' (Some (t_client r)) [(''reason'', JStr ''not_in_profit'')]]))
     | _ \<Rightarrow> (Inl ''position_already_open'', []))"

definition FILL_ANCHOR_TOLERANCE_PIPS :: rat where "FILL_ANCHOR_TOLERANCE_PIPS = 5"
definition FILL_ANCHOR_MAX_PIPS :: rat where "FILL_ANCHOR_MAX_PIPS = 10"

text \<open>\<open>_fill_anchor\<close>: the levels a market order is sent with, \<open>None\<close> when the market is too far from the plan.\<close>

definition fill_anchor ::
  "(string \<Rightarrow> raw_quote) \<Rightarrow> string \<Rightarrow> string \<Rightarrow> side \<Rightarrow> rat \<times> rat \<times> rat \<Rightarrow> (rat \<times> rat \<times> rat) option \<times> event_note list" where
  "fill_anchor quotes client symbol sd levels = (case levels of (entry, stop, target) \<Rightarrow>
     let c = Some client; skipped = (\<lambda>why. (Some levels, [note_of ''FILL_ANCHOR_SKIPPED'' c [(''reason'', JStr why)]])) in
     case pip_size symbol of Inl _ \<Rightarrow> (Some levels, []) | Inr pip \<Rightarrow>
     (case check_quote (quotes symbol) of Inl problem \<Rightarrow> skipped problem | Inr (bid, ask) \<Rightarrow>
      let quote_fill = (if sd = LONG then ask else bid) in
      (case market_anchor round_price pip FILL_ANCHOR_MAX_PIPS entry stop target quote_fill of
         Inl _ \<Rightarrow> skipped ''anchor_invalid''
       | Inr None \<Rightarrow> (case round_price quote_fill of
             Inl _ \<Rightarrow> skipped ''anchor_invalid''
           | Inr fill \<Rightarrow> (None, [note_of ''FILL_ANCHOR_REFUSED'' c [(''symbol'', JStr symbol), (''side'', JStr (side_name sd)), (''reason'', JStr ''delta_above_max''),
               (''delta_pips'', JDec (dec28 (dec28 (fill - entry) / pip))), (''max_pips'', JDec FILL_ANCHOR_MAX_PIPS)]]))
       | Inr (Some (e, st, t)) \<Rightarrow>
           let delta_pips = dec28 (dec28 (e - entry) / pip) in
           (Some (e, st, t), [note_of ''FILL_ANCHORED'' c [(''side'', JStr (side_name sd)), (''delta_pips'', JDec delta_pips), (''entry'', JDec e), (''stop'', JDec st),
             (''target'', JDec t), (''sl_pips'', JDec (dec28 (\<bar>dec28 (e - st)\<bar> / pip))), (''tp_pips'', JDec (dec28 (\<bar>dec28 (t - e)\<bar> / pip))),
             (''wide'', JBool (FILL_ANCHOR_TOLERANCE_PIPS < \<bar>delta_pips\<bar>))]]))))"

section \<open>The order\<close>

text \<open>\<open>_plan_pullback\<close>: bad data is a reason.\<close>

definition prepare_pullback :: "side \<Rightarrow> rat \<times> rat \<times> rat \<Rightarrow> bars_input \<Rightarrow> rat \<Rightarrow> py_error + (string + pullback_plan)" where
  "prepare_pullback sd levels bars structural = (case levels of (entry, stop, target) \<Rightarrow>
     (case plan_pullback round_price sd (PDec entry) (PDec stop) (PDec target) bars (PDec structural) of
        Inl e \<Rightarrow> if caught e then Inr (Inl ''h1_no_data'') else Inl e
      | Inr p \<Rightarrow> Inr p))"

definition pullback_note :: "string \<Rightarrow> side \<Rightarrow> string + pullback_plan \<Rightarrow> event_note" where
  "pullback_note client sd p = (case p of
     Inl why \<Rightarrow> note_of ''PULLBACK_SKIPPED'' (Some client) [(''reason'', JStr why), (''side'', JStr (side_name sd))]
   | Inr q \<Rightarrow> note_of ''PULLBACK_PLAN'' (Some client) [(''side'', JStr (side_name sd)), (''limit'', JDec (pb_limit q)), (''offset_pips'', JDec (25 / 2)),
       (''ema'', JDec (pb_ema q)), (''price'', JDec (pb_price q)), (''risk'', JDec (pb_risk q)), (''stop'', JDec (pb_stop q)), (''target'', JDec (pb_target q)),
       (''sl_clamp'', JStr (case pb_clamp q of WIDENED \<Rightarrow> ''WIDENED'' | NARROWED \<Rightarrow> ''NARROWED'' | UNCHANGED \<Rightarrow> ''UNCHANGED'')),
       (''structural_pips'', JDec (pb_structural_pips q)), (''sl_pips'', JDec (dec28 (pb_risk q / (1 / 10000)))),
       (''tp_pips'', JDec (dec28 (\<bar>dec28 (pb_target q - pb_limit q)\<bar> / (1 / 10000))))])"

text \<open>The row a trade is stored as. A limit keeps its own levels, its expiry and the tag of the strategy.\<close>

definition order_row ::
  "hold_config \<Rightarrow> instant \<Rightarrow> string \<Rightarrow> string \<Rightarrow> string \<Rightarrow> side \<Rightarrow> int \<Rightarrow> rat \<Rightarrow> rat \<times> rat \<times> rat \<Rightarrow> pullback_plan option \<Rightarrow> (py_error + trade_row) option" where
  "order_row hc now client run symbol sd units signal levels plan = (case levels of (entry, stop, target) \<Rightarrow>
     (case (case plan of None \<Rightarrow> Some (Inr None) | Some q \<Rightarrow> map_option (\<lambda>x. ebind x (\<lambda>t. Inr (Some t))) (limit_expiry hc (Some now))) of
        None \<Rightarrow> None
      | Some expiry \<Rightarrow> Some (ebind expiry (\<lambda>expires. ebind (round_price entry) (\<lambda>e. ebind (round_price stop) (\<lambda>st. ebind (round_price target) (\<lambda>t.
          ebind (case plan of None \<Rightarrow> Inr None | Some q \<Rightarrow> ebind (round_price (pb_limit q)) (\<lambda>x. Inr (Some x))) (\<lambda>limit.
          Inr \<lparr>t_client = client, t_run = run, t_symbol = symbol, t_side = sd, t_units = units, t_entry = e, t_stop = st, t_target = t,
            t_initial_stop = None, t_trade_id = None, t_fill_price = None, t_opened_at = None, t_stage = None, t_status = SENDING, t_closed_reason = None,
            t_pending = None, t_action_unknown = False, t_created_at = now,
            t_order_kind = Some (if plan = None then ''MARKET'' else ''LIMIT''), t_limit_price = limit, t_expires_at = expires, t_order_id = None,
            t_strategy = (if plan = None then None else Some STRATEGY), t_scale_stage = (if plan = None then None else Some NONE),
            t_units_remaining = (if plan = None then None else Some units), t_risk_distance = map_option pb_risk plan,
            t_signal_entry = (if plan = None then None else Some signal)\<rparr>))))))))"

text \<open>The order plan and the re-sized approval the broker is given; \<open>None\<close> is \<open>approval_invalid\<close>.\<close>

definition order_approval :: "trade_plan \<Rightarrow> risk_decision \<Rightarrow> string \<Rightarrow> string \<Rightarrow> int \<Rightarrow> rat \<times> rat \<times> rat \<Rightarrow> (order_plan \<times> risk_approval) option" where
  "order_approval p d client run units levels = (case levels of (entry, stop, target) \<Rightarrow>
     (case (make_order_plan (rd_symbol d) (rd_side d) (PDec (of_int units)) (PDec entry) (PDec stop) (PDec target) client run (Some (policy_name (tp_policy_version p))),
            ebind (approval_from_decision d run) (\<lambda>a. make_risk_approval (ra_status a) (ra_run_id a) (ra_symbol a) (ra_side a)
              (PDec (of_int units)) (PDec entry) (PDec stop) (PDec target))) of
        (Inr op, Inr ap) \<Rightarrow> Some (op, ap)
      | _ \<Rightarrow> None))"

section \<open>After the fill\<close>

definition FILL_CHECK_SL_SLACK_PIPS :: rat where "FILL_CHECK_SL_SLACK_PIPS = 2"
definition FILL_CHECK_RR_TOLERANCE :: rat where "FILL_CHECK_RR_TOLERANCE = 15 / 100"

text \<open>\<open>quantize\<close> in the default context: half even on the grid of \<open>1 / n\<close>; more than 28 digits raise.\<close>

definition quantized :: "nat \<Rightarrow> rat \<Rightarrow> rat option" where
  "quantized n x = (let k = half_even (x * of_nat n) in if 10 ^ 28 \<le> \<bar>k\<bar> then None else Some (of_int k / of_nat n))"

text \<open>\<open>_verify_fill\<close>: the distances sent against the actual fill. It only records; a value that cannot be rounded records
  nothing. A problem keeps its number beside its name instead of inside it.\<close>

definition fill_problems :: "rat \<Rightarrow> rat option \<Rightarrow> rat \<Rightarrow> rat option \<Rightarrow> json list" where
  "fill_problems sl rr sl1 rr2 =
    (if FX_SL_MIN_PIPS - FILL_CHECK_SL_SLACK_PIPS \<le> sl \<and> sl \<le> FX_SL_MAX_PIPS + FILL_CHECK_SL_SLACK_PIPS then []
     else [JList [JStr ''sl_pips'', JDec sl1]])
    @ (case rr of None \<Rightarrow> [JStr ''rr_invalid'']
       | Some v \<Rightarrow> if FILL_CHECK_RR_TOLERANCE < \<bar>dec28 (v - FX_TP_RR)\<bar> then [JList [JStr ''rr'', jdec_opt rr2]] else [])"

definition verify_fill :: "string \<Rightarrow> string \<Rightarrow> side \<Rightarrow> rat \<Rightarrow> rat \<Rightarrow> demo_db \<Rightarrow> event_note list" where
  "verify_fill client symbol sd stop target s = (case pip_size symbol of Inl _ \<Rightarrow> [] | Inr pip \<Rightarrow>
     if \<not> is_fx symbol then [] else
     (case Option.bind (trade_of client s) t_fill_price of
        None \<Rightarrow> [note_of ''FILL_CHECK_UNAVAILABLE'' (Some client) [(''reason'', JStr ''fill_price_unknown'')]]
      | Some fill \<Rightarrow>
          let sl = dec28 (dec28 (if sd = LONG then fill - stop else stop - fill) / pip);
              tp = dec28 (dec28 (if sd = LONG then target - fill else fill - target) / pip);
              rr = (if 0 < sl then Some (dec28 (tp / sl)) else None)
          in (case (quantized 10 sl, quantized 10 tp, map_option (quantized 100) rr) of
                (Some sl1, Some tp1, rr2) \<Rightarrow>
                  if rr2 = Some None then []
                  else let detail = [(''symbol'', JStr symbol), (''side'', JStr (side_name sd)), (''sl_pips'', JDec sl1), (''tp_pips'', JDec tp1),
                             (''rr'', jdec_opt (Option.bind rr2 id))];
                           problems = fill_problems sl rr sl1 (Option.bind rr2 id)
                       in [if problems = [] then note_of ''FILL_VERIFIED'' (Some client) detail
                           else note_of ''FILL_OUT_OF_POLICY'' (Some client) ((''reasons'', JList problems) # detail)]
              | _ \<Rightarrow> [])))"

text \<open>\<open>_verify_limit_fill\<close>: a limit still resting is no fill; a worse fill is recorded, nothing moves.\<close>

definition verify_limit_fill :: "string \<Rightarrow> string \<Rightarrow> side \<Rightarrow> rat option \<Rightarrow> rat \<Rightarrow> rat \<Rightarrow> demo_db \<Rightarrow> event_note list" where
  "verify_limit_fill client symbol sd limit stop target s =
    (let row = trade_of client s; fill = Option.bind row t_fill_price in
     if map_option t_status row = Some RESTING then []
     else (case pip_size symbol of Inl _ \<Rightarrow> [] | Inr pip \<Rightarrow>
       let detail = [(''symbol'', JStr symbol), (''side'', JStr (side_name sd)), (''order_kind'', JStr ''LIMIT''), (''limit'', jdec_opt limit),
             (''fill'', jdec_opt fill), (''stop'', JDec stop), (''target'', JDec target)]
       in (case (case limit of None \<Rightarrow> Inr Pending_Fill | Some x \<Rightarrow> limit_fill_verdict (Some pip) FILL_SLACK_PIPS sd x fill) of
             Inl _ \<Rightarrow> []
           | Inr Pending_Fill \<Rightarrow> [note_of ''FILL_CHECK_UNAVAILABLE'' (Some client) ((''reason'', JStr ''fill_price_unknown'') # detail)]
           | Inr Accepted_Fill \<Rightarrow> [note_of ''FILL_VERIFIED'' (Some client) detail]
           | Inr Worse_Fill \<Rightarrow> [note_of ''FILL_OUT_OF_POLICY'' (Some client) ((''reasons'', JList [JStr ''limit_fill_worse'']) # detail)])))"

definition fill_notes :: "submission \<Rightarrow> trade_row \<Rightarrow> demo_db \<Rightarrow> event_note list" where
  "fill_notes sub r s = (case sub of
     Submitted st _ _ \<Rightarrow>
       if st \<noteq> RES_ACCEPTED then []
       else if t_order_kind r = Some ''LIMIT'' then verify_limit_fill (t_client r) (t_symbol r) (t_side r) (t_limit_price r) (t_stop r) (t_target r) s
       else verify_fill (t_client r) (t_symbol r) (t_side r) (t_stop r) (t_target r) s
   | _ \<Rightarrow> [])"

section \<open>Routing\<close>

text \<open>What the broker and the environment answer along one routing: the reconciliation and the one after a reversal close,
  the switch, the quotes, the two loss checks, the reversal close and the submission with the trades seen after it.\<close>

record route_world =
  rw_view :: broker_reads
  rw_episode :: string
  rw_view_after :: broker_reads
  rw_episode_after :: string
  rw_open_allowed :: bool
  rw_reversal_quote :: "string \<Rightarrow> raw_quote"
  rw_anchor_quote :: "string \<Rightarrow> raw_quote"
  rw_loss :: loss_world
  rw_loss_after :: loss_world
  rw_close :: reply
  rw_submission :: submission
  rw_seen :: "open_trade list option"

fun submission_detail :: "submission \<Rightarrow> string option" where
  "submission_detail (Not_Processed e) = Some e"
| "submission_detail (Lost e) = Some e"
| "submission_detail (Resting_Order ref) = Some ref"
| "submission_detail (Submitted st ref reason) = (if st = RES_ACCEPTED then ref else reason)"

type_synonym routed = "(string \<times> string option) \<times> loss_latch \<times> demo_router"

definition not_routed :: "instant \<Rightarrow> string \<Rightarrow> string \<Rightarrow> loss_latch \<Rightarrow> demo_router \<Rightarrow> routed" where
  "not_routed now client why l g = ((''NOT_ROUTED'', Some why), l, note_event now (note_of ''NOT_ROUTED'' (Some client) [(''reason'', JStr why)]) g)"

text \<open>The gates before the broker is read; \<open>Some\<close> ends the routing.\<close>

definition entry_gate :: "router_config \<Rightarrow> instant \<Rightarrow> string \<Rightarrow> demo_router \<Rightarrow> py_error + (string + string) option" where
  "entry_gate c now client g =
    (if rc_closing_only c then Inr (Some (Inl ''emergency_active''))
     else if trade_of client (dr_db g) \<noteq> None then Inr (Some (Inr ''ALREADY_ROUTED''))
     else ebind (case rc_friday c of None \<Rightarrow> Inr PHASE_OPEN | Some minutes \<Rightarrow> friday_window now minutes) (\<lambda>window.
       Inr (if window \<noteq> PHASE_OPEN \<or> entries_blocked (rc_hold c) now then Some (Inl ''friday_close_window'') else None)))"

text \<open>The gates on what the reconciliation found.\<close>

definition book_gate :: "router_config \<Rightarrow> bool \<Rightarrow> open_trade list option \<Rightarrow> demo_router \<Rightarrow> string option" where
  "book_gate c open_allowed seen g =
    (if seen = None then Some ''broker_read_failed''
     else case dr_blocked g of
       Some why \<Rightarrow> Some (''blocked:'' @ why)
     | None \<Rightarrow>
       if trades_with UNRESOLVED_STATUSES (dr_db g) \<noteq> [] then Some ''unresolved_submission''
       else if \<not> rc_dry c \<and> \<not> open_allowed then Some ''broker_demo_not_allowed'' else None)"

definition exposed :: "open_trade list \<Rightarrow> demo_router \<Rightarrow> bool" where
  "exposed report g \<longleftrightarrow> trades_with LIVE_STATUSES (dr_db g) \<noteq> [] \<or> (\<exists>t \<in> set report. ot_instrument t = EUR_USD)"

text \<open>The order itself: anchored when it is a market order, approved, written ahead, sent. A dry run stores
  the row and the main fields of the order it would send.\<close>

definition place ::
  "router_config \<Rightarrow> route_world \<Rightarrow> instant \<Rightarrow> trade_plan \<Rightarrow> risk_decision \<Rightarrow> string \<Rightarrow> string \<Rightarrow> string \<Rightarrow> bool \<Rightarrow> int \<Rightarrow> rat \<times> rat \<times> rat
   \<Rightarrow> pullback_plan option \<Rightarrow> loss_latch \<Rightarrow> demo_router \<Rightarrow> (py_error + routed) option" where
  "place c w now plan d client run symbol reversing units levels pull l g =
    (let anchored = (case pull of Some q \<Rightarrow> (Some (pb_limit q, pb_stop q, pb_target q), [])
           | None \<Rightarrow> fill_anchor (rw_anchor_quote w) client symbol (rd_side d) levels);
         g1 = g\<lparr>dr_db := fold (journal_note now) (snd anchored) (dr_db g)\<rparr>
     in case fst anchored of
       None \<Rightarrow> Some (Inr (not_routed now client ''fill_gap_too_large'' l
         (if reversing then note_event now (note_of ''REVERSAL_FLAT'' (Some client) [(''reason'', JStr ''fill_gap_too_large'')]) g1 else g1)))
     | Some lv \<Rightarrow>
       if order_approval plan d client run units lv = None then Some (Inr (not_routed now client ''approval_invalid'' l g1))
       else map_option (\<lambda>row. ebind row (\<lambda>r.
         if rc_dry c then ebind (insert_intent now (r\<lparr>t_status := DRY\<rparr>) (dr_db g1)) (\<lambda>s.
           Inr ((''DRY_RUN'', Some client), l, note_event now (note_of ''DRY_RUN'' (Some client) [(''instrument'', JStr EUR_USD),
             (''units'', JInt (if rd_side d = LONG then units else - units)), (''stop'', JDec (t_stop r)), (''target'', JDec (t_target r))]) (g1\<lparr>dr_db := s\<rparr>)))
         else ebind (send (rw_seen w) now (rw_submission w) r (dr_db g1)) (\<lambda>(out, s). 
           Inr ((out, submission_detail (rw_submission w)), l, g1\<lparr>dr_db := fold (journal_note now) (fill_notes (rw_submission w) r s) s\<rparr>))))
         (order_row (rc_hold c) now client run symbol (rd_side d) units (fst levels) lv pull))"

definition ascii_lower :: "string \<Rightarrow> string" where
  "ascii_lower = map (\<lambda>ch. if CHR ''A'' \<le> ch \<and> ch \<le> CHR ''Z'' then char_of ((of_char ch :: nat) + 32) else ch)"

text \<open>With the units known: a dry run of a reversal only reports; a reversal closes first and is sized again.\<close>

definition reverse_and_place ::
  "router_config \<Rightarrow> loss_config option \<Rightarrow> route_world \<Rightarrow> instant \<Rightarrow> trade_plan \<Rightarrow> risk_decision \<Rightarrow> string \<Rightarrow> string \<Rightarrow> string \<Rightarrow> trade_row option \<Rightarrow> int
   \<Rightarrow> rat \<times> rat \<times> rat \<Rightarrow> pullback_plan option \<Rightarrow> rat \<times> rat \<Rightarrow> loss_latch \<Rightarrow> demo_router \<Rightarrow> (py_error + routed) option" where
  "reverse_and_place c lco w now plan d client run symbol opposite units levels pull basis l g = (case opposite of
     None \<Rightarrow> place c w now plan d client run symbol False units levels pull l g
   | Some old \<Rightarrow>
     if rc_dry c then Some (Inr ((''REVERSAL_DRY_RUN'', Some client), l, note_event now (note_of ''REVERSAL_DRY_RUN'' (Some client)
       [(''closed_client_id'', JStr (t_client old)), (''trade_id'', jstr_opt (t_trade_id old)), (''side'', JStr (side_name (rd_side d))), (''units'', JInt units)]) g))
     else let a = close_trade ''REVERSAL_IN_PROFIT'' (t_client old @ ''-rev'') (rw_close w) old;
              g1 = note_event now (note_of ''REVERSAL_IN_PROFIT'' (Some client) [(''closed_client_id'', JStr (t_client old)), (''outcome'', JStr (ac_outcome a))])
                (g\<lparr>dr_db := apply_act now (t_client old) a (dr_db g)\<rparr>)
       in if ac_outcome a \<noteq> ''CLOSED'' \<and> ac_outcome a \<noteq> ''CLOSED_AT_BROKER''
          then Some (Inr (not_routed now client (''reversal_close_'' @ ascii_lower (ac_outcome a)) l g1))
          else (case reconcile (rw_view_after w) (rw_episode_after w) now g1 of
              Inl e \<Rightarrow> Some (Inl e)
            | Inr (g2, seen) \<Rightarrow>
              if seen = None \<or> dr_blocked g2 \<noteq> None \<or> exposed (case seen of Some ts \<Rightarrow> ts | None \<Rightarrow> []) g2
              then Some (Inr (not_routed now client ''reversal_not_flat'' l g2))
              else (case sized c lco (rw_loss_after w) client run d (fst basis) (snd basis) now l (dr_db g2) of
                  (Inl (out, why), l3, s3) \<Rightarrow> Some (Inr ((out, Some why), l3, note_event now (note_of ''REVERSAL_FLAT'' (Some client)
                      [(''closed_client_id'', JStr (t_client old)), (''reason'', JStr (if out = ''NOT_ROUTED'' then why else out))]) (g2\<lparr>dr_db := s3\<rparr>)))
                | (Inr units', l3, s3) \<Rightarrow> place c w now plan d client run symbol True units' levels pull l3 (g2\<lparr>dr_db := s3\<rparr>))))"

definition plan_levels :: "risk_decision \<Rightarrow> rat \<times> rat \<times> rat" where
  "plan_levels d = (case (as_decimal (rd_entry d), as_decimal (rd_stop d), as_decimal (rd_target d)) of
     (Some e, Some s, Some t) \<Rightarrow> (e, s, t) | _ \<Rightarrow> (0, 0, 0))"

definition route_flat ::
  "router_config \<Rightarrow> loss_config option \<Rightarrow> route_world \<Rightarrow> instant \<Rightarrow> cycle_context option \<Rightarrow> bars_input \<Rightarrow> trade_plan \<Rightarrow> risk_decision \<Rightarrow> string \<Rightarrow> string
   \<Rightarrow> string \<Rightarrow> trade_row option \<Rightarrow> loss_latch \<Rightarrow> demo_router \<Rightarrow> (py_error + routed) option" where
  "route_flat c lco w now cx bars plan d client run symbol opposite l g =
    (let levels = plan_levels d in
     case (if rc_pullback c \<and> symbol = ''EURUSD'' then ebind (prepare_pullback (rd_side d) levels bars (structural_stop cx (fst (snd levels)))) (\<lambda>p. Inr (Some p)) else Inr None) of
       Inl e \<Rightarrow> Some (Inl e)
     | Inr pull \<Rightarrow>
       let g1 = (case pull of None \<Rightarrow> g | Some p \<Rightarrow> note_event now (pullback_note client (rd_side d) p) g) in
       (case pull of
          Some (Inl why) \<Rightarrow> Some (Inr (not_routed now client why l g1))
        | _ \<Rightarrow>
          let q = (case pull of Some (Inr q) \<Rightarrow> Some q | _ \<Rightarrow> None);
              basis = (case q of Some q \<Rightarrow> (pb_limit q, pb_stop q) | None \<Rightarrow> (fst levels, fst (snd levels)))
          in (case sized c lco (rw_loss w) client run d (fst basis) (snd basis) now l (dr_db g1) of
              (Inl (out, why), l2, s2) \<Rightarrow> Some (Inr ((out, Some why), l2, g1\<lparr>dr_db := s2\<rparr>))
            | (Inr units, l2, s2) \<Rightarrow> reverse_and_place c lco w now plan d client run symbol opposite units levels q basis l2 (g1\<lparr>dr_db := s2\<rparr>))))"

definition route ::
  "router_config \<Rightarrow> loss_config option \<Rightarrow> route_world \<Rightarrow> string \<Rightarrow> instant \<Rightarrow> cycle_context option \<Rightarrow> bars_input \<Rightarrow> open_trade list option
   \<Rightarrow> loss_latch \<Rightarrow> demo_router \<Rightarrow> (py_error + routed) option" where
  "route c lco w status now cx bars report l g = (case candidate_of status cx of
     Ignored \<Rightarrow> Some (Inr ((''IGNORED'', None), l, g))
   | Not_Routed why \<Rightarrow> Some (Inr ((''NOT_ROUTED'', Some why), l, note_event now (note_of ''NOT_ROUTED'' None [(''reason'', JStr why),
       (''symbol'', jstr_opt (Option.bind cx cx_symbol)), (''run_id'', jstr_opt (Option.bind cx cx_run))]) g))
   | Candidate plan d symbol run \<Rightarrow>
     let client = ''aif-'' @ run in
     (case entry_gate c now client g of
        Inl e \<Rightarrow> Some (Inl e)
      | Inr (Some (Inl why)) \<Rightarrow> Some (Inr (not_routed now client why l g))
      | Inr (Some (Inr out)) \<Rightarrow> Some (Inr ((out, Some client), l, g))
      | Inr None \<Rightarrow>
        (case (case report of Some ts \<Rightarrow> Inr (g, Some ts) | None \<Rightarrow> reconcile (rw_view w) (rw_episode w) now g) of
           Inl e \<Rightarrow> Some (Inl e)
         | Inr (g1, seen) \<Rightarrow>
           (case book_gate c (rw_open_allowed w) seen g1 of
              Some why \<Rightarrow> Some (Inr (not_routed now client why l g1))
            | None \<Rightarrow>
              let ts = (case seen of Some ts \<Rightarrow> ts | None \<Rightarrow> []) in
              if \<not> exposed ts g1 then route_flat c lco w now cx bars plan d client run symbol None l g1
              else (case reversal_row (rc_reversal c) d symbol ts (rw_reversal_quote w) (dr_db g1) of (verdict, notes) \<Rightarrow>
                let g2 = g1\<lparr>dr_db := fold (journal_note now) notes (dr_db g1)\<rparr> in
                case verdict of
                  Inl why \<Rightarrow> Some (Inr (not_routed now client why l g2))
                | Inr old \<Rightarrow> route_flat c lco w now cx bars plan d client run symbol (Some old) l g2)))))"

section \<open>A tick\<close>

record tick_world =
  tw_flatten_view :: broker_reads
  tw_manual_view :: broker_reads
  tw_manage_view :: broker_reads
  tw_episodes :: "string \<times> string \<times> string"
  tw_flatten_replies :: replies
  tw_manual_replies :: replies
  tw_friday_replies :: replies
  tw_manage_replies :: replies
  tw_loss :: loss_world
  tw_friday_quote :: "string \<Rightarrow> raw_quote"
  tw_manage_quote :: "string \<Rightarrow> raw_quote"

definition HEARTBEAT_FLAG :: string where "HEARTBEAT_FLAG = ''heartbeat''"
definition MODE_FLAG :: string where "MODE_FLAG = ''mode''"

definition beat :: "router_config \<Rightarrow> instant \<Rightarrow> demo_router \<Rightarrow> demo_router" where
  "beat c now g = g\<lparr>dr_db := set_flag HEARTBEAT_FLAG (JTime now) (set_flag MODE_FLAG (JStr (if rc_dry c then ''dry_run'' else ''live'')) (dr_db g))\<rparr>"

definition merge_outcomes :: "outcomes \<Rightarrow> outcomes \<Rightarrow> outcomes" where
  "merge_outcomes a b = fold (\<lambda>(k, x). dput k x) b a"

text \<open>The part every tick begins with: the operator's requests, the loss limit, the weekend.\<close>

definition closing_passes ::
  "router_config \<Rightarrow> loss_config option \<Rightarrow> tick_world \<Rightarrow> instant \<Rightarrow> loss_latch \<Rightarrow> demo_router \<Rightarrow> outcomes \<times> open_trade list option \<times> loss_latch \<times> demo_router" where
  "closing_passes c lco w now l g =
    (case process_requests c (tw_flatten_view w) (fst (tw_episodes w)) now (tw_flatten_replies w) (beat c now g) of (flattened, rep1, g1) \<Rightarrow>
     case process_manual_close c (tw_manual_view w) (fst (snd (tw_episodes w))) now (tw_manual_replies w) rep1 g1 of (manual, rep2, g2) \<Rightarrow>
     case (case lco of None \<Rightarrow> ([], l, g2) | Some lc \<Rightarrow> (case loss_check lc (rc_dry c) (tw_loss w) now PNone l (dr_db g2) of ((_, outs), l1, s1) \<Rightarrow>
       (outs, l1, g2\<lparr>dr_db := s1\<rparr>))) of (loss, l1, g3) \<Rightarrow>
     case (case rc_friday c of None \<Rightarrow> ([], g3) | Some minutes \<Rightarrow> friday_tick c minutes (tw_friday_quote w) now (tw_friday_replies w) g3) of (weekend, g4) \<Rightarrow>
       (merge_outcomes (merge_outcomes (merge_outcomes flattened manual) loss) weekend, rep2, l1, g4))"

definition manage_tick ::
  "router_config \<Rightarrow> loss_config option \<Rightarrow> tick_world \<Rightarrow> instant \<Rightarrow> loss_latch \<Rightarrow> demo_router \<Rightarrow> py_error + outcomes \<times> loss_latch \<times> demo_router" where
  "manage_tick c lco w now l g = (case closing_passes c lco w now l g of (acted, report, l1, g1) \<Rightarrow>
     ebind (manage_locked (rc_hold c) (rc_dry c) (tw_manage_view w) (snd (snd (tw_episodes w))) now (tw_manage_quote w) (tw_manage_replies w) (map fst acted) report g1)
       (\<lambda>(outs, g2, seen). Inr (if seen = None then [(''_'', ''READ_FAILED'')] else merge_outcomes acted outs, l1, g2)))"

definition on_cycle ::
  "router_config \<Rightarrow> loss_config option \<Rightarrow> tick_world \<Rightarrow> route_world \<Rightarrow> string \<Rightarrow> instant \<Rightarrow> cycle_context option \<Rightarrow> bars_input \<Rightarrow> loss_latch \<Rightarrow> demo_router
   \<Rightarrow> (py_error + routed) option" where
  "on_cycle c lco w rw status now cx bars l g = (case closing_passes c lco w now l g of (acted, report, l1, g1) \<Rightarrow>
     (case (if \<not> rc_dry c \<and> trades_with [OPENED, RESTING] (dr_db g1) \<noteq> []
            then ebind (manage_locked (rc_hold c) (rc_dry c) (tw_manage_view w) (snd (snd (tw_episodes w))) now (tw_manage_quote w) (tw_manage_replies w) (map fst acted) report g1)
              (\<lambda>(_, g2, seen). Inr (g2, seen))
            else Inr (g1, report)) of
        Inl e \<Rightarrow> Some (Inl e)
      | Inr (g2, seen) \<Rightarrow> route c lco rw status now cx bars seen l1 g2))"

section \<open>Facts\<close>

lemma apply_transfer_trades: "apply_transfer ok lc net tx actor why now s = Inr (r, s') \<Longrightarrow> db_trades s' = db_trades s"
  by (auto simp: apply_transfer_def Let_def apply_all_trades split: option.splits if_splits prod.splits)

lemma loss_transfers_trades: "db_trades (snd (loss_transfers lc w now b s)) = db_trades s"
  by (auto simp: loss_transfers_def Let_def quiet_trades apply_transfer_trades split: sum.split option.split prod.split)

lemma write_all_trades: "db_trades (snd (write_all w kvs s)) = db_trades s"
  by (induction w kvs s rule: write_all.induct) (simp_all add: set_flag_def)

lemma write_flag_trades: "db_trades (write_flag w k v s) = db_trades s"
  by (simp add: write_flag_def set_flag_def)

lemma roll_day_trades: "db_trades (snd (snd (roll_day w now nav l s))) = db_trades s"
proof -
  obtain b t where "write_all w [(E0_FLAG, JDec (case baseline now s of Some b \<Rightarrow> b | None \<Rightarrow> nav)), (TRANSFERS_FLAG, JDec 0), (HALT_FLAG, JNull),
    (DAY_FLAG, JTime (loss_key now))] s = (b, t)" by force
  then show ?thesis using write_all_trades by (simp add: roll_day_def Let_def quiet_trades del: write_all.simps) (metis snd_conv)
qed

lemma judge_trades: "db_trades (snd (snd (judge w c n planned now l s))) = db_trades s"
  by (simp add: judge_def Let_def halt_drawdown_def halt_daily_def quiet_trades write_flag_trades write_all_trades
      del: write_all.simps split: prod.split)

lemma start_drawdown_trades: "db_trades (snd (start_drawdown w c nav s)) = db_trades s"
  by (simp add: start_drawdown_def write_all_trades del: write_all.simps)

lemma evaluate_loss_trades: "db_trades (snd (snd (evaluate_loss w c nav planned now l s))) = db_trades s"
  using roll_day_trades start_drawdown_trades judge_trades
  by (auto simp: evaluate_loss_def non_positive_def halt_drawdown_def quiet_trades write_flag_trades split: option.split prod.split) (metis snd_conv)+

lemma loss_flattened_kept: "table_ok s \<Longrightarrow> kept s (snd (loss_flattened dry w now d s))"
  by (simp add: loss_flattened_def loss_flatten_kept kept_refl)

lemma loss_flattened_same: "table_ok s \<Longrightarrow> db_trades t = db_trades s \<Longrightarrow> loss_flattened dry w now d t = (outs, u) \<Longrightarrow> kept s u"
  using loss_flattened_kept [of t dry w now d] kept_same [of s t] kept_then [of s t u] by (simp add: table_ok_def distinct_clients_def)

lemma loss_check_kept:
  assumes ok: "table_ok s" shows "kept s (snd (snd (loss_check lc dry w now planned l s)))"
proof (cases "lw_balance w")
  case (Inl e)
  have "kept s u" if "loss_flattened dry w now d (journal_note now n s) = (outs, u)" for d n outs u
    using loss_flattened_same [OF ok journal_note_trades that] .
  then show ?thesis using Inl by (auto simp: loss_check_def Let_def split: prod.split)
next
  case (Inr b)
  obtain ok1 s1 where t: "loss_transfers lc w now b s = (ok1, s1)" by force
  have s1: "db_trades s1 = db_trades s" using loss_transfers_trades t by (metis snd_conv)
  obtain d l2 s2 where e: "evaluate_loss (lw_writes w) lc (PDec (bb_equity b)) planned now l s1 = (d, l2, s2)" by (metis prod_cases3)
  have s2: "db_trades s2 = db_trades s" using evaluate_loss_trades e s1 by (metis snd_conv)
  show ?thesis using ok s1 s2 by (auto simp: loss_check_def Inr t e Let_def split: prod.split intro: loss_flattened_same)
qed

lemma kept_note: "kept s t \<Longrightarrow> kept s (journal_note now n t)"
  using kept_cong journal_note_trades by blast

lemma sized_kept:
  assumes "table_ok s" and "sized c lco w client run d entry stop now l s = (out, l', s')" shows "kept s s'"
proof (cases lco)
  case None
  then show ?thesis using assms unfolding sized_def Let_def
    by (auto simp: kept_refl kept_note split: option.splits sum.splits if_splits)
next
  case (Some lc)
  have "kept s (snd (snd (loss_check lc (rc_dry c) w now planned l s)))" for planned using loss_check_kept [OF assms(1)] .
  then have loss: "loss_check lc (rc_dry c) w now planned l s = (x, l1, s1) \<Longrightarrow> kept s s1" for planned x l1 s1 by (metis snd_conv)
  show ?thesis using assms Some unfolding sized_def Let_def
    by (auto simp: kept_refl kept_note dest!: loss intro: kept_note split: option.splits sum.splits if_splits prod.splits)
qed

lemma sized_units: "sized c lco w client run d entry stop now l s = (Inr units, l', s') \<Longrightarrow> 1 \<le> units"
  by (auto simp: sized_def Let_def split: option.splits sum.splits if_splits prod.splits)

lemma order_row_fresh:
  assumes "order_row hc now client run symbol sd units signal levels plan = Some (Inr r)" and "sd = LONG \<or> sd = SHORT" and "1 \<le> units"
  shows "fresh_row r \<and> scaled_ok (r\<lparr>t_status := st\<rparr>)"
proof -
  obtain entry stop target where lv: "levels = (entry, stop, target)" by (metis prod_cases3)
  obtain st5 where "round_price stop = Inr st5" "t_stop r = st5" "t_side r = sd" "t_units r = units" "t_pending r = None"
    "t_strategy r = Some STRATEGY \<longrightarrow> t_scale_stage r = Some NONE \<and> t_units_remaining r = Some units"
    using assms(1) unfolding lv order_row_def prod.case by (auto simp: ebind_eq_Inr split: option.splits if_splits)
  then have "fresh_row r" using assms(2,3) round_price_Inr(2) by (auto simp: fresh_row_def)
  then show ?thesis using fresh_ok [of r] by (auto simp: scaled_ok_def units_left_def third_def cong: option.case_cong)
qed

lemma not_routed_trades: "not_routed now client why l g = (out, l', g') \<Longrightarrow> db_trades (dr_db g') = db_trades (dr_db g)"
  by (auto simp: not_routed_def note_event_trades)

lemma kept_note_event: "kept s (dr_db g) \<Longrightarrow> kept s (dr_db (note_event now n g))"
  by (erule kept_router) (simp add: note_event_trades)

lemma no_live: "trades_with LIVE_STATUSES s = [] \<longleftrightarrow> live_rows (db_trades s) = []"
  by (metis length_0_conv length_sort live_rows_def trades_with_def)

lemma not_exposed: "\<not> exposed ts g \<Longrightarrow> live_rows (db_trades (dr_db g)) = []"
  by (simp add: exposed_def no_live)

lemma place_kept:
  assumes run: "place c w now plan d client run symbol reversing units levels pull l g = Some (Inr (out, l', g'))"
    and side: "rd_side d = LONG \<or> rd_side d = SHORT" and units: "1 \<le> units" and ok: "table_ok (dr_db g)"
    and flat: "live_rows (db_trades (dr_db g)) = []"
  shows "kept (dr_db g) (dr_db g')"
proof -
  define an where "an = (case pull of Some q \<Rightarrow> (Some (pb_limit q, pb_stop q, pb_target q), [])
     | None \<Rightarrow> fill_anchor (rw_anchor_quote w) client symbol (rd_side d) levels)"
  define g1 where "g1 = g\<lparr>dr_db := fold (journal_note now) (snd an) (dr_db g)\<rparr>"
  have same: "db_trades (dr_db g1) = db_trades (dr_db g)" by (simp add: g1_def quiet_trades)
  then have k1: "kept (dr_db g) (dr_db g1)" using kept_same [OF ok] by blast
  then have ok1: "table_ok (dr_db g1)" by (simp add: kept_def)
  have flat1: "live_rows (db_trades (dr_db g1)) = []" using flat same by simp
  note run = run [unfolded place_def Let_def an_def [symmetric] g1_def [symmetric]]
  show ?thesis
  proof (cases "\<exists>lv. fst an = Some lv \<and> order_approval plan d client run units lv \<noteq> None")
    case False
    then have "db_trades (dr_db g') = db_trades (dr_db g)"
      using run by (auto simp: same note_event_trades dest!: not_routed_trades split: option.splits if_splits)
    then show ?thesis using kept_same [OF ok] by blast
  next
    case True
    then obtain lv where lv: "fst an = Some lv" "order_approval plan d client run units lv \<noteq> None" by blast
    then obtain r where r: "order_row (rc_hold c) now client run symbol (rd_side d) units (fst levels) lv pull = Some (Inr r)"
      using run by (auto simp: ebind_eq_Inr split: if_splits)
    note fresh = order_row_fresh [OF r side units]
    show ?thesis
    proof (cases "rc_dry c")
      case True
      then obtain s where s: "insert_intent now (r\<lparr>t_status := DRY\<rparr>) (dr_db g1) = Inr s" "db_trades (dr_db g') = db_trades s"
        using run lv r by (auto simp: ebind_eq_Inr note_event_trades)
      then show ?thesis using insert_kept [OF s(1) _ ok1 flat1] fresh kept_trans [OF k1] kept_cong [OF s(2)] by blast
    next
      case False
      then obtain o1 s where s: "send (rw_seen w) now (rw_submission w) r (dr_db g1) = Inr (o1, s)" "db_trades (dr_db g') = db_trades s"
        using run lv r by (auto simp: ebind_eq_Inr quiet_trades)
      then show ?thesis using send_kept [OF s(1) _ ok1 flat1] fresh kept_trans [OF k1] kept_cong [OF s(2)] by blast
    qed
  qed
qed

lemma close_apply_kept:
  assumes "table_ok s" and "r \<in> set (db_trades s)" and "t_status r \<in> set LIVE_STATUSES"
  shows "kept s (apply_act now (t_client r) (close_trade why cid reply r) s)"
proof -
  have "kept s (pass now (\<lambda>_. [close_trade why cid reply r]) [r] s)"
    by (rule pass_kept [OF assms(1)]) (use assms(2,3) close_sound in auto)
  then show ?thesis by (simp add: pass_def run_acts_def)
qed

text \<open>An entry that is allowed flattens nothing, so the row of a reversal is still as it was read.\<close>

lemma judge_entry: "judge w c n planned now l s = (d, l', s') \<Longrightarrow> ld_entry d \<Longrightarrow> \<not> ld_flatten d"
  by (auto simp: judge_def Let_def split: prod.splits if_splits)

lemma evaluate_entry: "evaluate_loss w c nav planned now l s = (d, l', s') \<Longrightarrow> ld_entry d \<Longrightarrow> \<not> ld_flatten d"
  by (auto simp: evaluate_loss_def loss_refused_def non_positive_def dest: judge_entry split: option.splits if_splits prod.splits)

lemma loss_check_entry:
  assumes run: "loss_check lc dry w now planned l s = ((d, outs), l', s')" and "ld_entry d" shows "db_trades s' = db_trades s"
proof -
  have halted: "\<not> ld_entry (loss_halted lc now why l t)" for why l t by (simp add: loss_halted_def split: prod.split)
  obtain b where b: "lw_balance w = Inr b"
    using assms halted by (auto simp: loss_check_def Let_def split: sum.splits prod.splits)
  obtain ok1 s1 where t: "loss_transfers lc w now b s = (ok1, s1)" by force
  have s1: "db_trades s1 = db_trades s" using loss_transfers_trades t by (metis snd_conv)
  obtain d2 l2 s2 where e: "evaluate_loss (lw_writes w) lc (PDec (bb_equity b)) planned now l s1 = (d2, l2, s2)" by (metis prod_cases3)
  have "db_trades s2 = db_trades s" using evaluate_loss_trades e s1 by (metis snd_conv)
  then show ?thesis using assms halted evaluate_entry [OF e]
    by (auto simp: loss_check_def Let_def b t e loss_flattened_def split: prod.splits if_splits)
qed

lemma sized_same:
  assumes "sized c lco w client run d entry stop now l s = (Inr units, l', s')" shows "db_trades s' = db_trades s"
  using assms by (auto simp: sized_def Let_def dest: loss_check_entry split: option.splits sum.splits if_splits prod.splits)

lemma reverse_and_place_kept:
  assumes run: "reverse_and_place c lco w now plan d client run symbol opposite units levels pull basis l g = Some (Inr (out, l', g'))"
    and side: "rd_side d = LONG \<or> rd_side d = SHORT" and units: "1 \<le> units" and ok: "table_ok (dr_db g)"
    and old: "\<And>r. opposite = Some r \<Longrightarrow> r \<in> set (db_trades (dr_db g)) \<and> t_status r \<in> set LIVE_STATUSES"
    and flat: "opposite = None \<Longrightarrow> live_rows (db_trades (dr_db g)) = []"
  shows "kept (dr_db g) (dr_db g')"
proof (cases opposite)
  case None
  then show ?thesis using run place_kept side units ok flat by (auto simp: reverse_and_place_def)
next
  case (Some r)
  define a where "a = close_trade ''REVERSAL_IN_PROFIT'' (t_client r @ ''-rev'') (rw_close w) r"
  define g1 where "g1 = note_event now (note_of ''REVERSAL_IN_PROFIT'' (Some client) [(''closed_client_id'', JStr (t_client r)), (''outcome'', JStr (ac_outcome a))])
    (g\<lparr>dr_db := apply_act now (t_client r) a (dr_db g)\<rparr>)"
  note run = run [unfolded reverse_and_place_def Let_def Some option.case a_def [symmetric] g1_def [symmetric]]
  have "kept (dr_db g) (dr_db (g\<lparr>dr_db := apply_act now (t_client r) a (dr_db g)\<rparr>))"
    using close_apply_kept [OF ok] old [OF Some] by (simp add: a_def)
  then have k1: "kept (dr_db g) (dr_db g1)" by (rule kept_router) (simp add: g1_def note_event_trades)
  show ?thesis
  proof (cases "rc_dry c \<or> (ac_outcome a \<noteq> ''CLOSED'' \<and> ac_outcome a \<noteq> ''CLOSED_AT_BROKER'')")
    case True
    then show ?thesis using run kept_router [OF k1] kept_same [OF ok]
      by (auto simp: note_event_trades dest!: not_routed_trades split: if_splits)
  next
    case False
    then obtain g2 seen where rec: "reconcile (rw_view_after w) (rw_episode_after w) now g1 = Inr (g2, seen)"
      using run by (auto split: sum.splits if_splits)
    have k2: "kept (dr_db g) (dr_db g2)" using reconcile_kept [OF rec] k1 kept_then by blast
    then have ok2: "table_ok (dr_db g2)" by (simp add: kept_def)
    note run2 = run [unfolded rec sum.case prod.case]
    obtain o3 l3 s3 where sz: "sized c lco (rw_loss_after w) client run d (fst basis) (snd basis) now l (dr_db g2) = (o3, l3, s3)" by (metis prod_cases3)
    have k3: "kept (dr_db g) (dr_db (g2\<lparr>dr_db := s3\<rparr>))" using kept_trans [OF k2 sized_kept [OF ok2 sz]] by simp
    show ?thesis
    proof (cases "\<exists>u. \<not> exposed (case seen of Some ts \<Rightarrow> ts | None \<Rightarrow> []) g2 \<and> o3 = Inr u \<and> place c w now plan d client run symbol True u levels pull l3 (g2\<lparr>dr_db := s3\<rparr>) = Some (Inr (out, l', g'))")
      case True
      then obtain u where calm: "\<not> exposed (case seen of Some ts \<Rightarrow> ts | None \<Rightarrow> []) g2" and u: "o3 = Inr u" and p: "place c w now plan d client run symbol True u levels pull l3 (g2\<lparr>dr_db := s3\<rparr>) = Some (Inr (out, l', g'))" by blast
      have "table_ok (dr_db (g2\<lparr>dr_db := s3\<rparr>))" using k3 by (simp add: kept_def)
      moreover have "live_rows (db_trades (dr_db (g2\<lparr>dr_db := s3\<rparr>))) = []" using not_exposed [OF calm] sized_same [OF sz [unfolded u]] by simp
      ultimately have "kept (dr_db (g2\<lparr>dr_db := s3\<rparr>)) (dr_db g')" by (rule place_kept [OF p side sized_units [OF sz [unfolded u]]])
      then show ?thesis using kept_trans [OF k3] by blast
    next
      case stays: False
      have "db_trades (dr_db g') = db_trades (dr_db g2) \<or> db_trades (dr_db g') = db_trades (dr_db (g2\<lparr>dr_db := s3\<rparr>))"
        using run2 False stays sz by (auto simp: note_event_trades dest!: not_routed_trades split: sum.splits prod.splits if_splits)
      then show ?thesis using kept_router [OF k2] kept_router [OF k3] by blast
    qed
  qed
qed

lemma route_flat_kept:
  assumes run: "route_flat c lco w now cx bars plan d client run symbol opposite l g = Some (Inr (out, l', g'))"
    and side: "rd_side d = LONG \<or> rd_side d = SHORT" and ok: "table_ok (dr_db g)"
    and old: "\<And>r. opposite = Some r \<Longrightarrow> r \<in> set (db_trades (dr_db g)) \<and> t_status r \<in> set LIVE_STATUSES"
    and flat: "opposite = None \<Longrightarrow> live_rows (db_trades (dr_db g)) = []"
  shows "kept (dr_db g) (dr_db g')"
proof -
  obtain pull where pull: "(if rc_pullback c \<and> symbol = ''EURUSD'' then ebind (prepare_pullback (rd_side d) (plan_levels d) bars
      (structural_stop cx (fst (snd (plan_levels d))))) (\<lambda>p. Inr (Some p)) else Inr None) = Inr pull"
    using run by (auto simp: route_flat_def Let_def split: sum.splits)
  define g1 where "g1 = (case pull of None \<Rightarrow> g | Some p \<Rightarrow> note_event now (pullback_note client (rd_side d) p) g)"
  have same: "db_trades (dr_db g1) = db_trades (dr_db g)" by (simp add: g1_def note_event_trades split: option.split)
  then have k1: "kept (dr_db g) (dr_db g1)" using kept_same [OF ok] by blast
  then have ok1: "table_ok (dr_db g1)" by (simp add: kept_def)
  define q where "q = (case pull of Some (Inr q) \<Rightarrow> Some q | _ \<Rightarrow> None)"
  define basis where "basis = (case q of Some q \<Rightarrow> (pb_limit q, pb_stop q) | None \<Rightarrow> (fst (plan_levels d), fst (snd (plan_levels d))))"
  note run = run [unfolded route_flat_def Let_def pull sum.case g1_def [symmetric]]
  show ?thesis
  proof (cases "\<exists>why. pull = Some (Inl why)")
    case True
    then show ?thesis using run same kept_same [OF ok] by (auto dest!: not_routed_trades)
  next
    case False
    obtain o2 l2 s2 where sz: "sized c lco (rw_loss w) client run d (fst basis) (snd basis) now l (dr_db g1) = (o2, l2, s2)" by (metis prod_cases3)
    have k2: "kept (dr_db g) (dr_db (g1\<lparr>dr_db := s2\<rparr>))" using kept_trans [OF k1 sized_kept [OF ok1 sz]] by simp
    have go: "(case o2 of Inl (out, why) \<Rightarrow> Some (Inr ((out, Some why), l2, g1\<lparr>dr_db := s2\<rparr>))
        | Inr units \<Rightarrow> reverse_and_place c lco w now plan d client run symbol opposite units (plan_levels d) q basis l2 (g1\<lparr>dr_db := s2\<rparr>))
      = Some (Inr (out, l', g'))"
      using run False sz by (auto simp: q_def basis_def split: option.splits sum.splits)
    show ?thesis
    proof (cases o2)
      case (Inl p)
      then show ?thesis using go k2 by (auto split: prod.splits)
    next
      case (Inr units)
      have "db_trades s2 = db_trades (dr_db g)" using sized_same [OF sz [unfolded Inr]] same by simp
      then have "kept (dr_db (g1\<lparr>dr_db := s2\<rparr>)) (dr_db g')"
        using go Inr k2 old flat sized_units [OF sz [unfolded Inr]]
        by (intro reverse_and_place_kept [OF _ side]) (auto simp: kept_def)
      then show ?thesis using k2 kept_trans by blast
    qed
  qed
qed

lemma reversal_row_live: "reversal_row rv d symbol report quotes s = (Inr r, notes) \<Longrightarrow> r \<in> set (db_trades s) \<and> t_status r \<in> set LIVE_STATUSES"
proof -
  assume run: "reversal_row rv d symbol report quotes s = (Inr r, notes)"
  then have "trades_with LIVE_STATUSES s = [r]"
    by (auto simp: reversal_row_def Let_def split: list.splits if_splits sum.splits prod.splits)
  then have "r \<in> set (trades_with LIVE_STATUSES s)" by simp
  then show ?thesis by (auto simp: trades_with_set)
qed

lemma candidate_side: "candidate_of status cx = Candidate plan d symbol run \<Longrightarrow> rd_side d = LONG \<or> rd_side d = SHORT"
  by (auto simp: candidate_of_def valid_side_def split: option.splits if_splits prod.splits)

lemma route_kept:
  assumes run: "route c lco w status now cx bars report l g = Some (Inr (out, l', g'))" and ok: "table_ok (dr_db g)"
  shows "kept (dr_db g) (dr_db g')"
proof (cases "candidate_of status cx")
  case (Candidate plan d symbol run)
  note side = candidate_side [OF Candidate]
  note go = assms(1) [unfolded route_def Let_def Candidate cycle_candidate.case]
  let ?client = "''aif-'' @ run"
  show ?thesis
  proof (cases "entry_gate c now ?client g = Inr None")
    case False
    then have "db_trades (dr_db g') = db_trades (dr_db g)"
      using go by (auto dest!: not_routed_trades split: sum.splits option.splits)
    then show ?thesis using kept_same [OF ok] by blast
  next
    case True
    obtain g1 seen where rec: "(case report of Some ts \<Rightarrow> Inr (g, Some ts) | None \<Rightarrow> reconcile (rw_view w) (rw_episode w) now g) = Inr (g1, seen)"
      using go True by (auto split: sum.splits option.splits)
    have k1: "kept (dr_db g) (dr_db g1)" using rec reconcile_kept ok kept_refl by (auto split: option.splits)
    then have ok1: "table_ok (dr_db g1)" by (simp add: kept_def)
    define ts where "ts = (case seen of Some ts \<Rightarrow> ts | None \<Rightarrow> [])"
    obtain verdict recorded where rv: "reversal_row (rc_reversal c) d symbol ts (rw_reversal_quote w) (dr_db g1) = (verdict, recorded)" by force
    define g2 where "g2 = g1\<lparr>dr_db := fold (journal_note now) recorded (dr_db g1)\<rparr>"
    have same: "db_trades (dr_db g2) = db_trades (dr_db g1)" by (simp add: g2_def quiet_trades)
    then have k2: "kept (dr_db g) (dr_db g2)" using kept_router [OF k1] by blast
    note go = go [unfolded True sum.case option.case rec prod.case, folded ts_def, unfolded rv prod.case, folded g2_def]
    consider why where "book_gate c (rw_open_allowed w) seen g1 = Some why"
      | "book_gate c (rw_open_allowed w) seen g1 = None" "\<not> exposed ts g1"
      | "book_gate c (rw_open_allowed w) seen g1 = None" "exposed ts g1" by (cases "book_gate c (rw_open_allowed w) seen g1") auto
    then show ?thesis
    proof cases
      case 1
      then show ?thesis using go kept_router [OF k1] by (auto dest!: not_routed_trades)
    next
      case 2
      then show ?thesis using go route_flat_kept [OF _ side ok1] not_exposed kept_trans [OF k1] by (cases out) fastforce
    next
      case 3
      note go = go [unfolded 3(1) option.case, unfolded 3(2) if_True simp_thms(8)]
      show ?thesis
      proof (cases verdict)
        case (Inl why)
        then have "db_trades (dr_db g') = db_trades (dr_db g2)" using go 3 same by (auto dest!: not_routed_trades)
        then show ?thesis by (rule kept_router [OF k2])
      next
        case (Inr r)
        have "r \<in> set (db_trades (dr_db g2)) \<and> t_status r \<in> set LIVE_STATUSES" using reversal_row_live rv Inr same by metis
        moreover have "route_flat c lco w now cx bars plan d ?client run symbol (Some r) l g2 = Some (Inr (out, l', g'))"
          using go 3 Inr by simp
        ultimately show ?thesis using k2 by (intro kept_trans [OF k2 route_flat_kept [OF _ side]]) (auto simp: kept_def)
      qed
    qed
  qed
qed (use run ok in \<open>auto simp: route_def note_event_trades intro!: kept_same\<close>)

lemma beat_trades: "db_trades (dr_db (beat c now g)) = db_trades (dr_db g)"
  by (simp add: beat_def set_flag_def)

lemma closing_passes_kept:
  assumes run: "closing_passes c lco w now l g = (acted, report, l', g')" and ok: "table_ok (dr_db g)" shows "kept (dr_db g) (dr_db g')"
proof -
  let ?h = "beat c now g"
  have k0: "kept (dr_db g) (dr_db ?h)" using kept_same [OF ok beat_trades] .
  obtain fl rep1 g1 where p1: "process_requests c (tw_flatten_view w) (fst (tw_episodes w)) now (tw_flatten_replies w) ?h = (fl, rep1, g1)" by (metis prod_cases3)
  have k1: "kept (dr_db g) (dr_db g1)" using k0 process_requests_kept [of ?h] p1 kept_then by (metis snd_conv)
  obtain ma rep2 g2 where p2: "process_manual_close c (tw_manual_view w) (fst (snd (tw_episodes w))) now (tw_manual_replies w) rep1 g1 = (ma, rep2, g2)" by (metis prod_cases3)
  have k2: "kept (dr_db g) (dr_db g2)" using k1 process_manual_close_kept [of g1] p2 kept_then by (metis snd_conv)
  obtain lo l1 g3 where p3: "(case lco of None \<Rightarrow> ([], l, g2) | Some lc \<Rightarrow> (case loss_check lc (rc_dry c) (tw_loss w) now PNone l (dr_db g2) of ((_, outs), l1, s1) \<Rightarrow>
       (outs, l1, g2\<lparr>dr_db := s1\<rparr>))) = (lo, l1, g3)" by (metis prod_cases3)
  have "kept (dr_db g2) (dr_db g3)" if ok2: "table_ok (dr_db g2)"
  proof (cases lco)
    case None
    then show ?thesis using p3 kept_refl [OF ok2] by simp
  next
    case (Some lc)
    then show ?thesis using p3 loss_check_kept [OF ok2, of lc "rc_dry c" "tw_loss w" now PNone l] by (auto split: prod.splits)
  qed
  then have k3: "kept (dr_db g) (dr_db g3)" using k2 kept_then by blast
  obtain we g4 where p4: "(case rc_friday c of None \<Rightarrow> ([], g3) | Some minutes \<Rightarrow> friday_tick c minutes (tw_friday_quote w) now (tw_friday_replies w) g3) = (we, g4)" by force
  have "kept (dr_db g3) (dr_db g4)" if "table_ok (dr_db g3)"
    using p4 kept_refl [OF that] friday_tick_kept [OF that] by (auto split: option.splits) (metis snd_conv)
  then have "kept (dr_db g) (dr_db g4)" using k3 kept_then by blast
  then show ?thesis using run by (simp add: closing_passes_def p1 p2 p3 p4)
qed

lemma manage_tick_kept:
  assumes "manage_tick c lco w now l g = Inr (outs, l', g')" and "table_ok (dr_db g)" shows "kept (dr_db g) (dr_db g')"
proof -
  obtain acted report l1 g1 where p: "closing_passes c lco w now l g = (acted, report, l1, g1)" by (metis prod_cases4)
  have "kept (dr_db g1) (dr_db g')" if "table_ok (dr_db g1)"
    using assms(1) p manage_locked_kept that by (auto simp: manage_tick_def ebind_eq_Inr)
  then show ?thesis using closing_passes_kept [OF p assms(2)] kept_then by blast
qed

lemma on_cycle_kept:
  assumes run: "on_cycle c lco w rw status now cx bars l g = Some (Inr (out, l', g'))" and ok: "table_ok (dr_db g)" shows "kept (dr_db g) (dr_db g')"
proof -
  obtain acted report l1 g1 where p: "closing_passes c lco w now l g = (acted, report, l1, g1)" by (metis prod_cases4)
  have k1: "kept (dr_db g) (dr_db g1)" using closing_passes_kept [OF p ok] .
  obtain g2 seen where m: "(if \<not> rc_dry c \<and> trades_with [OPENED, RESTING] (dr_db g1) \<noteq> []
            then ebind (manage_locked (rc_hold c) (rc_dry c) (tw_manage_view w) (snd (snd (tw_episodes w))) now (tw_manage_quote w) (tw_manage_replies w) (map fst acted) report g1)
              (\<lambda>(_, g2, seen). Inr (g2, seen)) else Inr (g1, report)) = Inr (g2, seen)"
    using run p by (auto simp: on_cycle_def split: sum.splits)
  have "kept (dr_db g1) (dr_db g2)" if "table_ok (dr_db g1)"
    using m manage_locked_kept kept_refl that by (auto simp: ebind_eq_Inr split: if_splits)
  then have k2: "kept (dr_db g) (dr_db g2)" using k1 kept_then by blast
  have "route c lco rw status now cx bars seen l1 g2 = Some (Inr (out, l', g'))" using run p m by (simp add: on_cycle_def)
  then show ?thesis using route_kept k2 kept_then by blast
qed

end
