(* ===== verification/DemoStory.thy ===== *)
theory DemoStory
  imports DemoRoute
begin

text \<open>
  The life of the demo router: every operation that may touch its trades, as one step relation, and what holds of the
  trades of the pullback strategy however the operations interleave and whatever the broker answers.
\<close>

section \<open>Steps\<close>

inductive demo_step :: "demo_router \<Rightarrow> demo_router \<Rightarrow> bool" where
  sent: "fresh_row r \<Longrightarrow> trades_with LIVE_STATUSES (dr_db g) = [] \<Longrightarrow> send seen now sub r (dr_db g) = Inr (out, s) \<Longrightarrow> demo_step g (g\<lparr>dr_db := s\<rparr>)"
| routed: "route c lco w status now cx bars report l g = Some (Inr (out, l', g')) \<Longrightarrow> demo_step g g'"
| cycled: "on_cycle c lco tw w status now cx bars l g = Some (Inr (out, l', g')) \<Longrightarrow> demo_step g g'"
| ticked: "manage_tick c lco tw now l g = Inr (outs, l', g') \<Longrightarrow> demo_step g g'"
| reconciled: "reconcile v episode now g = Inr (g', seen) \<Longrightarrow> demo_step g g'"
| managed: "manage_locked c dry v episode now quotes replies skip report g = Inr (outs, g', seen) \<Longrightarrow> demo_step g g'"
| flattened: "demo_step g (snd (snd (process_requests rc v episode now replies g)))"
| closed_by_hand: "demo_step g (snd (snd (process_manual_close rc v episode now replies report g)))"
| polled: "demo_step g (snd (process_operator_requests rc v1 v2 ep1 ep2 now replies1 replies2 g))"
| friday: "demo_step g (snd (friday_tick rc minutes quotes now replies g))"
| loss_halted: "demo_step g (g\<lparr>dr_db := snd (loss_flatten dry drawdown now replies (dr_db g))\<rparr>)"
| emergency: "demo_step g (g\<lparr>dr_db := snd (emergency_close_all dry why now replies (dr_db g))\<rparr>)"
| drift_cleared: "clear_drift episode actor why now g = Inr g' \<Longrightarrow> demo_step g g'"
| released: "clear_unresolved actor why now g = Inr (ids, g') \<Longrightarrow> demo_step g g'"
| not_sent: "mark_not_sent v cl actor why now (dr_db g) = Inr (freed, s) \<Longrightarrow> demo_step g (g\<lparr>dr_db := s\<rparr>)"

inductive_cases demo_stepE: "demo_step g g'"

lemma polled_kept:
  assumes ok: "table_ok (dr_db g)" shows "kept (dr_db g) (dr_db (snd (process_operator_requests c v1 v2 ep1 ep2 now r1 r2 g)))"
proof -
  obtain fl report g1 where p: "process_requests c v1 ep1 now r1 g = (fl, report, g1)" by (metis prod_cases3)
  obtain ma seen g2 where q: "process_manual_close c v2 ep2 now r2 report g1 = (ma, seen, g2)" by (metis prod_cases3)
  have k1: "kept (dr_db g) (dr_db g1)" using process_requests_kept [OF ok, of c v1 ep1 now r1] p by simp
  have "kept (dr_db g) (dr_db g2)"
    using kept_then [OF k1] process_manual_close_kept [of g1 c v2 ep2 now r2 report] q by simp
  then show ?thesis using p q ok by (simp add: process_operator_requests_def kept_refl)
qed

lemma demo_step_kept: "demo_step g g' \<Longrightarrow> table_ok (dr_db g) \<Longrightarrow> kept (dr_db g) (dr_db g')"
  by (induction rule: demo_step.induct)
    (auto simp: no_live intro: send_kept reconcile_kept manage_locked_kept process_requests_kept process_manual_close_kept polled_kept friday_tick_kept
      route_kept on_cycle_kept manage_tick_kept       loss_flatten_kept emergency_kept clear_drift_kept clear_unresolved_kept mark_not_sent_kept)

lemma demo_steps_kept: "demo_step\<^sup>*\<^sup>* g g' \<Longrightarrow> table_ok (dr_db g) \<Longrightarrow> kept (dr_db g) (dr_db g')"
  by (induction rule: rtranclp_induct) (blast intro: kept_refl, metis demo_step_kept kept_then)

lemma grown_row: "grown s s' \<Longrightarrow> r \<in> set (db_trades s) \<Longrightarrow> \<exists>r' \<in> set (db_trades s'). evolves r r'"
  by (force simp: grown_def list_all2_conv_all_nth in_set_conv_nth nth_append)

lemma grown_live:
  assumes "grown s s'" and "length (live_rows (db_trades s)) \<le> 1" shows "length (live_rows (db_trades s')) \<le> 1"
proof -
  obtain old new where o: "db_trades s' = old @ new" "list_all2 evolves (db_trades s) old"
    "live_rows new = [] \<or> (live_rows old = [] \<and> length (live_rows new) \<le> 1)" using assms(1) by (auto simp: grown_def)
  show ?thesis using o(1,3) live_evolves [OF o(2)] assms(2) by auto
qed

section \<open>The properties\<close>

text \<open>
  C36. From an empty table the router holds at most one live trade (sent, unresolved, resting or open), however its
  cycles, ticks and operator passes interleave and whatever the broker answers: a cycle that opens a trade first finds
  every earlier one ended, and an ended trade never comes back.
\<close>

theorem the_router_holds_one_live_trade:
  assumes "db_trades (dr_db g0) = []" and "demo_step\<^sup>*\<^sup>* g0 g"
  shows "length (trades_with LIVE_STATUSES (dr_db g)) \<le> 1"
proof -
  have "table_ok (dr_db g0)" using assms(1) by (simp add: table_ok_def distinct_clients_def)
  then have "grown (dr_db g0) (dr_db g)" using demo_steps_kept [OF assms(2)] by (simp add: kept_def)
  then have "length (live_rows (db_trades (dr_db g))) \<le> 1" by (rule grown_live) (simp add: assms(1) live_rows_def)
  then show ?thesis by (simp add: trades_with_def live_rows_def)
qed


text \<open>A limit of 1000 units that fills at once, then a tick at +0.56R.\<close>

definition demo_trade :: trade_row where
  "demo_trade = \<lparr>t_client = ''aif-1'', t_run = ''1'', t_symbol = ''EURUSD'', t_side = LONG, t_units = 1000, t_entry = 11 / 10, t_stop = 10975 / 10000,
     t_target = 1105 / 1000, t_initial_stop = None, t_trade_id = None, t_fill_price = None, t_opened_at = None, t_stage = None, t_status = SENDING,
     t_closed_reason = None, t_pending = None, t_action_unknown = False, t_created_at = 0, t_order_kind = Some ''LIMIT'', t_limit_price = Some (11 / 10),
     t_expires_at = None, t_order_id = None, t_strategy = Some STRATEGY, t_scale_stage = Some NONE, t_units_remaining = Some 1000,
     t_risk_distance = Some (25 / 10000), t_signal_entry = None\<rparr>"

definition demo_now :: instant where "demo_now = 20000 * DAY"
definition demo_hold :: hold_config where "demo_hold = \<lparr>max_hold = 5, flatten_tod = 1005 * MINUTE, day1_rule = False\<rparr>"

definition demo_sent :: demo_db where
  "demo_sent = (case send (Some []) demo_now (Submitted RES_ACCEPTED (Some ''7'') None) demo_trade empty_db of Inr (_, s) \<Rightarrow> s | Inl _ \<Rightarrow> empty_db)"

definition demo_quote :: "string \<Rightarrow> raw_quote" where "demo_quote = (\<lambda>_. Raw_Quote True (PDec (11014 / 10000)) (PDec (11015 / 10000)))"

definition demo_tick :: demo_db where
  "demo_tick = (case manage_pass demo_hold (demo_now + MINUTE) demo_quote (\<lambda>_ _. Answer RES_ACCEPTED None) [] demo_sent of Inr (_, s) \<Rightarrow> s | Inl _ \<Rightarrow> empty_db)"

definition demo_empty :: demo_router where
  "demo_empty = \<lparr>dr_db = empty_db, dr_blocked = None, dr_flatten_ticks = 0, dr_manual_ticks = 0, dr_friday_alerted = None\<rparr>"

lemma demo_send_eval:
  "send (Some []) demo_now (Submitted RES_ACCEPTED (Some ''7'') None) demo_trade empty_db = Inr (''ACCEPTED'', demo_sent)"
  by code_simp

lemma demo_sent_rows:
  "map (\<lambda>r. (t_client r, t_status r, t_units r, t_units_remaining r, t_scale_stage r, t_strategy r)) (db_trades demo_sent)
     = [(''aif-1'', OPENED, 1000, Some 1000, Some NONE, Some STRATEGY)]"
  by code_simp

lemma demo_tick_rows:
  "map (\<lambda>r. (t_client r, t_status r, t_units r, t_units_remaining r, t_scale_stage r, t_strategy r)) (db_trades demo_tick)
     = [(''aif-1'', OPENED, 1000, Some 667, Some HALF, Some STRATEGY)]"
  by code_simp

lemma demo_pass_some:
  "\<exists>outs. manage_pass demo_hold (demo_now + MINUTE) demo_quote (\<lambda>_ _. Answer RES_ACCEPTED None) [] demo_sent = Inr (outs, demo_tick)"
proof (cases "manage_pass demo_hold (demo_now + MINUTE) demo_quote (\<lambda>_ _. Answer RES_ACCEPTED None) [] demo_sent")
  case (Inl e)
  then show ?thesis using demo_tick_rows by (simp add: demo_tick_def empty_db_def)
next
  case (Inr p)
  then show ?thesis by (cases p) (simp add: demo_tick_def)
qed

lemma demo_fresh: "fresh_row demo_trade"
  by (simp add: fresh_row_def demo_trade_def on_grid_def exI [of _ "109750 :: int"])

lemma demo_reached:
  "demo_step\<^sup>*\<^sup>* demo_empty (demo_empty\<lparr>dr_db := demo_tick\<rparr>)"
proof -
  let ?g = "demo_empty\<lparr>dr_db := demo_sent\<rparr>"
  have s1: "demo_step demo_empty ?g"
    by (rule demo_step.sent [OF demo_fresh, of _ "Some []" demo_now "Submitted RES_ACCEPTED (Some ''7'') None"])
      (simp add: demo_empty_def trades_with_def empty_db_def, simp add: demo_empty_def demo_send_eval)
  obtain outs where "manage_pass demo_hold (demo_now + MINUTE) demo_quote (\<lambda>_ _. Answer RES_ACCEPTED None) [] demo_sent = Inr (outs, demo_tick)"
    using demo_pass_some by blast
  then have "manage_locked demo_hold False v episode (demo_now + MINUTE) demo_quote (\<lambda>_ _. Answer RES_ACCEPTED None) [] (Some []) ?g
      = Inr (outs, ?g\<lparr>dr_db := demo_tick\<rparr>, Some [])" for v episode by (simp add: manage_locked_def)
  then have s2: "demo_step ?g (?g\<lparr>dr_db := demo_tick\<rparr>)" by (rule demo_step.managed)
  show ?thesis using s1 s2 by (simp add: converse_rtranclp_into_rtranclp)
qed

theorem the_router_holds_one_live_trade_witness:
  "trades_with LIVE_STATUSES demo_tick \<noteq> [] \<and> length (trades_with LIVE_STATUSES demo_tick) \<le> 1"
proof -
  obtain r where "db_trades demo_tick = [r]" "t_status r = OPENED" using demo_tick_rows by (auto simp: map_eq_Cons_conv)
  then have "trades_with LIVE_STATUSES demo_tick \<noteq> []" by (simp add: no_live live_rows_def) (simp add: LIVE_STATUSES_def)
  then show ?thesis using the_router_holds_one_live_trade [OF _ demo_reached] by (simp add: demo_empty_def empty_db_def)
qed


end
