(* ===== verification/DemoSettles.thy ===== *)
theory DemoSettles
  imports DemoStory
begin

text \<open>
  The scale-out of a routed trade ends: while the price stands still and the broker accepts, one tick does all there is to
  do, in at most three acts, and the next tick does nothing.
\<close>

section \<open>Accepted steps\<close>

definition accept_step :: "manage_step \<Rightarrow> trade_row \<Rightarrow> trade_row" where
  "accept_step s r = (case ms_kind s of
     PARTIAL \<Rightarrow> settle (r\<lparr>t_units_remaining := ms_remaining s, t_scale_stage := Some (ms_stage s)\<rparr>)
   | STOP \<Rightarrow> settle (r\<lparr>t_scale_stage := Some (ms_stage s), t_stop := (case ms_stop s of Some x \<Rightarrow> x | None \<Rightarrow> 0),
       t_initial_stop := (if t_initial_stop r = None then Some (t_stop r) else t_initial_stop r)\<rparr>)
   | MARK \<Rightarrow> r\<lparr>t_scale_stage := Some (ms_stage s)\<rparr>)"

text \<open>The steps whose stop is a price the broker is sent unchanged.\<close>

definition stop_sendable :: "manage_step \<Rightarrow> bool" where
  "stop_sendable s \<longleftrightarrow> (ms_kind s = STOP \<longrightarrow> (\<exists>x. ms_stop s = Some x \<and> round_price x = Inr x))"

lemma last_journal: "set js \<subseteq> {''BREAKEVEN'', ''TRAIL''} \<Longrightarrow> last (''TRAIL'' # js) \<in> {''BREAKEVEN'', ''TRAIL''}"
  by (induction js rule: rev_induct) auto

lemma apply_step_accepted:
  assumes "reply = Answer RES_ACCEPTED e" and "stop_sendable s" and "set (ms_journals s) \<subseteq> {''BREAKEVEN'', ''TRAIL'', ''PARTIAL_CLOSE''}"
    and "ms_kind s = STOP \<longrightarrow> set (ms_journals s) \<subseteq> {''BREAKEVEN'', ''TRAIL''}"
  obtains a where "apply_step reply s r = Inr a" "after_act a r = accept_step s r" "ac_outcome a \<in> set APPLIED_OUTCOMES"
proof (cases "ms_kind s")
  case STOP
  then obtain x where x: "ms_stop s = Some x" "round_price x = Inr x" using assms(2) by (auto simp: stop_sendable_def)
  have "last (''TRAIL'' # ms_journals s) \<in> set APPLIED_OUTCOMES" using last_journal [of "ms_journals s"] assms(4) STOP by (auto simp: APPLIED_OUTCOMES_def)
  then show ?thesis using that STOP x assms(1) by (simp add: apply_step_def accept_step_def after_act_def Let_def)
qed (use that assms(1) in \<open>simp_all add: apply_step_def accept_step_def after_act_def APPLIED_OUTCOMES_def Let_def\<close>)

definition plain_step :: "manage_step \<Rightarrow> bool" where
  "plain_step s \<longleftrightarrow> stop_sendable s \<and> set (ms_journals s) \<subseteq> {''BREAKEVEN'', ''TRAIL'', ''PARTIAL_CLOSE''}
     \<and> (ms_kind s = STOP \<longrightarrow> set (ms_journals s) \<subseteq> {''BREAKEVEN'', ''TRAIL''})"

lemma run_steps_accepted:
  assumes "\<And>i. \<exists>e. replies i = Answer RES_ACCEPTED e" and "\<forall>s \<in> set ss. plain_step s"
  shows "\<exists>acts. run_steps replies i ss r = Inr (acts, fold accept_step ss r) \<and> length acts = length ss"
  using assms(2)
proof (induction ss arbitrary: i r)
  case (Cons s ss)
  obtain e where "replies i = Answer RES_ACCEPTED e" using assms(1) by blast
  then obtain a where a: "apply_step (replies i) s r = Inr a" "after_act a r = accept_step s r" "ac_outcome a \<in> set APPLIED_OUTCOMES"
    using apply_step_accepted Cons.prems by (metis list.set_intros(1) plain_step_def)
  obtain acts where acts: "run_steps replies (Suc i) ss (accept_step s r) = Inr (acts, fold accept_step ss (accept_step s r))" "length acts = length ss"
    using Cons by fastforce
  show ?case using a acts by simp
qed simp

section \<open>One tick is enough\<close>

definition steps_of :: "side \<Rightarrow> rat \<Rightarrow> rat \<Rightarrow> int \<Rightarrow> rat \<Rightarrow> scale_stage option \<times> int option \<times> rat \<Rightarrow> py_error + manage_step list" where
  "steps_of sd a k u p st = (case st of (stage, left, stop) \<Rightarrow> management_steps sd (Some a) (Some k) (Some u) stage left (Some p) (Some stop))"

definition state_after :: "manage_step \<Rightarrow> scale_stage option \<times> int option \<times> rat \<Rightarrow> scale_stage option \<times> int option \<times> rat" where
  "state_after s st = (case st of (stage, left, stop) \<Rightarrow> (Some (ms_stage s), (if ms_kind s = PARTIAL then ms_remaining s else left),
     (if ms_kind s = STOP then (case ms_stop s of Some x \<Rightarrow> x | None \<Rightarrow> 0) else stop)))"

lemma trail_total: "sd = LONG \<or> sd = SHORT \<Longrightarrow> \<exists>new. trail_stop sd a k p = Inr new"
  by (auto simp: trail_stop_def)

lemma steps_guard:
  assumes "steps_of sd a k u p st = Inr steps" and "steps \<noteq> []" shows "((sd \<noteq> LONG \<and> sd \<noteq> SHORT) \<or> k \<le> 0 \<or> u < 1) = False"
proof (rule ccontr)
  assume "((sd \<noteq> LONG \<and> sd \<noteq> SHORT) \<or> k \<le> 0 \<or> u < 1) \<noteq> False"
  then have "steps_of sd a k u p st = Inr []" by (cases st) (simp add: steps_of_def management_steps_def)
  then show False using assms by simp
qed

text \<open>Where a tick that does something leaves the row: half closed and waiting for the second level, or trailing with the
  stop it wants.\<close>

lemma steps_end:
  assumes run: "steps_of sd a k u p (stage, left, stop) = Inr steps" and "steps \<noteq> []" and new: "trail_stop sd a k p = Inr new"
  shows "(\<not> level_reached sd p (level_at sd a k ONE_R) \<and> (\<exists>m. fold state_after steps (stage, left, stop) = (Some HALF, m, stop)))
    \<or> (\<exists>m x. fold state_after steps (stage, left, stop) = (Some TRAIL, m, x) \<and> \<not> tighter sd new (Some x))"
proof -
  have keep: "\<not> tighter sd new (Some new)" by (simp add: tighter_def)
  define half one where "half = level_reached sd p (level_at sd a k HALF_R)" and "one = level_reached sd p (level_at sd a k ONE_R)"
  define n where "n = (if stage = None \<or> stage = Some (OtherStage []) then NONE else the stage)"
  obtain q where q: "u div 3 = q" by simp
  note guard = steps_guard [OF run assms(2)]
  note run = run [unfolded steps_of_def prod.case management_steps_def option.case Let_def new ebind_Inr half_def [symmetric]
      one_def [symmetric] n_def [symmetric] guard if_False partial_if_eq q]
  show ?thesis unfolding one_def [symmetric]
  proof (cases n)
    case NONE
    show "(\<not> one \<and> (\<exists>m. fold state_after steps (stage, left, stop) = (Some HALF, m, stop)))
        \<or> (\<exists>m x. fold state_after steps (stage, left, stop) = (Some TRAIL, m, x) \<and> \<not> tighter sd new (Some x))"
      using run keep assms(2) unfolding NONE
      by (cases half; cases one) (auto simp: partial_if_eq q can_partial_def Let_def state_after_def split: if_splits)
  qed (use run keep assms(2) in \<open>cases one; auto simp: partial_if_eq q can_partial_def Let_def state_after_def split: if_splits\<close>)+
qed

lemma steps_settle:
  assumes "steps_of sd a k u p st = Inr steps" shows "steps_of sd a k u p (fold state_after steps st) = Inr []"
proof (cases "steps = []")
  case False
  obtain stage left stop where st: "st = (stage, left, stop)" by (metis prod_cases3)
  have "sd = LONG \<or> sd = SHORT" using steps_guard [OF assms False] by blast
  then obtain new where new: "trail_stop sd a k p = Inr new" using trail_total by blast
  show ?thesis using steps_end [OF assms [unfolded st] False new] new
    by (auto simp: st steps_of_def management_steps_def Let_def partial_if_def can_partial_def)
qed (use assms in simp)

lemma steps_shape:
  assumes run: "steps_of sd a k u p (stage, left, stop) = Inr steps" and new: "trail_stop sd a k p = Inr new"
  shows "length steps \<le> 3 \<and> (\<forall>s \<in> set steps. set (ms_journals s) \<subseteq> {''BREAKEVEN'', ''TRAIL'', ''PARTIAL_CLOSE''}
    \<and> (ms_kind s = STOP \<longrightarrow> set (ms_journals s) \<subseteq> {''BREAKEVEN'', ''TRAIL''} \<and> ms_stop s = Some new))"
proof (cases "steps = []")
  case False
  define half one where "half = level_reached sd p (level_at sd a k HALF_R)" and "one = level_reached sd p (level_at sd a k ONE_R)"
  define n where "n = (if stage = None \<or> stage = Some (OtherStage []) then NONE else the stage)"
  obtain q where q: "u div 3 = q" by simp
  note run = run [unfolded steps_of_def prod.case management_steps_def option.case Let_def new ebind_Inr half_def [symmetric]
      one_def [symmetric] n_def [symmetric] steps_guard [OF run False] if_False partial_if_eq q]
  show ?thesis
  proof (cases n)
    case NONE
    show ?thesis using run unfolding NONE by (cases half; cases one) (auto simp: partial_if_eq q can_partial_def Let_def split: if_splits)
  qed (use run in \<open>cases one; auto simp: partial_if_eq q can_partial_def Let_def split: if_splits\<close>)+
qed simp

section \<open>Rows\<close>

definition scale_state :: "trade_row \<Rightarrow> scale_stage option \<times> int option \<times> rat" where
  "scale_state r = (t_scale_stage r, t_units_remaining r, t_stop r)"

lemma row_steps_of: "row_steps r p = steps_of (t_side r) (row_anchor r) (row_risk r) (t_units r) p (scale_state r)"
  by (simp add: row_steps_def steps_of_def scale_state_def)

lemma accept_step_row:
  "scale_state (accept_step s r) = state_after s (scale_state r)" "t_side (accept_step s r) = t_side r" "t_units (accept_step s r) = t_units r"
  "row_anchor (accept_step s r) = row_anchor r" "t_risk_distance (accept_step s r) = t_risk_distance r" "t_strategy (accept_step s r) = t_strategy r"
  "opened_of (accept_step s r) = opened_of r" "stage_of (accept_step s r) = stage_of r"
  by (simp_all add: accept_step_def scale_state_def state_after_def settle_def row_anchor_def opened_of_def stage_of_def cong: option.case_cong split: step_kind.split)

lemma accept_steps_row:
  "scale_state (fold accept_step ss r) = fold state_after ss (scale_state r) \<and> t_side (fold accept_step ss r) = t_side r
    \<and> t_units (fold accept_step ss r) = t_units r \<and> row_anchor (fold accept_step ss r) = row_anchor r
    \<and> t_risk_distance (fold accept_step ss r) = t_risk_distance r \<and> t_strategy (fold accept_step ss r) = t_strategy r
    \<and> opened_of (fold accept_step ss r) = opened_of r \<and> stage_of (fold accept_step ss r) = stage_of r"
  by (induction ss arbitrary: r) (simp_all add: accept_step_row)

text \<open>A price the order book can have: positive, on the five-decimal grid, of a size that is exact in \<open>Decimal\<close>.\<close>

definition book_price :: "rat \<Rightarrow> bool" where
  "book_price x \<longleftrightarrow> 0 < x \<and> on_grid 5 x \<and> x \<le> 10 ^ 20"

lemma book_price_sum:
  assumes "book_price x" and "book_price y"
  shows "dec28 (x - y) = x - y" "dec28 (x + y) = x + y" "on_grid 5 (x - y)" "on_grid 5 (x + y)"
proof -
  have f: "fits 27 5 x" "fits 27 5 y" using assms on_grid_fits [of _ 22] by (auto simp: book_price_def)
  show "dec28 (x - y) = x - y" "dec28 (x + y) = x + y" using dec28_diff_exact [OF f] dec28_add_exact [OF f] by simp_all
  obtain m n where "x = of_int m / 10 ^ 5" "y = of_int n / 10 ^ 5" using assms by (auto simp: book_price_def on_grid_def)
  then have "x - y = of_int (m - n) / 10 ^ 5" "x + y = of_int (m + n) / 10 ^ 5" by (simp_all add: field_simps)
  then show "on_grid 5 (x - y)" "on_grid 5 (x + y)" unfolding on_grid_def by blast+
qed

lemma trail_stop_sendable:
  assumes "sd = LONG \<or> sd = SHORT" and "book_price a" "book_price k" "book_price p"
  obtains new where "trail_stop sd a k p = Inr new" "round_price new = Inr new"
proof -
  note pk = book_price_sum [OF assms(4) assms(3)]
  define new where "new = (if sd = LONG then max (p - k) a else min (p + k) a)"
  have "on_grid 5 new" "0 < new" "new < 10 ^ 23" using assms pk(3,4) by (auto simp: new_def book_price_def max_def min_def)
  then have "round_price new = Inr new" by (intro round_price_grid) auto
  moreover have "trail_stop sd a k p = Inr new" using assms(1) pk(1,2) by (auto simp: trail_stop_def new_def)
  ultimately show ?thesis using that by blast
qed

section \<open>The property\<close>

text \<open>
  C40. While a trade of the pullback strategy is not at its time boundary and its prices are on the grid of the order book, a
  tick whose calls the broker accepts returns, after at most three acts; and if the price has not moved, the next tick sends
  nothing, changes nothing and reports that the trade is kept.
\<close>

theorem management_settles:
  assumes "t_strategy r = Some STRATEGY" and side: "t_side r = LONG \<or> t_side r = SHORT" and "\<not> due c r now" and "\<not> due c r now'"
    and "book_price (exit_price r q)" and "book_price (row_anchor r)" and k: "t_risk_distance r = Some k" and "book_price k"
    and accepted: "\<And>i. \<exists>e. replies i = Answer RES_ACCEPTED e"
  shows "\<exists>acts r' out. manage_row c now (Inr q) replies r = Inr (acts, r', out) \<and> length acts \<le> 3
    \<and> (\<forall>replies'. manage_row c now' (Inr q) replies' r' = Inr ([], r', ''KEEP''))"
proof -
  let ?p = "exit_price r q"
  have risk: "row_risk r = k" using k by (simp add: row_risk_def)
  obtain new where new: "trail_stop (t_side r) (row_anchor r) k ?p = Inr new" "round_price new = Inr new"
    using trail_stop_sendable [OF side] assms by metis
  have "\<exists>steps. row_steps r ?p = Inr steps"
    by (simp add: row_steps_def management_steps_def risk new(1) Let_def split: prod.split)
  then obtain steps where steps: "row_steps r ?p = Inr steps" by blast
  have shape: "length steps \<le> 3" "\<forall>s \<in> set steps. plain_step s"
    using steps_shape [OF steps [unfolded row_steps_of risk scale_state_def] new(1)] new(2) by (auto simp: plain_step_def stop_sendable_def)
  define r' where "r' = fold accept_step steps r"
  obtain acts where acts: "run_steps replies 0 steps r = Inr (acts, r')" "length acts = length steps"
    using run_steps_accepted [of replies, OF accepted shape(2)] unfolding r'_def by blast
  have r': "scale_state r' = fold state_after steps (scale_state r)" "t_side r' = t_side r" "t_units r' = t_units r" "row_anchor r' = row_anchor r"
    "t_risk_distance r' = Some k" "t_strategy r' = Some STRATEGY" "due c r' now' = due c r now'"
    using accept_steps_row [of steps r] assms(1) k by (simp_all add: r'_def due_def)
  have again: "row_steps r' (exit_price r' q) = Inr []"
    using steps_settle [OF steps [unfolded row_steps_of risk]] r' by (simp add: row_steps_of row_risk_def exit_price_def)
  have "manage_row c now (Inr q) replies r = Inr (acts, r', last (''KEEP'' # map ac_outcome acts))"
    using assms(1,3) steps acts by (simp add: manage_row_def manage_pullback_def Let_def)
  moreover have "manage_row c now' (Inr q) replies' r' = Inr ([], r', ''KEEP'')" for replies'
    using r' again assms(4) by (simp add: manage_row_def manage_pullback_def Let_def)
  ultimately show ?thesis using shape(1) acts(2) by auto
qed

text \<open>The demo trade at +0.56R, open since the epoch, at one and at two minutes.\<close>

definition demo_quoted :: "rat \<times> rat" where "demo_quoted = (11014 / 10000, 11015 / 10000)"

lemma demo_not_due: "\<not> due demo_hold demo_trade MINUTE" "\<not> due demo_hold demo_trade (2 * MINUTE)"
  by code_simp+

lemma demo_book: "book_price (11014 / 10000)" "book_price (11 / 10)" "book_price (25 / 10000)"
  unfolding book_price_def on_grid_def
  by (auto intro: exI [of _ "110140 :: int"] exI [of _ "110000 :: int"] exI [of _ "250 :: int"])

theorem management_settles_witness:
  "\<exists>acts r' out. manage_row demo_hold MINUTE (Inr demo_quoted) (\<lambda>_. Answer RES_ACCEPTED None) demo_trade = Inr (acts, r', out) \<and> length acts \<le> 3
    \<and> (\<forall>replies'. manage_row demo_hold (2 * MINUTE) (Inr demo_quoted) replies' r' = Inr ([], r', ''KEEP''))"
proof (rule management_settles)
  show "t_strategy demo_trade = Some STRATEGY" "t_side demo_trade = LONG \<or> t_side demo_trade = SHORT" "t_risk_distance demo_trade = Some (25 / 10000)"
    by (simp_all add: demo_trade_def)
  show "book_price (exit_price demo_trade demo_quoted)" using demo_book by (simp add: exit_price_def demo_trade_def demo_quoted_def)
  show "book_price (row_anchor demo_trade)" using demo_book by (simp add: row_anchor_def demo_trade_def dec_or_def)
qed (use demo_not_due demo_book in simp_all)

end
