(* ===== verification/DemoGates.thy ===== *)
theory DemoGates
  imports DemoRoute
begin

text \<open>
  What has to be true before an order leaves: every gate of a routing, read off its outcome.
\<close>

section \<open>A sent order\<close>

definition SENT_OUTCOMES :: "string list" where
  "SENT_OUTCOMES = [''ACCEPTED'', ''PENDING_LIMIT'', ''REJECTED'', ''UNKNOWN'']"

definition row_of :: "string \<Rightarrow> risk_decision \<Rightarrow> string \<Rightarrow> int \<Rightarrow> trade_row \<Rightarrow> bool" where
  "row_of client d symbol units r \<longleftrightarrow> t_client r = client \<and> t_side r = rd_side d \<and> t_symbol r = symbol \<and> t_units r = units"

text \<open>The row of the order is the only one that may live.\<close>

definition order_sent :: "string \<Rightarrow> risk_decision \<Rightarrow> string \<Rightarrow> int \<Rightarrow> demo_db \<Rightarrow> bool" where
  "order_sent client d symbol units s \<longleftrightarrow> (\<exists>r \<in> set (db_trades s). row_of client d symbol units r)
     \<and> (\<forall>x \<in> set (db_trades s). t_client x \<noteq> client \<longrightarrow> t_status x \<notin> set LIVE_STATUSES)"

lemma order_sent_cong: "db_trades s = db_trades t \<Longrightarrow> order_sent client d symbol units s = order_sent client d symbol units t"
  by (simp add: order_sent_def)

lemma submission_row: "ac_set (submission_act seen now sub r) = Some f \<Longrightarrow>
    t_client (f x) = t_client x \<and> t_side (f x) = t_side x \<and> t_symbol (f x) = t_symbol x \<and> t_units (f x) = t_units x"
  by (cases sub) (auto simp: submission_act_def Let_def mark_open_def split: if_splits)

lemma send_order:
  assumes "send seen now sub r s = Inr (out, s')" and "live_rows (db_trades s) = []"
  shows "order_sent (t_client r) d (t_symbol r) (t_units r) s' \<or> t_side r \<noteq> rd_side d"
proof -
  define n where "n = r\<lparr>t_status := SENDING, t_created_at := now\<rparr>"
  obtain s1 where s1: "insert_intent now (r\<lparr>t_status := SENDING\<rparr>) s = Inr s1"
    and s': "db_trades s' = map (\<lambda>x. if t_client x = t_client r then after_act (submission_act seen now sub r) x else x) (db_trades s1)"
    using assms(1) by (auto simp: send_def ebind_eq_Inr Let_def apply_act_trades journal_note_trades)
  have t: "db_trades s1 = db_trades s @ [n]" using s1 by (auto simp: insert_intent_def n_def split: if_splits)
  have "row_of (t_client r) d (t_symbol r) (t_units r) (after_act (submission_act seen now sub r) n) \<or> t_side r \<noteq> rd_side d"
    using submission_row by (auto simp: row_of_def after_act_def n_def split: option.split)
  moreover have "\<forall>x \<in> set (db_trades s). t_status x \<notin> set LIVE_STATUSES" using assms(2) by (simp add: live_rows_def filter_empty_conv)
  moreover have "t_client n = t_client r" by (simp add: n_def)
  moreover have "t_client (after_act (submission_act seen now sub r) x) = t_client x" for x
    using submission_row by (simp add: after_act_def split: option.split)
  ultimately show ?thesis by (auto simp: order_sent_def s' t)
qed

lemma order_row_of:
  "order_row hc now client run symbol sd units signal levels plan = Some (Inr r) \<Longrightarrow> t_client r = client \<and> t_side r = sd \<and> t_symbol r = symbol \<and> t_units r = units"
  by (cases levels) (auto simp: order_row_def ebind_eq_Inr split: option.splits if_splits)

lemma place_sent:
  assumes run: "place c w now plan d client run symbol reversing units levels pull l g = Some (Inr ((out, why), l', g'))"
    and out: "out \<in> set SENT_OUTCOMES" and flat: "live_rows (db_trades (dr_db g)) = []"
  shows "\<not> rc_dry c \<and> order_sent client d symbol units (dr_db g')"
proof -
  define an where "an = (case pull of Some q \<Rightarrow> (Some (pb_limit q, pb_stop q, pb_target q), [])
     | None \<Rightarrow> fill_anchor (rw_anchor_quote w) client symbol (rd_side d) levels)"
  define g1 where "g1 = g\<lparr>dr_db := fold (journal_note now) (snd an) (dr_db g)\<rparr>"
  have flat1: "live_rows (db_trades (dr_db g1)) = []" using flat by (simp add: g1_def quiet_trades)
  note run = run [unfolded place_def Let_def an_def [symmetric] g1_def [symmetric]]
  have refused: "not_routed now client x l y \<noteq> ((out, why), l', g')" for x y using out by (auto simp: not_routed_def SENT_OUTCOMES_def)
  obtain lv where lv: "fst an = Some lv" "order_approval plan d client run units lv \<noteq> None"
    using run refused by (auto split: option.splits if_splits)
  then obtain r where r: "order_row (rc_hold c) now client run symbol (rd_side d) units (fst levels) lv pull = Some (Inr r)"
    using run by (auto simp: ebind_eq_Inr split: if_splits)
  have dry: "\<not> rc_dry c" using run lv r out by (auto simp: ebind_eq_Inr SENT_OUTCOMES_def split: if_splits)
  then obtain o1 s where s: "send (rw_seen w) now (rw_submission w) r (dr_db g1) = Inr (o1, s)" "db_trades (dr_db g') = db_trades s"
    using run lv r by (auto simp: ebind_eq_Inr quiet_trades)
  then show ?thesis using dry send_order [OF s(1) flat1, of d] order_row_of [OF r] order_sent_cong [OF s(2)] by auto
qed

section \<open>A sized order\<close>

text \<open>What \<open>sized\<close> promises of the units it lets through.\<close>

definition units_allowed ::
  "router_config \<Rightarrow> loss_config option \<Rightarrow> loss_world \<Rightarrow> risk_decision \<Rightarrow> rat \<times> rat \<Rightarrow> instant \<Rightarrow> int \<Rightarrow> bool" where
  "units_allowed c lco w d basis now units \<longleftrightarrow> 1 \<le> units \<and> units \<le> rc_max_units c
     \<and> (\<exists>b. lw_balance w = Inr b \<and> of_int units \<le> dec28 (dec28 (bb_equity b * order_risk_fraction d) / \<bar>dec28 (fst basis - snd basis)\<bar>))
     \<and> (\<forall>lc. lco = Some lc \<longrightarrow> (\<exists>l s ld outs l' s'. loss_check lc (rc_dry c) w now (PDec (dec28 (of_int units * \<bar>dec28 (fst basis - snd basis)\<bar>))) l s
         = ((ld, outs), l', s') \<and> ld_entry ld))"

lemma size_units_bound: "size_units amount entry stop = Inr n \<Longrightarrow> 1 \<le> n \<Longrightarrow> of_int n \<le> dec28 (amount / \<bar>dec28 (entry - stop)\<bar>)"
  by (auto simp: size_units_def Let_def split: if_splits)

lemma sized_allowed:
  assumes "sized c lco w client run d (fst basis) (snd basis) now l s = (Inr units, l', s')" shows "units_allowed c lco w d basis now units"
proof -
  obtain b where b: "lw_balance w = Inr b" using assms by (auto simp: sized_def Let_def split: sum.splits)
  obtain n where n: "size_units (dec28 (bb_equity b * order_risk_fraction d)) (fst basis) (snd basis) = Inr n" "units = min n (rc_max_units c)"
    using assms b by (auto simp: sized_def Let_def broker_units_def ebind_eq_Inr split: sum.splits if_splits option.splits prod.splits)
  have pos: "1 \<le> units" using sized_units assms by blast
  then have "of_int units \<le> (of_int n :: rat)" "1 \<le> n" "units \<le> rc_max_units c" using n(2) by auto
  moreover have "\<exists>l s ld outs l' s'. loss_check lc (rc_dry c) w now (PDec (dec28 (of_int units * \<bar>dec28 (fst basis - snd basis)\<bar>))) l s
      = ((ld, outs), l', s') \<and> ld_entry ld"
    if "lco = Some lc" for lc
    using assms b that by (fastforce simp: sized_def Let_def split: sum.splits if_splits prod.splits)
  ultimately show ?thesis using pos b size_units_bound [OF n(1)] by (fastforce simp: units_allowed_def)
qed

lemma sized_refused: "sized c lco w client run d entry stop now l s = (Inl (out, why), l', s') \<Longrightarrow> out \<notin> set SENT_OUTCOMES"
  by (auto simp: sized_def Let_def SENT_OUTCOMES_def split: option.splits sum.splits if_splits prod.splits)

section \<open>Every gate\<close>

lemma reverse_sent:
  assumes run: "reverse_and_place c lco w now plan d client run symbol opposite units levels pull basis l g = Some (Inr ((out, why), l', g'))"
    and out: "out \<in> set SENT_OUTCOMES" and flat: "opposite = None \<Longrightarrow> live_rows (db_trades (dr_db g)) = []"
    and units: "units_allowed c lco (rw_loss w) d basis now units"
  shows "\<not> rc_dry c \<and> (\<exists>u. order_sent client d symbol u (dr_db g')
     \<and> (units_allowed c lco (rw_loss w) d basis now u \<or> units_allowed c lco (rw_loss_after w) d basis now u))"
proof (cases opposite)
  case None
  then show ?thesis using run place_sent [OF _ out] flat units by (fastforce simp: reverse_and_place_def)
next
  case (Some r)
  define a where "a = close_trade ''REVERSAL_IN_PROFIT'' (t_client r @ ''-rev'') (rw_close w) r"
  define g1 where "g1 = note_event now (note_of ''REVERSAL_IN_PROFIT'' (Some client) [(''closed_client_id'', JStr (t_client r)), (''outcome'', JStr (ac_outcome a))])
    (g\<lparr>dr_db := apply_act now (t_client r) a (dr_db g)\<rparr>)"
  note run = run [unfolded reverse_and_place_def Let_def Some option.case a_def [symmetric] g1_def [symmetric]]
  have refused: "not_routed now client x l y \<noteq> ((out, why), l', g')" for x y using out by (auto simp: not_routed_def SENT_OUTCOMES_def)
  have dry: "\<not> rc_dry c" using run out by (auto simp: SENT_OUTCOMES_def split: if_splits)
  note run = run [unfolded if_not_P [OF dry]]
  obtain g2 ts where rec: "reconcile (rw_view_after w) (rw_episode_after w) now g1 = Inr (g2, Some ts)" "\<not> exposed ts g2"
    using run refused by (auto split: sum.splits if_splits prod.splits option.splits)
  obtain o3 l3 s3 where sz: "sized c lco (rw_loss_after w) client run d (fst basis) (snd basis) now l (dr_db g2) = (o3, l3, s3)" by (metis prod_cases3)
  obtain u where u: "o3 = Inr u" and p: "place c w now plan d client run symbol True u levels pull l3 (g2\<lparr>dr_db := s3\<rparr>) = Some (Inr ((out, why), l', g'))"
    using run refused rec sz out sized_refused by (cases o3) (auto split: if_splits prod.splits)
  have "live_rows (db_trades (dr_db (g2\<lparr>dr_db := s3\<rparr>))) = []" using not_exposed [OF rec(2)] sized_same [OF sz [unfolded u]] by simp
  then show ?thesis using place_sent [OF p out] sized_allowed [OF sz [unfolded u]] by blast
qed

text \<open>The entry and the stop an order is sized on.\<close>

definition order_basis :: "router_config \<Rightarrow> cycle_context option \<Rightarrow> bars_input \<Rightarrow> risk_decision \<Rightarrow> rat \<times> rat \<Rightarrow> bool" where
  "order_basis c cx bars d basis \<longleftrightarrow> (if rc_pullback c
     then \<exists>q. prepare_pullback (rd_side d) (plan_levels d) bars (structural_stop cx (fst (snd (plan_levels d)))) = Inr (Inr q) \<and> basis = (pb_limit q, pb_stop q)
     else basis = (fst (plan_levels d), fst (snd (plan_levels d))))"

lemma flat_sent:
  assumes run: "route_flat c lco w now cx bars plan d client run symbol opposite l g = Some (Inr ((out, why), l', g'))"
    and eurusd: "symbol = ''EURUSD''" and out: "out \<in> set SENT_OUTCOMES" and flat: "opposite = None \<Longrightarrow> live_rows (db_trades (dr_db g)) = []"
  shows "\<not> rc_dry c \<and> (\<exists>u basis. order_basis c cx bars d basis \<and> order_sent client d symbol u (dr_db g')
     \<and> (units_allowed c lco (rw_loss w) d basis now u \<or> units_allowed c lco (rw_loss_after w) d basis now u))"
proof -
  have refused: "not_routed now client x l y \<noteq> ((out, why), l', g')" for x y using out by (auto simp: not_routed_def SENT_OUTCOMES_def)
  obtain pull where pull: "(if rc_pullback c \<and> symbol = ''EURUSD'' then ebind (prepare_pullback (rd_side d) (plan_levels d) bars
      (structural_stop cx (fst (snd (plan_levels d))))) (\<lambda>p. Inr (Some p)) else Inr None) = Inr pull"
    using run by (auto simp: route_flat_def Let_def split: sum.splits)
  define g1 where "g1 = (case pull of None \<Rightarrow> g | Some p \<Rightarrow> note_event now (pullback_note client (rd_side d) p) g)"
  have same: "db_trades (dr_db g1) = db_trades (dr_db g)" by (simp add: g1_def note_event_trades split: option.split)
  define q where "q = (case pull of Some (Inr q) \<Rightarrow> Some q | _ \<Rightarrow> None)"
  define basis where "basis = (case q of Some q \<Rightarrow> (pb_limit q, pb_stop q) | None \<Rightarrow> (fst (plan_levels d), fst (snd (plan_levels d))))"
  note run = run [unfolded route_flat_def Let_def pull sum.case g1_def [symmetric]]
  have planned: "pull \<noteq> Some (Inl x)" for x using run refused by auto
  then have b: "order_basis c cx bars d basis"
    using pull eurusd by (auto simp: order_basis_def basis_def q_def ebind_eq_Inr split: if_splits option.splits sum.splits)
  obtain o2 l2 s2 where sz: "sized c lco (rw_loss w) client run d (fst basis) (snd basis) now l (dr_db g1) = (o2, l2, s2)" by (metis prod_cases3)
  have go: "(case o2 of Inl (out, why) \<Rightarrow> Some (Inr ((out, Some why), l2, g1\<lparr>dr_db := s2\<rparr>))
      | Inr units \<Rightarrow> reverse_and_place c lco w now plan d client run symbol opposite units (plan_levels d) q basis l2 (g1\<lparr>dr_db := s2\<rparr>))
    = Some (Inr ((out, why), l', g'))"
    using run planned sz by (auto simp: q_def basis_def split: option.splits sum.splits)
  then obtain units where units: "o2 = Inr units" using sized_refused sz out by (cases o2) (auto split: prod.splits)
  have "opposite = None \<Longrightarrow> live_rows (db_trades (dr_db (g1\<lparr>dr_db := s2\<rparr>))) = []"
    using flat same sized_same [OF sz [unfolded units]] by simp
  moreover have "reverse_and_place c lco w now plan d client run symbol opposite units (plan_levels d) q basis l2 (g1\<lparr>dr_db := s2\<rparr>) = Some (Inr ((out, why), l', g'))"
    using go units by simp
  ultimately show ?thesis using reverse_sent [OF _ out _ sized_allowed [OF sz [unfolded units]]] b by blast
qed


text \<open>An approved LONG on an empty book, a quote that does not trade and a broker that fills.\<close>

definition ordered_plan :: trade_plan where
  "ordered_plan = \<lparr>tp_symbol = ''EURUSD'', tp_side = LONG, tp_timeframe = ''5m'', tp_entry = PDec (11 / 10), tp_stop = PDec (10975 / 10000),
     tp_target = PDec (1105 / 1000), tp_risk_reward = PDec 2, tp_run_id = Some ''r1'', tp_as_of = None, tp_policy_version = POLICY_FX, tp_target_decision = JNull\<rparr>"

definition gate_decision :: risk_decision where
  "gate_decision = \<lparr>rd_status = APPROVED, rd_symbol = ''EURUSD'', rd_side = LONG, rd_quantity = PDec 1000, rd_capital_at_risk = PDec 250,
     rd_entry = PDec (11 / 10), rd_stop = PDec (10975 / 10000), rd_target = PDec (1105 / 1000), rd_reason = [], rd_equity = PDec 100000,
     rd_risk_fraction = PDec (1 / 100), rd_multiplier = PInt 1\<rparr>"

definition gate_report :: floor_report where
  "gate_report = \<lparr>fr_run_id = ''r1'', fr_as_of = None, fr_symbol = ''EURUSD'', fr_trade_plan = Some ordered_plan, fr_risk_decision = Some gate_decision,
     fr_final_status = PLAN_READY\<rparr>"

definition gate_context :: cycle_context where
  "gate_context = \<lparr>cx_symbol = Some ''EURUSD'', cx_run = Some ''r1'', cx_eligible = True, cx_deterministic = Some gate_report, cx_ai = Some gate_report,
     cx_target = JNull\<rparr>"

definition gate_config :: router_config where
  "gate_config = \<lparr>rc_dry = False, rc_closing_only = False, rc_friday = Some 15, rc_hold = \<lparr>max_hold = 5, flatten_tod = 1005 * MINUTE, day1_rule = False\<rparr>,
     rc_reversal = True, rc_pullback = False, rc_max_units = 1000, rc_hook = None\<rparr>"

definition gate_loss :: loss_world where
  "gate_loss = \<lparr>lw_balance = Inr \<lparr>bb_equity = 100000, bb_tx = None\<rparr>, lw_transfers = None, lw_replies = (\<lambda>_ _. Failed []), lw_writes = (\<lambda>_ _. True), lw_commit = True\<rparr>"

definition gate_reads :: broker_reads where
  "gate_reads = \<lparr>bv_trades = Some [], bv_pending = None, bv_trade_for = (\<lambda>_. None), bv_ext = (\<lambda>c. c)\<rparr>"

definition gate_world :: route_world where
  "gate_world = \<lparr>rw_view = gate_reads, rw_episode = [], rw_view_after = gate_reads, rw_episode_after = [], rw_open_allowed = True,
     rw_reversal_quote = (\<lambda>_. No_Quote), rw_anchor_quote = (\<lambda>_. Raw_Quote False (PDec 1) (PDec 1)), rw_loss = gate_loss, rw_loss_after = gate_loss,
     rw_close = Failed [], rw_submission = Submitted RES_ACCEPTED (Some ''7'') None, rw_seen = Some []\<rparr>"

definition gate_router :: demo_router where
  "gate_router = \<lparr>dr_db = empty_db, dr_blocked = None, dr_flatten_ticks = 0, dr_manual_ticks = 0, dr_friday_alerted = None\<rparr>"

definition gate_now :: instant where "gate_now = 20004 * DAY"
definition gate_latch :: loss_latch where "gate_latch = \<lparr>ll_daily = None, ll_dd = False\<rparr>"

lemma gate_candidate: "candidate_of PLAN_READY (Some gate_context) = Candidate ordered_plan gate_decision ''EURUSD'' ''r1''"
  by code_simp

lemma gate_entry: "entry_gate gate_config gate_now ''aif-r1'' gate_router = Inr None"
  by code_simp

lemma gate_route:
  "case route gate_config None gate_world PLAN_READY gate_now (Some gate_context) No_Bars (Some []) gate_latch gate_router of
     Some (Inr ((out, _), _, g)) \<Rightarrow> out = ''ACCEPTED'' \<and> map t_units (db_trades (dr_db g)) = [1000] | _ \<Rightarrow> False"
  by code_simp


end
