(* ===== verification/LossHalt.thy ===== *)
theory LossHalt
  imports DailyLoss
begin

text \<open>
  What a loss halt is worth: once it is declared it is honoured until it is released, in any order of evaluations,
  transfers and operator calls, and whichever of their writes fail.
\<close>

section \<open>Sequences of operations\<close>

datatype loss_op =
    Evaluate writes pynum pynum instant
  | Transfer bool pynum "string option" string string instant
  | Clear_Daily writes string string instant
  | Clear_Drawdown writes string string instant

fun op_time :: "loss_op \<Rightarrow> instant" where
  "op_time (Evaluate _ _ _ now) = now"
| "op_time (Transfer _ _ _ _ _ now) = now"
| "op_time (Clear_Daily _ _ _ now) = now"
| "op_time (Clear_Drawdown _ _ _ now) = now"

fun is_clear_daily :: "loss_op \<Rightarrow> bool" where
  "is_clear_daily (Clear_Daily _ _ _ _) = True"
| "is_clear_daily _ = False"

fun is_clear_drawdown :: "loss_op \<Rightarrow> bool" where
  "is_clear_drawdown (Clear_Drawdown _ _ _ _) = True"
| "is_clear_drawdown _ = False"

fun run_op :: "loss_config \<Rightarrow> loss_op \<Rightarrow> loss_latch \<times> demo_db \<Rightarrow> loss_latch \<times> demo_db" where
  "run_op c (Evaluate w nav planned now) (l, s) = snd (evaluate_loss w c nav planned now l s)"
| "run_op c (Transfer ok net tx actor why now) (l, s) = (l, case apply_transfer ok c net tx actor why now s of Inr (_, s') \<Rightarrow> s' | Inl _ \<Rightarrow> s)"
| "run_op c (Clear_Daily w actor why now) (l, s) = snd (clear_daily_halt w actor why now l s)"
| "run_op c (Clear_Drawdown w actor why now) (l, s) = snd (clear_drawdown_halt w actor why now l s)"

definition run_ops :: "loss_config \<Rightarrow> loss_op list \<Rightarrow> loss_latch \<times> demo_db \<Rightarrow> loss_latch \<times> demo_db" where
  "run_ops c ops ls = fold (run_op c) ops ls"

section \<open>A declared halt\<close>

definition dd_declared :: "loss_latch \<Rightarrow> demo_db \<Rightarrow> bool" where
  "dd_declared l s \<longleftrightarrow> ll_dd l \<or> flag_of DD_HALT_FLAG s \<noteq> JNull"

definition day_declared :: "instant \<Rightarrow> loss_latch \<Rightarrow> demo_db \<Rightarrow> bool" where
  "day_declared key l s \<longleftrightarrow> ll_daily l = Some key \<or> (flag_of HALT_FLAG s = JTime key \<and> flag_of DAY_FLAG s = JTime key)"

lemma flag_set [simp]: "flag_of k (set_flag k' v s) = (if k = k' then v else flag_of k s)"
  by (simp add: flag_of_def set_flag_def)

lemma flag_note [simp]: "flag_of k (journal_note now n s) = flag_of k s"
  by (simp add: flag_of_def journal_note_def split: prod.split)

lemma flag_write [simp]: "flag_of k (write_flag w k' v s) = (if k = k' \<and> w k' v then v else flag_of k s)"
  by (simp add: write_flag_def)

lemma flag_write_all: "k \<notin> fst ` set kvs \<Longrightarrow> flag_of k (snd (write_all w kvs s)) = flag_of k s"
  by (induction w kvs s rule: write_all.induct) auto

lemma flags_distinct [simp]:
  "DD_HALT_FLAG \<noteq> HALT_FLAG" "HALT_FLAG \<noteq> DD_HALT_FLAG" "DAY_FLAG \<noteq> HALT_FLAG" "DAY_FLAG \<noteq> DD_HALT_FLAG"
  "HALT_FLAG \<noteq> DAY_FLAG" "DD_HALT_FLAG \<noteq> DAY_FLAG"
  by (simp_all add: loss_flags)

lemma start_drawdown_flags:
  assumes "k \<in> {DAY_FLAG, HALT_FLAG, DD_HALT_FLAG}" shows "flag_of k (snd (start_drawdown w c nav s)) = flag_of k s"
proof -
  have "k \<noteq> DD_TRANSFERS_FLAG" "k \<noteq> DD_START_FLAG" using assms by (auto simp: loss_flags)
  then show ?thesis by (auto simp: start_drawdown_def flag_write_all simp del: write_all.simps)
qed

lemma roll_day_dd:
  assumes "roll_day w now nav l s = (done, l', s')" shows "ll_dd l' = ll_dd l \<and> flag_of DD_HALT_FLAG s' = flag_of DD_HALT_FLAG s"
proof -
  let ?kvs = "[(E0_FLAG, JDec (case baseline now s of Some b \<Rightarrow> b | None \<Rightarrow> nav)), (TRANSFERS_FLAG, JDec 0), (HALT_FLAG, JNull),
    (DAY_FLAG, JTime (loss_key now))]"
  have "flag_of DD_HALT_FLAG (snd (write_all w ?kvs s)) = flag_of DD_HALT_FLAG s" by (rule flag_write_all) (simp add: loss_flags)
  then show ?thesis using assms by (cases "write_all w ?kvs s") (auto simp: roll_day_def Let_def split: if_splits simp del: write_all.simps)
qed

lemma roll_day_latch: "roll_day w now nav l s = (done, l', s') \<Longrightarrow> ll_daily l = Some (loss_key now) \<Longrightarrow> ll_daily l' = Some (loss_key now)"
  by (auto simp: roll_day_def Let_def split: prod.splits if_splits)

lemma roll_day_done: "roll_day w now nav l s = (True, l', s') \<Longrightarrow> flag_of DAY_FLAG s' = JTime (loss_key now)"
  by (auto simp: roll_day_def Let_def split: prod.splits if_splits)

lemma judge_keeps:
  assumes "judge w c nav planned now l s = (d, l', s')"
  shows "dd_declared l s \<Longrightarrow> dd_declared l' s'" and "day_declared (loss_key now) l s \<Longrightarrow> day_declared (loss_key now) l' s'"
    and "ld_dd d \<Longrightarrow> dd_declared l' s'" and "ld_halted d \<Longrightarrow> flag_of DAY_FLAG s = JTime (loss_key now) \<Longrightarrow> day_declared (loss_key now) l' s'"
    and "dd_declared l s \<or> day_declared (loss_key now) l s \<Longrightarrow> \<not> ld_entry d"
proof -
  have tail: "flag_of k (snd (write_all w [(LAST_NAV_FLAG, JDec nav), (LAST_AT_FLAG, JTime now)] t)) = flag_of k t"
    if "k \<in> {DAY_FLAG, HALT_FLAG, DD_HALT_FLAG}" for k t using that by (intro flag_write_all) (auto simp: loss_flags)
  note run = assms [unfolded judge_def Let_def halt_state_def prod.case]
  show "dd_declared l s \<Longrightarrow> dd_declared l' s'" and "day_declared (loss_key now) l s \<Longrightarrow> day_declared (loss_key now) l' s'"
    and "ld_dd d \<Longrightarrow> dd_declared l' s'" and "ld_halted d \<Longrightarrow> flag_of DAY_FLAG s = JTime (loss_key now) \<Longrightarrow> day_declared (loss_key now) l' s'"
    and "dd_declared l s \<or> day_declared (loss_key now) l s \<Longrightarrow> \<not> ld_entry d"
    using run by (auto simp: dd_declared_def day_declared_def halt_drawdown_def halt_daily_def Let_def tail split: if_splits prod.splits
        simp del: write_all.simps)
qed

text \<open>An evaluation is one of: refused outright, a NAV at or below zero, a roll or a start that failed, or \<open>judge\<close>
  on the state they left.\<close>

lemma evaluate_loss_judged:
  assumes "evaluate_loss w c nav planned now l s = (d, l', s')" and "as_decimal nav = Some n" and "0 < n"
  obtains "\<not> ld_entry d" "\<not> ld_dd d" "\<not> ld_halted d" "dd_declared l s \<longrightarrow> dd_declared l' s'" "day_declared (loss_key now) l s \<longrightarrow> day_declared (loss_key now) l' s'"
  | l1 s1 where "judge w c n planned now l1 s1 = (d, l', s')" "flag_of DAY_FLAG s1 = JTime (loss_key now)" "dd_declared l s \<longrightarrow> dd_declared l1 s1"
      "day_declared (loss_key now) l s \<longrightarrow> day_declared (loss_key now) l1 s1"
proof (cases "loss_state_ok s")
  case False
  then show ?thesis using assms that(1) by (auto simp: evaluate_loss_def loss_refused_def)
next
  case True
  obtain rolled l1 s1 where roll: "(if flag_of DAY_FLAG s \<noteq> JTime (loss_key now) then roll_day w now n l s else (True, l, s)) = (rolled, l1, s1)"
    by (metis prod_cases3)
  have dd: "dd_declared l s \<longrightarrow> dd_declared l1 s1" using roll roll_day_dd by (fastforce simp: dd_declared_def split: if_splits)
  have day: "day_declared (loss_key now) l s \<longrightarrow> day_declared (loss_key now) l1 s1"
    using roll roll_day_latch by (fastforce simp: day_declared_def split: if_splits)
  have key: "rolled \<longrightarrow> flag_of DAY_FLAG s1 = JTime (loss_key now)" using roll roll_day_done by (fastforce split: if_splits)
  obtain started s2 where start: "start_drawdown w c n s1 = (started, s2)" by force
  have same: "flag_of k s2 = flag_of k s1" if "k \<in> {DAY_FLAG, HALT_FLAG, DD_HALT_FLAG}" for k using start_drawdown_flags [OF that] start by (metis snd_conv)
  have dd2: "dd_declared l s \<longrightarrow> dd_declared l1 s2" and day2: "day_declared (loss_key now) l s \<longrightarrow> day_declared (loss_key now) l1 s2"
    using dd day by (simp_all add: dd_declared_def day_declared_def same)
  have run: "(if \<not> rolled then (loss_refused STATE_UNREADABLE, l1, s1) else if \<not> started then (loss_refused STATE_UNREADABLE, l1, s2)
      else judge w c n planned now l1 s2) = (d, l', s')"
    using assms True start by (simp add: evaluate_loss_def roll split: if_splits)
  show ?thesis
  proof (cases "rolled \<and> started")
    case True
    then show ?thesis using run key same [of DAY_FLAG] dd2 day2 by (intro that(2)) auto
  next
    case False
    then show ?thesis using run dd day dd2 day2 by (intro that(1)) (auto simp: loss_refused_def split: if_splits)
  qed
qed

lemma evaluate_loss_keeps:
  assumes "evaluate_loss w c nav planned now l s = (d, l', s')"
  shows "dd_declared l s \<longrightarrow> dd_declared l' s' \<and> \<not> ld_entry d" and "day_declared (loss_key now) l s \<longrightarrow> day_declared (loss_key now) l' s' \<and> \<not> ld_entry d"
    and "ld_dd d \<longrightarrow> dd_declared l' s'"
proof -
  consider "as_decimal nav = None" | n where "as_decimal nav = Some n" "n \<le> 0" | n where "as_decimal nav = Some n" "0 < n" by (metis not_le option.exhaust)
  then have *: "(dd_declared l s \<longrightarrow> dd_declared l' s' \<and> \<not> ld_entry d) \<and> (day_declared (loss_key now) l s \<longrightarrow> day_declared (loss_key now) l' s' \<and> \<not> ld_entry d)
      \<and> (ld_dd d \<longrightarrow> dd_declared l' s')"
  proof cases
    case 1
    then show ?thesis using assms by (auto simp: evaluate_loss_def loss_refused_def)
  next
    case 2
    then show ?thesis using assms
      by (auto simp: evaluate_loss_def non_positive_def halt_state_def halt_drawdown_def dd_declared_def day_declared_def Let_def split: prod.splits if_splits)
  next
    case 3
    show ?thesis
    proof (rule evaluate_loss_judged [OF assms 3])
      fix l1 s1 assume j: "judge w c n planned now l1 s1 = (d, l', s')"
        and "dd_declared l s \<longrightarrow> dd_declared l1 s1" "day_declared (loss_key now) l s \<longrightarrow> day_declared (loss_key now) l1 s1"
      then show ?thesis using judge_keeps [OF j] by auto
    qed auto
  qed
  then show "dd_declared l s \<longrightarrow> dd_declared l' s' \<and> \<not> ld_entry d" and "day_declared (loss_key now) l s \<longrightarrow> day_declared (loss_key now) l' s' \<and> \<not> ld_entry d"
    and "ld_dd d \<longrightarrow> dd_declared l' s'" by blast+
qed

lemma evaluate_loss_halted:
  assumes "evaluate_loss w c nav planned now l s = (d, l', s')" and "as_decimal nav = Some n" and "0 < n" and "ld_halted d"
  shows "day_declared (loss_key now) l' s'"
proof (rule evaluate_loss_judged [OF assms(1-3)])
  fix l1 s1 assume j: "judge w c n planned now l1 s1 = (d, l', s')" and "flag_of DAY_FLAG s1 = JTime (loss_key now)"
  then show ?thesis using judge_keeps(4) [OF j assms(4)] by auto
qed (use assms(4) in auto)

lemma fold_set_flags: "k \<notin> fst ` set kvs \<Longrightarrow> flag_of k (fold (\<lambda>(k, v). set_flag k v) kvs s) = flag_of k s"
  by (induction kvs arbitrary: s) auto

lemma apply_all_flag: "k \<notin> fst ` set kvs \<Longrightarrow> flag_of k (apply_all now kvs [] note s) = flag_of k s"
  by (simp add: apply_all_def Let_def fold_set_flags split: option.split)

lemma apply_transfer_flags:
  assumes "apply_transfer ok c net tx actor why now s = Inr (r, s')" and k: "k \<in> {DAY_FLAG, HALT_FLAG, DD_HALT_FLAG}"
  shows "flag_of k s' = flag_of k s"
proof -
  have fl: "k \<notin> fst ` set (fst (transfer_flags c n now s))" "k \<noteq> TX_FLAG" for n
    using k by (auto simp: transfer_flags_def Let_def loss_flags split: option.splits if_splits)
  obtain n where n: "as_decimal net = Some n" using assms(1) by (auto simp: apply_transfer_def split: option.splits)
  obtain flags t extra where tf: "transfer_flags c n now s = (flags, t, extra)" by (metis prod_cases3)
  have "k \<notin> fst ` set ((case tx of Some t \<Rightarrow> [(TX_FLAG, JStr t)] | None \<Rightarrow> []) @ flags)" "k \<notin> fst ` set (case tx of Some t \<Rightarrow> [(TX_FLAG, JStr t)] | None \<Rightarrow> [])"
    using fl(1) [of n] fl(2) tf by (auto split: option.splits)
  then show ?thesis using assms(1) n tf by (auto simp: apply_transfer_def Let_def apply_all_flag split: if_splits)
qed

lemma run_op_keeps:
  assumes "run_op c op (l, s) = (l', s')"
  shows "\<not> is_clear_drawdown op \<Longrightarrow> dd_declared l s \<Longrightarrow> dd_declared l' s'"
    and "\<not> is_clear_daily op \<Longrightarrow> loss_key (op_time op) = key \<Longrightarrow> day_declared key l s \<Longrightarrow> day_declared key l' s'"
proof -
  have clear: "flag_of k (snd (write_all w [(DD_HALT_FLAG, JNull), (DD_START_FLAG, JNull), (DD_TRANSFERS_FLAG, JNull)] s)) = flag_of k s"
    if "k \<in> {DAY_FLAG, HALT_FLAG}" for k w using that by (intro flag_write_all) (auto simp: loss_flags)
  show "\<not> is_clear_drawdown op \<Longrightarrow> dd_declared l s \<Longrightarrow> dd_declared l' s'"
  proof (cases op)
    case (Evaluate w nav planned now)
    assume "dd_declared l s"
    then show ?thesis using assms Evaluate evaluate_loss_keeps(1) by (cases "evaluate_loss w c nav planned now l s") auto
  qed (use assms apply_transfer_flags in \<open>auto simp: dd_declared_def clear_daily_halt_def split: sum.splits if_splits\<close>)
  show "\<not> is_clear_daily op \<Longrightarrow> loss_key (op_time op) = key \<Longrightarrow> day_declared key l s \<Longrightarrow> day_declared key l' s'"
  proof (cases op)
    case (Evaluate w nav planned now)
    assume "day_declared key l s" "loss_key (op_time op) = key"
    then show ?thesis using assms Evaluate evaluate_loss_keeps(2) by (cases "evaluate_loss w c nav planned now l s") auto
  next
    case (Clear_Drawdown w actor why now)
    assume "day_declared key l s"
    then show ?thesis using assms Clear_Drawdown clear [of HALT_FLAG w] clear [of DAY_FLAG w]
      by (auto simp: day_declared_def clear_drawdown_halt_def split: prod.splits if_splits simp del: write_all.simps)
  qed (use assms apply_transfer_flags in \<open>auto simp: day_declared_def split: sum.splits\<close>)
qed

lemma run_ops_keep_dd:
  "\<forall>op \<in> set ops. \<not> is_clear_drawdown op \<Longrightarrow> dd_declared l s \<Longrightarrow> run_ops c ops (l, s) = (l', s') \<Longrightarrow> dd_declared l' s'"
proof (induction ops arbitrary: l s)
  case (Cons op ops)
  obtain l1 s1 where op: "run_op c op (l, s) = (l1, s1)" by force
  then show ?case using Cons run_op_keeps(1) [OF op] by (auto simp: run_ops_def)
qed (simp add: run_ops_def)

lemma run_ops_keep_day:
  "\<forall>op \<in> set ops. \<not> is_clear_daily op \<and> loss_key (op_time op) = key \<Longrightarrow> day_declared key l s \<Longrightarrow> run_ops c ops (l, s) = (l', s') \<Longrightarrow> day_declared key l' s'"
proof (induction ops arbitrary: l s)
  case (Cons op ops)
  obtain l1 s1 where op: "run_op c op (l, s) = (l1, s1)" by force
  then show ?case using Cons run_op_keeps(2) [OF op] by (auto simp: run_ops_def)
qed (simp add: run_ops_def)

section \<open>The property\<close>

text \<open>
  C39. Once an evaluation has declared the drawdown halt, every later evaluation, at any time and with any NAV, refuses the
  entry and the halt is reported for flattening, until the operator clears it; once an evaluation of a positive NAV has declared
  the daily halt, the same holds for the rest of that New York day, until the operator clears it. Neither depends on whether any of
  the writes in between succeeded, nor on the transfers recorded in between.
\<close>

theorem a_loss_halt_holds_until_released:
  assumes first: "evaluate_loss w c nav planned now l s = (d, l1, s1)"
    and between: "run_ops c ops (l1, s1) = (l2, s2)"
    and later: "evaluate_loss w' c nav' planned' now' l2 s2 = (d', l3, s3)"
  shows "(ld_dd d \<and> (\<forall>op \<in> set ops. \<not> is_clear_drawdown op) \<longrightarrow> \<not> ld_entry d' \<and> snd (halt_state now' l2 s2))
    \<and> (ld_halted d \<and> (\<exists>n > 0. as_decimal nav = Some n) \<and> loss_key now' = loss_key now
        \<and> (\<forall>op \<in> set ops. \<not> is_clear_daily op \<and> loss_key (op_time op) = loss_key now)
      \<longrightarrow> \<not> ld_entry d' \<and> fst (halt_state now' l2 s2))"
proof (intro conjI impI)
  assume h: "ld_dd d \<and> (\<forall>op \<in> set ops. \<not> is_clear_drawdown op)"
  then have "dd_declared l2 s2" using evaluate_loss_keeps(3) [OF first] run_ops_keep_dd between by blast
  then show "\<not> ld_entry d'" and "snd (halt_state now' l2 s2)"
    using evaluate_loss_keeps(1) [OF later] by (auto simp: halt_state_def dd_declared_def Let_def)
next
  assume h: "ld_halted d \<and> (\<exists>n > 0. as_decimal nav = Some n) \<and> loss_key now' = loss_key now
        \<and> (\<forall>op \<in> set ops. \<not> is_clear_daily op \<and> loss_key (op_time op) = loss_key now)"
  then have "day_declared (loss_key now') l2 s2" using evaluate_loss_halted [OF first] run_ops_keep_day between by fastforce
  then show "\<not> ld_entry d'" and "fst (halt_state now' l2 s2)"
    using evaluate_loss_keeps(2) [OF later] by (auto simp: halt_state_def day_declared_def Let_def)
qed

text \<open>A day that opens at 100000 and falls to 94000 within the hour, every write of a halt lost; then a deposit, and a NAV
  of 101000.\<close>

definition demo_loss :: loss_config where "demo_loss = \<lparr>lc_fraction = 1 / 50, lc_flatten = True, lc_start = None\<rparr>"
definition lost_writes :: writes where "lost_writes k v \<longleftrightarrow> (k = HALT_FLAG \<longrightarrow> v = JNull) \<and> k \<noteq> DD_HALT_FLAG"
definition loss_day :: instant where "loss_day = 20000 * DAY"

definition opened_day :: demo_db where
  "opened_day = empty_db\<lparr>db_flags := [(DAY_FLAG, JTime (loss_key loss_day)), (E0_FLAG, JDec 100000), (TRANSFERS_FLAG, JDec 0), (HALT_FLAG, JNull),
     (DD_START_FLAG, JDec 100000)]\<rparr>"

definition fallen :: "loss_decision \<times> loss_latch \<times> demo_db" where
  "fallen = evaluate_loss lost_writes demo_loss (PDec 94000) PNone (loss_day + 60 * MINUTE) \<lparr>ll_daily = None, ll_dd = False\<rparr> opened_day"

definition deposit :: loss_op where
  "deposit = Transfer True (PDec 7000) (Some ''12'') ''broker'' ''TRANSFER_FUNDS'' (loss_day + 90 * MINUTE)"

lemma opened_day_flags:
  "flag_of DAY_FLAG opened_day = JTime (loss_key loss_day)" "number_at E0_FLAG opened_day = PDec 100000"
  "number_at TRANSFERS_FLAG opened_day = PDec 0" "number_at DD_START_FLAG opened_day = PDec 100000" "number_at DD_TRANSFERS_FLAG opened_day = PNone"
  "flag_of HALT_FLAG opened_day = JNull" "flag_of DD_HALT_FLAG opened_day = JNull" "flag_of DD_START_FLAG opened_day = JDec 100000"
  "flag_of DD_TRANSFERS_FLAG opened_day = JNull" "flag_of E0_FLAG opened_day = JDec 100000" "flag_of TRANSFERS_FLAG opened_day = JDec 0"
  by (simp_all add: opened_day_def number_at_def flag_number_def flag_of_def loss_flags)

lemma opened_day_ok: "loss_state_ok opened_day"
  by (simp add: loss_state_ok_def opened_day_flags positive_dec_def)

lemma same_day: "loss_key (loss_day + 60 * MINUTE) = loss_key loss_day"
  by code_simp

lemma fallen_statuses:
  "ls_breached (daily_loss_status (PDec 100000) (PDec 94000) (PDec 0) PNone (PDec (1 / 50)))"
  "dd_breached (drawdown_status (PDec 100000) (PDec 94000) (PDec DRAWDOWN_FRACTION))"
  by code_simp+

lemma fallen_eval: "ld_halted (fst fallen) \<and> ld_dd (fst fallen)"
proof -
  have start: "opt_dec (dd_start_equity demo_loss opened_day) = PDec 100000"
    by (simp add: dd_start_equity_def demo_loss_def opened_day_flags positive_dec_def) code_simp
  have lc: "lc_fraction demo_loss = 1 / 50" by (simp add: demo_loss_def)
  have judged: "fallen = judge lost_writes demo_loss 94000 PNone (loss_day + 60 * MINUTE) \<lparr>ll_daily = None, ll_dd = False\<rparr> opened_day"
    by (simp add: fallen_def evaluate_loss_def opened_day_ok same_day opened_day_flags start_drawdown_def)
  show ?thesis unfolding judged judge_def Let_def
    by (auto simp: start opened_day_flags lc fallen_statuses split: prod.split)
qed

lemma loss_day_keys: "loss_key (loss_day + 120 * MINUTE) = loss_key (loss_day + 60 * MINUTE)" "loss_key (op_time deposit) = loss_key (loss_day + 60 * MINUTE)"
  by code_simp+

theorem a_loss_halt_holds_until_released_witness:
  "\<not> ld_entry (fst (evaluate_loss lost_writes demo_loss (PDec 101000) (PDec 10) (loss_day + 120 * MINUTE)
      (fst (run_ops demo_loss [deposit] (snd fallen))) (snd (run_ops demo_loss [deposit] (snd fallen)))))"
proof -
  obtain d l1 s1 where f: "fallen = (d, l1, s1)" by (metis prod_cases3)
  obtain l2 s2 where b: "run_ops demo_loss [deposit] (l1, s1) = (l2, s2)" by force
  obtain d' l3 s3 where e: "evaluate_loss lost_writes demo_loss (PDec 101000) (PDec 10) (loss_day + 120 * MINUTE) l2 s2 = (d', l3, s3)"
    by (metis prod_cases3)
  have "ld_halted d" using fallen_eval unfolding f by simp
  moreover have "\<exists>n > 0. as_decimal (PDec 94000) = Some n" by simp
  ultimately have "\<not> ld_entry d'"
    using a_loss_halt_holds_until_released [OF f [unfolded fallen_def] b e] loss_day_keys by (simp add: deposit_def)
  then show ?thesis unfolding f snd_conv b fst_conv e .
qed

end
