(* ===== verification/Accounts.thy ===== *)
theory Accounts
  imports Prelude PyTime Codec TradeDuration
begin

text \<open>
  \<open>execution/account_registry.py\<close>: the switch of every account and the emergency stop, in their own database and in a
  latch of the process, and the per-account circuit breaker. Every read fails closed. A file that cannot be read, a
  connection that fails and a transaction that rolls back are arguments; the file's permissions and paths are not
  modelled. \<open>emergency_flag\<close> is the parser of \<open>execution/broker_config.py\<close>.
\<close>

section \<open>State\<close>

definition ACCOUNT_KEYS :: "string list" where "ACCOUNT_KEYS = [''paper'', ''broker_demo'', ''real'']"

record account_row =
  ar_key :: string
  ar_mode :: string
  ar_enabled :: int
  ar_shadow :: int
  ar_updated :: instant

record switch_audit =
  sa_ts :: instant
  sa_key :: string
  sa_field :: string
  sa_old :: "int option"
  sa_new :: int
  sa_actor :: string
  sa_source :: string
  sa_reason :: "string option"

record emergency_row =
  em_active :: int
  em_reason :: "string option"
  em_updated :: instant

record registry_db =
  rg_accounts :: "account_row list"
  rg_audit :: "switch_audit list"
  rg_emergency :: "emergency_row option"

text \<open>The audit keeps the old and new values, stored as text, as the numbers they spell.\<close>

text \<open>The database every process shares (\<open>None\<close>: no file yet) and the latch of this process.\<close>

record registry =
  rg_db :: "registry_db option"
  rg_latch :: "string option"

datatype registry_error = Guard_Error string | Sqlite_Error

text \<open>How the writes of one call go.\<close>

datatype write_fault = Written | No_Connection | Rolled_Back

section \<open>Reads\<close>

definition emergency_flag :: "string option \<Rightarrow> bool" where
  "emergency_flag raw \<longleftrightarrow> map lower_char (str_strip (case raw of None \<Rightarrow> ''0'' | Some t \<Rightarrow> t)) \<notin> {'''', ''0'', ''false'', ''no'', ''off''}"

text \<open>The environment's switch; \<open>None\<close> is a mapping that raises.\<close>

definition env_emergency :: "string option option \<Rightarrow> bool" where
  "env_emergency env = (case env of None \<Rightarrow> True | Some raw \<Rightarrow> emergency_flag raw)"

record control_state =
  cs_enabled :: "(string, bool) dict"
  cs_shadow :: "(string, bool) dict"
  cs_emergency :: bool

definition read_state :: "bool \<Rightarrow> registry_db option \<Rightarrow> control_state option" where
  "read_state readable d = (case d of None \<Rightarrow> None | Some x \<Rightarrow> if \<not> readable then None
     else let known = filter (\<lambda>r. ar_key r \<in> set ACCOUNT_KEYS \<and> ar_mode r = ar_key r) (rg_accounts x) in
       Some \<lparr>cs_enabled = fold (\<lambda>r. dput (ar_key r) (ar_enabled r = 1)) known [],
         cs_shadow = fold (\<lambda>r. dput (ar_key r) (ar_shadow r \<noteq> 0)) known [],
         cs_emergency = (case rg_emergency x of None \<Rightarrow> True | Some e \<Rightarrow> em_active e \<noteq> 0)\<rparr>)"

definition emergency_active :: "string option option \<Rightarrow> bool \<Rightarrow> registry \<Rightarrow> bool" where
  "emergency_active env readable g \<longleftrightarrow> rg_latch g \<noteq> None \<or> env_emergency env
     \<or> (case read_state readable (rg_db g) of None \<Rightarrow> True | Some s \<Rightarrow> cs_emergency s)"

definition is_allowed :: "string option option \<Rightarrow> bool \<Rightarrow> string \<Rightarrow> registry \<Rightarrow> bool" where
  "is_allowed env readable key g =
    (if key \<notin> set ACCOUNT_KEYS \<or> key = ''real'' \<or> env_emergency env then False
     else if rg_latch g \<noteq> None then False
     else (case read_state readable (rg_db g) of None \<Rightarrow> False
       | Some s \<Rightarrow> if cs_emergency s then False else (case dget (cs_enabled s) key of None \<Rightarrow> False | Some b \<Rightarrow> b)))"

text \<open>The view of the dashboard: key, locked and enabled of each account, readable, emergency.\<close>

definition read_control_snapshot :: "string option \<Rightarrow> bool \<Rightarrow> registry \<Rightarrow> bool \<times> bool \<times> (string \<times> bool \<times> bool) list" where
  "read_control_snapshot env readable g =
    (let state = read_state readable (rg_db g);
         emergency = (case state of None \<Rightarrow> True | Some s \<Rightarrow> emergency_flag env \<or> cs_emergency s \<or> rg_latch g \<noteq> None);
         stored = (\<lambda>key. case state of None \<Rightarrow> False | Some s \<Rightarrow> (case dget (cs_enabled s) key of None \<Rightarrow> False | Some b \<Rightarrow> b))
     in (state \<noteq> None, emergency, map (\<lambda>key. (key, key = ''real'', stored key \<and> \<not> emergency \<and> key \<noteq> ''real'')) ACCOUNT_KEYS))"

section \<open>Writes\<close>

definition empty_registry_db :: registry_db where
  "empty_registry_db = \<lparr>rg_accounts = [], rg_audit = [], rg_emergency = None\<rparr>"

text \<open>\<open>_connect\<close>: the tables, every missing switch OFF, no emergency unless one is stored.\<close>

definition add_account :: "instant \<Rightarrow> string \<Rightarrow> account_row list \<Rightarrow> account_row list" where
  "add_account now key rows = (if key \<in> ar_key ` set rows then rows
     else rows @ [\<lparr>ar_key = key, ar_mode = key, ar_enabled = 0, ar_shadow = 1, ar_updated = now\<rparr>])"

definition connect_registry :: "instant \<Rightarrow> registry_db option \<Rightarrow> registry_db" where
  "connect_registry now d = (let x = (case d of None \<Rightarrow> empty_registry_db | Some x \<Rightarrow> x) in
     x\<lparr>rg_accounts := fold (add_account now) ACCOUNT_KEYS (rg_accounts x),
       rg_emergency := (case rg_emergency x of None \<Rightarrow> Some \<lparr>em_active = 0, em_reason = None, em_updated = now\<rparr> | Some e \<Rightarrow> Some e)\<rparr>)"

definition initialize :: "instant \<Rightarrow> write_fault \<Rightarrow> registry \<Rightarrow> registry_error option \<times> registry" where
  "initialize now fault g = (if fault = No_Connection then (Some Sqlite_Error, g) else (None, g\<lparr>rg_db := Some (connect_registry now (rg_db g))\<rparr>))"

definition audited :: "switch_audit list \<Rightarrow> registry_db \<Rightarrow> registry_db" where
  "audited rows d = d\<lparr>rg_audit := rg_audit d @ rows\<rparr>"

definition set_enabled ::
  "string option option \<Rightarrow> string \<Rightarrow> bool \<Rightarrow> string \<Rightarrow> string \<Rightarrow> instant \<Rightarrow> write_fault \<Rightarrow> registry \<Rightarrow> registry_error option \<times> registry" where
  "set_enabled env key enabled actor source now fault g =
    (if key \<notin> set ACCOUNT_KEYS then (Some (Guard_Error ''unknown account''), g)
     else if key = ''real'' \<and> enabled then (Some (Guard_Error ''real account cannot be enabled''), g)
     else if actor = [] then (Some (Guard_Error ''actor required''), g)
     else if enabled \<and> env_emergency env then (Some (Guard_Error ''emergency stop active (AI_FLOOR_EMERGENCY_STOP)''), g)
     else if enabled \<and> rg_latch g \<noteq> None then (Some (Guard_Error ''emergency stop active (local latch)''), g)
     else if fault = No_Connection then (Some Sqlite_Error, g)
     else let d = connect_registry now (rg_db g); opened = g\<lparr>rg_db := Some d\<rparr> in
       if enabled \<and> map_option em_active (rg_emergency d) \<noteq> Some 0 then (Some (Guard_Error ''emergency stop active (registry)''), opened)
       else if fault = Rolled_Back then (Some Sqlite_Error, opened)
       else let old = map_option ar_enabled (find (\<lambda>r. ar_key r = key) (rg_accounts d)); new = (if enabled then 1 else 0) in
         (None, g\<lparr>rg_db := Some (audited [\<lparr>sa_ts = now, sa_key = key, sa_field = ''enabled'', sa_old = old,
             sa_new = new, sa_actor = actor, sa_source = source, sa_reason = None\<rparr>]
           (d\<lparr>rg_accounts := map (\<lambda>r. if ar_key r = key then r\<lparr>ar_enabled := new, ar_updated := now\<rparr> else r) (rg_accounts d)\<rparr>))\<rparr>))"

text \<open>Every switch OFF and the emergency flag set, in one transaction with its audit.\<close>

definition all_off :: "int \<Rightarrow> string option option \<Rightarrow> string \<Rightarrow> string \<Rightarrow> string \<Rightarrow> instant \<Rightarrow> registry_db \<Rightarrow> registry_db" where
  "all_off flag reason actor source why now d =
    (let entry = (\<lambda>key field old new. \<lparr>sa_ts = now, sa_key = key, sa_field = field, sa_old = old, sa_new = new, sa_actor = actor,
           sa_source = source, sa_reason = Some why\<rparr>);
         switched = map (\<lambda>r. entry (ar_key r) ''enabled'' (Some (ar_enabled r)) 0) (filter (\<lambda>r. ar_enabled r \<noteq> 0) (rg_accounts d))
     in audited (switched @ [entry ''ALL'' ''emergency_stop'' (map_option em_active (rg_emergency d)) flag])
       (d\<lparr>rg_accounts := map (\<lambda>r. r\<lparr>ar_enabled := 0, ar_updated := now\<rparr>) (rg_accounts d),
          rg_emergency := map_option (\<lambda>e. e\<lparr>em_active := flag, em_reason := (case reason of None \<Rightarrow> em_reason e | Some t \<Rightarrow> t), em_updated := now\<rparr>)
            (rg_emergency d)\<rparr>))"

text \<open>The latch is set before anything is written; the hook runs whether or not the write succeeded.\<close>

definition emergency_stop ::
  "string \<Rightarrow> string \<Rightarrow> string \<Rightarrow> instant \<Rightarrow> write_fault \<Rightarrow> bool \<Rightarrow> registry \<Rightarrow> (registry_error + bool) \<times> registry" where
  "emergency_stop actor reason source now fault hook_ok g =
    (let latched = g\<lparr>rg_latch := Some reason\<rparr>; d = connect_registry now (rg_db g);
         failed = Inl (Guard_Error ''emergency state could not be persisted (readers fail closed)'')
     in if fault = No_Connection then (failed, latched)
        else if fault = Rolled_Back then (failed, latched\<lparr>rg_db := Some d\<rparr>)
        else (Inr hook_ok, latched\<lparr>rg_db := Some (all_off 1 (Some (Some reason)) actor source reason now d)\<rparr>))"

definition clear_emergency ::
  "string \<Rightarrow> string \<Rightarrow> string \<Rightarrow> instant \<Rightarrow> write_fault \<Rightarrow> registry \<Rightarrow> registry_error option \<times> registry" where
  "clear_emergency actor reason source now fault g =
    (if actor = [] then (Some (Guard_Error ''actor required''), g)
     else if fault = No_Connection then (Some Sqlite_Error, g)
     else let d = connect_registry now (rg_db g) in
       if fault = Rolled_Back then (Some Sqlite_Error, g\<lparr>rg_db := Some d\<rparr>)
       else (None, \<lparr>rg_db = Some (all_off 0 None actor source reason now d), rg_latch = None\<rparr>))"

section \<open>The circuit breaker\<close>

datatype run_status = RUN_OK | RUN_ERROR | RUN_SKIPPED

record runner =
  rn_threshold :: nat
  rn_failures :: "string \<Rightarrow> nat"

definition make_runner :: "nat \<Rightarrow> py_error + runner" where
  "make_runner threshold = (if threshold < 1 then Inl (ValueError ''failure_threshold must be >= 1'')
     else Inr \<lparr>rn_threshold = threshold, rn_failures = (\<lambda>_. 0)\<rparr>)"

definition circuit_open :: "string \<Rightarrow> runner \<Rightarrow> bool" where
  "circuit_open key c \<longleftrightarrow> rn_threshold c \<le> rn_failures c key"

definition reset_account :: "string \<Rightarrow> runner \<Rightarrow> runner" where
  "reset_account key c = c\<lparr>rn_failures := (rn_failures c)(key := 0)\<rparr>"

text \<open>One operation: its value, or the name of what it raised.\<close>

definition run_account :: "string \<Rightarrow> string + 'v \<Rightarrow> runner \<Rightarrow> (run_status \<times> 'v option \<times> string option) \<times> runner" where
  "run_account key operation c = (if circuit_open key c then ((RUN_SKIPPED, None, Some ''circuit_open''), c)
     else (case operation of
         Inl e \<Rightarrow> ((RUN_ERROR, None, Some e), c\<lparr>rn_failures := (rn_failures c)(key := Suc (rn_failures c key))\<rparr>)
       | Inr v \<Rightarrow> ((RUN_OK, Some v, None), c\<lparr>rn_failures := (rn_failures c)(key := 0)\<rparr>)))"

fun run_each :: "(string \<times> (string + 'v)) list \<Rightarrow> runner \<Rightarrow> (string, run_status \<times> 'v option \<times> string option) dict \<times> runner" where
  "run_each [] c = ([], c)"
| "run_each ((key, operation) # rest) c = (case run_account key operation c of (out, c1) \<Rightarrow>
     (case run_each rest c1 of (outs, c2) \<Rightarrow> ((key, out) # outs, c2)))"

section \<open>Any number of processes\<close>

text \<open>A call of this process, or of another one with a latch of its own on the same database.\<close>

datatype registry_call =
    Initialize_Call instant write_fault
  | Switch_Call "string option option" string bool string string instant write_fault
  | Stop_Call string string string instant write_fault bool
  | Clear_Call string string string instant write_fault

datatype registry_event = Here registry_call | Elsewhere "string option" registry_call

fun run_call :: "registry_call \<Rightarrow> registry \<Rightarrow> registry" where
  "run_call (Initialize_Call now fault) g = snd (initialize now fault g)"
| "run_call (Switch_Call env key on actor source now fault) g = snd (set_enabled env key on actor source now fault g)"
| "run_call (Stop_Call actor why source now fault hook) g = snd (emergency_stop actor why source now fault hook g)"
| "run_call (Clear_Call actor why source now fault) g = snd (clear_emergency actor why source now fault g)"

fun run_event :: "registry_event \<Rightarrow> registry \<Rightarrow> registry" where
  "run_event (Here c) g = run_call c g"
| "run_event (Elsewhere l c) g = (run_call c (g\<lparr>rg_latch := l\<rparr>))\<lparr>rg_latch := rg_latch g\<rparr>"

fun clears :: "registry_event \<Rightarrow> bool" where
  "clears (Here (Clear_Call _ _ _ _ _)) = True"
| "clears (Elsewhere _ (Clear_Call _ _ _ _ _)) = True"
| "clears _ = False"

fun clears_here :: "registry_event \<Rightarrow> bool" where
  "clears_here (Here (Clear_Call _ _ _ _ _)) = True"
| "clears_here _ = False"

section \<open>The invariant\<close>

text \<open>A stored emergency leaves no switch on, and the real account is never on.\<close>

definition stored_ok :: "registry_db \<Rightarrow> bool" where
  "stored_ok d \<longleftrightarrow> (\<forall>r \<in> set (rg_accounts d). ar_key r = ''real'' \<longrightarrow> ar_enabled r = 0)
     \<and> (\<forall>e. rg_emergency d = Some e \<longrightarrow> em_active e \<noteq> 0 \<longrightarrow> (\<forall>r \<in> set (rg_accounts d). ar_enabled r = 0))"

definition registry_ok :: "registry \<Rightarrow> bool" where
  "registry_ok g \<longleftrightarrow> (\<forall>d. rg_db g = Some d \<longrightarrow> stored_ok d)"

definition in_emergency :: "registry_db \<Rightarrow> bool" where
  "in_emergency d \<longleftrightarrow> (\<exists>e. rg_emergency d = Some e \<and> em_active e \<noteq> 0)"

lemma audited_simps [simp]: "rg_accounts (audited rows d) = rg_accounts d" "rg_emergency (audited rows d) = rg_emergency d"
  by (simp_all add: audited_def)

lemma add_account_off: "\<forall>r \<in> set (fold (add_account now) keys rows). ar_enabled r = 0 \<or> r \<in> set rows"
proof (induction keys arbitrary: rows)
  case (Cons k ks)
  have new: "r \<in> set (add_account now k rows) \<Longrightarrow> ar_enabled r = 0 \<or> r \<in> set rows" for r by (auto simp: add_account_def split: if_splits)
  then show ?case using Cons.IH [of "add_account now k rows"] by auto
qed simp

lemma connect_ok:
  assumes "\<And>x. d = Some x \<Longrightarrow> stored_ok x" shows "stored_ok (connect_registry now d)"
proof -
  define x where "x = (case d of None \<Rightarrow> empty_registry_db | Some x \<Rightarrow> x)"
  have x: "stored_ok x" using assms by (cases d) (simp_all add: x_def stored_ok_def empty_registry_db_def)
  have off: "\<forall>r \<in> set (rg_accounts (connect_registry now d)). ar_enabled r = 0 \<or> r \<in> set (rg_accounts x)"
    using add_account_off [of now ACCOUNT_KEYS "rg_accounts x"] by (simp add: connect_registry_def Let_def x_def)
  have "\<forall>r \<in> set (rg_accounts x). ar_enabled r = 0" if "rg_emergency (connect_registry now d) = Some e" "em_active e \<noteq> 0" for e
    using that x by (auto simp: connect_registry_def Let_def x_def [symmetric] stored_ok_def split: option.splits)
  then have "ar_enabled r = 0" if "r \<in> set (rg_accounts (connect_registry now d))" "rg_emergency (connect_registry now d) = Some e" "em_active e \<noteq> 0"
    for r e using that off by meson
  moreover have "ar_enabled r = 0" if r: "r \<in> set (rg_accounts (connect_registry now d))" "ar_key r = ''real''" for r
  proof -
    have "ar_enabled r = 0 \<or> r \<in> set (rg_accounts x)" using off r(1) by (rule bspec)
    then show ?thesis using conjunct1 [OF x [unfolded stored_ok_def]] r(2) by metis
  qed
  ultimately show ?thesis unfolding stored_ok_def by (intro conjI ballI allI impI)
qed

lemma connect_stopped: "in_emergency d \<Longrightarrow> in_emergency (connect_registry now (Some d))"
  by (auto simp: in_emergency_def connect_registry_def)

lemma all_off_simps: "\<forall>r \<in> set (rg_accounts (all_off flag reason actor source why now d)). ar_enabled r = 0"
  "rg_emergency (all_off flag reason actor source why now d) = None \<longleftrightarrow> rg_emergency d = None"
  "rg_emergency (all_off flag reason actor source why now d) = Some e \<Longrightarrow> em_active e = flag"
  by (auto simp: all_off_def Let_def)

lemma all_off_ok: "stored_ok (all_off flag reason actor source why now d)"
  using all_off_simps(1) by (auto simp: stored_ok_def)

lemma all_off_stopped: "rg_emergency d \<noteq> None \<Longrightarrow> in_emergency (all_off 1 reason actor source why now d)"
  by (auto simp: in_emergency_def all_off_def Let_def)

lemma connect_emergency: "rg_emergency (connect_registry now d) \<noteq> None"
  by (auto simp: connect_registry_def Let_def split: option.split)

lemma set_enabled_ok:
  assumes "registry_ok g" shows "registry_ok (snd (set_enabled env key on actor source now fault g))"
proof -
  define d where "d = connect_registry now (rg_db g)"
  have d: "stored_ok d" using assms connect_ok by (simp add: d_def registry_ok_def)
  then show ?thesis using assms unfolding set_enabled_def d_def [symmetric] Let_def
    by (auto simp: registry_ok_def stored_ok_def)
qed

lemma run_call_ok: "registry_ok g \<Longrightarrow> registry_ok (run_call c g)"
proof (cases c)
  case (Switch_Call env key on actor source now fault)
  then show "registry_ok g \<Longrightarrow> ?thesis" by (simp add: set_enabled_ok)
qed (auto simp: registry_ok_def initialize_def emergency_stop_def clear_emergency_def Let_def connect_ok all_off_ok)

lemma registry_ok_latch: "registry_ok (g\<lparr>rg_latch := l\<rparr>) = registry_ok g"
  by (simp add: registry_ok_def)

lemma run_event_ok: "registry_ok g \<Longrightarrow> registry_ok (run_event e g)"
  by (cases e) (simp_all add: run_call_ok registry_ok_latch)

lemma run_events_ok: "registry_ok g \<Longrightarrow> registry_ok (fold run_event es g)"
  by (induction es arbitrary: g) (simp_all add: run_event_ok)

lemma run_call_latch: "rg_latch g \<noteq> None \<Longrightarrow> \<not> clears_here (Here c) \<Longrightarrow> rg_latch (run_call c g) \<noteq> None"
  by (cases c) (auto simp: initialize_def set_enabled_def emergency_stop_def Let_def)

lemma run_events_latch:
  "rg_latch g \<noteq> None \<Longrightarrow> \<forall>e \<in> set es. \<not> clears_here e \<Longrightarrow> rg_latch (fold run_event es g) \<noteq> None"
proof (induction es arbitrary: g)
  case (Cons e es)
  have "rg_latch (run_event e g) \<noteq> None" using Cons.prems run_call_latch by (cases e) auto
  then show ?case using Cons by simp
qed simp

definition db_stopped :: "registry \<Rightarrow> bool" where
  "db_stopped g \<longleftrightarrow> (\<exists>d. rg_db g = Some d \<and> in_emergency d)"

lemma run_call_stopped: "db_stopped g \<Longrightarrow> \<not> clears (Here c) \<Longrightarrow> db_stopped (run_call c g)"
proof (cases c)
  case (Switch_Call env key on actor source now fault)
  assume "db_stopped g"
  then obtain d where d: "rg_db g = Some d" "in_emergency (connect_registry now (Some d))" using connect_stopped by (auto simp: db_stopped_def)
  then show ?thesis using \<open>db_stopped g\<close> Switch_Call by (auto simp: set_enabled_def Let_def db_stopped_def in_emergency_def)
qed (auto simp: db_stopped_def initialize_def emergency_stop_def Let_def connect_stopped in_emergency_def all_off_def connect_registry_def)

lemma run_events_stopped:
  "db_stopped g \<Longrightarrow> \<forall>e \<in> set es. \<not> clears e \<Longrightarrow> db_stopped (fold run_event es g)"
proof (induction es arbitrary: g)
  case (Cons e es)
  have "db_stopped (run_event e g)"
  proof (cases e)
    case (Here c)
    then show ?thesis using Cons.prems run_call_stopped by auto
  next
    case (Elsewhere l c)
    then have "db_stopped (run_call c (g\<lparr>rg_latch := l\<rparr>))" using Cons.prems by (intro run_call_stopped) (auto simp: db_stopped_def elim: clears.elims)
    then show ?thesis using Elsewhere by (simp add: db_stopped_def)
  qed
  then show ?case using Cons by simp
qed simp

lemma stopped_refuses: "db_stopped g \<Longrightarrow> emergency_active env r g \<and> \<not> is_allowed env r key g"
  by (cases r) (auto simp: db_stopped_def in_emergency_def emergency_active_def is_allowed_def read_state_def Let_def)

lemma latched_refuses: "rg_latch g \<noteq> None \<Longrightarrow> emergency_active env r g \<and> \<not> is_allowed env r key g"
  by (auto simp: emergency_active_def is_allowed_def)

lemma dput_values: "(\<forall>v \<in> snd ` set d. \<not> v) \<Longrightarrow> \<forall>r \<in> set rows. \<not> P r \<Longrightarrow> \<forall>v \<in> snd ` set (fold (\<lambda>r. dput (f r) (P r)) rows d). \<not> v"
proof (induction rows arbitrary: d)
  case (Cons r rows)
  have "\<forall>v \<in> snd ` set (dput (f r) (P r) d). \<not> v" using Cons.prems set_dput_subset [of "f r" "P r" d] by fastforce
  then show ?case using Cons by simp
qed simp

lemma all_off_refuses:
  assumes "rg_db g = Some d" and "\<forall>r \<in> set (rg_accounts d). ar_enabled r = 0" shows "\<not> is_allowed env readable key g"
proof -
  have "\<forall>v \<in> snd ` set (fold (\<lambda>r. dput (ar_key r) (ar_enabled r = 1))
      (filter (\<lambda>r. ar_key r \<in> set ACCOUNT_KEYS \<and> ar_mode r = ar_key r) (rg_accounts d)) []). \<not> v"
    by (rule dput_values) (use assms(2) in auto)
  then have "dget (fold (\<lambda>r. dput (ar_key r) (ar_enabled r = 1))
      (filter (\<lambda>r. ar_key r \<in> set ACCOUNT_KEYS \<and> ar_mode r = ar_key r) (rg_accounts d)) []) key \<noteq> Some True"
    by (force dest: map_of_SomeD)
  then show ?thesis using assms(1) by (auto simp: is_allowed_def read_state_def Let_def split: option.splits)
qed

section \<open>The property\<close>

text \<open>
  C33. After an emergency stop this process allows no account to trade, and reports the emergency, whatever its write did,
  whatever any process calls and however reads and the environment go, until it clears the emergency itself. If the stop
  was written, no other process allows one either until somebody clears it. A clear that succeeds enables nothing, and
  the real account is never stored as enabled.
\<close>

theorem an_emergency_stop_holds_until_cleared:
  assumes "rg_db g0 = None" and "emergency_stop actor why source now fault hook_ok (fold run_event before g0) = (res, g)"
    and "\<forall>e \<in> set after. \<not> clears_here e"
  shows "emergency_active env readable (fold run_event after g) \<and> \<not> is_allowed env readable key (fold run_event after g)
    \<and> (res = Inr hook_ok \<and> (\<forall>e \<in> set after. \<not> clears e) \<longrightarrow>
         emergency_active env readable ((fold run_event after g)\<lparr>rg_latch := l\<rparr>) \<and> \<not> is_allowed env readable key ((fold run_event after g)\<lparr>rg_latch := l\<rparr>))
    \<and> (\<forall>g'. clear_emergency actor' why' source' now' fault' (fold run_event after g) = (None, g') \<longrightarrow> \<not> is_allowed env readable key g')
    \<and> (\<forall>d. rg_db (fold run_event after g) = Some d \<longrightarrow> (\<forall>r \<in> set (rg_accounts d). ar_key r = ''real'' \<longrightarrow> ar_enabled r = 0))"
proof (intro conjI impI allI)
  have latch: "rg_latch g \<noteq> None" using assms(2) by (auto simp: emergency_stop_def Let_def split: if_splits)
  then show "emergency_active env readable (fold run_event after g)" "\<not> is_allowed env readable key (fold run_event after g)"
    using latched_refuses run_events_latch assms(3) by blast+
  have persisted: "db_stopped ((fold run_event after g)\<lparr>rg_latch := l\<rparr>)" if "res = Inr hook_ok \<and> (\<forall>e \<in> set after. \<not> clears e)"
  proof -
    have "db_stopped g" using assms(2) that all_off_stopped [OF connect_emergency]
      by (auto simp: emergency_stop_def Let_def db_stopped_def split: if_splits)
    then show ?thesis using run_events_stopped that by (simp add: db_stopped_def)
  qed
  show "emergency_active env readable ((fold run_event after g)\<lparr>rg_latch := l\<rparr>)" "\<not> is_allowed env readable key ((fold run_event after g)\<lparr>rg_latch := l\<rparr>)"
    if "res = Inr hook_ok \<and> (\<forall>e \<in> set after. \<not> clears e)" using stopped_refuses persisted [OF that] by blast+
  show "\<not> is_allowed env readable key g'" if "clear_emergency actor' why' source' now' fault' (fold run_event after g) = (None, g')" for g'
    using that all_off_refuses all_off_simps(1) by (auto simp: clear_emergency_def Let_def split: if_splits)
  have "registry_ok g0" using assms(1) by (simp add: registry_ok_def)
  then have "registry_ok (fold run_event before g0)" by (rule run_events_ok)
  then have "registry_ok g" using assms(2) run_call_ok [of _ "Stop_Call actor why source now fault hook_ok"] by (metis run_call.simps(3) snd_conv)
  then have "registry_ok (fold run_event after g)" by (rule run_events_ok)
  then show "\<forall>r \<in> set (rg_accounts d). ar_key r = ''real'' \<longrightarrow> ar_enabled r = 0" if "rg_db (fold run_event after g) = Some d" for d
    using that by (simp add: registry_ok_def stored_ok_def)
qed

text \<open>A switch turned on, a stop whose write rolls back, another process that tries to turn the switch on again.\<close>

definition demo_on :: registry_event where
  "demo_on = Here (Switch_Call (Some None) ''broker_demo'' True ''op'' ''code'' 1 Written)"

definition demo_retry :: registry_event where
  "demo_retry = Elsewhere None (Switch_Call (Some None) ''broker_demo'' True ''op'' ''code'' 3 Written)"

lemma demo_stop:
  "case emergency_stop ''op'' ''drill'' ''code'' 2 Rolled_Back True (fold run_event [demo_on] \<lparr>rg_db = None, rg_latch = None\<rparr>) of (res, g) \<Rightarrow>
     res = Inl (Guard_Error ''emergency state could not be persisted (readers fail closed)'')
     \<and> is_allowed (Some None) True ''broker_demo'' ((fold run_event [demo_retry] g)\<lparr>rg_latch := None\<rparr>)"
  by code_simp

theorem an_emergency_stop_holds_until_cleared_witness:
  "\<exists>g. \<not> is_allowed (Some None) True ''broker_demo'' g \<and> is_allowed (Some None) True ''broker_demo'' (g\<lparr>rg_latch := None\<rparr>)"
proof -
  obtain g where g: "emergency_stop ''op'' ''drill'' ''code'' 2 Rolled_Back True (fold run_event [demo_on] \<lparr>rg_db = None, rg_latch = None\<rparr>)
       = (Inl (Guard_Error ''emergency state could not be persisted (readers fail closed)''), g)"
     "is_allowed (Some None) True ''broker_demo'' ((fold run_event [demo_retry] g)\<lparr>rg_latch := None\<rparr>)"
    using demo_stop by (auto split: prod.splits)
  have "\<not> is_allowed (Some None) True ''broker_demo'' (fold run_event [demo_retry] g)"
    using an_emergency_stop_holds_until_cleared [OF _ g(1), of "[demo_retry]" "Some None" True "''broker_demo''"] by (simp add: demo_retry_def)
  then show ?thesis using g(2) by blast
qed

end
