(* ===== verification/PendingGate.thy ===== *)
theory PendingGate
  imports CatchUp TradeDuration
begin

text \<open>
  \<open>execution/pending_order_gate.py\<close>: a pending paper order is evaluated only with the bar of the cycle that is
  running, and only if that cycle's gates passed; every other committed bar is journalled once as not evaluated. What
  other processes commit between the reads and writes of a call, and whether the halt gate refuses it at any of its
  three reads (\<open>halt_gate=None\<close> never does), are its surroundings. The observer of the REX evidence can change nothing
  and is left out.
\<close>

section \<open>The gate of a cycle\<close>

definition NOT_EVALUATED_EVENT :: string where "NOT_EVALUATED_EVENT = ''PENDING_NOT_EVALUATED''"
definition NO_GATE :: string where "NO_GATE = ''NO_CURRENT_CYCLE_GATE''"
definition BLOCKING_FINAL_STATUSES :: "string list" where "BLOCKING_FINAL_STATUSES = [''AI_CAUTION'', ''ERROR'', ''RISK_REJECTED'']"

text \<open>A final status that is not a string is \<open>None\<close>, as is a bar that is not a dictionary.\<close>

record cycle_gate =
  cg_run :: string
  cg_symbol :: string
  cg_bar :: "bar option"
  cg_paper :: bool
  cg_fresh :: bool
  cg_session :: bool
  cg_ai_healthy :: bool
  cg_ai_status :: "string option"

definition gate_passed :: "cycle_gate \<Rightarrow> bool" where
  "gate_passed g \<longleftrightarrow> cg_paper g \<and> cg_fresh g \<and> cg_session g \<and> cg_ai_healthy g
     \<and> (case cg_ai_status g of None \<Rightarrow> False | Some st \<Rightarrow> st \<noteq> [] \<and> st \<notin> set BLOCKING_FINAL_STATUSES)"

definition committed_bars :: "evidence \<Rightarrow> string \<Rightarrow> instant \<Rightarrow> instant \<Rightarrow> py_error + market_bar list" where
  "committed_bars ev symbol after as_of = (case committed (symbol, ''5m'') (Some after) ev of
     Inl _ \<Rightarrow> Inl (RuntimeError ''committed evidence unavailable'')
   | Inr bs \<Rightarrow> ebind (stream_checked symbol after bs) (\<lambda>_. Inr (filter (closed_at as_of) bs)))"

definition pending_orders :: "string \<Rightarrow> (string, paper_order) dict \<Rightarrow> paper_order list" where
  "pending_orders symbol ods = filter (\<lambda>r. o_symbol r = symbol \<and> o_status r = PENDING \<and> o_as_of r \<noteq> None) (dvals ods)"

definition order_time :: "paper_order \<Rightarrow> instant" where
  "order_time r = (case o_as_of r of Some t \<Rightarrow> t | None \<Rightarrow> 0)"

text \<open>The bar of a passed gate, unless newer evidence is committed.\<close>

definition current_bar_time :: "cycle_gate option \<Rightarrow> string \<Rightarrow> market_bar list \<Rightarrow> instant option" where
  "current_bar_time gate symbol bars = (case gate of None \<Rightarrow> None | Some g \<Rightarrow>
     if \<not> gate_passed g \<or> cg_symbol g \<noteq> symbol then None
     else (case cg_bar g of None \<Rightarrow> None | Some b \<Rightarrow>
       if b_symbol b \<noteq> symbol then None
       else (case b_timestamp b of None \<Rightarrow> None | Some t \<Rightarrow>
         if bars \<noteq> [] \<and> t < m_start (last bars) then None else Some t)))"

section \<open>Journal\<close>

definition journalled :: "string \<Rightarrow> string \<Rightarrow> instant \<Rightarrow> store \<Rightarrow> bool" where
  "journalled symbol oid t s \<longleftrightarrow> list_ex (\<lambda>j. j_type j = NOT_EVALUATED_EVENT \<and> j_symbol j = Some symbol \<and> j_source j = oid \<and> j_timestamp j = t) (s_journal s)"

definition skipped_bars :: "instant option \<Rightarrow> market_bar list \<Rightarrow> paper_order \<Rightarrow> (paper_order \<times> instant) list" where
  "skipped_bars current bars r = map (\<lambda>b. (r, m_start b)) (filter (\<lambda>b. order_time r < m_start b \<and> Some (m_start b) \<noteq> current) bars)"

text \<open>One row per order and bar; the number counts the rows written.\<close>

definition journal_skip :: "string \<Rightarrow> paper_order \<times> instant \<Rightarrow> store \<times> nat \<Rightarrow> store \<times> nat" where
  "journal_skip symbol k sn = (case (k, sn) of ((r, t), (s, n)) \<Rightarrow>
     if journalled symbol (o_id r) t s then (s, n)
     else (add_event t (Some (o_run_id r)) (Some symbol) (o_id r) NOT_EVALUATED_EVENT ''INFO''
       (JObj [(''order_id'', JStr (o_id r)), (''bar_start'', JTime t), (''reason'', JStr NO_GATE)]) s, Suc n))"

definition journal_not_evaluated ::
  "string \<Rightarrow> string \<Rightarrow> market_bar list \<Rightarrow> instant option \<Rightarrow> string option \<Rightarrow> store \<Rightarrow> py_error + (string \<times> instant) list \<times> nat \<times> store" where
  "journal_not_evaluated account symbol bars current owner s =
    (if (case owner of None \<Rightarrow> False | Some k \<Rightarrow> \<not> owns_slot k (Some symbol) s) then Inl (RuntimeError ''paper journal without slot ownership'')
     else ebind (load_paper account s) (\<lambda>(_, ods, _).
       let keys = concat (map (skipped_bars current bars) (pending_orders symbol ods)) in
       (case fold (journal_skip symbol) keys (s, 0) of (s', n) \<Rightarrow> Inr (map (\<lambda>(r, t). (o_id r, t)) keys, n, s'))))"

section \<open>Evaluation\<close>

text \<open>The identifiers of a fill are fresh for each order.\<close>

fun evaluate_orders ::
  "(nat \<Rightarrow> string) \<Rightarrow> (nat \<Rightarrow> string) \<Rightarrow> nat \<Rightarrow> bar \<Rightarrow> instant \<Rightarrow> paper_order list \<Rightarrow> broker \<Rightarrow> py_error + (string \<times> order_status) list \<times> broker" where
  "evaluate_orders fid pid i b t [] br = Inr ([], br)"
| "evaluate_orders fid pid i b t (r # rs) br =
    (if t \<le> order_time r then evaluate_orders fid pid (Suc i) b t rs br
     else ebind (process_next_bar (fid i) (pid i) (o_id r) (Some b) br) (\<lambda>(_, br1).
       ebind (evaluate_orders fid pid (Suc i) b t rs br1) (\<lambda>(outs, br2).
         Inr ((o_id r, case dget (br_orders br1) (o_id r) of Some x \<Rightarrow> o_status x | None \<Rightarrow> o_status r) # outs, br2))))"

record gate_surroundings =
  gs_before :: "store \<Rightarrow> store"
  gs_between :: "store \<Rightarrow> store"
  gs_inside :: "store \<Rightarrow> store"
  gs_admission :: bool
  gs_observed :: bool
  gs_read2 :: bool
  gs_fid :: "nat \<Rightarrow> string"
  gs_pid :: "nat \<Rightarrow> string"
  gs_now :: instant

record gate_request =
  pq_account :: string
  pq_symbol :: string
  pq_instrument :: "instrument_spec option"
  pq_owner :: "string option"
  pq_policy :: "rr_policy option"

datatype gate_status = GATE_NO_OP | GATE_NOT_EVALUATED | GATE_EVALUATED | GATE_STALE

record gate_result =
  gr_status :: gate_status
  gr_skipped :: "(string \<times> instant) list"
  gr_journaled :: nat
  gr_evaluated :: "(string \<times> order_status) list"

text \<open>The orders of the durable state, the bar and the save guarded by what was loaded.\<close>

definition evaluate_current ::
  "gate_request \<Rightarrow> gate_surroundings \<Rightarrow> bar \<Rightarrow> instant \<Rightarrow> (string \<times> instant) list \<Rightarrow> nat \<Rightarrow> store \<Rightarrow> store \<times> (py_error + gate_result)" where
  "evaluate_current q e b t keys written s =
    (case load_paper (pq_account q) s of
       Inl err \<Rightarrow> (s, Inl err)
     | Inr (None, _, _) \<Rightarrow> (s, Inl (TypeError ''attribute''))
     | Inr (Some a, ods, fs) \<Rightarrow>
       let br = (new_broker a (pq_instrument q) (pq_policy q))\<lparr>br_orders := ods, br_fills := fs\<rparr>;
           out = (\<lambda>st evaluated. Inr \<lparr>gr_status = st, gr_skipped = keys, gr_journaled = written, gr_evaluated = evaluated\<rparr>)
       in (case evaluate_orders (gs_fid e) (gs_pid e) 0 b t (pending_orders (pq_symbol q) ods) br of
           Inl err \<Rightarrow> (s, Inl err)
         | Inr (evaluated, br') \<Rightarrow>
           if br_journal br' = [] then (s, out GATE_EVALUATED evaluated)
           else if gs_read2 e then (s, Inl (HaltRefused ''pending_gate'' ''read2''))
           else let s1 = gs_inside e s in
             (case save_paper (pq_owner q) (Some (pq_symbol q)) (Some (paper_state (Some a, ods, fs))) (gs_now e) br' s1 of
                Inl err \<Rightarrow> (s1, Inl err)
              | Inr (saved, s2, _) \<Rightarrow> if saved then (s2, out GATE_EVALUATED evaluated) else (s2, out GATE_STALE []))))"

definition gate_pending_orders ::
  "gate_request \<Rightarrow> gate_surroundings \<Rightarrow> evidence \<Rightarrow> instant option \<Rightarrow> cycle_gate option \<Rightarrow> store \<Rightarrow> store \<times> (py_error + gate_result)" where
  "gate_pending_orders q e ev as_of gate s = (case as_of of
     None \<Rightarrow> (s, Inl (ValueError ''as_of: timezone-aware datetime required''))
   | Some now \<Rightarrow>
     (case load_paper (pq_account q) s of
        Inl err \<Rightarrow> (s, Inl err)
      | Inr (oa, ods, _) \<Rightarrow>
        let pending = (if oa = None then [] else pending_orders (pq_symbol q) ods) in
        if pending = [] then (s, Inr \<lparr>gr_status = GATE_NO_OP, gr_skipped = [], gr_journaled = 0, gr_evaluated = []\<rparr>)
        else if gs_admission e then (s, Inl (HaltRefused ''pending_gate'' ''admission''))
        else (case committed_bars ev (pq_symbol q) (Min (set (map order_time pending))) now of
            Inl err \<Rightarrow> (s, Inl err)
          | Inr bars \<Rightarrow>
            let current = current_bar_time gate (pq_symbol q) bars; s0 = gs_before e s in
            (case (if gs_observed e then Inr ([], 0, s0) else journal_not_evaluated (pq_account q) (pq_symbol q) bars current (pq_owner q) s0) of
               Inl err \<Rightarrow> (s0, Inl err)
             | Inr (keys, written, s1) \<Rightarrow>
               (case (current, Option.bind gate cg_bar) of
                  (Some t, Some b) \<Rightarrow> evaluate_current q e b t keys written (gs_between e s1)
                | _ \<Rightarrow> (s1, Inr \<lparr>gr_status = GATE_NOT_EVALUATED, gr_skipped = keys, gr_journaled = written, gr_evaluated = []\<rparr>))))))"

section \<open>Facts\<close>

definition skip_key :: "journal_row \<Rightarrow> string \<times> instant" where
  "skip_key j = (j_source j, j_timestamp j)"

text \<open>The rows one call adds: each for a key of the call, none that was there, none twice.\<close>

definition fresh_rows :: "string \<Rightarrow> (string \<times> instant) list \<Rightarrow> store \<Rightarrow> journal_row list \<Rightarrow> bool" where
  "fresh_rows symbol keys s rows \<longleftrightarrow> distinct (map skip_key rows)
     \<and> (\<forall>j \<in> set rows. j_type j = NOT_EVALUATED_EVENT \<and> j_symbol j = Some symbol \<and> \<not> journalled symbol (j_source j) (j_timestamp j) s \<and> skip_key j \<in> set keys)"

lemma journal_skip_rows:
  assumes "fold (journal_skip symbol) keys (s, n) = (s', n')"
  shows "\<exists>rows. s' = s\<lparr>s_journal := s_journal s @ rows\<rparr> \<and> n' = n + length rows \<and> fresh_rows symbol (map (\<lambda>(r, t). (o_id r, t)) keys) s rows
    \<and> (\<forall>(r, t) \<in> set keys. journalled symbol (o_id r) t s')"
  using assms
proof (induction keys arbitrary: s n)
  case Nil
  then show ?case by (auto simp: fresh_rows_def intro!: exI [of _ "[]"])
next
  case (Cons k keys)
  obtain r t where k: "k = (r, t)" by (cases k)
  show ?case
  proof (cases "journalled symbol (o_id r) t s")
    case True
    then obtain rows where rows: "s' = s\<lparr>s_journal := s_journal s @ rows\<rparr>" "n' = n + length rows"
      "fresh_rows symbol (map (\<lambda>(r, t). (o_id r, t)) keys) s rows" "\<forall>(r, t) \<in> set keys. journalled symbol (o_id r) t s'"
      using Cons.IH [of s n] Cons.prems by (auto simp: journal_skip_def k)
    moreover have "journalled symbol (o_id r) t s'" using True by (simp add: rows(1) journalled_def)
    ultimately show ?thesis by (intro exI [of _ rows]) (auto simp: k fresh_rows_def)
  next
    case False
    define s1 where "s1 = add_event t (Some (o_run_id r)) (Some symbol) (o_id r) NOT_EVALUATED_EVENT ''INFO''
       (JObj [(''order_id'', JStr (o_id r)), (''bar_start'', JTime t), (''reason'', JStr NO_GATE)]) s"
    define j where "j = \<lparr>j_timestamp = t, j_run_id = Some (o_run_id r), j_symbol = Some symbol, j_source = o_id r, j_type = NOT_EVALUATED_EVENT,
       j_severity = ''INFO'', j_payload = sanitize (JObj [(''order_id'', JStr (o_id r)), (''bar_start'', JTime t), (''reason'', JStr NO_GATE)])\<rparr>"
    have s1: "s1 = s\<lparr>s_journal := s_journal s @ [j]\<rparr>" by (simp add: s1_def j_def add_event_def)
    have grow: "journalled symbol oid u s1 \<longleftrightarrow> journalled symbol oid u s \<or> (oid, u) = (o_id r, t)" for oid u
      by (auto simp: journalled_def s1 j_def)
    obtain rows where rows: "s' = s1\<lparr>s_journal := s_journal s1 @ rows\<rparr>" "n' = Suc n + length rows"
      "fresh_rows symbol (map (\<lambda>(r, t). (o_id r, t)) keys) s1 rows" "\<forall>(r, t) \<in> set keys. journalled symbol (o_id r) t s'"
      using Cons.IH [of s1 "Suc n"] Cons.prems False by (auto simp: journal_skip_def k s1_def)
    have "journalled symbol (o_id r) t s'" by (simp add: rows(1) journalled_def s1 j_def)
    moreover have "fresh_rows symbol (map (\<lambda>(r, t). (o_id r, t)) (k # keys)) s (j # rows)"
      using rows(3) False grow by (auto simp: fresh_rows_def k skip_key_def j_def)
    ultimately show ?thesis using rows by (intro exI [of _ "j # rows"]) (auto simp: k s1)
  qed
qed

lemma skipped_keys:
  "k \<in> set (map (\<lambda>(r, t). (o_id r, t)) (concat (map (skipped_bars current bars) rs))) \<Longrightarrow>
    \<exists>r \<in> set rs. fst k = o_id r \<and> order_time r < snd k \<and> Some (snd k) \<noteq> current \<and> snd k \<in> m_start ` set bars"
  by (auto simp: skipped_bars_def)

lemma journal_result:
  assumes "journal_not_evaluated account symbol bars current owner s = Inr (keys, n, s')" and "load_paper account s = Inr (oa, ods, fs)"
  shows "\<exists>rows. s' = s\<lparr>s_journal := s_journal s @ rows\<rparr> \<and> n = length rows \<and> fresh_rows symbol keys s rows
    \<and> (\<forall>(oid, t) \<in> set keys. journalled symbol oid t s')
    \<and> (\<forall>k \<in> set keys. \<exists>r \<in> set (pending_orders symbol ods). fst k = o_id r \<and> order_time r < snd k \<and> Some (snd k) \<noteq> current)"
proof -
  define ks where "ks = concat (map (skipped_bars current bars) (pending_orders symbol ods))"
  have keys: "keys = map (\<lambda>(r, t). (o_id r, t)) ks" and run: "fold (journal_skip symbol) ks (s, 0) = (s', n)"
    using assms by (auto simp: journal_not_evaluated_def Let_def ks_def split: if_splits prod.splits option.splits)
  have "\<exists>r \<in> set (pending_orders symbol ods). fst k = o_id r \<and> order_time r < snd k \<and> Some (snd k) \<noteq> current" if "k \<in> set keys" for k
    using skipped_keys [of k current bars "pending_orders symbol ods"] that unfolding keys ks_def by blast
  then show ?thesis using journal_skip_rows [OF run] by (auto simp: keys)
qed

lemma evaluated_pending:
  assumes "evaluate_orders fid pid i b t rs br = Inr (outs, br')" and "(oid, st) \<in> set outs"
  shows "\<exists>r \<in> set rs. o_id r = oid \<and> order_time r < t"
  using assms
proof (induction fid pid i b t rs br arbitrary: outs br' rule: evaluate_orders.induct)
  case (2 fid pid i b t r rs br)
  show ?case
  proof (cases "t \<le> order_time r")
    case True
    then show ?thesis using 2 by auto
  next
    case False
    then obtain br1 outs1 br2 st1 where "evaluate_orders fid pid (Suc i) b t rs br1 = Inr (outs1, br2)" "outs = (o_id r, st1) # outs1"
        "\<exists>p. process_next_bar (fid i) (pid i) (o_id r) (Some b) br = Inr (p, br1)"
      using 2(3) by (auto simp: ebind_eq_Inr)
    then show ?thesis using 2(2) 2(4) False by fastforce
  qed
qed simp

lemma committed_bars_last:
  assumes "committed_bars ev symbol after as_of = Inr bars" and "x \<in> set bars" shows "m_start x \<le> m_start (last bars)"
proof -
  obtain bs where bs: "stream_checked symbol after bs = Inr ()" "bars = filter (closed_at as_of) bs"
    using assms(1) by (auto simp: committed_bars_def ebind_eq_Inr split: sum.splits)
  have "sorted_wrt (<) (map m_start bs)" using stream_checked_sorted [OF bs(1)] by simp
  then have "sorted (map m_start bars)" unfolding bs(2) sorted_map sorted_wrt_map by (induction bs) (auto intro: less_imp_le)
  then show ?thesis using sorted_last_max [OF _ assms(2)] by blast
qed

definition waiting :: "gate_request \<Rightarrow> store \<Rightarrow> instant \<Rightarrow> string \<Rightarrow> bool" where
  "waiting q s t oid \<longleftrightarrow> (\<exists>a ods fs. load_paper (pq_account q) s = Inr (Some a, ods, fs)
     \<and> (\<exists>r \<in> set (pending_orders (pq_symbol q) ods). o_id r = oid \<and> order_time r < t))"

lemma evaluate_current_result:
  assumes "evaluate_current q e b t keys written s = (s', Inr res)" and "gs_inside e = id"
  shows "gr_skipped res = keys \<and> gr_journaled res = written \<and> (\<exists>rest. s_journal s' = s_journal s @ rest)
    \<and> (gr_status res = GATE_EVALUATED \<or> (gr_status res = GATE_STALE \<and> s' = s \<and> gr_evaluated res = []))
    \<and> (\<forall>oid st. (oid, st) \<in> set (gr_evaluated res) \<longrightarrow> waiting q s t oid)"
proof -
  obtain a ods fs where d: "load_paper (pq_account q) s = Inr (Some a, ods, fs)"
    using assms(1) by (auto simp: evaluate_current_def split: sum.splits prod.splits option.splits)
  define br where "br = (new_broker a (pq_instrument q) (pq_policy q))\<lparr>br_orders := ods, br_fills := fs\<rparr>"
  obtain outs br' where ev: "evaluate_orders (gs_fid e) (gs_pid e) 0 b t (pending_orders (pq_symbol q) ods) br = Inr (outs, br')"
    using assms(1) by (auto simp: evaluate_current_def d br_def Let_def split: sum.splits prod.splits)
  have pend: "\<forall>oid st. (oid, st) \<in> set outs \<longrightarrow> waiting q s t oid"
    using evaluated_pending [OF ev] d unfolding waiting_def by blast
  show ?thesis
  proof (cases "br_journal br' = []")
    case True
    then have "s' = s \<and> res = \<lparr>gr_status = GATE_EVALUATED, gr_skipped = keys, gr_journaled = written, gr_evaluated = outs\<rparr>"
      using assms(1) ev by (simp add: evaluate_current_def d br_def [symmetric] Let_def)
    then show ?thesis using pend by simp
  next
    case False
    then obtain saved s2 x where sv: "save_paper (pq_owner q) (Some (pq_symbol q)) (Some (paper_state (Some a, ods, fs))) (gs_now e) br' s = Inr (saved, s2, x)"
      using assms ev by (auto simp: evaluate_current_def d br_def [symmetric] Let_def split: sum.splits if_splits prod.splits)
    have "saved \<Longrightarrow> \<exists>rest. s_journal s2 = s_journal s @ rest" "\<not> saved \<Longrightarrow> s2 = s"
      using sv write_paper_frame(3) by (auto simp: save_paper_def ebind_eq_Inr split: if_splits)
    moreover have "s' = s2 \<and> res = \<lparr>gr_status = (if saved then GATE_EVALUATED else GATE_STALE), gr_skipped = keys, gr_journaled = written,
        gr_evaluated = (if saved then outs else [])\<rparr>"
      using assms ev False sv by (cases saved) (auto simp: evaluate_current_def d br_def [symmetric] Let_def split: if_splits)
    ultimately show ?thesis using pend by (cases saved) simp_all
  qed
qed

section \<open>The property\<close>


text \<open>An order of time 0 and two bars after it; no cycle is running.\<close>

definition waiting_order :: paper_order where
  "waiting_order = \<lparr>o_id = ''o1'', o_run_id = ''run'', o_symbol = ''EURUSD'', o_side = LONG, o_quantity = 1, o_planned_entry = 1, o_stop = 1 / 2,
     o_target = 2, o_multiplier = Some 1, o_equity_at_submission = Some 1, o_cost_rate = 0, o_as_of = Some 0, o_status = PENDING,
     o_risk_policy_version = None, o_setup_id = None\<rparr>"

definition waiting_store :: store where
  "waiting_store = demo_store\<lparr>s_orders := [(''o1'', encode_order waiting_order)]\<rparr>"

definition two_bars :: evidence where
  "two_bars = \<lparr>ev_rows = [\<lparr>er_bar = demo_bar (5 * MINUTE), er_seq = 1, er_digest = []\<rparr>, \<lparr>er_bar = demo_bar (10 * MINUTE), er_seq = 2, er_digest = []\<rparr>],
     ev_anomalies = []\<rparr>"

definition calm :: gate_surroundings where
  "calm = \<lparr>gs_before = id, gs_between = id, gs_inside = id, gs_admission = False, gs_observed = False, gs_read2 = False,
     gs_fid = (\<lambda>_. ''f''), gs_pid = (\<lambda>_. ''p''), gs_now = 0\<rparr>"

definition waiting_request :: gate_request where
  "waiting_request = \<lparr>pq_account = ''paper'', pq_symbol = ''EURUSD'', pq_instrument = None, pq_owner = None, pq_policy = None\<rparr>"

lemma waiting_load:
  "case load_paper ''paper'' waiting_store of Inr (oa, ods, fs) \<Rightarrow> map o_id (pending_orders ''EURUSD'' ods) = [''o1''] | Inl _ \<Rightarrow> False"
  by code_simp

lemma waiting_call:
  "case gate_pending_orders waiting_request calm two_bars (Some (60 * MINUTE)) None waiting_store of
     (s, Inr res) \<Rightarrow> gr_status res = GATE_NOT_EVALUATED \<and> gr_skipped res = [(''o1'', 5 * MINUTE), (''o1'', 10 * MINUTE)] \<and> gr_journaled res = 2
   | (s, Inl _) \<Rightarrow> False"
  by code_simp


end
