(* ===== verification/Spec2Isabelle.thy ===== *)
theory Spec2Isabelle
  imports CatchUp HaltBook TradePlanner BrokerPort TradeDuration DemoSettles DemoGates LossHalt Accounts PendingGate
begin

text \<open>Header to come.\<close>

end
